(* ===== verification/Prelude.thy ===== *)
theory Prelude imports Main "HOL-Library.Word" "HOL-Library.Sublist" begin

text \<open>
  What every component shares: Go error values, fallible results, and the generic facts about
  characters, lists and maps that the component theories use.

  A Go string is a sequence of bytes, so it is a \<open>string\<close> (a list of 8-bit characters) and
  \<open>length\<close> is Go's \<open>len\<close>. A Go \<open>error\<close> is observed in two ways only: by its text
  (\<open>err.Error()\<close>) and by \<open>errors.Is\<close> against the sentinel errors of the panel; \<open>gerror\<close>
  holds exactly these two views. A function returning \<open>(T, error)\<close> becomes one returning
  \<open>'a res\<close>, with \<open>Inl\<close> for a non-nil error.
\<close>

section \<open>Hint collections\<close>

named_theorems byte_simps \<open>facts about bytes, hexadecimal digits and their codes\<close>
named_theorems go_defs \<open>definitions of small standard-library operations, unfolded together\<close>

section \<open>Error values\<close>

datatype sentinel =
    ErrNotFound | ErrPortTaken
  | ErrNoSuchContainer
  | ErrPortReserved | ErrPortConflict
  | ErrBadCredentials | ErrRateLimited

datatype gerror = GErr (err_text: string) (err_chain: "sentinel list")

type_synonym 'a res = "gerror + 'a"

definition errors_Is :: "gerror \<Rightarrow> sentinel \<Rightarrow> bool" where
  "errors_Is e s \<longleftrightarrow> s \<in> set (err_chain e)"

text \<open>\<open>fmt.Errorf\<close> without a wrapped error, with \<open>%w\<close> last, and with \<open>%w\<close> first.\<close>

definition errorf :: "string \<Rightarrow> gerror" where
  "errorf msg = GErr msg []"

definition errorf_wrap :: "string \<Rightarrow> gerror \<Rightarrow> gerror" where
  "errorf_wrap pre e = GErr (pre @ err_text e) (err_chain e)"

definition errorf_wrap_first :: "gerror \<Rightarrow> string \<Rightarrow> gerror" where
  "errorf_wrap_first e post = GErr (err_text e @ post) (err_chain e)"

lemma errors_Is_errorf [simp]: "\<not> errors_Is (errorf msg) s"
  by (simp add: errors_Is_def errorf_def)

lemma errors_Is_wrap [simp]: "errors_Is (errorf_wrap pre e) s = errors_Is e s"
  by (simp add: errors_Is_def errorf_wrap_def)

lemma errors_Is_wrap_first [simp]: "errors_Is (errorf_wrap_first e post) s = errors_Is e s"
  by (simp add: errors_Is_def errorf_wrap_first_def)

lemma err_text_wrap [simp]: "err_text (errorf_wrap pre e) = pre @ err_text e"
  by (simp add: errorf_wrap_def)

lemma err_text_wrap_first [simp]: "err_text (errorf_wrap_first e post) = err_text e @ post"
  by (simp add: errorf_wrap_first_def)

lemma err_text_errorf [simp]: "err_text (errorf msg) = msg"
  by (simp add: errorf_def)

text \<open>A chain of checks that stops at the first error has no error iff none of them has.\<close>

lemma err_chain_None:
  "(case x of Some e \<Rightarrow> Some e | None \<Rightarrow> y) = None \<longleftrightarrow> x = None \<and> y = None"
  "(case x of None \<Rightarrow> y | Some e \<Rightarrow> Some e) = None \<longleftrightarrow> x = None \<and> y = None"
  by (cases x; simp)+

section \<open>Characters\<close>

text \<open>Characters that are awkward inside a literal.\<close>

abbreviation "c_nl \<equiv> CHR 0x0A"
abbreviation "c_dq \<equiv> CHR 0x22"
abbreviation "c_bs \<equiv> CHR 0x5C"

abbreviation code_of :: "char \<Rightarrow> nat" where
  "code_of c \<equiv> of_char c"

abbreviation chr_of :: "nat \<Rightarrow> char" where
  "chr_of n \<equiv> char_of n"

lemma code_of_less: "code_of c < 256"
  by (rule nat_of_char_less_256)

lemma code_of_chr_of: "n < 256 \<Longrightarrow> code_of (chr_of n) = n"
  by simp

text \<open>A property of all bytes can be checked by listing them.\<close>

lemma all_chars_by_code:
  assumes "list_all P (map chr_of [0..<256])"
  shows "P c"
proof -
  have "code_of c \<in> set [0..<256]"
    using code_of_less [of c] by simp
  then have "chr_of (code_of c) \<in> set (map chr_of [0..<256])"
    by (simp only: set_map) (rule imageI)
  then have "P (chr_of (code_of c))"
    using assms by (simp only: list_all_iff)
  then show ?thesis by simp
qed

lemma all_below_by_list:
  assumes "list_all P [0..<k]" and "n < k"
  shows "P n"
  using assms by (auto simp: list_all_iff)

section \<open>Lists\<close>

text \<open>Splitting at every occurrence of a separator, as \<open>strings.Split\<close> and \<open>bytes.Split\<close> with
  a one-byte separator do: the result is never empty.\<close>

fun split_on :: "char \<Rightarrow> string \<Rightarrow> string list" where
  "split_on d [] = [[]]"
| "split_on d (c # s) =
     (if c = d then [] # split_on d s
      else (c # hd (split_on d s)) # tl (split_on d s))"

lemma split_on_nonempty [simp]: "split_on d s \<noteq> []"
  by (cases s) auto

text \<open>The equation to evaluate, with one recursive call.\<close>

lemma split_on_code [code]:
  "split_on d [] = [[]]"
  "split_on d (c # s) =
     (case split_on d s of
        [] \<Rightarrow> []
      | q # qs \<Rightarrow> if c = d then [] # q # qs else (c # q) # qs)"
  by (simp_all split: list.split)

lemma split_on_none: "d \<notin> set s \<Longrightarrow> split_on d s = [s]"
  by (induction s) auto

lemma split_on_append:
  "d \<notin> set a \<Longrightarrow> split_on d (a @ d # b) = a # split_on d b"
  by (induction a) auto

lemma split_on_pieces: "p \<in> set (split_on d s) \<Longrightarrow> d \<notin> set p"
proof (induction s arbitrary: p)
  case Nil
  then show ?case by simp
next
  case (Cons c s)
  obtain q qs where q: "split_on d s = q # qs"
    by (cases "split_on d s") auto
  with Cons show ?case by (auto split: if_splits)
qed

text \<open>\<open>strings.Join\<close>; it undoes \<^const>\<open>split_on\<close>.\<close>

fun strings_Join :: "string list \<Rightarrow> string \<Rightarrow> string" where
  "strings_Join [] sep = []"
| "strings_Join [s] sep = s"
| "strings_Join (s # t # ss) sep = s @ sep @ strings_Join (t # ss) sep"

lemma strings_Join_Cons:
  "ss \<noteq> [] \<Longrightarrow> strings_Join (s # ss) sep = s @ sep @ strings_Join ss sep"
  by (cases ss) auto

lemma strings_Join_push: "strings_Join ((c # s) # ss) sep = c # strings_Join (s # ss) sep"
  by (cases ss) auto

lemma join_split_on: "strings_Join (split_on d s) [d] = s"
proof (induction s)
  case Nil
  then show ?case by simp
next
  case (Cons c s)
  obtain q qs where q: "split_on d s = q # qs"
    by (cases "split_on d s") auto
  with Cons show ?case
    by (cases "c = d") (simp_all add: strings_Join_push)
qed

lemma split_on_join:
  assumes "ss \<noteq> []" and "\<forall>s \<in> set ss. d \<notin> set s"
  shows "split_on d (strings_Join ss [d]) = ss"
  using assms
proof (induction ss)
  case Nil
  then show ?case by simp
next
  case (Cons s ss)
  then show ?case
    by (cases ss) (simp_all add: split_on_none split_on_append)
qed

section \<open>Finite tables kept as lists\<close>

lemma distinct_map_filter: "distinct (map f xs) \<Longrightarrow> distinct (map f (filter P xs))"
  by (induction xs) auto

lemma distinct_map_inj:
  "distinct (map f xs) \<Longrightarrow> x \<in> set xs \<Longrightarrow> y \<in> set xs \<Longrightarrow> f x = f y \<Longrightarrow> x = y"
  by (auto simp: distinct_map dest: inj_onD)

lemma find_unique:
  assumes "distinct (map f xs)" and "x \<in> set xs" and "f x = k"
  shows "find (\<lambda>y. f y = k) xs = Some x"
  using assms by (induction xs) force+

lemma find_None_key: "k \<notin> f ` set xs \<Longrightarrow> find (\<lambda>y. f y = k) xs = None"
  by (induction xs) auto

lemma find_Some_key:
  "find (\<lambda>y. f y = k) xs = Some x \<Longrightarrow> x \<in> set xs \<and> f x = k"
  by (induction xs) (auto split: if_splits)

end
