(* ===== verification/GoStrings.thy ===== *)
theory GoStrings imports Prelude begin

text \<open>
  The parts of Go's standard library that the panel's own code is written with: \<open>strings\<close>
  (Contains, ContainsAny, HasSuffix, TrimSpace, TrimRight, TrimPrefix, ToLower),
  \<open>strconv\<close> (Itoa, FormatUint, Atoi, ParseUint), \<open>encoding/hex\<close> and the query escaping of
  \<open>net/url\<close>. Strings are byte sequences. The lemmas are the round trips: decimal text and
  numbers, hexadecimal text and bytes, escaped and raw query values.
\<close>

section \<open>strings\<close>

fun strings_Contains :: "string \<Rightarrow> string \<Rightarrow> bool" where
  "strings_Contains [] sub = (sub = [])"
| "strings_Contains (c # s) sub = (prefix sub (c # s) \<or> strings_Contains s sub)"

lemma strings_Contains_sublist: "strings_Contains s sub = sublist sub s"
  by (induction s) (auto simp: sublist_Cons_right)

definition strings_ContainsAny :: "string \<Rightarrow> string \<Rightarrow> bool" where
  "strings_ContainsAny s cs = list_ex (\<lambda>c. c \<in> set cs) s"

lemma strings_ContainsAny_iff:
  "strings_ContainsAny s cs \<longleftrightarrow> set s \<inter> set cs \<noteq> {}"
  by (auto simp: strings_ContainsAny_def list_ex_iff)

definition strings_HasSuffix :: "string \<Rightarrow> string \<Rightarrow> bool" where
  "strings_HasSuffix s suf = suffix suf s"

definition strings_TrimPrefix :: "string \<Rightarrow> string \<Rightarrow> string" where
  "strings_TrimPrefix s pre = (if prefix pre s then drop (length pre) s else s)"

text \<open>\<open>strings.TrimRight(s, cutset)\<close> for an ASCII cutset.\<close>

definition strings_TrimRight :: "string \<Rightarrow> string \<Rightarrow> string" where
  "strings_TrimRight s cs = rev (dropWhile (\<lambda>c. c \<in> set cs) (rev s))"

text \<open>\<open>strings.TrimSpace\<close> drops every leading and trailing rune that \<open>unicode.IsSpace\<close> accepts;
  these are the UTF-8 encodings of those runes.\<close>

definition space_runes :: "string list" where
  "space_runes =
     map (\<lambda>n. [chr_of n]) [0x09, 0x0A, 0x0B, 0x0C, 0x0D, 0x20] @
     map (map chr_of)
       [[0xC2, 0x85], [0xC2, 0xA0], [0xE1, 0x9A, 0x80],
        [0xE2, 0x80, 0x80], [0xE2, 0x80, 0x81], [0xE2, 0x80, 0x82], [0xE2, 0x80, 0x83],
        [0xE2, 0x80, 0x84], [0xE2, 0x80, 0x85], [0xE2, 0x80, 0x86], [0xE2, 0x80, 0x87],
        [0xE2, 0x80, 0x88], [0xE2, 0x80, 0x89], [0xE2, 0x80, 0x8A],
        [0xE2, 0x80, 0xA8], [0xE2, 0x80, 0xA9], [0xE2, 0x80, 0xAF],
        [0xE2, 0x81, 0x9F], [0xE3, 0x80, 0x80]]"

lemma space_runes_nonempty: "p \<in> set space_runes \<Longrightarrow> p \<noteq> []"
  by (auto simp: space_runes_def)

function trim_left :: "string \<Rightarrow> string" where
  "trim_left s =
     (case find (\<lambda>p. prefix p s) space_runes of
        None \<Rightarrow> s
      | Some p \<Rightarrow> trim_left (drop (length p) s))"
  by pat_completeness auto
termination
  by (relation "measure length")
     (auto simp: find_Some_iff prefix_def dest!: space_runes_nonempty [OF nth_mem])

function trim_right :: "string \<Rightarrow> string" where
  "trim_right s =
     (case find (\<lambda>p. suffix p s) space_runes of
        None \<Rightarrow> s
      | Some p \<Rightarrow> trim_right (take (length s - length p) s))"
  by pat_completeness auto
termination
  by (relation "measure length")
     (auto simp: find_Some_iff suffix_def dest!: space_runes_nonempty [OF nth_mem])

declare trim_left.simps [simp del] trim_right.simps [simp del]

definition strings_TrimSpace :: "string \<Rightarrow> string" where
  "strings_TrimSpace s = trim_right (trim_left s)"

text \<open>\<open>strings.ToLower\<close> on ASCII letters. Its one use lowers a string that is then decoded as
  hexadecimal; a non-ASCII letter never lowers to a hexadecimal digit, so leaving it as it is
  gives the same rejection.\<close>

definition lower_char :: "char \<Rightarrow> char" where
  "lower_char c = (if 65 \<le> code_of c \<and> code_of c \<le> 90 then chr_of (code_of c + 32) else c)"

definition strings_ToLower :: "string \<Rightarrow> string" where
  "strings_ToLower s = map lower_char s"

lemma length_ToLower [simp]: "length (strings_ToLower s) = length s"
  by (simp add: strings_ToLower_def)

section \<open>strconv: decimal text\<close>

definition digit_char :: "nat \<Rightarrow> char" where
  "digit_char d = chr_of (48 + d)"

definition is_digit :: "char \<Rightarrow> bool" where
  "is_digit c \<longleftrightarrow> 48 \<le> code_of c \<and> code_of c \<le> 57"

definition digit_val :: "char \<Rightarrow> nat" where
  "digit_val c = code_of c - 48"

lemma digit_char_props [byte_simps]:
  "d < 10 \<Longrightarrow> is_digit (digit_char d)"
  "d < 10 \<Longrightarrow> digit_val (digit_char d) = d"
  by (simp_all add: is_digit_def digit_val_def digit_char_def)

fun format_nat :: "nat \<Rightarrow> string" where
  "format_nat n =
     (if n < 10 then [digit_char n] else format_nat (n div 10) @ [digit_char (n mod 10)])"

declare format_nat.simps [simp del]

definition Itoa :: "int \<Rightarrow> string" where
  "Itoa i = (if i < 0 then ''-'' @ format_nat (nat (- i)) else format_nat (nat i))"

fun dec_value :: "nat \<Rightarrow> string \<Rightarrow> nat" where
  "dec_value acc [] = acc"
| "dec_value acc (c # s) = dec_value (10 * acc + digit_val c) s"

lemma dec_value_append: "dec_value acc (s @ t) = dec_value (dec_value acc s) t"
  by (induction s arbitrary: acc) auto

lemma format_nat_digits: "\<forall>c \<in> set (format_nat n). is_digit c"
proof (induction n rule: format_nat.induct)
  case (1 n)
  then show ?case
    by (subst format_nat.simps) (auto simp: byte_simps)
qed

lemma format_nat_nonempty [simp]: "format_nat n \<noteq> []"
  by (subst format_nat.simps) simp

lemma dec_value_format_nat: "dec_value 0 (format_nat n) = n"
proof (induction n rule: format_nat.induct)
  case (1 n)
  then show ?case
    by (subst format_nat.simps) (auto simp: byte_simps dec_value_append)
qed

lemma format_nat_inj: "format_nat m = format_nat n \<Longrightarrow> m = n"
  by (metis dec_value_format_nat)

text \<open>\<open>strconv.Quote\<close> (the \<open>%q\<close> verb), byte by byte: printable ASCII stays, quote and backslash
  are escaped, every other byte is written as an escape. (Go keeps printable non-ASCII runes; the
  text differs there, and only inside an error message.)\<close>

definition quote_char :: "char \<Rightarrow> string" where
  "quote_char c =
     (if c = c_dq then [c_bs, c_dq] else if c = c_bs then [c_bs, c_bs]
      else if 32 \<le> code_of c \<and> code_of c \<le> 126 then [c]
      else if code_of c = 7 then c_bs # ''a'' else if code_of c = 8 then c_bs # ''b''
      else if code_of c = 9 then c_bs # ''t'' else if code_of c = 10 then c_bs # ''n''
      else if code_of c = 11 then c_bs # ''v'' else if code_of c = 12 then c_bs # ''f''
      else if code_of c = 13 then c_bs # ''r''
      else c_bs # CHR ''x'' #
        [chr_of (let d = code_of c div 16 in if d < 10 then 48 + d else 87 + d),
         chr_of (let d = code_of c mod 16 in if d < 10 then 48 + d else 87 + d)])"

definition go_quote :: "string \<Rightarrow> string" where
  "go_quote s = [c_dq] @ concat (map quote_char s) @ [c_dq]"

text \<open>Range limits of \<open>int\<close> (64 bits) and \<open>uint64\<close>.\<close>

definition int64_ok :: "int \<Rightarrow> bool" where
  "int64_ok i \<longleftrightarrow> - (2 ^ 63) \<le> i \<and> i < 2 ^ 63"

definition num_error :: "string \<Rightarrow> string \<Rightarrow> string \<Rightarrow> gerror" where
  "num_error fn s why = errorf (''strconv.'' @ fn @ '': parsing '' @ go_quote s @ '': '' @ why)"

definition ParseUint64 :: "string \<Rightarrow> 64 word res" where
  "ParseUint64 s =
     (if s = [] \<or> \<not> list_all is_digit s then Inl (num_error ''ParseUint'' s ''invalid syntax'')
      else if 2 ^ 64 \<le> dec_value 0 s then Inl (num_error ''ParseUint'' s ''value out of range'')
      else Inr (of_nat (dec_value 0 s)))"

definition Atoi :: "string \<Rightarrow> int res" where
  "Atoi s =
     (let neg = (s \<noteq> [] \<and> hd s = CHR ''-'');
          ds = (if s \<noteq> [] \<and> (hd s = CHR ''-'' \<or> hd s = CHR ''+'') then tl s else s);
          v = (if neg then - int (dec_value 0 ds) else int (dec_value 0 ds))
      in if ds = [] \<or> \<not> list_all is_digit ds then Inl (num_error ''Atoi'' s ''invalid syntax'')
         else if \<not> int64_ok v then Inl (num_error ''Atoi'' s ''value out of range'')
         else Inr v)"

definition FormatUint64 :: "64 word \<Rightarrow> string" where
  "FormatUint64 w = format_nat (unat w)"

lemma digit_not_sign: "is_digit c \<Longrightarrow> c \<noteq> CHR ''-'' \<and> c \<noteq> CHR ''+''"
  by (auto simp: is_digit_def)

lemma format_nat_head: "hd (format_nat n) \<noteq> CHR ''-'' \<and> hd (format_nat n) \<noteq> CHR ''+''"
  using format_nat_digits [of n] digit_not_sign by (cases "format_nat n") auto

lemma Atoi_Itoa:
  assumes "int64_ok i"
  shows "Atoi (Itoa i) = Inr i"
proof (cases "i < 0")
  case True
  then show ?thesis
    using assms format_nat_digits [of "nat (- i)"]
    by (simp add: Atoi_def Itoa_def dec_value_format_nat list_all_iff)
next
  case False
  then show ?thesis
    using assms format_nat_digits [of "nat i"] format_nat_head [of "nat i"]
    by (simp add: Atoi_def Itoa_def dec_value_format_nat list_all_iff)
qed

lemma ParseUint64_FormatUint64: "ParseUint64 (FormatUint64 w) = Inr w"
proof -
  have "unat w < 2 ^ 64"
    using unsigned_less [of w, where ?'a = nat] by simp
  then show ?thesis
    using format_nat_digits [of "unat w"]
    by (simp add: ParseUint64_def FormatUint64_def dec_value_format_nat list_all_iff)
qed

lemma Atoi_range: "Atoi s = Inr i \<Longrightarrow> int64_ok i"
  by (auto simp: Atoi_def Let_def split: if_splits)

lemma Itoa_chars: "c \<in> set (Itoa i) \<Longrightarrow> is_digit c \<or> c = CHR ''-''"
  using format_nat_digits by (auto simp: Itoa_def split: if_splits)

lemma Itoa_inj: "Itoa i = Itoa j \<Longrightarrow> i = j"
proof -
  assume eq: "Itoa i = Itoa j"
  have "(i < 0) = (j < 0)"
    using eq format_nat_head [of "nat i"] format_nat_head [of "nat j"]
    by (auto simp: Itoa_def split: if_splits dest: arg_cong [where f = hd])
  then show "i = j"
    using eq by (auto simp: Itoa_def dest!: format_nat_inj split: if_splits)
qed

section \<open>encoding/hex\<close>

text \<open>Lower-case output digits; both cases are read back.\<close>

definition hex_digit :: "nat \<Rightarrow> char" where
  "hex_digit n = (if n < 10 then chr_of (48 + n) else chr_of (87 + n))"

definition upper_hex_digit :: "nat \<Rightarrow> char" where
  "upper_hex_digit n = (if n < 10 then chr_of (48 + n) else chr_of (55 + n))"

definition hex_val :: "char \<Rightarrow> nat option" where
  "hex_val c =
     (let k = code_of c
      in if 48 \<le> k \<and> k \<le> 57 then Some (k - 48)
         else if 97 \<le> k \<and> k \<le> 102 then Some (k - 87)
         else if 65 \<le> k \<and> k \<le> 70 then Some (k - 55)
         else None)"

definition is_hex :: "char \<Rightarrow> bool" where
  "is_hex c \<longleftrightarrow> hex_val c \<noteq> None"

definition is_lower_hex :: "char \<Rightarrow> bool" where
  "is_lower_hex c \<longleftrightarrow> is_digit c \<or> (97 \<le> code_of c \<and> code_of c \<le> 102)"

lemma hex_val_less: "hex_val c = Some n \<Longrightarrow> n < 16"
  by (auto simp: hex_val_def Let_def split: if_splits)

lemma hex_val_hex_digit [byte_simps]: "n < 16 \<Longrightarrow> hex_val (hex_digit n) = Some n"
  by (auto simp: hex_val_def hex_digit_def Let_def)

lemma hex_val_upper_hex_digit [byte_simps]: "n < 16 \<Longrightarrow> hex_val (upper_hex_digit n) = Some n"
  by (auto simp: hex_val_def upper_hex_digit_def Let_def)

lemma hex_digit_lower [byte_simps]: "n < 16 \<Longrightarrow> is_lower_hex (hex_digit n)"
  by (auto simp: is_lower_hex_def is_digit_def hex_digit_def)

lemma is_lower_hex_is_hex: "is_lower_hex c \<Longrightarrow> is_hex c"
  by (auto simp: is_lower_hex_def is_digit_def is_hex_def hex_val_def Let_def)

fun hex_Encode :: "string \<Rightarrow> string" where
  "hex_Encode [] = []"
| "hex_Encode (c # s) =
     hex_digit (code_of c div 16) # hex_digit (code_of c mod 16) # hex_Encode s"

text \<open>\<open>hex.DecodeString\<close>: pairs of digits; the first bad byte is reported before an odd length.\<close>

definition hex_invalid_byte :: "char \<Rightarrow> gerror" where
  "hex_invalid_byte c = errorf (''encoding/hex: invalid byte: U+00'' @
     [upper_hex_digit (code_of c div 16), upper_hex_digit (code_of c mod 16)] @
     (if 32 \<le> code_of c \<and> code_of c \<le> 126 then '' '' @ [CHR 0x27, c, CHR 0x27] else []))"

fun hex_Decode :: "string \<Rightarrow> string res" where
  "hex_Decode [] = Inr []"
| "hex_Decode [a] =
     (if hex_val a = None then Inl (hex_invalid_byte a)
      else Inl (errorf ''encoding/hex: odd length hex string''))"
| "hex_Decode (a # b # s) =
     (case hex_val a of
        None \<Rightarrow> Inl (hex_invalid_byte a)
      | Some m \<Rightarrow>
          (case hex_val b of
             None \<Rightarrow> Inl (hex_invalid_byte b)
           | Some n \<Rightarrow>
               (case hex_Decode s of
                  Inl e \<Rightarrow> Inl e
                | Inr t \<Rightarrow> Inr (chr_of (16 * m + n) # t))))"

lemma length_hex_Encode [simp]: "length (hex_Encode s) = 2 * length s"
  by (induction s) auto

lemma nibbles_less: "code_of c div 16 < 16" "code_of c mod 16 < 16"
  using code_of_less [of c] by (auto simp: div_less_iff_less_mult)

lemma hex_Encode_lower: "c \<in> set (hex_Encode s) \<Longrightarrow> is_lower_hex c"
  by (induction s) (auto simp: byte_simps nibbles_less)

lemma hex_Decode_Encode [simp]: "hex_Decode (hex_Encode s) = Inr s"
  by (induction s) (auto simp: byte_simps nibbles_less mult_div_mod_eq)

lemma hex_Encode_inj: "hex_Encode s = hex_Encode t \<Longrightarrow> s = t"
  by (metis hex_Decode_Encode sum.inject(2))

lemma hex_Decode_Inr_iff:
  "(\<exists>t. hex_Decode s = Inr t) \<longleftrightarrow> even (length s) \<and> (\<forall>c \<in> set s. is_hex c)"
  by (induction s rule: hex_Decode.induct)
     (auto simp: is_hex_def split: option.splits sum.splits)

lemma lower_char_hex: "is_hex c \<Longrightarrow> is_lower_hex (lower_char c)"
  by (auto simp: is_hex_def is_lower_hex_def is_digit_def hex_val_def lower_char_def Let_def
      split: if_splits)

lemma is_hex_lower_char: "is_hex (lower_char c) = is_hex c"
  by (auto simp: is_hex_def hex_val_def lower_char_def Let_def split: if_splits)

lemma lower_char_idem: "is_lower_hex c \<Longrightarrow> lower_char c = c"
  by (auto simp: is_lower_hex_def is_digit_def lower_char_def)

section \<open>net/url: query escaping\<close>

definition unreserved :: "char \<Rightarrow> bool" where
  "unreserved c \<longleftrightarrow>
     (65 \<le> code_of c \<and> code_of c \<le> 90) \<or> (97 \<le> code_of c \<and> code_of c \<le> 122) \<or>
     is_digit c \<or> c \<in> set ''-_.~''"

fun QueryEscape :: "string \<Rightarrow> string" where
  "QueryEscape [] = []"
| "QueryEscape (c # s) =
     (if unreserved c then c # QueryEscape s
      else if c = CHR '' '' then CHR ''+'' # QueryEscape s
      else CHR ''%'' # upper_hex_digit (code_of c div 16) # upper_hex_digit (code_of c mod 16)
             # QueryEscape s)"

fun QueryUnescape :: "string \<Rightarrow> string option" where
  "QueryUnescape [] = Some []"
| "QueryUnescape (c # s) =
     (if c = CHR ''%'' then
        (case s of
           a # b # t \<Rightarrow>
             (case (hex_val a, hex_val b) of
                (Some m, Some n) \<Rightarrow> map_option (\<lambda>r. chr_of (16 * m + n) # r) (QueryUnescape t)
              | _ \<Rightarrow> None)
         | _ \<Rightarrow> None)
      else if c = CHR ''+'' then map_option (\<lambda>r. CHR '' '' # r) (QueryUnescape s)
      else map_option (\<lambda>r. c # r) (QueryUnescape s))"

lemma unreserved_plain: "unreserved c \<Longrightarrow> c \<noteq> CHR ''%'' \<and> c \<noteq> CHR ''+'' \<and> c \<noteq> CHR ''&'' \<and>
    c \<noteq> CHR ''='' \<and> c \<noteq> CHR ''#'' \<and> c \<noteq> CHR '';'' \<and> c \<noteq> CHR ''?'' \<and> c \<noteq> CHR '' ''"
  by (auto simp: unreserved_def is_digit_def)

lemma chr_of_nibbles: "chr_of (16 * (code_of c div 16) + code_of c mod 16) = c"
  by (simp only: mult_div_mod_eq char_of_char)

lemma QueryUnescape_percent:
  "QueryUnescape (CHR ''%'' # upper_hex_digit (code_of c div 16)
       # upper_hex_digit (code_of c mod 16) # s) = map_option (\<lambda>r. c # r) (QueryUnescape s)"
  by (simp add: byte_simps nibbles_less chr_of_nibbles)

lemma QueryUnescape_Escape [simp]: "QueryUnescape (QueryEscape s) = Some s"
proof (induction s)
  case Nil
  then show ?case by simp
next
  case (Cons c s)
  consider "unreserved c" | "\<not> unreserved c" "c = CHR '' ''" | "\<not> unreserved c" "c \<noteq> CHR '' ''"
    by blast
  then show ?case
  proof cases
    case 1
    then show ?thesis using Cons.IH unreserved_plain [of c] by simp
  next
    case 2
    then show ?thesis using Cons.IH by simp
  next
    case 3
    then show ?thesis
      by (simp only: QueryEscape.simps if_False QueryUnescape_percent Cons.IH option.map)
  qed
qed

lemma QueryEscape_inj: "QueryEscape s = QueryEscape t \<Longrightarrow> s = t"
  by (metis QueryUnescape_Escape option.inject)

lemma upper_hex_digit_unreserved: "n < 16 \<Longrightarrow> unreserved (upper_hex_digit n)"
  by (auto simp: unreserved_def is_digit_def upper_hex_digit_def)

lemma QueryEscape_chars:
  "c \<in> set (QueryEscape s) \<Longrightarrow> unreserved c \<or> c = CHR ''%'' \<or> c = CHR ''+''"
  by (induction s)
     (auto simp: upper_hex_digit_unreserved nibbles_less split: if_splits)

lemma QueryEscape_no_delim:
  "CHR ''&'' \<notin> set (QueryEscape s)" "CHR ''='' \<notin> set (QueryEscape s)"
  "CHR ''#'' \<notin> set (QueryEscape s)" "CHR '';'' \<notin> set (QueryEscape s)"
  using QueryEscape_chars [of _ s] unreserved_plain by blast+

end
