(* ===== verification/Runtime.thy ===== *)
theory Runtime imports GoStrings begin

text \<open>
  \<open>internal/docker/runtime.go\<close>: the interface \<open>Runtime\<close> behind which containers are managed, as a
  record of operations on a state of any type. An operation sees whether the context it was called
  with is already cancelled. The contract that the service layer relies on is the locale
  \<open>container_runtime\<close>: an abstract map from container ids to labels, and what each operation does to
  it. Whether a container runs and what its address is may change at any time, so the map does not
  hold them.
\<close>

type_synonym labels = "(string \<times> string) list"

record container_spec =
  cs_Name :: string
  cs_Image :: string
  cs_Labels :: labels
  cs_ConfigHostDir :: string
  cs_Port :: int
  cs_Network :: string

record container_info =
  ci_ID :: string
  ci_Name :: string
  ci_Running :: bool
  ci_Labels :: labels
  ci_IPAddress :: string

definition zero_info :: container_info where
  "zero_info = \<lparr>ci_ID = '''', ci_Name = '''', ci_Running = False, ci_Labels = [], ci_IPAddress = ''''\<rparr>"

text \<open>Reading a Go map of strings: an absent key reads as the empty string.\<close>

definition label_of :: "labels \<Rightarrow> string \<Rightarrow> string" where
  "label_of m k = (case map_of m k of Some v \<Rightarrow> v | None \<Rightarrow> '''')"

definition labels_match :: "labels \<Rightarrow> labels \<Rightarrow> bool" where
  "labels_match want have = list_all (\<lambda>(k, v). label_of have k = v) want"

text \<open>Docker writes a label filter as \<open>key=value\<close>, so only a key without an equals sign selects as
  meant.\<close>

definition plain_keys :: "labels \<Rightarrow> bool" where
  "plain_keys ls = list_all (\<lambda>(k, _). CHR ''='' \<notin> set k) ls"

definition ErrNoSuchContainer_err :: gerror where
  "ErrNoSuchContainer_err = GErr ''docker: no such container'' [ErrNoSuchContainer]"

definition no_such_container :: "string \<Rightarrow> gerror" where
  "no_such_container i = errorf_wrap_first ErrNoSuchContainer_err ('': '' @ i)"

lemma no_such_container_Is [simp]: "errors_Is (no_such_container i) ErrNoSuchContainer"
  by (simp add: no_such_container_def ErrNoSuchContainer_err_def errors_Is_def errorf_wrap_first_def)

record 'r runtime =
  rt_Ping :: "bool \<Rightarrow> 'r \<Rightarrow> gerror option \<times> 'r"
  rt_EnsureNetwork :: "bool \<Rightarrow> string \<Rightarrow> string \<Rightarrow> 'r \<Rightarrow> gerror option \<times> 'r"
  rt_Pull :: "bool \<Rightarrow> string \<Rightarrow> 'r \<Rightarrow> gerror option \<times> 'r"
  rt_Create :: "bool \<Rightarrow> container_spec \<Rightarrow> 'r \<Rightarrow> string res \<times> 'r"
  rt_Start :: "bool \<Rightarrow> string \<Rightarrow> 'r \<Rightarrow> gerror option \<times> 'r"
  rt_Stop :: "bool \<Rightarrow> string \<Rightarrow> 'r \<Rightarrow> gerror option \<times> 'r"
  rt_Remove :: "bool \<Rightarrow> string \<Rightarrow> 'r \<Rightarrow> gerror option \<times> 'r"
  rt_Inspect :: "bool \<Rightarrow> string \<Rightarrow> 'r \<Rightarrow> container_info res \<times> 'r"
  rt_List :: "bool \<Rightarrow> labels \<Rightarrow> 'r \<Rightarrow> container_info list res \<times> 'r"
  rt_Logs :: "bool \<Rightarrow> string \<Rightarrow> int \<Rightarrow> 'r \<Rightarrow> string res \<times> 'r"

text \<open>A runtime that can always remove an existing container: what a compensating removal needs to do
  its work.\<close>

definition remove_works :: "'r runtime \<Rightarrow> ('r \<Rightarrow> string \<rightharpoonup> labels) \<Rightarrow> ('r \<Rightarrow> bool) \<Rightarrow> bool" where
  "remove_works rt ctrs good \<longleftrightarrow>
     (\<forall>c i s. good s \<longrightarrow> ctrs s i \<noteq> None \<longrightarrow> fst (rt_Remove rt c i s) = None)"

section \<open>The contract\<close>

locale container_runtime =
  fixes rt :: "'r runtime"
    and ctrs :: "'r \<Rightarrow> string \<rightharpoonup> labels"
    and inv :: "'r \<Rightarrow> bool"
  assumes create_ok: "inv s \<Longrightarrow> rt_Create rt c sp s = (Inr i, s') \<Longrightarrow>
      inv s' \<and> i \<noteq> '''' \<and> ctrs s i = None \<and> ctrs s' = (ctrs s)(i \<mapsto> cs_Labels sp)"
    and create_err: "inv s \<Longrightarrow> rt_Create rt c sp s = (Inl e, s') \<Longrightarrow> inv s' \<and> ctrs s' = ctrs s"
    and remove_ok: "inv s \<Longrightarrow> rt_Remove rt c i s = (None, s') \<Longrightarrow>
      inv s' \<and> ctrs s i \<noteq> None \<and> ctrs s' = (ctrs s)(i := None)"
    and remove_err: "inv s \<Longrightarrow> rt_Remove rt c i s = (Some e, s') \<Longrightarrow>
      inv s' \<and> ctrs s' = ctrs s \<and> (errors_Is e ErrNoSuchContainer \<longrightarrow> ctrs s i = None)"
    and start_keeps: "inv s \<Longrightarrow> rt_Start rt c i s = (r, s') \<Longrightarrow> inv s' \<and> ctrs s' = ctrs s"
    and stop_keeps: "inv s \<Longrightarrow> rt_Stop rt c i s = (r, s') \<Longrightarrow> inv s' \<and> ctrs s' = ctrs s"
    and ping_keeps: "inv s \<Longrightarrow> rt_Ping rt c s = (r, s') \<Longrightarrow> inv s' \<and> ctrs s' = ctrs s"
    and network_keeps: "inv s \<Longrightarrow> rt_EnsureNetwork rt c n sub s = (r, s') \<Longrightarrow> inv s' \<and> ctrs s' = ctrs s"
    and pull_keeps: "inv s \<Longrightarrow> rt_Pull rt c img s = (r, s') \<Longrightarrow> inv s' \<and> ctrs s' = ctrs s"
    and logs_keeps: "inv s \<Longrightarrow> rt_Logs rt c i tail s = (lr, s') \<Longrightarrow> inv s' \<and> ctrs s' = ctrs s"
    and inspect_keeps: "inv s \<Longrightarrow> rt_Inspect rt c i s = (ir, s') \<Longrightarrow> inv s' \<and> ctrs s' = ctrs s"
    and inspect_sound: "inv s \<Longrightarrow> rt_Inspect rt c i s = (Inr ci, s') \<Longrightarrow>
      ctrs s (ci_ID ci) = Some (ci_Labels ci)"
    and list_keeps: "inv s \<Longrightarrow> rt_List rt c ls s = (cr, s') \<Longrightarrow> inv s' \<and> ctrs s' = ctrs s"
    and list_sound: "inv s \<Longrightarrow> rt_List rt c ls s = (Inr cs, s') \<Longrightarrow> ci \<in> set cs \<Longrightarrow>
      ctrs s (ci_ID ci) = Some (ci_Labels ci) \<and> (plain_keys ls \<longrightarrow> labels_match ls (ci_Labels ci))"
begin

lemmas keeps = start_keeps stop_keeps ping_keeps network_keeps pull_keeps logs_keeps inspect_keeps
  list_keeps

lemma create_then_remove:
  assumes "inv s" "rt_Create rt c sp s = (Inr i, s')" "inv u" "ctrs u = ctrs s'"
    "rt_Remove rt c' i u = (None, u')"
  shows "inv u' \<and> ctrs u' = ctrs s"
  using create_ok [OF assms(1,2)] remove_ok [OF assms(3,5)] assms(4) by auto

text \<open>A removal that succeeds, or that finds the container gone, leaves it gone.\<close>

lemma removed:
  assumes "inv s" "rt_Remove rt c i s = (err, s')"
    and "err = None \<or> (\<exists>e. err = Some e \<and> errors_Is e ErrNoSuchContainer)"
  shows "inv s' \<and> ctrs s' = (ctrs s)(i := None)"
  using assms remove_ok [of s c i s'] remove_err [of s c i _ s'] by (cases err) auto

lemma remove_others:
  "inv s \<Longrightarrow> rt_Remove rt c i s = (err, s') \<Longrightarrow> j \<noteq> i \<Longrightarrow> ctrs s' j = ctrs s j"
  using remove_ok [of s c i s'] remove_err [of s c i _ s'] by (cases err) auto

lemma create_others:
  "inv s \<Longrightarrow> rt_Create rt c sp s = (r, s') \<Longrightarrow> ctrs s j = Some l \<Longrightarrow> ctrs s' j = Some l"
  using create_ok [of s c sp _ s'] create_err [of s c sp _ s'] by (cases r) auto

end

text \<open>A runtime whose listing misses nothing, which \<open>Reconcile\<close> needs to leave live proxies alone.
  (The Docker client's \<open>List\<close> skips a container whose inspection fails.)\<close>

locale complete_listing = container_runtime +
  assumes list_complete: "inv s \<Longrightarrow> rt_List rt c ls s = (Inr cs, s') \<Longrightarrow> ctrs s i = Some l \<Longrightarrow>
      labels_match ls l \<Longrightarrow> \<exists>ci \<in> set cs. ci_ID ci = i"
begin

lemma listed_iff:
  assumes "inv s" "rt_List rt c ls s = (Inr cs, s')" "plain_keys ls"
  shows "i \<in> ci_ID ` set cs \<longleftrightarrow> (\<exists>l. ctrs s i = Some l \<and> labels_match ls l)"
proof
  assume "i \<in> ci_ID ` set cs"
  then obtain ci where "ci \<in> set cs" "ci_ID ci = i" by blast
  then show "\<exists>l. ctrs s i = Some l \<and> labels_match ls l"
    using list_sound [OF assms(1,2)] assms(3) by blast
next
  assume "\<exists>l. ctrs s i = Some l \<and> labels_match ls l"
  then show "i \<in> ci_ID ` set cs"
    using list_complete [OF assms(1,2)] by (metis image_eqI)
qed

end

text \<open>A stronger invariant that every operation keeps is as good.\<close>

context container_runtime
begin

lemma strengthen:
  assumes create: "\<And>c sp s r s'. J s \<Longrightarrow> rt_Create rt c sp s = (r, s') \<Longrightarrow> J s'"
    and remove: "\<And>c i s r s'. J s \<Longrightarrow> rt_Remove rt c i s = (r, s') \<Longrightarrow> J s'"
    and start: "\<And>c i s r s'. J s \<Longrightarrow> rt_Start rt c i s = (r, s') \<Longrightarrow> J s'"
    and stop: "\<And>c i s r s'. J s \<Longrightarrow> rt_Stop rt c i s = (r, s') \<Longrightarrow> J s'"
    and ping: "\<And>c s r s'. J s \<Longrightarrow> rt_Ping rt c s = (r, s') \<Longrightarrow> J s'"
    and network: "\<And>c n sub s r s'. J s \<Longrightarrow> rt_EnsureNetwork rt c n sub s = (r, s') \<Longrightarrow> J s'"
    and pull: "\<And>c img s r s'. J s \<Longrightarrow> rt_Pull rt c img s = (r, s') \<Longrightarrow> J s'"
    and logs: "\<And>c i tail s r s'. J s \<Longrightarrow> rt_Logs rt c i tail s = (r, s') \<Longrightarrow> J s'"
    and inspect: "\<And>c i s r s'. J s \<Longrightarrow> rt_Inspect rt c i s = (r, s') \<Longrightarrow> J s'"
    and list: "\<And>c ls s r s'. J s \<Longrightarrow> rt_List rt c ls s = (r, s') \<Longrightarrow> J s'"
  shows "container_runtime rt ctrs (\<lambda>s. inv s \<and> J s)"
proof (unfold_locales, goal_cases)
  case (1 s c sp i s')
  then show ?case using create_ok create by blast
next
  case (2 s c sp e s')
  then show ?case using create_err create by blast
next
  case (3 s c i s')
  then show ?case using remove_ok remove by blast
next
  case (4 s c i e s')
  then show ?case using remove_err remove by blast
next
  case (5 s c i r s')
  then show ?case using start_keeps start by blast
next
  case (6 s c i r s')
  then show ?case using stop_keeps stop by blast
next
  case (7 s c r s')
  then show ?case using ping_keeps ping by blast
next
  case (8 s c n sub r s')
  then show ?case using network_keeps network by blast
next
  case (9 s c img r s')
  then show ?case using pull_keeps pull by blast
next
  case (10 s c i tail lr s')
  then show ?case using logs_keeps logs by blast
next
  case (11 s c i ir s')
  then show ?case using inspect_keeps inspect by blast
next
  case (12 s c i ci s')
  then show ?case using inspect_sound by blast
next
  case (13 s c ls cr s')
  then show ?case using list_keeps list by blast
next
  case (14 s c ls cs s' ci)
  then show ?case using list_sound by blast
qed

end

end
