(* ===== verification/Docker.thy ===== *)
theory Docker imports Runtime begin

text \<open>
  \<open>internal/docker/client.go\<close>: the Docker client behind \<open>Runtime\<close>. The Docker SDK is an argument,
  the record \<open>docker_sdk\<close> of the calls that the client makes, on a daemon state of any type; what is
  modelled is what the client does with them: the requests it builds, the errors it wraps, the reply
  it reads, the streams it drains. \<open>docker_daemon\<close> collects the documented behaviour of the SDK's
  calls that the client relies on, and the last section shows that the client then keeps the contract
  of \<open>Runtime\<close> on which the proxy service is verified.
\<close>

section \<open>The SDK\<close>

text \<open>An error of the SDK: what the panel sees of any error, and what \<open>client.IsErrNotFound\<close> says
  of it.\<close>

record sdk_error =
  de_err :: gerror
  de_notfound :: bool

text \<open>An \<open>io.ReadCloser\<close>: \<open>io.Copy\<close> from it gives the bytes read and the error, if any. Reading
  it is an action on the daemon.\<close>

record 's reader =
  rd_Copy :: "'s \<Rightarrow> (string \<times> gerror option) \<times> 's"
  rd_Close :: "'s \<Rightarrow> 's"

record container_config =
  cc_Image :: string
  cc_Cmd :: "string list"
  cc_WorkingDir :: string
  cc_Labels :: labels
  cc_Env :: "string list"
  cc_ExposedPorts :: "string list"

record port_binding =
  pb_HostIP :: string
  pb_HostPort :: string

record mount =
  mo_Type :: string
  mo_Source :: string
  mo_Target :: string

record host_config =
  hc_RestartPolicy :: string
  hc_PortBindings :: "(string \<times> port_binding list) list"
  hc_Mounts :: "mount list"
  hc_Tmpfs :: "(string \<times> string) list"
  hc_ReadonlyRootfs :: bool
  hc_CapDrop :: "string list"
  hc_CapAdd :: "string list"
  hc_SecurityOpt :: "string list"

text \<open>What \<open>ContainerInspect\<close> returns, as far as the client reads it. \<open>State\<close> and
  \<open>NetworkSettings\<close> are pointers; the networks are a Go map, whose order of iteration the list
  stands for.\<close>

record container_json =
  cj_ID :: string
  cj_Name :: string
  cj_Running :: "bool option"
  cj_Labels :: labels
  cj_Networks :: "(string \<times> string) list option"

record 's docker_sdk =
  sdk_Ping :: "bool \<Rightarrow> 's \<Rightarrow> sdk_error option \<times> 's"
  sdk_NetworkList :: "bool \<Rightarrow> string \<Rightarrow> 's \<Rightarrow> (sdk_error + string list) \<times> 's"
  sdk_NetworkCreate :: "bool \<Rightarrow> string \<Rightarrow> string \<Rightarrow> string list \<Rightarrow> 's \<Rightarrow> sdk_error option \<times> 's"
  sdk_ImagePull :: "bool \<Rightarrow> string \<Rightarrow> 's \<Rightarrow> (sdk_error + 's reader) \<times> 's"
  sdk_ContainerCreate :: "bool \<Rightarrow> container_config \<Rightarrow> host_config \<Rightarrow> string list \<Rightarrow> string \<Rightarrow> 's \<Rightarrow>
      (sdk_error + string) \<times> 's"
  sdk_ContainerStart :: "bool \<Rightarrow> string \<Rightarrow> 's \<Rightarrow> sdk_error option \<times> 's"
  sdk_ContainerStop :: "bool \<Rightarrow> string \<Rightarrow> 's \<Rightarrow> sdk_error option \<times> 's"
  sdk_ContainerRemove :: "bool \<Rightarrow> string \<Rightarrow> bool \<Rightarrow> 's \<Rightarrow> sdk_error option \<times> 's"
  sdk_ContainerInspect :: "bool \<Rightarrow> string \<Rightarrow> 's \<Rightarrow> (sdk_error + container_json) \<times> 's"
  sdk_ContainerList :: "bool \<Rightarrow> bool \<Rightarrow> string list \<Rightarrow> 's \<Rightarrow> (sdk_error + string list) \<times> 's"
  sdk_ContainerLogs :: "bool \<Rightarrow> string \<Rightarrow> string \<Rightarrow> 's \<Rightarrow> (sdk_error + 's reader) \<times> 's"

section \<open>The client\<close>

text \<open>The two ways in which an error of the SDK is reported: with a prefix, and as the panel's own
  \<open>ErrNoSuchContainer\<close> where the daemon does not know the container.\<close>

definition wrap_sdk :: "string \<Rightarrow> sdk_error option \<Rightarrow> gerror option" where
  "wrap_sdk pre err = map_option (\<lambda>e. errorf_wrap pre (de_err e)) err"

definition container_error :: "string \<Rightarrow> string \<Rightarrow> sdk_error \<Rightarrow> gerror" where
  "container_error op i e =
     (if de_notfound e then no_such_container i
      else errorf_wrap (''docker: '' @ op @ '' '' @ i @ '': '') (de_err e))"

definition dockerRuntime_Ping :: "'s docker_sdk \<Rightarrow> bool \<Rightarrow> 's \<Rightarrow> gerror option \<times> 's" where
  "dockerRuntime_Ping sdk c s = apfst (wrap_sdk ''docker: ping: '') (sdk_Ping sdk c s)"

definition dockerRuntime_EnsureNetwork ::
  "'s docker_sdk \<Rightarrow> bool \<Rightarrow> string \<Rightarrow> string \<Rightarrow> 's \<Rightarrow> gerror option \<times> 's" where
  "dockerRuntime_EnsureNetwork sdk c name subnet s =
     (case sdk_NetworkList sdk c name s of
        (Inl e, s1) \<Rightarrow> (Some (errorf_wrap ''docker: list networks: '' (de_err e)), s1)
      | (Inr nets, s1) \<Rightarrow>
          if list_ex (\<lambda>n. n = name) nets then (None, s1)
          else apfst (wrap_sdk (''docker: create network '' @ name @ '': ''))
            (sdk_NetworkCreate sdk c name ''bridge'' [subnet] s1))"

definition dockerRuntime_Pull :: "'s docker_sdk \<Rightarrow> bool \<Rightarrow> string \<Rightarrow> 's \<Rightarrow> gerror option \<times> 's" where
  "dockerRuntime_Pull sdk c ref s =
     (case sdk_ImagePull sdk c ref s of
        (Inl e, s1) \<Rightarrow> (Some (errorf_wrap (''docker: pull '' @ ref @ '': '') (de_err e)), s1)
      | (Inr rc, s1) \<Rightarrow>
          (case rd_Copy rc s1 of
             ((_, err), s2) \<Rightarrow>
               (map_option (errorf_wrap (''docker: pull '' @ ref @ '': '')) err, rd_Close rc s2)))"

definition nat_port :: "container_spec \<Rightarrow> string" where
  "nat_port spec = Itoa (cs_Port spec) @ ''/tcp''"

definition create_config :: "container_spec \<Rightarrow> container_config" where
  "create_config spec =
     \<lparr>cc_Image = cs_Image spec, cc_Cmd = [''/etc/telemt/config.toml''], cc_WorkingDir = ''/run/telemt'',
      cc_Labels = cs_Labels spec, cc_Env = [''RUST_LOG=info''], cc_ExposedPorts = [nat_port spec]\<rparr>"

definition create_host_config :: "container_spec \<Rightarrow> host_config" where
  "create_host_config spec =
     \<lparr>hc_RestartPolicy = ''unless-stopped'',
      hc_PortBindings = [(nat_port spec, [\<lparr>pb_HostIP = ''0.0.0.0'', pb_HostPort = Itoa (cs_Port spec)\<rparr>])],
      hc_Mounts = [\<lparr>mo_Type = ''bind'', mo_Source = cs_ConfigHostDir spec, mo_Target = ''/etc/telemt''\<rparr>],
      hc_Tmpfs = [(''/run/telemt'', ''rw,mode=1777,size=4m'')],
      hc_ReadonlyRootfs = True,
      hc_CapDrop = [''ALL''], hc_CapAdd = [''NET_BIND_SERVICE''],
      hc_SecurityOpt = [''no-new-privileges:true'']\<rparr>"

definition dockerRuntime_Create ::
  "'s docker_sdk \<Rightarrow> bool \<Rightarrow> container_spec \<Rightarrow> 's \<Rightarrow> string res \<times> 's" where
  "dockerRuntime_Create sdk c spec s =
     (case sdk_ContainerCreate sdk c (create_config spec) (create_host_config spec)
             [cs_Network spec] (cs_Name spec) s of
        (Inl e, s1) \<Rightarrow> (Inl (errorf_wrap (''docker: create '' @ cs_Name spec @ '': '') (de_err e)), s1)
      | (Inr i, s1) \<Rightarrow> (Inr i, s1))"

definition dockerRuntime_Start :: "'s docker_sdk \<Rightarrow> bool \<Rightarrow> string \<Rightarrow> 's \<Rightarrow> gerror option \<times> 's" where
  "dockerRuntime_Start sdk c i s =
     apfst (wrap_sdk (''docker: start '' @ i @ '': '')) (sdk_ContainerStart sdk c i s)"

definition dockerRuntime_Stop :: "'s docker_sdk \<Rightarrow> bool \<Rightarrow> string \<Rightarrow> 's \<Rightarrow> gerror option \<times> 's" where
  "dockerRuntime_Stop sdk c i s =
     apfst (wrap_sdk (''docker: stop '' @ i @ '': '')) (sdk_ContainerStop sdk c i s)"

definition dockerRuntime_Remove :: "'s docker_sdk \<Rightarrow> bool \<Rightarrow> string \<Rightarrow> 's \<Rightarrow> gerror option \<times> 's" where
  "dockerRuntime_Remove sdk c i s =
     apfst (map_option (container_error ''remove'' i)) (sdk_ContainerRemove sdk c i True s)"

text \<open>The address is the first that is not empty.\<close>

fun first_address :: "(string \<times> string) list \<Rightarrow> string" where
  "first_address [] = ''''"
| "first_address ((n, ip) # eps) = (if ip \<noteq> '''' then ip else first_address eps)"

definition info_of :: "container_json \<Rightarrow> container_info" where
  "info_of j =
     \<lparr>ci_ID = cj_ID j, ci_Name = strings_TrimPrefix (cj_Name j) ''/'',
      ci_Running = (cj_Running j = Some True), ci_Labels = cj_Labels j,
      ci_IPAddress = (case cj_Networks j of None \<Rightarrow> '''' | Some eps \<Rightarrow> first_address eps)\<rparr>"

definition dockerRuntime_Inspect ::
  "'s docker_sdk \<Rightarrow> bool \<Rightarrow> string \<Rightarrow> 's \<Rightarrow> container_info res \<times> 's" where
  "dockerRuntime_Inspect sdk c i s =
     (case sdk_ContainerInspect sdk c i s of
        (Inl e, s1) \<Rightarrow> (Inl (container_error ''inspect'' i e), s1)
      | (Inr j, s1) \<Rightarrow> (Inr (info_of j), s1))"

fun inspect_each ::
  "'s docker_sdk \<Rightarrow> bool \<Rightarrow> string list \<Rightarrow> 's \<Rightarrow> container_info list \<times> 's" where
  "inspect_each sdk c [] s = ([], s)"
| "inspect_each sdk c (i # is) s =
     (case dockerRuntime_Inspect sdk c i s of
        (Inl _, s1) \<Rightarrow> inspect_each sdk c is s1
      | (Inr info, s1) \<Rightarrow> apfst (Cons info) (inspect_each sdk c is s1))"

definition dockerRuntime_List ::
  "'s docker_sdk \<Rightarrow> bool \<Rightarrow> labels \<Rightarrow> 's \<Rightarrow> container_info list res \<times> 's" where
  "dockerRuntime_List sdk c ls s =
     (case sdk_ContainerList sdk c True (map (\<lambda>(k, v). k @ ''='' @ v) ls) s of
        (Inl e, s1) \<Rightarrow> (Inl (errorf_wrap ''docker: list containers: '' (de_err e)), s1)
      | (Inr ids, s1) \<Rightarrow> apfst Inr (inspect_each sdk c ids s1))"

definition dockerRuntime_Logs ::
  "'s docker_sdk \<Rightarrow> bool \<Rightarrow> string \<Rightarrow> int \<Rightarrow> 's \<Rightarrow> string res \<times> 's" where
  "dockerRuntime_Logs sdk c i tail s =
     (case sdk_ContainerLogs sdk c i (Itoa tail) s of
        (Inl e, s1) \<Rightarrow> (Inl (container_error ''logs'' i e), s1)
      | (Inr rc, s1) \<Rightarrow>
          (case rd_Copy rc s1 of
             ((b, err), s2) \<Rightarrow>
               (case err of
                  Some e \<Rightarrow> (Inl (errorf_wrap (''docker: read logs '' @ i @ '': '') e), rd_Close rc s2)
                | None \<Rightarrow> (Inr b, rd_Close rc s2))))"

definition docker_runtime :: "'s docker_sdk \<Rightarrow> 's runtime" where
  "docker_runtime sdk =
     \<lparr>rt_Ping = dockerRuntime_Ping sdk, rt_EnsureNetwork = dockerRuntime_EnsureNetwork sdk,
      rt_Pull = dockerRuntime_Pull sdk, rt_Create = dockerRuntime_Create sdk,
      rt_Start = dockerRuntime_Start sdk, rt_Stop = dockerRuntime_Stop sdk,
      rt_Remove = dockerRuntime_Remove sdk, rt_Inspect = dockerRuntime_Inspect sdk,
      rt_List = dockerRuntime_List sdk, rt_Logs = dockerRuntime_Logs sdk\<rparr>"

text \<open>\<open>client.NewClientWithOpts(client.FromEnv, client.WithAPIVersionNegotiation())\<close> is the argument.\<close>

definition NewDockerRuntime :: "gerror + 's docker_sdk \<Rightarrow> 's runtime res" where
  "NewDockerRuntime client =
     (case client of
        Inl e \<Rightarrow> Inl (errorf_wrap ''docker: connect: '' e)
      | Inr cli \<Rightarrow> Inr (docker_runtime cli))"

section \<open>The client on every branch\<close>

lemmas docker_ops = dockerRuntime_Ping_def dockerRuntime_EnsureNetwork_def dockerRuntime_Pull_def
  dockerRuntime_Create_def dockerRuntime_Start_def dockerRuntime_Stop_def dockerRuntime_Remove_def
  dockerRuntime_Inspect_def dockerRuntime_List_def dockerRuntime_Logs_def

lemma docker_runtime_sel [simp]:
  "rt_Ping (docker_runtime sdk) = dockerRuntime_Ping sdk"
  "rt_EnsureNetwork (docker_runtime sdk) = dockerRuntime_EnsureNetwork sdk"
  "rt_Pull (docker_runtime sdk) = dockerRuntime_Pull sdk"
  "rt_Create (docker_runtime sdk) = dockerRuntime_Create sdk"
  "rt_Start (docker_runtime sdk) = dockerRuntime_Start sdk"
  "rt_Stop (docker_runtime sdk) = dockerRuntime_Stop sdk"
  "rt_Remove (docker_runtime sdk) = dockerRuntime_Remove sdk"
  "rt_Inspect (docker_runtime sdk) = dockerRuntime_Inspect sdk"
  "rt_List (docker_runtime sdk) = dockerRuntime_List sdk"
  "rt_Logs (docker_runtime sdk) = dockerRuntime_Logs sdk"
  by (simp_all add: docker_runtime_def)

lemma wrap_sdk_simps [simp]:
  "wrap_sdk pre None = None"
  "wrap_sdk pre (Some e) = Some (errorf_wrap pre (de_err e))"
  by (simp_all add: wrap_sdk_def)

lemma container_error_Is:
  "errors_Is (container_error op i e) ErrNoSuchContainer \<longleftrightarrow>
     de_notfound e \<or> errors_Is (de_err e) ErrNoSuchContainer"
  by (simp add: container_error_def)

lemma first_address_elem: "first_address eps \<noteq> '''' \<Longrightarrow> first_address eps \<in> snd ` set eps"
  by (induction eps rule: first_address.induct) (auto split: if_splits)

lemma first_address_empty: "first_address eps = '''' \<longleftrightarrow> (\<forall>(n, ip) \<in> set eps. ip = '''')"
  by (induction eps rule: first_address.induct) auto

lemma info_of_sel [simp]:
  "ci_ID (info_of j) = cj_ID j" "ci_Labels (info_of j) = cj_Labels j"
  by (simp_all add: info_of_def)

lemma Inspect_Inr:
  "dockerRuntime_Inspect sdk c i s = (Inr info, s') \<longleftrightarrow>
     (\<exists>j. sdk_ContainerInspect sdk c i s = (Inr j, s') \<and> info = info_of j)"
  by (auto simp: dockerRuntime_Inspect_def split: prod.splits sum.splits)

text \<open>A pull succeeds only if the progress stream was read to its end without an error.\<close>

lemma Pull_None:
  "dockerRuntime_Pull sdk c ref s = (None, s') \<longleftrightarrow>
     (\<exists>rc s1 b s2. sdk_ImagePull sdk c ref s = (Inr rc, s1) \<and> rd_Copy rc s1 = ((b, None), s2) \<and>
       s' = rd_Close rc s2)"
  by (auto simp: dockerRuntime_Pull_def split: prod.splits sum.splits)

text \<open>The network is created only if none of the listed ones has exactly its name.\<close>

lemma EnsureNetwork_exact:
  assumes "sdk_NetworkList sdk c name s = (Inr nets, s1)"
  shows "name \<in> set nets \<Longrightarrow> dockerRuntime_EnsureNetwork sdk c name subnet s = (None, s1)"
    and "name \<notin> set nets \<Longrightarrow> snd (dockerRuntime_EnsureNetwork sdk c name subnet s) =
      snd (sdk_NetworkCreate sdk c name ''bridge'' [subnet] s1)"
  using assms by (auto simp: dockerRuntime_EnsureNetwork_def list_ex_iff)

section \<open>What the daemon promises\<close>

text \<open>A label filter, \<open>key\<close> or \<open>key=value\<close>, split at the first equals sign.\<close>

definition filter_matches :: "string \<Rightarrow> labels \<Rightarrow> bool" where
  "filter_matches f l =
     (let k = takeWhile (\<lambda>x. x \<noteq> CHR ''='') f
      in case dropWhile (\<lambda>x. x \<noteq> CHR ''='') f of
           [] \<Rightarrow> map_of l k \<noteq> None
         | _ # v \<Rightarrow> map_of l k = Some v)"

lemma filter_matches_kv:
  assumes "CHR ''='' \<notin> set k"
  shows "filter_matches (k @ ''='' @ v) l \<longleftrightarrow> map_of l k = Some v"
proof -
  have "takeWhile (\<lambda>x. x \<noteq> CHR ''='') (k @ ''='' @ v) = k"
    "dropWhile (\<lambda>x. x \<noteq> CHR ''='') (k @ ''='' @ v) = ''='' @ v"
    using assms by (simp_all add: takeWhile_append dropWhile_append)
  then show ?thesis by (simp add: filter_matches_def)
qed

lemma filters_match:
  assumes "plain_keys ls" "\<forall>f \<in> set (map (\<lambda>(k, v). k @ ''='' @ v) ls). filter_matches f l"
  shows "labels_match ls l"
  using assms by (induction ls) (auto simp: plain_keys_def labels_match_def filter_matches_kv [simplified] label_of_def)

text \<open>The laws of the SDK's calls. \<open>ctrs\<close> maps the full ids of the daemon's containers to their
  labels, which never change. A call names its container by the full id, by an abbreviation or by
  name: \<open>resolve\<close> gives the full id it stands for, which a full id always is itself. A failed call
  changes no container, and no error of the SDK is one of the panel's own sentinels.\<close>

locale docker_daemon =
  fixes sdk :: "'s docker_sdk"
    and ctrs :: "'s \<Rightarrow> string \<rightharpoonup> labels"
    and resolve :: "'s \<Rightarrow> string \<Rightarrow> string option"
    and inv :: "'s \<Rightarrow> bool"
  assumes resolve_full: "inv s \<Longrightarrow> ctrs s i \<noteq> None \<Longrightarrow> resolve s i = Some i"
    and resolve_known: "inv s \<Longrightarrow> resolve s i = Some j \<Longrightarrow> ctrs s j \<noteq> None"
    and create_ok: "inv s \<Longrightarrow> sdk_ContainerCreate sdk c cfg hc nets n s = (Inr i, s') \<Longrightarrow>
      inv s' \<and> i \<noteq> '''' \<and> ctrs s i = None \<and> ctrs s' = (ctrs s)(i \<mapsto> cc_Labels cfg)"
    and create_err: "inv s \<Longrightarrow> sdk_ContainerCreate sdk c cfg hc nets n s = (Inl e, s') \<Longrightarrow>
      inv s' \<and> ctrs s' = ctrs s"
    and remove_ok: "inv s \<Longrightarrow> sdk_ContainerRemove sdk c i True s = (None, s') \<Longrightarrow>
      inv s' \<and> (\<exists>j. resolve s i = Some j \<and> ctrs s' = (ctrs s)(j := None))"
    and remove_err: "inv s \<Longrightarrow> sdk_ContainerRemove sdk c i True s = (Some e, s') \<Longrightarrow>
      inv s' \<and> ctrs s' = ctrs s \<and> (de_notfound e \<longrightarrow> resolve s i = None) \<and>
      \<not> errors_Is (de_err e) ErrNoSuchContainer"
    and start_keeps: "inv s \<Longrightarrow> sdk_ContainerStart sdk c i s = (r, s') \<Longrightarrow> inv s' \<and> ctrs s' = ctrs s"
    and stop_keeps: "inv s \<Longrightarrow> sdk_ContainerStop sdk c i s = (r, s') \<Longrightarrow> inv s' \<and> ctrs s' = ctrs s"
    and ping_keeps: "inv s \<Longrightarrow> sdk_Ping sdk c s = (r, s') \<Longrightarrow> inv s' \<and> ctrs s' = ctrs s"
    and networks_keeps: "inv s \<Longrightarrow> sdk_NetworkList sdk c n s = (nr, s') \<Longrightarrow> inv s' \<and> ctrs s' = ctrs s"
    and network_keeps: "inv s \<Longrightarrow> sdk_NetworkCreate sdk c n d subs s = (r, s') \<Longrightarrow>
      inv s' \<and> ctrs s' = ctrs s"
    and pull_keeps: "inv s \<Longrightarrow> sdk_ImagePull sdk c ref s = (pr, s') \<Longrightarrow> inv s' \<and> ctrs s' = ctrs s"
    and pull_copy: "sdk_ImagePull sdk c ref s = (Inr rc, s') \<Longrightarrow> inv t \<Longrightarrow> rd_Copy rc t = (x, t') \<Longrightarrow>
      inv t' \<and> ctrs t' = ctrs t"
    and pull_close: "sdk_ImagePull sdk c ref s = (Inr rc, s') \<Longrightarrow> inv t \<Longrightarrow>
      inv (rd_Close rc t) \<and> ctrs (rd_Close rc t) = ctrs t"
    and logs_keeps: "inv s \<Longrightarrow> sdk_ContainerLogs sdk c i tail s = (pr, s') \<Longrightarrow> inv s' \<and> ctrs s' = ctrs s"
    and logs_copy: "sdk_ContainerLogs sdk c i tail s = (Inr rc, s') \<Longrightarrow> inv t \<Longrightarrow> rd_Copy rc t = (x, t') \<Longrightarrow>
      inv t' \<and> ctrs t' = ctrs t"
    and logs_close: "sdk_ContainerLogs sdk c i tail s = (Inr rc, s') \<Longrightarrow> inv t \<Longrightarrow>
      inv (rd_Close rc t) \<and> ctrs (rd_Close rc t) = ctrs t"
    and inspect_keeps: "inv s \<Longrightarrow> sdk_ContainerInspect sdk c i s = (jr, s') \<Longrightarrow> inv s' \<and> ctrs s' = ctrs s"
    and inspect_ok: "inv s \<Longrightarrow> sdk_ContainerInspect sdk c i s = (Inr js, s') \<Longrightarrow>
      resolve s i = Some (cj_ID js) \<and> ctrs s (cj_ID js) = Some (cj_Labels js)"
    and list_keeps: "inv s \<Longrightarrow> sdk_ContainerList sdk c al fs s = (lr, s') \<Longrightarrow> inv s' \<and> ctrs s' = ctrs s"
    and list_ok: "inv s \<Longrightarrow> sdk_ContainerList sdk c al fs s = (Inr ids, s') \<Longrightarrow> i \<in> set ids \<Longrightarrow>
      \<exists>l. ctrs s i = Some l \<and> (\<forall>f \<in> set fs. filter_matches f l)"
begin

lemma docker_Inspect:
  assumes "inv s" "dockerRuntime_Inspect sdk c i s = (r, s')"
  shows "inv s' \<and> ctrs s' = ctrs s"
    and "r = Inr info \<Longrightarrow> resolve s i = Some (ci_ID info) \<and> ctrs s (ci_ID info) = Some (ci_Labels info)"
proof -
  obtain jr where j: "sdk_ContainerInspect sdk c i s = (jr, s')"
    using assms(2) by (auto simp: dockerRuntime_Inspect_def split: prod.splits sum.splits)
  then show "inv s' \<and> ctrs s' = ctrs s" by (rule inspect_keeps [OF assms(1)])
  assume "r = Inr info"
  then obtain x where "sdk_ContainerInspect sdk c i s = (Inr x, s')" "info = info_of x"
    using assms(2) by (auto simp: Inspect_Inr)
  then show "resolve s i = Some (ci_ID info) \<and> ctrs s (ci_ID info) = Some (ci_Labels info)"
    using inspect_ok [OF assms(1)] by simp
qed

text \<open>Of the ids listed, exactly those whose inspection succeeds are reported, each under its own id.\<close>

lemma inspect_each_sound:
  assumes "inv s" "\<forall>i \<in> set is. ctrs s i \<noteq> None" "inspect_each sdk c is s = (infos, s')"
  shows "inv s' \<and> ctrs s' = ctrs s \<and>
    (\<forall>info \<in> set infos. ci_ID info \<in> set is \<and> ctrs s (ci_ID info) = Some (ci_Labels info))"
  using assms
proof (induction "is" arbitrary: s infos s')
  case Nil
  then show ?case by simp
next
  case (Cons i "is")
  obtain r s1 where i: "dockerRuntime_Inspect sdk c i s = (r, s1)"
    by (cases "dockerRuntime_Inspect sdk c i s") simp
  obtain infos1 where rest: "inspect_each sdk c is s1 = (infos1, s')"
    and infos: "infos = (case r of Inl _ \<Rightarrow> infos1 | Inr info \<Rightarrow> info # infos1)"
    using Cons.prems(3) i by (cases r; cases "inspect_each sdk c is s1") simp_all
  have k1: "inv s1 \<and> ctrs s1 = ctrs s" by (rule docker_Inspect(1) [OF Cons.prems(1) i])
  have "\<forall>j \<in> set is. ctrs s1 j \<noteq> None" using Cons.prems(2) k1 by simp
  note tl = Cons.IH [OF conjunct1 [OF k1] this rest]
  have "ci_ID info = i \<and> ctrs s i = Some (ci_Labels info)" if "r = Inr info" for info
  proof -
    have "resolve s i = Some i" using resolve_full Cons.prems(1,2) by simp
    then show ?thesis using docker_Inspect(2) [OF Cons.prems(1) i that] by simp
  qed
  then show ?case using tl k1 infos by (cases r) auto
qed

lemma docker_List:
  assumes "inv s" "dockerRuntime_List sdk c ls s = (r, s')"
  shows "inv s' \<and> ctrs s' = ctrs s"
    and "r = Inr cs \<Longrightarrow> info \<in> set cs \<Longrightarrow>
      ctrs s (ci_ID info) = Some (ci_Labels info) \<and> (plain_keys ls \<longrightarrow> labels_match ls (ci_Labels info))"
proof -
  let ?fs = "map (\<lambda>(k, v). k @ ''='' @ v) ls"
  obtain lr s1 where l: "sdk_ContainerList sdk c True ?fs s = (lr, s1)"
    by (cases "sdk_ContainerList sdk c True ?fs s") simp
  have k1: "inv s1 \<and> ctrs s1 = ctrs s" by (rule list_keeps [OF assms(1) l])
  have each: "inv s' \<and> ctrs s' = ctrs s \<and> (\<forall>info \<in> set infos. ci_ID info \<in> set ids \<and>
      ctrs s (ci_ID info) = Some (ci_Labels info))"
    if "lr = Inr ids" "inspect_each sdk c ids s1 = (infos, s')" for ids infos
  proof -
    have "\<forall>i \<in> set ids. ctrs s1 i \<noteq> None" using list_ok [OF assms(1)] l that(1) k1 by fastforce
    then show ?thesis using inspect_each_sound [of s1 ids] that(2) k1 by simp
  qed
  show "inv s' \<and> ctrs s' = ctrs s"
  proof (cases lr)
    case (Inl e)
    then show ?thesis using assms(2) l k1 by (simp add: dockerRuntime_List_def)
  next
    case (Inr ids)
    then show ?thesis
      using assms(2) l each [OF Inr]
      by (cases "inspect_each sdk c ids s1") (simp add: dockerRuntime_List_def)
  qed
  assume r: "r = Inr cs" and info: "info \<in> set cs"
  obtain ids where ids: "lr = Inr ids" "inspect_each sdk c ids s1 = (cs, s')"
    using assms(2) l r by (cases lr) (auto simp: dockerRuntime_List_def apfst_def map_prod_def split: prod.splits)
  have c: "ci_ID info \<in> set ids" "ctrs s (ci_ID info) = Some (ci_Labels info)"
    using each [OF ids] info by blast+
  have "\<forall>f \<in> set ?fs. filter_matches f (ci_Labels info)"
    using list_ok [OF assms(1) l [unfolded ids(1)] c(1)] c(2) by auto
  then show "ctrs s (ci_ID info) = Some (ci_Labels info) \<and>
      (plain_keys ls \<longrightarrow> labels_match ls (ci_Labels info))"
    using c(2) filters_match by blast
qed

lemma docker_Remove:
  assumes "inv s" "dockerRuntime_Remove sdk c i s = (r, s')"
  shows "r = None \<Longrightarrow> inv s' \<and> (\<exists>j. resolve s i = Some j \<and> ctrs s' = (ctrs s)(j := None))"
    and "r = Some e \<Longrightarrow> inv s' \<and> ctrs s' = ctrs s \<and>
      (errors_Is e ErrNoSuchContainer \<longrightarrow> resolve s i = None)"
  using remove_ok [OF assms(1)] remove_err [OF assms(1)] assms(2)
  by (auto simp: dockerRuntime_Remove_def container_error_Is apfst_def map_prod_def
      split: prod.splits) (metis+)?

lemma docker_Pull:
  assumes "inv s" "dockerRuntime_Pull sdk c ref s = (r, s')"
  shows "inv s' \<and> ctrs s' = ctrs s"
proof -
  obtain pr s1 where p: "sdk_ImagePull sdk c ref s = (pr, s1)"
    by (cases "sdk_ImagePull sdk c ref s") simp
  have k: "inv s1 \<and> ctrs s1 = ctrs s" by (rule pull_keeps [OF assms(1) p])
  show ?thesis
  proof (cases pr)
    case (Inl e)
    then show ?thesis using assms(2) p k by (simp add: dockerRuntime_Pull_def)
  next
    case (Inr rc)
    obtain b err s2 where "rd_Copy rc s1 = ((b, err), s2)" by (metis prod.collapse)
    then show ?thesis
      using assms(2) p k Inr pull_copy [of c ref s rc s1 s1 "(b, err)" s2]
        pull_close [of c ref s rc s1 s2]
      by (simp add: dockerRuntime_Pull_def)
  qed
qed

lemma docker_Logs:
  assumes "inv s" "dockerRuntime_Logs sdk c i tail s = (r, s')"
  shows "inv s' \<and> ctrs s' = ctrs s"
proof -
  obtain pr s1 where p: "sdk_ContainerLogs sdk c i (Itoa tail) s = (pr, s1)"
    by (cases "sdk_ContainerLogs sdk c i (Itoa tail) s") simp
  have k: "inv s1 \<and> ctrs s1 = ctrs s" by (rule logs_keeps [OF assms(1) p])
  show ?thesis
  proof (cases pr)
    case (Inl e)
    then show ?thesis using assms(2) p k by (simp add: dockerRuntime_Logs_def)
  next
    case (Inr rc)
    obtain b err s2 where "rd_Copy rc s1 = ((b, err), s2)" by (metis prod.collapse)
    then show ?thesis
      using assms(2) p k Inr logs_copy [of c i "Itoa tail" s rc s1 s1 "(b, err)" s2]
        logs_close [of c i "Itoa tail" s rc s1 s2]
      by (cases err) (auto simp: dockerRuntime_Logs_def)
  qed
qed

lemma docker_EnsureNetwork:
  assumes "inv s" "dockerRuntime_EnsureNetwork sdk c n sub s = (r, s')"
  shows "inv s' \<and> ctrs s' = ctrs s"
proof -
  obtain nr s1 where l: "sdk_NetworkList sdk c n s = (nr, s1)"
    by (cases "sdk_NetworkList sdk c n s") simp
  have "inv s1 \<and> ctrs s1 = ctrs s" by (rule networks_keeps [OF assms(1) l])
  then show ?thesis
    using assms(2) l network_keeps [of s1 c n "''bridge''" "[sub]"]
    by (cases nr) (auto simp: dockerRuntime_EnsureNetwork_def apfst_def map_prod_def
        split: if_splits prod.splits)
qed

lemma docker_Create:
  assumes "inv s" "dockerRuntime_Create sdk c sp s = (r, s')"
  shows "r = Inr i \<Longrightarrow> inv s' \<and> i \<noteq> '''' \<and> ctrs s i = None \<and> ctrs s' = (ctrs s)(i \<mapsto> cs_Labels sp)"
    and "r = Inl e \<Longrightarrow> inv s' \<and> ctrs s' = ctrs s"
  using assms(2) create_ok [OF assms(1), of c "create_config sp"]
    create_err [OF assms(1), of c "create_config sp"]
  by (auto simp: dockerRuntime_Create_def create_config_def split: prod.splits sum.splits)

lemma docker_simple:
  assumes "inv s"
  shows "dockerRuntime_Start sdk c i s = (r, s') \<Longrightarrow> inv s' \<and> ctrs s' = ctrs s"
    and "dockerRuntime_Stop sdk c i s = (r, s') \<Longrightarrow> inv s' \<and> ctrs s' = ctrs s"
    and "dockerRuntime_Ping sdk c s = (r, s') \<Longrightarrow> inv s' \<and> ctrs s' = ctrs s"
  using start_keeps [OF assms] stop_keeps [OF assms] ping_keeps [OF assms]
  by (auto simp: dockerRuntime_Start_def dockerRuntime_Stop_def dockerRuntime_Ping_def apfst_def
      map_prod_def split: prod.splits)

end

text \<open>Where no string stands for a container but its full id, the client keeps the contract of
  \<open>Runtime\<close>.\<close>

locale full_references = docker_daemon +
  assumes full_only: "inv s \<Longrightarrow> resolve s i = Some j \<Longrightarrow> j = i"

sublocale full_references \<subseteq> client: container_runtime "docker_runtime sdk" ctrs inv
proof (unfold_locales, goal_cases)
  case (1 s c sp i s')
  then show ?case using docker_Create(1) [of s c sp "Inr i" s' i] by simp
next
  case (2 s c sp e s')
  then show ?case using docker_Create(2) [of s c sp "Inl e" s' e] by simp
next
  case (3 s c i s')
  then obtain j where "inv s'" "resolve s i = Some j" "ctrs s' = (ctrs s)(j := None)"
    using docker_Remove(1) [of s c i None s'] by auto
  then show ?case using full_only [of s i j] resolve_known [of s i j] 3(1) by simp
next
  case (4 s c i e s')
  then show ?case
    using docker_Remove(2) [of s c i "Some e" s' e] resolve_full [of s i]
    by (cases "ctrs s i = None") auto
next
  case (5 s c i r s')
  then show ?case using docker_simple(1) [of s c i r s'] by simp
next
  case (6 s c i r s')
  then show ?case using docker_simple(2) [of s c i r s'] by simp
next
  case (7 s c r s')
  then show ?case using docker_simple(3) [of s c r s'] by simp
next
  case (8 s c n sub r s')
  then show ?case using docker_EnsureNetwork [of s c n sub r s'] by simp
next
  case (9 s c img r s')
  then show ?case using docker_Pull [of s c img r s'] by simp
next
  case (10 s c i tail lr s')
  then show ?case using docker_Logs [of s c i tail lr s'] by simp
next
  case (11 s c i ir s')
  then show ?case using docker_Inspect(1) [of s c i ir s'] by simp
next
  case (12 s c i ci s')
  then show ?case using docker_Inspect(2) [of s c i "Inr ci" s' ci] by simp
next
  case (13 s c ls cr s')
  then show ?case using docker_List(1) [of s c ls cr s'] by simp
next
  case (14 s c ls cs s' ci)
  then show ?case using docker_List(2) [of s c ls "Inr cs" s' cs ci] by simp
qed


text \<open>The panel stores and passes on only the full ids that \<open>Create\<close> and \<open>List\<close> returned: it uses the
  daemon as if anything else named no container. \<open>in_full\<close> is the SDK seen in this way; where the ids have
  a form that no other name has, it differs from the SDK itself in no call on an id of that form.\<close>

definition unknown_reference :: sdk_error where
  "unknown_reference = \<lparr>de_err = errorf ''No such container'', de_notfound = True\<rparr>"

definition in_full :: "(string \<Rightarrow> bool) \<Rightarrow> 's docker_sdk \<Rightarrow> 's docker_sdk" where
  "in_full full sdk = sdk
     \<lparr>sdk_ContainerRemove := (\<lambda>c i force s.
        if full i then sdk_ContainerRemove sdk c i force s else (Some unknown_reference, s)),
      sdk_ContainerInspect := (\<lambda>c i s.
        if full i then sdk_ContainerInspect sdk c i s else (Inl unknown_reference, s))\<rparr>"

lemma in_full_all [simp]: "in_full (\<lambda>_. True) sdk = sdk"
  by (simp add: in_full_def)

lemma in_full_same:
  assumes "full i"
  shows "dockerRuntime_Remove (in_full full sdk) c i s = dockerRuntime_Remove sdk c i s"
    "dockerRuntime_Inspect (in_full full sdk) c i s = dockerRuntime_Inspect sdk c i s"
  using assms by (simp_all add: in_full_def dockerRuntime_Remove_def dockerRuntime_Inspect_def)

lemma in_full_others:
  "dockerRuntime_Ping (in_full full sdk) = dockerRuntime_Ping sdk"
  "dockerRuntime_EnsureNetwork (in_full full sdk) = dockerRuntime_EnsureNetwork sdk"
  "dockerRuntime_Pull (in_full full sdk) = dockerRuntime_Pull sdk"
  "dockerRuntime_Create (in_full full sdk) = dockerRuntime_Create sdk"
  "dockerRuntime_Start (in_full full sdk) = dockerRuntime_Start sdk"
  "dockerRuntime_Stop (in_full full sdk) = dockerRuntime_Stop sdk"
  "dockerRuntime_Logs (in_full full sdk) = dockerRuntime_Logs sdk"
  by (simp_all add: in_full_def docker_ops fun_eq_iff split: prod.split sum.split)

lemma inspect_each_in_full:
  "\<forall>i \<in> set is. full i \<Longrightarrow> inspect_each (in_full full sdk) c is s = inspect_each sdk c is s"
  by (induction "is" arbitrary: s) (auto simp: in_full_same split: prod.splits sum.splits)

context docker_daemon
begin

lemma asked_in_full:
  assumes ids: "\<And>s i. inv s \<Longrightarrow> ctrs s i \<noteq> None \<Longrightarrow> full i"
    and only: "\<And>s i j. inv s \<Longrightarrow> full i \<Longrightarrow> resolve s i = Some j \<Longrightarrow> j = i"
  shows "full_references (in_full full sdk) ctrs (\<lambda>s i. if full i then resolve s i else None) inv"
proof (unfold_locales, goal_cases)
  case (1 s i)
  then show ?case using ids resolve_full by simp
next
  case (2 s i j)
  then show ?case using resolve_known by (auto split: if_splits)
next
  case (3 s c cfg hc nets n i s')
  then show ?case using create_ok [of s c cfg hc nets n i s'] by (simp add: in_full_def)
next
  case (4 s c cfg hc nets n e s')
  then show ?case using create_err [of s c cfg hc nets n e s'] by (simp add: in_full_def)
next
  case (5 s c i s')
  then show ?case using remove_ok [of s c i s'] by (auto simp: in_full_def split: if_splits)
next
  case (6 s c i e s')
  then show ?case
    using remove_err [of s c i e s'] by (auto simp: in_full_def unknown_reference_def split: if_splits)
next
  case (7 s c i r s')
  then show ?case using start_keeps [of s c i r s'] by (simp add: in_full_def)
next
  case (8 s c i r s')
  then show ?case using stop_keeps [of s c i r s'] by (simp add: in_full_def)
next
  case (9 s c r s')
  then show ?case using ping_keeps [of s c r s'] by (simp add: in_full_def)
next
  case (10 s c n nr s')
  then show ?case using networks_keeps [of s c n nr s'] by (simp add: in_full_def)
next
  case (11 s c n d subs r s')
  then show ?case using network_keeps [of s c n d subs r s'] by (simp add: in_full_def)
next
  case (12 s c ref pr s')
  then show ?case using pull_keeps [of s c ref pr s'] by (simp add: in_full_def)
next
  case (13 c ref s rc s' t x t')
  then show ?case using pull_copy [of c ref s rc s' t x t'] by (simp add: in_full_def)
next
  case (14 c ref s rc s' t)
  then show ?case using pull_close [of c ref s rc s' t] by (simp add: in_full_def)
next
  case (15 s c i tail pr s')
  then show ?case using logs_keeps [of s c i tail pr s'] by (simp add: in_full_def)
next
  case (16 c i tail s rc s' t x t')
  then show ?case using logs_copy [of c i tail s rc s' t x t'] by (simp add: in_full_def)
next
  case (17 c i tail s rc s' t)
  then show ?case using logs_close [of c i tail s rc s' t] by (simp add: in_full_def)
next
  case (18 s c i jr s')
  then show ?case using inspect_keeps [of s c i jr s'] by (auto simp: in_full_def split: if_splits)
next
  case (19 s c i js s')
  then show ?case using inspect_ok [of s c i js s'] by (auto simp: in_full_def split: if_splits)
next
  case (20 s c al fs lr s')
  then show ?case using list_keeps [of s c al fs lr s'] by (simp add: in_full_def)
next
  case (21 s c al fs ids s' i)
  then show ?case using list_ok [of s c al fs ids s' i] by (simp add: in_full_def)
next
  case (22 s i j)
  then show ?case using only by (auto split: if_splits)
qed

text \<open>Every id that a listing asks about is full, so a listing is the same either way.\<close>

lemma List_in_full:
  assumes "inv s" "\<And>s i. inv s \<Longrightarrow> ctrs s i \<noteq> None \<Longrightarrow> full i"
  shows "dockerRuntime_List (in_full full sdk) c ls s = dockerRuntime_List sdk c ls s"
proof -
  have l: "sdk_ContainerList (in_full full sdk) = sdk_ContainerList sdk" by (simp add: in_full_def)
  let ?fs = "map (\<lambda>(k, v). k @ ''='' @ v) ls"
  obtain r s1 where r: "sdk_ContainerList sdk c True ?fs s = (r, s1)" by fastforce
  show ?thesis
  proof (cases r)
    case (Inl e)
    then show ?thesis using r l by (simp add: dockerRuntime_List_def)
  next
    case (Inr ids)
    then have "\<forall>i \<in> set ids. full i" using list_ok [OF assms(1)] r assms(1,2) by fastforce
    then show ?thesis using r l Inr by (simp add: dockerRuntime_List_def inspect_each_in_full)
  qed
qed

end

context full_references
begin

lemma refines: "container_runtime (docker_runtime sdk) ctrs inv"
  by (rule client.container_runtime_axioms)

end

section \<open>What a container is given\<close>

text \<open>One port is published, the one of the spec; one directory is mounted, and the command names a file
  in it.\<close>

lemma published_port:
  "p \<in> fst ` set (hc_PortBindings (create_host_config sp)) \<longleftrightarrow> p = Itoa (cs_Port sp) @ ''/tcp''"
  by (auto simp: create_host_config_def nat_port_def)

lemma published_control_port:
  "Itoa n @ ''/tcp'' \<in> fst ` set (hc_PortBindings (create_host_config sp)) \<longleftrightarrow> cs_Port sp = n"
  unfolding published_port using Itoa_inj by auto


section \<open>What a listing hides\<close>

text \<open>\<open>List\<close> leaves out a container whose inspection fails, whatever the reason, and reports no error.\<close>

lemma inspect_each_fails:
  assumes "\<And>i s. i \<in> set is \<Longrightarrow> \<exists>e s'. dockerRuntime_Inspect sdk c i s = (Inl e, s')"
  shows "fst (inspect_each sdk c is s) = []"
  using assms
proof (induction "is" arbitrary: s)
  case Nil
  then show ?case by simp
next
  case (Cons i "is")
  obtain e s' where "dockerRuntime_Inspect sdk c i s = (Inl e, s')" using Cons.prems [of i s] by auto
  then show ?case using Cons by simp
qed

lemma List_hides:
  assumes "sdk_ContainerList sdk c True (map (\<lambda>(k, v). k @ ''='' @ v) ls) s = (Inr ids, s1)"
    and "\<And>i s. i \<in> set ids \<Longrightarrow> \<exists>e s'. dockerRuntime_Inspect sdk c i s = (Inl e, s')"
  shows "fst (dockerRuntime_List sdk c ls s) = Inr []"
  using assms inspect_each_fails [of ids sdk c s1]
  by (cases "inspect_each sdk c ids s1") (simp add: dockerRuntime_List_def)

end
