(* ===== verification/Threads.thy ===== *)
theory Threads imports Prelude begin

text \<open>
  Programs that run side by side on one state. A program is a result, or an atomic action on the state
  that leaves the rest of the program; a pool is the state with the programs that are still running, one
  per goroutine. \<open>run\<close> executes one program alone, \<open>advance\<close> lets one thread of a pool take its next
  action. \<open>agree\<close> is the proof rule for both: two programs that take the same actions from every state
  of an invariant, keep it, and return results with a postcondition.
\<close>

section \<open>Programs\<close>

datatype ('w, 'a) prog = Ret 'a | Act "'w \<Rightarrow> ('w, 'a) prog \<times> 'w"

text \<open>One action, and sequencing.\<close>

definition call :: "('w \<Rightarrow> 'a \<times> 'w) \<Rightarrow> ('w, 'a) prog" where
  "call f = Act (\<lambda>w. apfst Ret (f w))"

primrec bindp :: "('w, 'a) prog \<Rightarrow> ('a \<Rightarrow> ('w, 'b) prog) \<Rightarrow> ('w, 'b) prog" where
  "bindp (Ret x) k = k x"
| "bindp (Act f) k = Act (\<lambda>w. map_prod (\<lambda>m. bindp m k) id (f w))"

definition provided :: "bool \<Rightarrow> ('w, 'a option) prog \<Rightarrow> ('w, 'a option) prog" where
  "provided b m = (if b then m else Ret None)"

text \<open>Running a program to its end without anybody in between.\<close>

primrec run :: "('w, 'a) prog \<Rightarrow> 'w \<Rightarrow> 'a \<times> 'w" where
  "run (Ret x) = (\<lambda>w. (x, w))"
| "run (Act f) = (\<lambda>w. case map_prod run id (f w) of (g, w') \<Rightarrow> g w')"

lemma run_Ret [simp]: "run (Ret x) w = (x, w)"
  by simp

lemma run_call [simp]: "run (call f) w = f w"
  by (cases "f w") (simp add: call_def)

lemma run_bind [simp]: "run (bindp m k) w = (case run m w of (x, w') \<Rightarrow> run (k x) w')"
proof (induction m arbitrary: w)
  case (Act f)
  obtain m' w' where f: "f w = (m', w')" by fastforce
  have "m' \<in> Basic_BNFs.fsts (f w)" by (simp add: f)
  then show ?case using Act.IH [OF rangeI, of m' w w'] by (simp add: f)
qed simp

lemma run_provided [simp]: "run (provided b m) w = (if b then run m w else (None, w))"
  by (simp add: provided_def)

declare run.simps [simp del]

section \<open>Agreement\<close>

inductive agree :: "('w \<Rightarrow> bool) \<Rightarrow> ('a \<Rightarrow> bool) \<Rightarrow> ('w, 'a) prog \<Rightarrow> ('w, 'a) prog \<Rightarrow> bool" for I Q where
  ret: "Q x \<Longrightarrow> agree I Q (Ret x) (Ret x)"
| act: "(\<And>w. I w \<Longrightarrow> snd (g w) = snd (f w) \<and> I (snd (f w)) \<and> agree I Q (fst (f w)) (fst (g w))) \<Longrightarrow>
    agree I Q (Act f) (Act g)"

inductive_simps agree_Ret: "agree I Q (Ret x) q" "agree I Q p (Ret x)"
inductive_cases agree_ActE: "agree I Q (Act f) q"

text \<open>A program that keeps an invariant agrees with itself.\<close>

abbreviation keeps_inv :: "('w \<Rightarrow> bool) \<Rightarrow> ('a \<Rightarrow> bool) \<Rightarrow> ('w, 'a) prog \<Rightarrow> bool" where
  "keeps_inv I Q p \<equiv> agree I Q p p"

lemma agree_call:
  assumes "\<And>w x w'. I w \<Longrightarrow> f w = (x, w') \<Longrightarrow> g w = (x, w') \<and> I w' \<and> Q x"
  shows "agree I Q (call f) (call g)"
  unfolding call_def
proof (rule agree.act)
  fix w assume "I w"
  moreover obtain x w' where "f w = (x, w')" by fastforce
  ultimately show "snd (apfst Ret (g w)) = snd (apfst Ret (f w)) \<and> I (snd (apfst Ret (f w))) \<and>
      agree I Q (fst (apfst Ret (f w))) (fst (apfst Ret (g w)))"
    using assms [of w x w'] by (simp add: agree.ret)
qed

lemma agree_effect:
  assumes "\<And>w. I w \<Longrightarrow> g w = f w \<and> I (f w)"
  shows "agree I (\<lambda>_. True) (call (\<lambda>w. ((), f w))) (call (\<lambda>w. ((), g w)))"
  by (rule agree_call) (use assms in force)

lemma agree_bind:
  assumes "agree I Q m m'" and k: "\<And>x. Q x \<Longrightarrow> agree I R (k x) (k' x)"
  shows "agree I R (bindp m k) (bindp m' k')"
  using assms(1)
proof induction
  case (ret x)
  then show ?case by (simp add: k)
next
  case (act g f)
  show ?case
    unfolding bindp.simps
  proof (rule agree.act)
    fix w assume "I w"
    then show "snd (map_prod (\<lambda>m. bindp m k') id (g w)) = snd (map_prod (\<lambda>m. bindp m k) id (f w)) \<and>
      I (snd (map_prod (\<lambda>m. bindp m k) id (f w))) \<and>
      agree I R (fst (map_prod (\<lambda>m. bindp m k) id (f w))) (fst (map_prod (\<lambda>m. bindp m k') id (g w)))"
      using act [of w] by (cases "f w"; cases "g w") simp
  qed
qed

lemma agree_provided: "(b \<Longrightarrow> agree I Q m m') \<Longrightarrow> (\<not> b \<Longrightarrow> Q None) \<Longrightarrow> agree I Q (provided b m) (provided b m')"
  by (simp add: provided_def agree.ret)

lemma agree_mono: "agree I Q p q \<Longrightarrow> (\<And>x. Q x \<Longrightarrow> R x) \<Longrightarrow> agree I R p q"
  by (induction rule: agree.induct) (auto intro!: agree.intros)

lemma agree_left: "agree I Q p q \<Longrightarrow> keeps_inv I Q p"
  by (induction rule: agree.induct) (auto intro!: agree.intros)

lemma agree_right: "agree I Q p q \<Longrightarrow> keeps_inv I Q q"
  by (induction rule: agree.induct) (auto intro!: agree.intros)

lemma agree_run:
  assumes "agree I Q p q" "I w" "run p w = (x, w')"
  shows "run q w = (x, w') \<and> I w' \<and> Q x"
  using assms
proof (induction arbitrary: w rule: agree.induct)
  case (ret y)
  then show ?case by simp
next
  case (act g f)
  obtain m v where f: "f w = (m, v)" by fastforce
  obtain n v' where g: "g w = (n, v')" by fastforce
  have ih: "v' = v" "I v \<and> (\<forall>u. I u \<longrightarrow> run m u = (x, w') \<longrightarrow> run n u = (x, w') \<and> I w' \<and> Q x)"
    using act.IH [OF act.prems(1)] f g by simp_all
  moreover have "run m v = (x, w')" using act.prems(2) f by (simp add: run.simps(2))
  ultimately show ?case using g by (auto simp: run.simps(2))
qed

section \<open>Pools\<close>

type_synonym ('w, 'a) pool = "'w \<times> ('w, 'a) prog list"

text \<open>The next action of thread \<open>i\<close>; a thread that has returned, or that does not exist, does nothing.\<close>

fun advance :: "nat \<Rightarrow> ('w, 'a) pool \<Rightarrow> ('w, 'a) pool" where
  "advance i (w, ts) =
     (if i < length ts then
        (case ts ! i of Ret _ \<Rightarrow> (w, ts) | Act f \<Rightarrow> (case f w of (m, w') \<Rightarrow> (w', ts[i := m])))
      else (w, ts))"

text \<open>A schedule says which thread is next.\<close>

definition schedule :: "nat list \<Rightarrow> ('w, 'a) pool \<Rightarrow> ('w, 'a) pool" where
  "schedule is pool = fold advance is pool"

lemma schedule_simps [simp]:
  "schedule [] pool = pool" "schedule (i # is) pool = schedule is (advance i pool)"
  "schedule (is @ js) pool = schedule js (schedule is pool)"
  by (simp_all add: schedule_def)

text \<open>Any interleaving: a thread moves, a new one starts, or the environment moves the state.\<close>

inductive pool_step :: "('w, 'a) prog set \<Rightarrow> ('w \<Rightarrow> 'w \<Rightarrow> bool) \<Rightarrow> ('w, 'a) pool \<Rightarrow> ('w, 'a) pool \<Rightarrow> bool"
  for starts env where
  advance: "pool_step starts env pool (advance i pool)"
| start: "p \<in> starts \<Longrightarrow> pool_step starts env (w, ts) (w, ts @ [p])"
| environment: "env w w' \<Longrightarrow> pool_step starts env (w, ts) (w', ts)"

inductive_cases pool_stepE: "pool_step starts env pool pool'"

text \<open>Two pools whose threads agree take the same actions on every schedule.\<close>

lemma advance_agree:
  assumes "I w" "list_all2 (agree I Q) ts us" "advance i (w, ts) = (w', ts')"
  shows "\<exists>us'. advance i (w, us) = (w', us') \<and> I w' \<and> list_all2 (agree I Q) ts' us'"
proof (cases "i < length ts")
  case True
  then have i: "agree I Q (ts ! i) (us ! i)" "i < length us"
    using assms(2) by (simp_all add: list_all2_conv_all_nth)
  show ?thesis
    using i(1)
  proof cases
    case (ret x)
    then show ?thesis using assms True i(2) by auto
  next
    case (act g f)
    obtain m v where f: "f w = (m, v)" by fastforce
    obtain n v' where g: "g w = (n, v')" by fastforce
    have "v' = v" "I v" "agree I Q m n" using act(3) [OF assms(1)] f g by simp_all
    then show ?thesis
      using assms True i(2) act(1,2) f g by (auto intro: list_all2_update_cong)
  qed
next
  case False
  then show ?thesis using assms by (auto dest: list_all2_lengthD)
qed

lemma schedule_agree:
  assumes "I w" "list_all2 (agree I Q) ts us" "schedule is (w, ts) = (w', ts')"
  shows "\<exists>us'. schedule is (w, us) = (w', us') \<and> I w' \<and> list_all2 (agree I Q) ts' us'"
  using assms
proof (induction "is" arbitrary: w ts us)
  case (Cons i "is")
  obtain v vs where v: "advance i (w, ts) = (v, vs)" by fastforce
  from advance_agree [OF Cons.prems(1,2) v] Cons.IH Cons.prems(3) v show ?case by fastforce
qed auto

text \<open>What every thread keeps, every interleaving keeps.\<close>

definition pool_inv :: "('w \<Rightarrow> bool) \<Rightarrow> ('a \<Rightarrow> bool) \<Rightarrow> ('w, 'a) pool \<Rightarrow> bool" where
  "pool_inv I Q pool \<longleftrightarrow> I (fst pool) \<and> (\<forall>p \<in> set (snd pool). keeps_inv I Q p)"

lemma agree_all_left: "list_all2 (agree I Q) ts us \<Longrightarrow> \<forall>p \<in> set ts. keeps_inv I Q p"
  by (induction rule: list_all2_induct) (auto intro: agree_left)

lemma pool_step_keeps:
  assumes step: "pool_step starts env pool pool'" and inv: "pool_inv I Q pool"
    and starts: "\<And>p. p \<in> starts \<Longrightarrow> keeps_inv I Q p" and env: "\<And>w w'. I w \<Longrightarrow> env w w' \<Longrightarrow> I w'"
  shows "pool_inv I Q pool'"
  using step
proof cases
  case (advance i)
  obtain w ts where p: "pool = (w, ts)" by fastforce
  obtain w' ts' where p': "advance i (w, ts) = (w', ts')" by fastforce
  have "list_all2 (agree I Q) ts ts" using inv p by (auto simp: pool_inv_def list_all2_same)
  from advance_agree [OF _ this p'] obtain us' where us': "I w'" "list_all2 (agree I Q) ts' us'"
    using inv p by (auto simp: pool_inv_def)
  then have "pool_inv I Q (w', ts')"
    using agree_all_left [OF us'(2)] by (simp add: pool_inv_def)
  then show ?thesis using advance p p' by simp
qed (use inv starts env in \<open>auto simp: pool_inv_def\<close>)

lemma pool_reachable_keeps:
  assumes "(pool_step starts env)\<^sup>*\<^sup>* pool pool'" "pool_inv I Q pool"
    "\<And>p. p \<in> starts \<Longrightarrow> keeps_inv I Q p" "\<And>w w'. I w \<Longrightarrow> env w w' \<Longrightarrow> I w'"
  shows "pool_inv I Q pool'"
  using assms(1,2) by induction (blast intro: pool_step_keeps assms(3,4))+

lemma schedule_reachable: "(pool_step starts env)\<^sup>*\<^sup>* pool (schedule is pool)"
proof (induction "is" arbitrary: pool)
  case (Cons i "is")
  show ?case using converse_rtranclp_into_rtranclp [OF pool_step.advance Cons.IH] by simp
qed simp

text \<open>A program alone in the pool does what \<open>run\<close> says.\<close>

lemma schedule_run:
  "\<exists>n. schedule (replicate n 0) (w, [p]) = (snd (run p w), [Ret (fst (run p w))])"
proof (induction p arbitrary: w)
  case (Ret x)
  show ?case by (rule exI [of _ 0]) simp
next
  case (Act f)
  obtain m v where f: "f w = (m, v)" by fastforce
  have "m \<in> Basic_BNFs.fsts (f w)" by (simp add: f)
  from Act.IH [OF rangeI this, of v] obtain n
    where "schedule (replicate n 0) (v, [m]) = (snd (run m v), [Ret (fst (run m v))])" ..
  then show ?case using f by (intro exI [of _ "Suc n"]) (simp add: run.simps(2))
qed

end
