(* ===== verification/GoTime.thy ===== *)
theory GoTime imports GoStrings begin

text \<open>
  Go's \<open>time\<close> package as the panel uses it. An instant is a number of nanoseconds since the Unix
  epoch; the Gregorian calendar turns it into the text of \<open>RFC3339Nano\<close> (what the database
  stores), \<open>RFC3339\<close> and the date layout \<open>2006-01-02\<close>, and back. The lemmas are the
  calendar's correctness, the round trips of the layouts, and how the byte order of the stored
  text, which is the order SQLite compares TEXT in, relates to the order of instants.
\<close>

type_synonym instant = int

abbreviation "nsec \<equiv> (1000000000 :: int)"

section \<open>Calendar\<close>

definition is_leap :: "int \<Rightarrow> bool" where
  "is_leap y \<longleftrightarrow> y mod 4 = 0 \<and> (y mod 100 \<noteq> 0 \<or> y mod 400 = 0)"

text \<open>Days from 1 January of year 0 to 1 January of year \<open>y\<close>.\<close>

definition year_start :: "int \<Rightarrow> int" where
  "year_start y = 365 * y + (y + 3) div 4 - (y + 99) div 100 + (y + 399) div 400"

text \<open>Days from 1 January to the first of month \<open>m\<close> (13 is the next January).\<close>

definition month_start :: "bool \<Rightarrow> int \<Rightarrow> int" where
  "month_start lp m =
     (let l = (if lp then 1 else 0)
      in if m \<le> 1 then 0 else if m = 2 then 31 else if m = 3 then 59 + l else if m = 4 then 90 + l
         else if m = 5 then 120 + l else if m = 6 then 151 + l else if m = 7 then 181 + l
         else if m = 8 then 212 + l else if m = 9 then 243 + l else if m = 10 then 273 + l
         else if m = 11 then 304 + l else if m = 12 then 334 + l else 365 + l)"

definition days_in :: "int \<Rightarrow> int \<Rightarrow> int" where
  "days_in m y = month_start (is_leap y) (m + 1) - month_start (is_leap y) m"

definition valid_date :: "int \<Rightarrow> int \<Rightarrow> int \<Rightarrow> bool" where
  "valid_date y m d \<longleftrightarrow> 1 \<le> m \<and> m \<le> 12 \<and> 1 \<le> d \<and> d \<le> days_in m y"

definition days_of_civil :: "int \<Rightarrow> int \<Rightarrow> int \<Rightarrow> int" where
  "days_of_civil y m d = year_start y + month_start (is_leap y) m + d - 1"

definition year_of :: "int \<Rightarrow> int" where
  "year_of z =
     (let g = z * 400 div 146097
      in if z < year_start g then g - 1 else if year_start (g + 1) \<le> z then g + 1 else g)"

definition month_of :: "bool \<Rightarrow> int \<Rightarrow> int" where
  "month_of lp n =
     (let l = (if lp then 1 else 0)
      in if n < 31 then 1 else if n < 59 + l then 2 else if n < 90 + l then 3
         else if n < 120 + l then 4 else if n < 151 + l then 5 else if n < 181 + l then 6
         else if n < 212 + l then 7 else if n < 243 + l then 8 else if n < 273 + l then 9
         else if n < 304 + l then 10 else if n < 334 + l then 11 else 12)"

definition yday_of :: "int \<Rightarrow> int" where
  "yday_of z = z - year_start (year_of z)"

definition mon_of :: "int \<Rightarrow> int" where
  "mon_of z = month_of (is_leap (year_of z)) (yday_of z)"

definition mday_of :: "int \<Rightarrow> int" where
  "mday_of z = yday_of z - month_start (is_leap (year_of z)) (mon_of z) + 1"

lemma div_bounds:
  fixes x k :: int
  assumes "0 < k"
  shows "k * (x div k) \<le> x" and "x < k * (x div k) + k"
proof -
  have e: "k * (x div k) = x - x mod k"
    by (simp add: minus_mod_eq_mult_div)
  have m: "0 \<le> x mod k" "x mod k < k"
    using assms by simp_all
  show "k * (x div k) \<le> x" and "x < k * (x div k) + k"
    using m e by linarith+
qed

lemma next_multiple:
  fixes y k :: int
  assumes "0 < k" and "j = k - 1"
  shows "(y + k) div k = (y + j) div k + (if y mod k = 0 then 1 else 0)"
proof -
  have "y + j = (y mod k + j) + y div k * k"
    using mult_div_mod_eq [of k y] by (simp add: mult.commute)
  then have split: "(y + j) div k = y div k + (y mod k + j) div k"
    using assms by (simp only: div_mult_self1)
  have "(y mod k + j) div k = (if y mod k = 0 then 0 else 1)"
  proof (cases "y mod k = 0")
    case True
    with assms show ?thesis by simp
  next
    case False
    have "0 < y mod k" "y mod k < k"
      using False assms pos_mod_bound [of k y] pos_mod_sign [of k y] by linarith+
    with assms have "(y mod k + j) div k = 1"
      by (intro int_div_pos_eq [where r = "y mod k - 1"]) simp_all
    with False show ?thesis by simp
  qed
  moreover have "(y + k) div k = y div k + 1"
    using assms by (intro div_add_self2) simp
  ultimately show ?thesis using split by simp
qed

lemma next_multiples:
  fixes y :: int
  shows "(y + 4) div 4 = (y + 3) div 4 + (if y mod 4 = 0 then 1 else 0)"
    and "(y + 100) div 100 = (y + 99) div 100 + (if y mod 100 = 0 then 1 else 0)"
    and "(y + 400) div 400 = (y + 399) div 400 + (if y mod 400 = 0 then 1 else 0)"
  by (rule next_multiple; simp)+

lemma leap_days_bounds:
  fixes y :: int
  shows "y \<le> 4 * ((y + 3) div 4)" "4 * ((y + 3) div 4) \<le> y + 3"
    and "y \<le> 100 * ((y + 99) div 100)" "100 * ((y + 99) div 100) \<le> y + 99"
    and "y \<le> 400 * ((y + 399) div 400)" "400 * ((y + 399) div 400) \<le> y + 399"
  using div_bounds [of 4 "y + 3", OF zero_less_numeral]
    div_bounds [of 100 "y + 99", OF zero_less_numeral]
    div_bounds [of 400 "y + 399", OF zero_less_numeral] by simp_all

lemma year_start_bounds:
  "146097 * y - 3 * 400 \<le> 400 * year_start y" "400 * year_start y \<le> 146097 * y + 3 * 400"
proof -
  define a b c where "a = (y + 3) div 4" and "b = (y + 99) div 100" and "c = (y + 399) div 400"
  have "y \<le> 4 * a" "4 * a \<le> y + 3" "y \<le> 100 * b" "100 * b \<le> y + 99"
    "y \<le> 400 * c" "400 * c \<le> y + 399"
    using leap_days_bounds [of y] by (simp_all add: a_def b_def c_def)
  moreover have "year_start y = 365 * y + a - b + c"
    by (simp add: year_start_def a_def b_def c_def)
  ultimately show "146097 * y - 3 * 400 \<le> 400 * year_start y"
    "400 * year_start y \<le> 146097 * y + 3 * 400" by linarith+
qed

lemma multiples_400:
  fixes y :: int
  shows "y mod 400 = 0 \<Longrightarrow> y mod 100 = 0" and "y mod 100 = 0 \<Longrightarrow> y mod 4 = 0"
  using dvd_trans [of 100 400 y] dvd_trans [of 4 100 y] by (auto simp: mod_eq_0_iff_dvd)

lemma year_start_Suc: "year_start (y + 1) = year_start y + (if is_leap y then 366 else 365)"
proof -
  define a b c where "a = (y + 3) div 4" and "b = (y + 99) div 100" and "c = (y + 399) div 400"
  have "y + 1 + 3 = y + 4" "y + 1 + 99 = y + 100" "y + 1 + 399 = y + 400" by simp_all
  then have "year_start (y + 1) = 365 * (y + 1) + (a + (if y mod 4 = 0 then 1 else 0))
      - (b + (if y mod 100 = 0 then 1 else 0)) + (c + (if y mod 400 = 0 then 1 else 0))"
    by (simp only: year_start_def next_multiples a_def b_def c_def)
  moreover have "year_start y = 365 * y + a - b + c"
    by (simp only: year_start_def a_def b_def c_def)
  moreover define p4 p100 p400 where "p4 = (y mod 4 = 0)" and "p100 = (y mod 100 = 0)"
    and "p400 = (y mod 400 = 0)"
  moreover have "p400 \<Longrightarrow> p100" "p100 \<Longrightarrow> p4"
    using multiples_400 [of y] by (simp_all add: p4_def p100_def p400_def)
  ultimately show ?thesis
    unfolding is_leap_def p4_def [symmetric] p100_def [symmetric] p400_def [symmetric]
    by (cases p4; cases p100; cases p400) simp_all
qed

lemma year_start_step: "year_start y < year_start (y + 1)"
  by (simp add: year_start_Suc)

lemma year_start_mono: "y \<le> y' \<Longrightarrow> year_start y \<le> year_start y'"
proof (induction "nat (y' - y)" arbitrary: y')
  case 0
  then show ?case by simp
next
  case (Suc n)
  then have "year_start y \<le> year_start (y' - 1)" by simp
  also have "\<dots> < year_start y'" using year_start_step [of "y' - 1"] by simp
  finally show ?case by simp
qed

lemma year_of_bounds: "year_start (year_of z) \<le> z \<and> z < year_start (year_of z + 1)"
proof -
  define g where "g = z * 400 div 146097"
  have g: "146097 * g \<le> 400 * z" "400 * z < 146097 * g + 146097"
    using div_bounds [of 146097 "z * 400", OF zero_less_numeral] by (simp_all add: g_def)
  have lo: "year_start (g - 1) \<le> z"
    using g year_start_bounds(2) [of "g - 1"] by simp
  have hi: "z < year_start (g + 2)"
    using g year_start_bounds(1) [of "g + 2"] by simp
  show ?thesis
    using lo hi by (auto simp: year_of_def g_def [symmetric] Let_def add.commute)
qed

lemma year_of_unique:
  assumes "year_start y \<le> z" and "z < year_start (y + 1)"
  shows "year_of z = y"
proof (rule ccontr)
  assume "year_of z \<noteq> y"
  then consider "year_of z + 1 \<le> y" | "y + 1 \<le> year_of z" by linarith
  then show False
    using assms year_of_bounds [of z] by cases (auto dest: year_start_mono)
qed

lemma yday_of_bounds: "0 \<le> yday_of z" "yday_of z < (if is_leap (year_of z) then 366 else 365)"
  using year_of_bounds [of z] year_start_Suc [of "year_of z"] by (auto simp: yday_of_def)

lemma month_of_bounds:
  assumes "0 \<le> n" and "n < (if lp then 366 else 365)"
  shows "1 \<le> month_of lp n \<and> month_of lp n \<le> 12 \<and>
         month_start lp (month_of lp n) \<le> n \<and> n < month_start lp (month_of lp n + 1)"
  using assms by (auto simp: month_of_def month_start_def Let_def)

lemma month_of_unique:
  assumes "1 \<le> m" "m \<le> 12" "month_start lp m \<le> n" "n < month_start lp (m + 1)"
  shows "month_of lp n = m"
  using assms by (cases lp) (auto simp: month_of_def month_start_def Let_def split: if_splits)

lemma mon_of_bounds:
  "1 \<le> mon_of z \<and> mon_of z \<le> 12 \<and>
   month_start (is_leap (year_of z)) (mon_of z) \<le> yday_of z \<and>
   yday_of z < month_start (is_leap (year_of z)) (mon_of z + 1)"
  unfolding mon_of_def by (rule month_of_bounds) (rule yday_of_bounds)+

lemma civil_valid: "valid_date (year_of z) (mon_of z) (mday_of z)"
  using mon_of_bounds [of z] by (auto simp: valid_date_def days_in_def mday_of_def)

lemma days_of_civil_of: "days_of_civil (year_of z) (mon_of z) (mday_of z) = z"
  by (simp add: days_of_civil_def mday_of_def yday_of_def)

lemma month_start_bound: "1 \<le> m \<Longrightarrow> m \<le> 12 \<Longrightarrow>
    0 \<le> month_start lp m \<and> month_start lp (m + 1) \<le> (if lp then 366 else 365)"
  by (auto simp: month_start_def Let_def)

lemma civil_of_days:
  assumes v: "valid_date y m d"
  shows "year_of (days_of_civil y m d) = y" "mon_of (days_of_civil y m d) = m"
    "mday_of (days_of_civil y m d) = d"
proof -
  have m: "1 \<le> m" "m \<le> 12" and d: "1 \<le> d" "d \<le> days_in m y"
    using v by (auto simp: valid_date_def)
  let ?z = "days_of_civil y m d"
  show y: "year_of ?z = y"
    using month_start_bound [OF m, of "is_leap y"] d
    by (intro year_of_unique) (auto simp: days_of_civil_def days_in_def year_start_Suc)
  then show mo: "mon_of ?z = m"
    using m d unfolding mon_of_def yday_of_def
    by (intro month_of_unique) (auto simp: days_of_civil_def days_in_def)
  show "mday_of ?z = d"
    by (simp add: mday_of_def yday_of_def y mo) (simp add: days_of_civil_def)
qed

section \<open>Fixed-width decimal fields\<close>

fun fixed :: "nat \<Rightarrow> nat \<Rightarrow> string" where
  "fixed 0 n = []"
| "fixed (Suc k) n = fixed k (n div 10) @ [digit_char (n mod 10)]"

lemma length_fixed [simp]: "length (fixed k n) = k"
  by (induction k arbitrary: n) auto

lemma fixed_digits: "\<forall>c \<in> set (fixed k n). is_digit c"
  by (induction k arbitrary: n) (auto simp: byte_simps)

lemma dec_value_fixed: "n < 10 ^ k \<Longrightarrow> dec_value 0 (fixed k n) = n"
proof (induction k arbitrary: n)
  case 0
  then show ?case by simp
next
  case (Suc k)
  then have "n div 10 < 10 ^ k" by (simp add: div_less_iff_less_mult mult.commute)
  with Suc.IH show ?case by (simp add: dec_value_append byte_simps)
qed

text \<open>Byte-wise order of texts: what SQLite's default collation compares.\<close>

fun text_less :: "string \<Rightarrow> string \<Rightarrow> bool" where
  "text_less _ [] = False"
| "text_less [] (_ # _) = True"
| "text_less (a # s) (b # t) = (code_of a < code_of b \<or> (a = b \<and> text_less s t))"

lemma text_less_same [simp]: "text_less (p @ s) (p @ t) = text_less s t"
  by (induction p) auto

lemma text_less_width:
  "length s = length t \<Longrightarrow> text_less s t \<Longrightarrow> text_less (s @ u) (t @ v)"
  by (induction s t rule: list_induct2) auto

lemma text_less_fixed_Suc:
  assumes "text_less s t \<or> (s = t \<and> code_of a < code_of b)" and "length s = length t"
  shows "text_less (s @ [a]) (t @ [b])"
  using assms by (auto intro: text_less_width)

lemma digit_char_less: "i < j \<Longrightarrow> j < 10 \<Longrightarrow> code_of (digit_char i) < code_of (digit_char j)"
  by (simp add: digit_char_def)

lemma text_less_fixed: "m < n \<Longrightarrow> n < 10 ^ k \<Longrightarrow> text_less (fixed k m) (fixed k n)"
proof (induction k arbitrary: m n)
  case 0
  then show ?case by simp
next
  case (Suc k)
  have n: "n div 10 < 10 ^ k"
    using Suc.prems by (simp add: div_less_iff_less_mult mult.commute)
  consider "m div 10 < n div 10" | "m div 10 = n div 10" "m mod 10 < n mod 10"
    using Suc.prems(1) by (metis div_le_mono div_mult_mod_eq le_neq_implies_less less_imp_le
        nat_add_left_cancel_less)
  then show ?case
  proof cases
    case 1
    with Suc.IH n have "text_less (fixed k (m div 10)) (fixed k (n div 10))" by blast
    then show ?thesis by (auto intro: text_less_fixed_Suc)
  next
    case 2
    then show ?thesis by (auto intro!: text_less_fixed_Suc digit_char_less)
  qed
qed

section \<open>Layouts\<close>

text \<open>The day 1 January 1970, counted from 1 January of year 0.\<close>

definition epoch_day :: int where
  "epoch_day = 719528"

definition day_of :: "instant \<Rightarrow> int" where
  "day_of t = t div nsec div 86400 + epoch_day"

definition sod_of :: "instant \<Rightarrow> nat" where
  "sod_of t = nat (t div nsec mod 86400)"

definition nano_of :: "instant \<Rightarrow> nat" where
  "nano_of t = nat (t mod nsec)"

definition Format_date :: "instant \<Rightarrow> string" where
  "Format_date t = fixed 4 (nat (year_of (day_of t))) @ ''-'' @ fixed 2 (nat (mon_of (day_of t)))
     @ ''-'' @ fixed 2 (nat (mday_of (day_of t)))"

definition Format_clock :: "instant \<Rightarrow> string" where
  "Format_clock t = fixed 2 (sod_of t div 3600) @ '':'' @ fixed 2 (sod_of t mod 3600 div 60)
     @ '':'' @ fixed 2 (sod_of t mod 60)"

text \<open>The fractional second of \<open>RFC3339Nano\<close>: trailing zeros dropped, nothing at all when zero.\<close>

definition Format_frac :: "nat \<Rightarrow> string" where
  "Format_frac n =
     (let ds = rev (dropWhile (\<lambda>c. c = CHR ''0'') (rev (fixed 9 n)))
      in if ds = [] then [] else CHR ''.'' # ds)"

definition Format_RFC3339 :: "instant \<Rightarrow> string" where
  "Format_RFC3339 t = Format_date t @ ''T'' @ Format_clock t @ ''Z''"

definition Format_RFC3339Nano :: "instant \<Rightarrow> string" where
  "Format_RFC3339Nano t = Format_date t @ ''T'' @ Format_clock t @ Format_frac (nano_of t) @ ''Z''"

text \<open>The instants whose year has four digits: every layout above then has its fixed width.\<close>

definition four_digit_year :: "instant \<Rightarrow> bool" where
  "four_digit_year t \<longleftrightarrow> 0 \<le> day_of t \<and> day_of t < year_start 10000"

lemma day_of_mono: "s \<le> t \<Longrightarrow> day_of s \<le> day_of t"
  by (simp add: day_of_def zdiv_mono1)

lemma four_digit_between:
  "four_digit_year s \<Longrightarrow> four_digit_year u \<Longrightarrow> s \<le> t \<Longrightarrow> t \<le> u \<Longrightarrow> four_digit_year t"
  using day_of_mono [of s t] day_of_mono [of t u] by (simp add: four_digit_year_def)

section \<open>Parsing\<close>

text \<open>Go's zero \<open>time.Time\<close>, 1 January of year 1: what a failed parse leaves.\<close>

definition zero_time :: instant where
  "zero_time = (days_of_civil 1 1 1 - epoch_day) * 86400 * nsec"

definition instant_of :: "int \<Rightarrow> int \<Rightarrow> int \<Rightarrow> nat \<Rightarrow> nat \<Rightarrow> nat \<Rightarrow> nat \<Rightarrow> instant" where
  "instant_of y m d hh mm ss ns =
     ((days_of_civil y m d - epoch_day) * 86400 + int (hh * 3600 + mm * 60 + ss)) * nsec + int ns"

definition parse_uint :: "string \<Rightarrow> nat \<Rightarrow> nat \<Rightarrow> nat option" where
  "parse_uint s lo hi =
     (if list_all is_digit s \<and> lo \<le> dec_value 0 s \<and> dec_value 0 s \<le> hi
      then Some (dec_value 0 s) else None)"

definition slice :: "nat \<Rightarrow> nat \<Rightarrow> string \<Rightarrow> string" where
  "slice i j s = take (j - i) (drop i s)"

definition parse_date :: "string \<Rightarrow> (nat \<times> nat \<times> nat) option" where
  "parse_date s =
     (case parse_uint (slice 0 4 s) 0 9999 of None \<Rightarrow> None | Some y \<Rightarrow>
      (case parse_uint (slice 5 7 s) 1 12 of None \<Rightarrow> None | Some m \<Rightarrow>
       (case parse_uint (slice 8 10 s) 1 (nat (days_in (int m) (int y))) of None \<Rightarrow> None | Some d \<Rightarrow>
        if slice 4 5 s = ''-'' \<and> slice 7 8 s = ''-'' then Some (y, m, d) else None)))"

text \<open>The layout \<open>2006-01-02\<close> takes exactly ten bytes.\<close>

definition Parse_date :: "string \<Rightarrow> instant option" where
  "Parse_date s =
     (if length s \<noteq> 10 then None
      else map_option (\<lambda>(y, m, d). instant_of (int y) (int m) (int d) 0 0 0 0) (parse_date s))"

text \<open>\<open>time.Parse\<close> with \<open>RFC3339\<close> or \<open>RFC3339Nano\<close>: date, clock, an optional fraction of which
  nine digits count, then \<open>Z\<close> or a numeric offset.\<close>

definition parse_frac :: "string \<Rightarrow> nat \<times> string" where
  "parse_frac s =
     (case s of
        c # d # _ \<Rightarrow>
          if c = CHR ''.'' \<and> is_digit d then
            (let ds = takeWhile is_digit (tl s); k = take 9 ds
             in (dec_value 0 k * 10 ^ (9 - length k), drop (length ds) (tl s)))
          else (0, s)
      | _ \<Rightarrow> (0, s))"

definition parse_zone :: "string \<Rightarrow> int option" where
  "parse_zone s =
     (if s = ''Z'' then Some 0
      else if length s \<noteq> 6 then None
      else case (parse_uint (slice 1 3 s) 0 23, parse_uint (slice 4 6 s) 0 59) of
             (Some h, Some m) \<Rightarrow>
               if slice 3 4 s \<noteq> '':'' then None
               else if slice 0 1 s = ''-'' then Some (- int (h * 3600 + m * 60))
               else if slice 0 1 s = ''+'' then Some (int (h * 3600 + m * 60))
               else None
           | _ \<Rightarrow> None)"

definition Parse_RFC3339 :: "string \<Rightarrow> instant option" where
  "Parse_RFC3339 s =
     (if length s < 19 then None else
      case parse_date (slice 0 10 s) of None \<Rightarrow> None | Some (y, m, d) \<Rightarrow>
      (case (parse_uint (slice 11 13 s) 0 23, parse_uint (slice 14 16 s) 0 59,
             parse_uint (slice 17 19 s) 0 59) of
         (Some hh, Some mm, Some ss) \<Rightarrow>
           if slice 10 11 s = ''T'' \<and> slice 13 14 s = '':'' \<and> slice 16 17 s = '':'' then
             (let (ns, rest) = parse_frac (drop 19 s)
              in map_option (\<lambda>off. instant_of (int y) (int m) (int d) hh mm ss ns - off * nsec)
                   (parse_zone rest))
           else None
       | _ \<Rightarrow> None))"

section \<open>Round trips\<close>

lemma four_digit_year_range:
  assumes "four_digit_year t"
  shows "0 \<le> year_of (day_of t)" "year_of (day_of t) \<le> 9999"
proof -
  let ?y = "year_of (day_of t)"
  have b: "year_start ?y \<le> day_of t" "day_of t < year_start (?y + 1)"
    using year_of_bounds [of "day_of t"] by auto
  have z: "year_start 0 = 0" by (simp add: year_start_def)
  show "0 \<le> ?y"
    using b(2) z assms year_start_mono [of "?y + 1" 0]
    by (cases "0 \<le> ?y") (auto simp: four_digit_year_def)
  show "?y \<le> 9999"
    using b(1) assms year_start_mono [of 10000 ?y]
    by (cases "?y \<le> 9999") (auto simp: four_digit_year_def)
qed

lemma mon_of_range: "1 \<le> mon_of z" "mon_of z \<le> 12"
  using mon_of_bounds [of z] by auto

lemma days_in_le: "days_in m y \<le> 366"
  by (auto simp: days_in_def month_start_def Let_def)

lemma days_in_le_31: "1 \<le> m \<Longrightarrow> m \<le> 12 \<Longrightarrow> days_in m y \<le> 31"
  by (cases "is_leap y") (auto simp: days_in_def month_start_def Let_def)

lemma mday_of_range: "1 \<le> mday_of z" "mday_of z \<le> days_in (mon_of z) (year_of z)" "mday_of z \<le> 31"
  using civil_valid [of z] days_in_le_31 [of "mon_of z" "year_of z"]
  by (auto simp: valid_date_def)

lemma parse_uint_fixed:
  "n < 10 ^ k \<Longrightarrow> lo \<le> n \<Longrightarrow> n \<le> hi \<Longrightarrow> parse_uint (fixed k n) lo hi = Some n"
  using fixed_digits [of k n] by (simp add: parse_uint_def dec_value_fixed list_all_iff)

lemma length_Format_date [simp]: "length (Format_date t) = 10"
  by (simp add: Format_date_def)

lemma parse_date_Format_date:
  assumes "four_digit_year t"
  shows "parse_date (Format_date t) =
    Some (nat (year_of (day_of t)), nat (mon_of (day_of t)), nat (mday_of (day_of t)))"
proof -
  let ?z = "day_of t"
  note y = four_digit_year_range [OF assms] and m = mon_of_range [of ?z] and d = mday_of_range [of ?z]
  have "slice 0 4 (Format_date t) = fixed 4 (nat (year_of ?z))"
    "slice 5 7 (Format_date t) = fixed 2 (nat (mon_of ?z))"
    "slice 8 10 (Format_date t) = fixed 2 (nat (mday_of ?z))"
    "slice 4 5 (Format_date t) = ''-''" "slice 7 8 (Format_date t) = ''-''"
    by (simp_all add: Format_date_def slice_def)
  moreover have "parse_uint (fixed 4 (nat (year_of ?z))) 0 9999 = Some (nat (year_of ?z))"
    using y by (intro parse_uint_fixed) simp_all
  moreover have "parse_uint (fixed 2 (nat (mon_of ?z))) 1 12 = Some (nat (mon_of ?z))"
    using m by (intro parse_uint_fixed) simp_all
  moreover have "parse_uint (fixed 2 (nat (mday_of ?z))) 1 (nat (days_in (mon_of ?z) (year_of ?z)))
      = Some (nat (mday_of ?z))"
    using d by (intro parse_uint_fixed) simp_all
  ultimately show ?thesis
    using y m by (simp add: parse_date_def)
qed

lemma sod_of_less: "sod_of t < 86400"
  by (simp add: sod_of_def nat_less_iff)

lemma nano_of_less: "nano_of t < 1000000000"
  by (simp add: nano_of_def nat_less_iff)

lemma sod_split: "s div 3600 * 3600 + s mod 3600 div 60 * 60 + s mod 60 = (s :: nat)"
proof -
  have "s mod 3600 mod 60 = s mod 60" by (simp add: mod_mod_cancel)
  then show ?thesis
    by (metis add.assoc div_mult_mod_eq)
qed

lemma instant_of_fields:
  "instant_of (year_of (day_of t)) (mon_of (day_of t)) (mday_of (day_of t))
     (sod_of t div 3600) (sod_of t mod 3600 div 60) (sod_of t mod 60) (nano_of t) = t"
  "instant_of (year_of (day_of t)) (mon_of (day_of t)) (mday_of (day_of t))
     (sod_of t div 3600) (sod_of t mod 3600 div 60) (sod_of t mod 60) 0 = t - t mod nsec"
proof -
  have "(day_of t - epoch_day) * 86400 + int (sod_of t) = t div nsec"
    by (simp add: day_of_def sod_of_def)
  then show "instant_of (year_of (day_of t)) (mon_of (day_of t)) (mday_of (day_of t))
      (sod_of t div 3600) (sod_of t mod 3600 div 60) (sod_of t mod 60) (nano_of t) = t"
    and "instant_of (year_of (day_of t)) (mon_of (day_of t)) (mday_of (day_of t))
      (sod_of t div 3600) (sod_of t mod 3600 div 60) (sod_of t mod 60) 0 = t - t mod nsec"
    by (simp_all only: instant_of_def days_of_civil_of sod_split nano_of_def)
      (simp_all add: minus_mod_eq_div_mult)
qed

lemma dec_value_zeros: "dec_value a (replicate k (CHR ''0'')) = a * 10 ^ k"
  by (induction k arbitrary: a) (simp_all add: digit_val_def)

lemma strip_zeros_split:
  fixes xs :: string
  obtains k where "xs = rev (dropWhile (\<lambda>c. c = CHR ''0'') (rev xs)) @ replicate k (CHR ''0'')"
proof -
  let ?z = "takeWhile (\<lambda>c. c = CHR ''0'') (rev xs)"
  have z: "?z = replicate (length ?z) (CHR ''0'')"
    by (rule replicate_eqI) (auto dest: set_takeWhileD)
  have "xs = rev (?z @ dropWhile (\<lambda>c. c = CHR ''0'') (rev xs))"
    by (simp only: takeWhile_dropWhile_id rev_rev_ident)
  then have "xs = rev (dropWhile (\<lambda>c. c = CHR ''0'') (rev xs)) @ replicate (length ?z) (CHR ''0'')"
    using z by (metis rev_append rev_replicate)
  then show thesis by (rule that)
qed

lemma parse_frac_Format_frac:
  assumes "n < 1000000000"
  shows "parse_frac (Format_frac n @ ''Z'') = (n, ''Z'')"
proof -
  obtain ds k where ds: "ds = rev (dropWhile (\<lambda>c. c = CHR ''0'') (rev (fixed 9 n)))"
    and split: "fixed 9 n = ds @ replicate k (CHR ''0'')"
    using strip_zeros_split [of "fixed 9 n"] by metis
  have len: "length ds + k = 9"
    using arg_cong [OF split, where f = length] by simp
  have dig: "\<forall>c \<in> set ds. is_digit c"
    using fixed_digits [of 9 n] by (simp add: split)
  have "dec_value 0 (fixed 9 n) = n"
    using assms by (intro dec_value_fixed) simp
  then have val: "dec_value 0 ds * 10 ^ k = n"
    by (simp add: split dec_value_append dec_value_zeros)
  have k: "k = 9 - length ds" using len by simp
  have z: "\<not> is_digit (CHR ''Z'')" by (simp add: is_digit_def)
  show ?thesis
  proof (cases ds)
    case Nil
    then have "Format_frac n = []"
      by (simp only: Format_frac_def ds [symmetric] Let_def) simp
    with val Nil show ?thesis
      by (simp add: parse_frac_def)
  next
    case (Cons d rest)
    then have "Format_frac n @ ''Z'' = CHR ''.'' # d # rest @ ''Z''"
      by (simp only: Format_frac_def ds [symmetric] Let_def) simp
    moreover have "takeWhile is_digit (d # rest @ ''Z'') = ds"
      using dig z Cons by (simp add: takeWhile_append)
    moreover have "take 9 ds = ds" using len by simp
    ultimately show ?thesis
      using dig val k Cons by (simp add: parse_frac_def Let_def)
  qed
qed

lemma length_Format_clock [simp]: "length (Format_clock t) = 8"
  by (simp add: Format_clock_def)

lemma Parse_RFC3339_layout:
  assumes "four_digit_year t"
  shows "Parse_RFC3339 (Format_date t @ ''T'' @ Format_clock t @ rest) =
    (let (ns, zone) = parse_frac rest
     in map_option (\<lambda>off. instant_of (year_of (day_of t)) (mon_of (day_of t)) (mday_of (day_of t))
            (sod_of t div 3600) (sod_of t mod 3600 div 60) (sod_of t mod 60) ns - off * nsec)
          (parse_zone zone))"
proof -
  let ?s = "Format_date t @ ''T'' @ Format_clock t @ rest"
  note y = four_digit_year_range(1) [OF assms] and m = mon_of_range(1) [of "day_of t"]
    and d = mday_of_range(1) [of "day_of t"]
  have date: "slice 0 10 ?s = Format_date t"
    by (simp add: slice_def)
  have sl: "slice 11 13 ?s = fixed 2 (sod_of t div 3600)"
    "slice 14 16 ?s = fixed 2 (sod_of t mod 3600 div 60)"
    "slice 17 19 ?s = fixed 2 (sod_of t mod 60)"
    "slice 10 11 ?s = ''T''" "slice 13 14 ?s = '':''" "slice 16 17 ?s = '':''"
    by (simp_all add: slice_def Format_clock_def)
  have r: "drop 19 ?s = rest"
    by simp
  have h: "parse_uint (fixed 2 (sod_of t div 3600)) 0 23 = Some (sod_of t div 3600)"
    "parse_uint (fixed 2 (sod_of t mod 3600 div 60)) 0 59 = Some (sod_of t mod 3600 div 60)"
    "parse_uint (fixed 2 (sod_of t mod 60)) 0 59 = Some (sod_of t mod 60)"
    using sod_of_less [of t] by (auto intro!: parse_uint_fixed simp: div_less_iff_less_mult less_Suc_eq_le [symmetric])
  have "\<not> length ?s < 19" by simp
  then show ?thesis
    using y m d unfolding Parse_RFC3339_def date parse_date_Format_date [OF assms] sl h r
    by (auto simp: split_beta)
qed

lemma Parse_Format_RFC3339Nano:
  assumes "four_digit_year t"
  shows "Parse_RFC3339 (Format_RFC3339Nano t) = Some t"
  unfolding Format_RFC3339Nano_def Parse_RFC3339_layout [OF assms]
  by (simp add: parse_frac_Format_frac nano_of_less parse_zone_def instant_of_fields)

lemma Parse_Format_RFC3339:
  assumes "four_digit_year t"
  shows "Parse_RFC3339 (Format_RFC3339 t) = Some (t - t mod nsec)"
  unfolding Format_RFC3339_def Parse_RFC3339_layout [OF assms]
  by (simp add: parse_frac_def parse_zone_def instant_of_fields)

section \<open>Order of the stored texts\<close>

lemma month_start_next:
  "m' < m \<Longrightarrow> 1 \<le> m' \<Longrightarrow> m \<le> 12 \<Longrightarrow> month_start lp (m' + 1) \<le> month_start lp m"
  by (cases lp) (simp add: month_start_def Let_def, arith)+

lemma civil_mono:
  assumes "z < z'"
  shows "year_of z < year_of z' \<or>
    (year_of z = year_of z' \<and>
      (mon_of z < mon_of z' \<or> (mon_of z = mon_of z' \<and> mday_of z < mday_of z')))"
proof (rule ccontr)
  assume no: "\<not> ?thesis"
  have "\<not> year_of z' < year_of z"
    using assms year_of_bounds [of z] year_of_bounds [of z']
      year_start_mono [of "year_of z' + 1" "year_of z"] by auto
  with no have y: "year_of z = year_of z'" by auto
  have "month_start (is_leap (year_of z)) (mon_of z' + 1) \<le> month_start (is_leap (year_of z)) (mon_of z)"
    if "mon_of z' < mon_of z"
    using that mon_of_range [of z] mon_of_range [of z'] by (intro month_start_next)
  then have "\<not> mon_of z' < mon_of z"
    using assms y mon_of_bounds [of z] mon_of_bounds [of z'] by (auto simp: yday_of_def)
  with no y have "mon_of z = mon_of z'" by auto
  with no y assms show False by (simp add: mday_of_def yday_of_def)
qed

lemma text_less_fields:
  assumes r: "a' < 10 ^ i" "b' < 10 ^ j" "c' < 10 ^ k"
    and "a < a' \<or> (a = a' \<and> (b < b' \<or> (b = b' \<and> c < c')))"
  shows "text_less (fixed i a @ s @ fixed j b @ t @ fixed k c)
    (fixed i a' @ s @ fixed j b' @ t @ fixed k c')"
proof -
  consider "a < a'" | "a = a'" "b < b'" | "a = a'" "b = b'" "c < c'"
    using assms(4) by blast
  then show ?thesis
  proof cases
    case 1
    with r show ?thesis by (intro text_less_width text_less_fixed) simp_all
  next
    case 2
    then have "text_less (fixed j b @ t @ fixed k c) (fixed j b' @ t @ fixed k c')"
      using r by (intro text_less_width text_less_fixed) simp_all
    with 2 show ?thesis by simp
  next
    case 3
    then have "text_less (fixed k c) (fixed k c')"
      using r by (intro text_less_fixed)
    with 3 show ?thesis by simp
  qed
qed

lemma Format_date_less:
  assumes "four_digit_year a" "four_digit_year b" "day_of a < day_of b"
  shows "text_less (Format_date a) (Format_date b)"
proof -
  let ?y = "\<lambda>t. nat (year_of (day_of t))" and ?m = "\<lambda>t. nat (mon_of (day_of t))"
    and ?d = "\<lambda>t. nat (mday_of (day_of t))"
  have r: "?y b < 10 ^ 4" "?m b < 10 ^ 2" "?d b < 10 ^ 2"
    using four_digit_year_range [OF assms(2)] mon_of_range [of "day_of b"] mday_of_range [of "day_of b"]
    by auto
  have "?y a < ?y b \<or> (?y a = ?y b \<and> (?m a < ?m b \<or> (?m a = ?m b \<and> ?d a < ?d b)))"
    using civil_mono [OF assms(3)] four_digit_year_range [OF assms(1)] four_digit_year_range [OF assms(2)]
      mon_of_range [of "day_of a"] mday_of_range [of "day_of a"]
      mon_of_range [of "day_of b"] mday_of_range [of "day_of b"] by auto
  then show ?thesis
    using r unfolding Format_date_def by (intro text_less_fields)
qed

lemma Format_clock_less:
  assumes "sod_of a < sod_of b"
  shows "text_less (Format_clock a) (Format_clock b)"
proof -
  let ?a = "sod_of a" and ?b = "sod_of b"
  have r: "?b div 3600 < 10 ^ 2" "?b mod 3600 div 60 < 10 ^ 2" "?b mod 60 < 10 ^ 2"
    using sod_of_less [of b] by (auto simp: div_less_iff_less_mult)
  have "?a div 3600 < ?b div 3600 \<or> (?a div 3600 = ?b div 3600 \<and>
      (?a mod 3600 div 60 < ?b mod 3600 div 60 \<or>
       (?a mod 3600 div 60 = ?b mod 3600 div 60 \<and> ?a mod 60 < ?b mod 60)))"
    using assms sod_split [of ?a] sod_split [of ?b] by arith
  then show ?thesis
    using r unfolding Format_clock_def by (intro text_less_fields)
qed

lemma RFC3339Nano_less:
  assumes "four_digit_year a" "four_digit_year b" "a div nsec < b div nsec"
  shows "text_less (Format_RFC3339Nano a) (Format_RFC3339Nano b)"
proof -
  have le: "a div nsec div 86400 \<le> b div nsec div 86400"
    using assms(3) by (intro zdiv_mono1) simp_all
  have lt: "a div nsec mod 86400 < b div nsec mod 86400"
    if "a div nsec div 86400 = b div nsec div 86400"
    using that assms(3) div_mult_mod_eq [of "a div nsec" 86400] div_mult_mod_eq [of "b div nsec" 86400]
    by linarith
  have "sod_of a < sod_of b" if "a div nsec div 86400 = b div nsec div 86400"
  proof -
    have "0 \<le> a div nsec mod 86400" by simp
    with lt [OF that] show ?thesis unfolding sod_of_def by linarith
  qed
  with le have "day_of a < day_of b \<or> (day_of a = day_of b \<and> sod_of a < sod_of b)"
    by (auto simp: day_of_def order_le_less)
  then show ?thesis
  proof
    assume "day_of a < day_of b"
    then show ?thesis
      using assms unfolding Format_RFC3339Nano_def by (intro text_less_width Format_date_less) simp_all
  next
    assume d: "day_of a = day_of b \<and> sod_of a < sod_of b"
    then have "Format_date a = Format_date b" by (simp add: Format_date_def)
    with d show ?thesis
      unfolding Format_RFC3339Nano_def by (auto intro: text_less_width Format_clock_less)
  qed
qed

end
