(* ===== verification/GoDuration.thy ===== *)
theory GoDuration imports GoTime begin

text \<open>
  \<open>time.Duration\<close>: nanoseconds as an integer in the 64-bit range, \<open>time.ParseDuration\<close> and
  \<open>Duration.String\<close>. A fraction such as the \<open>.5\<close> of \<open>1.5s\<close> is scaled exactly here (Go scales it in
  \<open>float64\<close>, which agrees whenever the fraction has at most 15 digits and may otherwise be off in the
  last nanosecond).
\<close>

type_synonym duration = int

definition Second :: duration where
  "Second = nsec"

section \<open>ParseDuration\<close>

definition duration_units :: "(string \<times> nat) list" where
  "duration_units =
     [(''ns'', 1), (''us'', 1000), (CHR 0xC2 # CHR 0xB5 # ''s'', 1000),
      (CHR 0xCE # CHR 0xBC # ''s'', 1000), (''ms'', 1000000), (''s'', 1000000000),
      (''m'', 60000000000), (''h'', 3600000000000)]"

text \<open>Digits after the decimal point, with their scale; digits that no longer fit are dropped.\<close>

fun leading_fraction :: "string \<Rightarrow> bool \<Rightarrow> nat \<Rightarrow> nat \<Rightarrow> nat \<times> nat" where
  "leading_fraction [] over x scale = (x, scale)"
| "leading_fraction (c # s) over x scale =
     (if over \<or> x > (2 ^ 63 - 1) div 10 \<or> x * 10 + digit_val c > 2 ^ 63 then
        leading_fraction s True x scale
      else leading_fraction s False (x * 10 + digit_val c) (scale * 10))"

text \<open>One number with its unit, from the front of the text.\<close>

definition duration_part :: "string \<Rightarrow> string \<Rightarrow> (nat \<times> string) res" where
  "duration_part orig s =
     (let invalid = errorf (''time: invalid duration '' @ go_quote orig);
          pre = takeWhile is_digit s;
          v = dec_value 0 pre;
          s1 = dropWhile is_digit s;
          dot = (s1 \<noteq> [] \<and> hd s1 = CHR ''.'');
          post = (if dot then takeWhile is_digit (tl s1) else []);
          (f, scale) = leading_fraction post False 0 1;
          s2 = (if dot then dropWhile is_digit (tl s1) else s1);
          u = takeWhile (\<lambda>c. c \<noteq> CHR ''.'' \<and> \<not> is_digit c) s2;
          rest = dropWhile (\<lambda>c. c \<noteq> CHR ''.'' \<and> \<not> is_digit c) s2
      in if s = [] \<or> \<not> (hd s = CHR ''.'' \<or> is_digit (hd s)) then Inl invalid
         else if v > 2 ^ 63 then Inl invalid
         else if pre = [] \<and> post = [] then Inl invalid
         else if u = [] then Inl (errorf (''time: missing unit in duration '' @ go_quote orig))
         else case map_of duration_units u of
           None \<Rightarrow> Inl (errorf (''time: unknown unit '' @ go_quote u @ '' in duration '' @ go_quote orig))
         | Some unit \<Rightarrow>
             if v > 2 ^ 63 div unit then Inl invalid
             else if v * unit + f * unit div scale > 2 ^ 63 then Inl invalid
             else Inr (v * unit + f * unit div scale, rest))"

lemma duration_part_shorter:
  assumes "duration_part orig s = Inr (v, rest)"
  shows "length rest < length s"
proof -
  let ?unit = "\<lambda>c. c \<noteq> CHR ''.'' \<and> \<not> is_digit c"
  have drop: "length (dropWhile P t) \<le> length t" for P and t :: string
    by (rule length_dropWhile_le)
  have unit: "length (dropWhile ?unit t) < length t" if "takeWhile ?unit t \<noteq> []" for t
  proof -
    have "length t = length (takeWhile ?unit t) + length (dropWhile ?unit t)"
      by (metis takeWhile_dropWhile_id length_append)
    with that show ?thesis by simp
  qed
  obtain t where t: "length t \<le> length s" "takeWhile ?unit t \<noteq> []" "rest = dropWhile ?unit t"
  proof (cases "dropWhile is_digit s \<noteq> [] \<and> hd (dropWhile is_digit s) = CHR ''.''")
    case True
    let ?t = "dropWhile is_digit (tl (dropWhile is_digit s))"
    have "length ?t \<le> length s"
      using drop [of is_digit s] drop [of is_digit "tl (dropWhile is_digit s)"] by simp
    moreover have "takeWhile ?unit ?t \<noteq> []" "rest = dropWhile ?unit ?t"
      using assms True
      by (auto simp: duration_part_def Let_def split: if_splits option.splits prod.splits)
    ultimately show ?thesis using that by blast
  next
    case False
    let ?t = "dropWhile is_digit s"
    have "takeWhile ?unit ?t \<noteq> []" "rest = dropWhile ?unit ?t"
      using assms False
      by (auto simp: duration_part_def Let_def split: if_splits option.splits prod.splits)
    then show ?thesis using that drop by blast
  qed
  with unit [OF t(2)] show ?thesis by simp
qed

function duration_sum :: "string \<Rightarrow> string \<Rightarrow> nat \<Rightarrow> nat res" where
  "duration_sum orig s d =
     (if s = [] then Inr d
      else case duration_part orig s of
        Inl e \<Rightarrow> Inl e
      | Inr (v, rest) \<Rightarrow>
          if d + v > 2 ^ 63 then Inl (errorf (''time: invalid duration '' @ go_quote orig))
          else duration_sum orig rest (d + v))"
  by pat_completeness auto
termination
  by (relation "measure (\<lambda>(orig, s, d). length s)") (auto dest: duration_part_shorter)

declare duration_sum.simps [simp del]

definition ParseDuration :: "string \<Rightarrow> duration res" where
  "ParseDuration s =
     (let invalid = errorf (''time: invalid duration '' @ go_quote s);
          signed = (s \<noteq> [] \<and> (hd s = CHR ''-'' \<or> hd s = CHR ''+''));
          neg = (signed \<and> hd s = CHR ''-'');
          body = (if signed then tl s else s)
      in if body = ''0'' then Inr 0
         else if body = '''' then Inl invalid
         else case duration_sum s body 0 of
           Inl e \<Rightarrow> Inl e
         | Inr d \<Rightarrow>
             if neg then Inr (- int d)
             else if d > 2 ^ 63 - 1 then Inl invalid
             else Inr (int d))"

section \<open>String\<close>

text \<open>\<open>n / 10^prec\<close> with its fraction, trailing zeros and an empty fraction dropped.\<close>

definition fmt_frac :: "nat \<Rightarrow> nat \<Rightarrow> string" where
  "fmt_frac prec n =
     (let digits = strings_TrimRight (fixed prec (n mod 10 ^ prec)) ''0''
      in if digits = '''' then '''' else ''.'' @ digits)"

definition Duration_String :: "duration \<Rightarrow> string" where
  "Duration_String d =
     (let u = nat \<bar>d\<bar>;
          sign = (if d < 0 then ''-'' else '''');
          secs = u div 1000000000;
          mins = secs div 60
      in if u = 0 then ''0s''
         else if u < 1000 then sign @ format_nat u @ ''ns''
         else if u < 1000000 then
           sign @ format_nat (u div 1000) @ fmt_frac 3 u @ CHR 0xC2 # CHR 0xB5 # ''s''
         else if u < 1000000000 then sign @ format_nat (u div 1000000) @ fmt_frac 6 u @ ''ms''
         else sign @
           (if mins = 0 then '''' else
              (if mins div 60 = 0 then '''' else format_nat (mins div 60) @ ''h'') @
              format_nat (mins mod 60) @ ''m'') @
           format_nat (secs mod 60) @ fmt_frac 9 u @ ''s'')"

lemma duration_sum_bound: "duration_sum orig t k = Inr r \<Longrightarrow> k \<le> 2 ^ 63 \<Longrightarrow> r \<le> 2 ^ 63"
proof (induction orig t k rule: duration_sum.induct)
  case (1 orig t k)
  show ?case
  proof (cases "t = []")
    case True
    with 1(2,3) show ?thesis by (simp add: duration_sum.simps)
  next
    case False
    obtain v rest where p: "duration_part orig t = Inr (v, rest)"
      using 1(2) False by (subst (asm) duration_sum.simps) (auto split: sum.splits)
    with 1(2) False have "\<not> k + v > 2 ^ 63" "duration_sum orig rest (k + v) = Inr r"
      by (subst (asm) duration_sum.simps; simp split: if_splits)+
    then show ?thesis using 1(1) [of "(v, rest)" v rest] False p by simp
  qed
qed

lemma ParseDuration_range:
  assumes "ParseDuration s = Inr d"
  shows "int64_ok d"
proof -
  have b: "duration_sum orig t 0 = Inr r \<Longrightarrow> r \<le> 2 ^ 63" for orig t r
    using duration_sum_bound [of orig t 0 r] by simp
  show ?thesis
    using assms
    by (auto simp: ParseDuration_def int64_ok_def Let_def split: if_splits sum.splits dest!: b)
qed

lemma ParseDuration_default: "ParseDuration ''5s'' = Inr (5 * Second)"
  by (simp add: ParseDuration_def duration_sum.simps duration_part_def duration_units_def
      is_digit_def digit_val_def Second_def)

end
