(* ===== verification/GoPath.thy ===== *)
theory GoPath imports GoStrings begin

text \<open>
  \<open>path/filepath\<close> on a Unix system: Clean, Join and IsAbs. The lemmas say that joining a plain
  name to a directory appends it, so that directories of different names are apart.
\<close>

definition filepath_IsAbs :: "string \<Rightarrow> bool" where
  "filepath_IsAbs p \<longleftrightarrow> p \<noteq> '''' \<and> hd p = CHR ''/''"

text \<open>The elements of a path are taken one by one onto a stack (kept reversed).\<close>

fun clean_step :: "bool \<Rightarrow> string list \<Rightarrow> string \<Rightarrow> string list" where
  "clean_step rooted st e =
     (if e = '''' \<or> e = ''.'' then st
      else if e = ''..'' then
        (case st of
           [] \<Rightarrow> if rooted then [] else [''..'']
         | t # ts \<Rightarrow> if t = ''..'' then ''..'' # st else ts)
      else e # st)"

definition clean_stack :: "bool \<Rightarrow> string list \<Rightarrow> string list" where
  "clean_stack rooted es = foldl (clean_step rooted) [] es"

definition filepath_Clean :: "string \<Rightarrow> string" where
  "filepath_Clean p =
     (if p = '''' then ''.'' else
      let rooted = filepath_IsAbs p;
          body = strings_Join (rev (clean_stack rooted (split_on (CHR ''/'') p))) ''/''
      in if rooted then CHR ''/'' # body else if body = '''' then ''.'' else body)"

definition filepath_Join :: "string list \<Rightarrow> string" where
  "filepath_Join elems =
     (let es = dropWhile (\<lambda>e. e = '''') elems
      in if es = [] then '''' else filepath_Clean (strings_Join es ''/''))"

text \<open>A name that can be one component of a path.\<close>

definition plain_name :: "string \<Rightarrow> bool" where
  "plain_name n \<longleftrightarrow> n \<noteq> '''' \<and> n \<noteq> ''.'' \<and> n \<noteq> ''..'' \<and> CHR ''/'' \<notin> set n"

lemma split_on_append2: "split_on d (a @ d # b) = split_on d a @ split_on d b"
proof (induction a)
  case Nil
  then show ?case by simp
next
  case (Cons c a)
  obtain q qs where "split_on d a = q # qs" by (cases "split_on d a") auto
  with Cons show ?case by (cases "c = d") auto
qed

lemma clean_stack_snoc:
  "plain_name n \<Longrightarrow> clean_stack rooted (es @ [n]) = n # clean_stack rooted es"
  by (auto simp: clean_stack_def plain_name_def)

lemma strings_Join_snoc:
  "strings_Join (ss @ [s]) sep = (if ss = [] then s else strings_Join ss sep @ sep @ s)"
  by (induction ss) (auto simp: strings_Join_Cons)

lemma Clean_append_name:
  assumes "p \<noteq> ''''" and n: "plain_name n"
  shows "filepath_Clean (p @ CHR ''/'' # n) =
    (let st = clean_stack (filepath_IsAbs p) (split_on (CHR ''/'') p)
     in if st = [] then (if filepath_IsAbs p then CHR ''/'' # n else n)
        else (if filepath_IsAbs p then ''/'' else '''') @ strings_Join (rev st) ''/'' @ CHR ''/'' # n)"
proof -
  have "split_on (CHR ''/'') (p @ CHR ''/'' # n) = split_on (CHR ''/'') p @ [n]"
    using n by (simp add: split_on_append2 split_on_none plain_name_def)
  moreover have "filepath_IsAbs (p @ CHR ''/'' # n) = filepath_IsAbs p"
    using assms(1) by (simp add: filepath_IsAbs_def)
  moreover have "n \<noteq> ''''" using n by (simp add: plain_name_def)
  ultimately show ?thesis
    using assms(1)
    by (simp add: filepath_Clean_def Let_def clean_stack_snoc [OF n] strings_Join_snoc)
qed

text \<open>\<open>filepath.Join(dir, "proxies", id)\<close> for a plain id: the directory \<open>dir/proxies\<close>, then the id.\<close>

lemma plain_proxies: "plain_name ''proxies''"
  by (simp add: plain_name_def)

lemma Join_dir: "d \<noteq> '''' \<Longrightarrow> filepath_Join [d, n] = filepath_Clean (d @ CHR ''/'' # n)"
  by (simp add: filepath_Join_def)

lemma Join_proxies:
  assumes n: "plain_name n"
  shows "filepath_Join [d, ''proxies'', n] = filepath_Join [d, ''proxies''] @ CHR ''/'' # n"
proof (cases "d = ''''")
  case True
  have "filepath_Join [d, ''proxies'', n] = filepath_Clean (''proxies'' @ CHR ''/'' # n)"
    using True by (simp add: filepath_Join_def)
  moreover have "filepath_Join [d, ''proxies''] = ''proxies''"
    using True by (simp add: filepath_Join_def filepath_Clean_def filepath_IsAbs_def clean_stack_def Let_def)
  moreover have "filepath_Clean (''proxies'' @ CHR ''/'' # n) = ''proxies'' @ CHR ''/'' # n"
    by (subst Clean_append_name [OF _ n]) (simp_all add: filepath_IsAbs_def clean_stack_def)
  ultimately show ?thesis by (simp only: append.simps)
next
  case False
  let ?dp = "d @ CHR ''/'' # ''proxies''"
  let ?st = "clean_stack (filepath_IsAbs d) (split_on (CHR ''/'') d)"
  have abs: "filepath_IsAbs ?dp = filepath_IsAbs d"
    using False by (simp add: filepath_IsAbs_def)
  have split: "split_on (CHR ''/'') ?dp = split_on (CHR ''/'') d @ [''proxies'']"
    by (simp add: split_on_append2)
  have st: "clean_stack (filepath_IsAbs ?dp) (split_on (CHR ''/'') ?dp) = ''proxies'' # ?st"
    unfolding abs split by (rule clean_stack_snoc [OF plain_proxies])
  have ne: "?dp \<noteq> ''''" by simp
  have "filepath_Join [d, ''proxies'', n] = filepath_Clean (?dp @ CHR ''/'' # n)"
    using False by (simp add: filepath_Join_def)
  moreover have "filepath_Clean (?dp @ CHR ''/'' # n) = (if filepath_IsAbs d then ''/'' else '''') @
      strings_Join (rev (''proxies'' # ?st)) ''/'' @ CHR ''/'' # n"
    by (simp only: Clean_append_name [OF ne n] abs split clean_stack_snoc [OF plain_proxies] Let_def list.distinct if_False)
  moreover have "filepath_Join [d, ''proxies''] =
      (if filepath_IsAbs d then ''/'' else '''') @ strings_Join (rev (''proxies'' # ?st)) ''/''"
    unfolding Join_dir [OF False]
    by (subst Clean_append_name [OF False plain_proxies]) (simp add: Let_def strings_Join_snoc)
  ultimately show ?thesis by (simp only: append_assoc append_Cons)
qed

section \<open>Cleaned paths\<close>

text \<open>The stacks that cleaning leaves: plain elements, and \<open>..\<close> only at the bottom of a relative path.\<close>

fun ok_stack :: "bool \<Rightarrow> string list \<Rightarrow> bool" where
  "ok_stack rooted [] = True"
| "ok_stack rooted (t # ts) \<longleftrightarrow>
     t \<noteq> '''' \<and> t \<noteq> ''.'' \<and> CHR ''/'' \<notin> set t \<and>
     (t = ''..'' \<longrightarrow> \<not> rooted \<and> list_all (\<lambda>u. u = ''..'') ts) \<and> ok_stack rooted ts"

lemma ok_stack_step:
  "ok_stack rooted st \<Longrightarrow> CHR ''/'' \<notin> set e \<Longrightarrow> ok_stack rooted (clean_step rooted st e)"
  by (cases st) auto

lemma ok_stack_fold:
  "ok_stack rooted st \<Longrightarrow> \<forall>e \<in> set es. CHR ''/'' \<notin> set e \<Longrightarrow> ok_stack rooted (foldl (clean_step rooted) st es)"
  by (induction es arbitrary: st) (simp_all add: ok_stack_step del: clean_step.simps)

lemma ok_stack_clean: "ok_stack rooted (clean_stack rooted (split_on (CHR ''/'') p))"
  unfolding clean_stack_def by (rule ok_stack_fold) (use split_on_pieces in auto)

lemma clean_stack_rev: "ok_stack rooted st \<Longrightarrow> clean_stack rooted (rev st) = st"
proof (induction st)
  case Nil
  then show ?case by (simp add: clean_stack_def)
next
  case (Cons t ts)
  then have "clean_stack rooted (rev (t # ts)) = clean_step rooted ts t"
    by (simp add: clean_stack_def)
  with Cons.prems show ?case by (cases ts) auto
qed

lemma ok_stack_elems: "ok_stack rooted st \<Longrightarrow> e \<in> set st \<Longrightarrow> e \<noteq> '''' \<and> CHR ''/'' \<notin> set e"
  by (induction st) auto

text \<open>A non-trivial stack as a path, and what cleaning it again sees.\<close>

definition path_of :: "bool \<Rightarrow> string list \<Rightarrow> string" where
  "path_of rooted st = (if rooted then ''/'' else '''') @ strings_Join (rev st) ''/''"

lemma path_of_parts:
  assumes ok: "ok_stack rooted st" and "st \<noteq> []"
  shows "filepath_IsAbs (path_of rooted st) = rooted"
    and "clean_stack rooted (split_on (CHR ''/'') (path_of rooted st)) = st"
    and "path_of rooted st \<noteq> ''''"
proof -
  obtain e es where rev: "rev st = e # es" using assms(2) by (cases "rev st") auto
  have e: "e \<noteq> ''''" "CHR ''/'' \<notin> set e"
    using ok_stack_elems [OF ok, of e] rev by (metis list.set_intros(1) set_rev)+
  then obtain c cs where c: "e = c # cs" "c \<noteq> CHR ''/''" by (cases e) auto
  have join: "strings_Join (rev st) ''/'' = c # strings_Join (cs # es) ''/''"
    by (simp add: rev c strings_Join_push)
  show "filepath_IsAbs (path_of rooted st) = rooted"
    using c by (simp add: path_of_def filepath_IsAbs_def join)
  show "path_of rooted st \<noteq> ''''" by (simp add: path_of_def join)
  have split: "split_on (CHR ''/'') (strings_Join (rev st) ''/'') = rev st"
    using ok_stack_elems [OF ok] assms(2) by (intro split_on_join) auto
  have "clean_stack rooted ('''' # rev st) = clean_stack rooted (rev st)"
    by (simp add: clean_stack_def)
  then show "clean_stack rooted (split_on (CHR ''/'') (path_of rooted st)) = st"
    using clean_stack_rev [OF ok] split by (cases rooted) (simp_all add: path_of_def)
qed

lemma Clean_path_of:
  assumes "ok_stack rooted st" "st \<noteq> []"
  shows "filepath_Clean (path_of rooted st) = path_of rooted st"
proof -
  have "filepath_Clean (path_of rooted st) =
      (let body = strings_Join (rev st) ''/''
       in if rooted then CHR ''/'' # body else if body = '''' then ''.'' else body)"
    unfolding filepath_Clean_def using path_of_parts [OF assms] by (simp only: if_False Let_def)
  then show ?thesis
    using path_of_parts(3) [OF assms] by (cases rooted) (simp_all add: path_of_def Let_def)
qed

lemma Join_path_of:
  assumes "ok_stack rooted st" "st \<noteq> []" "plain_name n"
  shows "filepath_Join [path_of rooted st, n] = path_of rooted st @ CHR ''/'' # n"
  unfolding Join_dir [OF path_of_parts(3) [OF assms(1,2)]]
    Clean_append_name [OF path_of_parts(3) [OF assms(1,2)] assms(3)]
  using path_of_parts [OF assms(1,2)] assms(2) by (simp add: path_of_def)

text \<open>\<open>filepath.Dir\<close>: everything up to the last slash, cleaned.\<close>

definition filepath_Dir :: "string \<Rightarrow> string" where
  "filepath_Dir p = filepath_Clean (rev (dropWhile (\<lambda>c. c \<noteq> CHR ''/'') (rev p)))"

lemma Dir_path_of:
  assumes ok: "ok_stack rooted st" "st \<noteq> []" and n: "plain_name n"
  shows "filepath_Dir (path_of rooted st @ CHR ''/'' # n) = path_of rooted st"
proof -
  let ?p = "path_of rooted st"
  have none: "\<forall>c \<in> set (rev n). c \<noteq> CHR ''/''" using n by (auto simp: plain_name_def)
  have "dropWhile (\<lambda>c. c \<noteq> CHR ''/'') (rev n @ CHR ''/'' # rev ?p) = CHR ''/'' # rev ?p"
    using none by (simp add: dropWhile_append)
  then have dir: "filepath_Dir (?p @ CHR ''/'' # n) = filepath_Clean (?p @ CHR ''/'' # '''')"
    by (simp add: filepath_Dir_def)
  have sp: "split_on (CHR ''/'') (?p @ CHR ''/'' # '''') = split_on (CHR ''/'') ?p @ ['''']"
    by (simp only: split_on_append2 split_on.simps)
  have st: "clean_stack r (es @ ['''']) = clean_stack r es" for r es
    by (simp add: clean_stack_def)
  have abs: "filepath_IsAbs (?p @ CHR ''/'' # '''') = filepath_IsAbs ?p"
    using path_of_parts(3) [OF ok] by (simp add: filepath_IsAbs_def)
  have "filepath_Clean (?p @ CHR ''/'' # '''') = filepath_Clean ?p"
    unfolding filepath_Clean_def Let_def sp st abs using path_of_parts(3) [OF ok]
    by (simp only: append_is_Nil_conv simp_thms if_False)
  with dir show ?thesis by (simp add: Clean_path_of [OF ok])
qed

text \<open>The directory of one proxy, and the names inside it.\<close>

lemma Join_proxies_path:
  assumes n: "plain_name n"
  obtains rooted st where "ok_stack rooted st" "st \<noteq> []"
    "filepath_Join [d, ''proxies'', n] = path_of rooted st"
proof (cases "d = ''''")
  case True
  have "filepath_Join [d, ''proxies'', n] = filepath_Clean (''proxies'' @ CHR ''/'' # n)"
    using True by (simp add: filepath_Join_def)
  also have "\<dots> = path_of False [n, ''proxies'']"
    by (subst Clean_append_name [OF _ n]) (simp_all add: filepath_IsAbs_def clean_stack_def path_of_def)
  finally show ?thesis
    using n by (intro that [of False "[n, ''proxies'']"]) (auto simp: plain_name_def)
next
  case False
  let ?st = "clean_stack (filepath_IsAbs d) (split_on (CHR ''/'') d)"
  have "filepath_Join [d, ''proxies''] = path_of (filepath_IsAbs d) (''proxies'' # ?st)"
    unfolding Join_dir [OF False]
    by (subst Clean_append_name [OF False plain_proxies])
      (simp add: Let_def strings_Join_snoc path_of_def)
  then have "filepath_Join [d, ''proxies'', n] = path_of (filepath_IsAbs d) (n # ''proxies'' # ?st)"
    unfolding Join_proxies [OF n] path_of_def
    using strings_Join_snoc [of "rev (''proxies'' # ?st)" n "''/''"] by simp
  then show ?thesis
    using n ok_stack_clean [of "filepath_IsAbs d" d]
    by (intro that [of "filepath_IsAbs d" "n # ''proxies'' # ?st"]) (auto simp: plain_name_def)
qed

lemma Join_file:
  assumes "plain_name pid" "plain_name n"
  shows "filepath_Join [filepath_Join [d, ''proxies'', pid], n] =
      filepath_Join [d, ''proxies'', pid] @ CHR ''/'' # n"
    and "filepath_Dir (filepath_Join [d, ''proxies'', pid] @ CHR ''/'' # n) =
      filepath_Join [d, ''proxies'', pid]"
proof -
  obtain rooted st where p: "ok_stack rooted st" "st \<noteq> []"
    "filepath_Join [d, ''proxies'', pid] = path_of rooted st"
    using Join_proxies_path [OF assms(1)] .
  show "filepath_Join [filepath_Join [d, ''proxies'', pid], n] =
      filepath_Join [d, ''proxies'', pid] @ CHR ''/'' # n"
    unfolding p(3) by (rule Join_path_of [OF p(1,2) assms(2)])
  show "filepath_Dir (filepath_Join [d, ''proxies'', pid] @ CHR ''/'' # n) =
      filepath_Join [d, ''proxies'', pid]"
    unfolding p(3) by (rule Dir_path_of [OF p(1,2) assms(2)])
qed

end
