(* ===== verification/Config.thy ===== *)
theory Config imports GoDuration GoPath begin

text \<open>
  \<open>internal/config\<close>: the panel's settings from the environment (\<open>os.Getenv\<close> is the argument
  \<open>getenv\<close>, which gives the empty string for an unset variable), and the advisory check of the
  host's data directory.
\<close>

record config =
  cf_ListenAddr :: string
  cf_DataDir :: string
  cf_Network :: string
  cf_NetworkSubnet :: string
  cf_TelemtImage :: string
  cf_PublicHost :: string
  cf_PollInterval :: duration
  cf_ReservedPorts :: "int list"

definition env :: "(string \<Rightarrow> string) \<Rightarrow> string \<Rightarrow> string \<Rightarrow> string" where
  "env getenv key dflt = (let v = getenv key in if v \<noteq> '''' then v else dflt)"

definition Load :: "(string \<Rightarrow> string) \<Rightarrow> config res" where
  "Load getenv =
     (case ParseDuration (env getenv ''PANEL_POLL_INTERVAL'' ''5s'') of
        Inl e \<Rightarrow> Inl (errorf_wrap ''PANEL_POLL_INTERVAL: '' e)
      | Inr d \<Rightarrow>
          if d < Second then
            Inl (errorf (''PANEL_POLL_INTERVAL: '' @ Duration_String d @ '' is below the 1s minimum''))
          else Inr
            \<lparr>cf_ListenAddr = env getenv ''PANEL_LISTEN'' '':8080'',
             cf_DataDir = env getenv ''PANEL_DATA_DIR'' ''/data'',
             cf_Network = env getenv ''MTPANEL_NETWORK'' ''mtpanel_net'',
             cf_NetworkSubnet = env getenv ''MTPANEL_SUBNET'' ''172.28.0.0/16'',
             cf_TelemtImage = env getenv ''TELEMT_IMAGE'' ''ghcr.io/telemt/telemt:latest'',
             cf_PublicHost = env getenv ''PANEL_PUBLIC_HOST'' '''',
             cf_PollInterval = d,
             cf_ReservedPorts = [80, 8443]\<rparr>)"

text \<open>The dash of the two messages below is a three-byte character.\<close>

definition em_dash :: string where
  "em_dash = [CHR 0xE2, CHR 0x80, CHR 0x94]"

definition ValidateHostDataDir :: "string \<Rightarrow> string \<Rightarrow> string" where
  "ValidateHostDataDir hostDataDir containerDataDir =
     (if hostDataDir = '''' then
        ''PANEL_HOST_DATA_DIR is unset; proxy config mounts will use '' @ containerDataDir @ '' '' @
        em_dash @ '' set PANEL_HOST_DATA_DIR to this repo'' @ CHR 0x27 #
        ''s host-side ./data path (see .env.example) or the containers Docker starts will mount an empty, non-existent host directory''
      else if \<not> filepath_IsAbs hostDataDir then
        ''PANEL_HOST_DATA_DIR='' @ go_quote hostDataDir @
        '' is not an absolute path; Docker resolves bind-mount sources on the host and needs one, or proxy containers will fail to start''
      else if hostDataDir = containerDataDir then
        ''PANEL_HOST_DATA_DIR='' @ go_quote hostDataDir @
        '' is suspicious: it matches the panel'' @ CHR 0x27 #
        ''s own in-container data directory, which is what compose'' @ CHR 0x27 # ''s '' @
        c_dq # ''${PWD}/data'' @ c_dq #
        '' default collapses to when $PWD is unset or empty (common under systemd units and some sudo configurations) '' @
        em_dash @
        '' this is almost never a real host path; set PANEL_HOST_DATA_DIR explicitly in .env''
      else '''')"

lemma env_nonempty: "dflt \<noteq> '''' \<Longrightarrow> env getenv key dflt \<noteq> ''''"
  by (simp add: env_def Let_def)

lemma ValidateHostDataDir_ok_iff:
  "ValidateHostDataDir h c = '''' \<longleftrightarrow> h \<noteq> '''' \<and> filepath_IsAbs h \<and> h \<noteq> c"
  by (simp add: ValidateHostDataDir_def)

lemma Load_Inr:
  assumes "Load getenv = Inr c"
  shows "Second \<le> cf_PollInterval c" "cf_DataDir c \<noteq> ''''" "cf_NetworkSubnet c \<noteq> ''''"
    "cf_Network c \<noteq> ''''" "cf_TelemtImage c \<noteq> ''''" "cf_ListenAddr c \<noteq> ''''"
    "cf_ReservedPorts c = [80, 8443]" "int64_ok (cf_PollInterval c)"
proof -
  obtain d where d: "ParseDuration (env getenv ''PANEL_POLL_INTERVAL'' ''5s'') = Inr d" "Second \<le> d"
    and c: "c = \<lparr>cf_ListenAddr = env getenv ''PANEL_LISTEN'' '':8080'',
             cf_DataDir = env getenv ''PANEL_DATA_DIR'' ''/data'',
             cf_Network = env getenv ''MTPANEL_NETWORK'' ''mtpanel_net'',
             cf_NetworkSubnet = env getenv ''MTPANEL_SUBNET'' ''172.28.0.0/16'',
             cf_TelemtImage = env getenv ''TELEMT_IMAGE'' ''ghcr.io/telemt/telemt:latest'',
             cf_PublicHost = env getenv ''PANEL_PUBLIC_HOST'' '''',
             cf_PollInterval = d,
             cf_ReservedPorts = [80, 8443]\<rparr>"
    using assms unfolding Load_def by (auto simp only: split: sum.splits if_splits)
  show "Second \<le> cf_PollInterval c" "cf_ReservedPorts c = [80, 8443]"
    using d(2) by (simp_all add: c)
  show "int64_ok (cf_PollInterval c)" using ParseDuration_range [OF d(1)] by (simp add: c)
  show "cf_DataDir c \<noteq> ''''" "cf_NetworkSubnet c \<noteq> ''''"
    "cf_Network c \<noteq> ''''" "cf_TelemtImage c \<noteq> ''''" "cf_ListenAddr c \<noteq> ''''"
    by (simp_all add: c env_nonempty)
qed

lemma Load_defaults:
  "Load (\<lambda>_. '''') = Inr
     \<lparr>cf_ListenAddr = '':8080'', cf_DataDir = ''/data'', cf_Network = ''mtpanel_net'',
      cf_NetworkSubnet = ''172.28.0.0/16'', cf_TelemtImage = ''ghcr.io/telemt/telemt:latest'',
      cf_PublicHost = '''', cf_PollInterval = 5 * Second, cf_ReservedPorts = [80, 8443]\<rparr>"
  by (simp add: Load_def env_def ParseDuration_default Second_def)

end
