(* ===== verification/Store.thy ===== *)
theory Store imports GoTime "HOL-Library.Multiset" begin

text \<open>
  \<open>internal/store\<close>: the SQLite persistence layer. The database is the three tables of
  \<open>schema.sql\<close> as lists of rows in insertion order, with the constraints that schema declares;
  each Go method is the SQL statement it issues (as an operation on those tables) followed by its
  own handling of the outcome.

  The SQLite driver itself is not part of the repository. What the store relies on is passed in:
  whether the driver fails a statement (\<open>fault\<close>, \<open>None\<close> when it does not; a failing statement
  leaves the tables as they are), the clock, and the text of a constraint error
  (\<open>driver\<close>). \<open>driver_ok\<close> is the documented form of that text.
\<close>

section \<open>Rows and tables\<close>

record proxy =
  px_ID :: string
  px_Name :: string
  px_Port :: int
  px_TLSDomain :: string
  px_AdTag :: string
  px_Secret :: string
  px_APIToken :: string
  px_ContainerID :: string
  px_State :: string
  px_StateMessage :: string
  px_DataQuotaBytes :: "64 word option"
  px_ExpirationRFC3339 :: "string option"
  px_MaxTCPConns :: "int option"
  px_MaxUniqueIPs :: "int option"
  px_CreatedAt :: instant
  px_UpdatedAt :: instant

definition StateCreating :: string where "StateCreating = ''creating''"
definition StateRunning :: string where "StateRunning = ''running''"
definition StateStopped :: string where "StateStopped = ''stopped''"
definition StateError :: string where "StateError = ''error''"
definition StateRecreating :: string where "StateRecreating = ''recreating''"
definition StateDeleting :: string where "StateDeleting = ''deleting''"

lemmas state_defs = StateCreating_def StateRunning_def StateStopped_def StateError_def
  StateRecreating_def StateDeleting_def

text \<open>A row of \<open>proxies\<close>: nullable columns are options, times are TEXT, integers are 64-bit signed.\<close>

record proxy_row =
  r_id :: string
  r_name :: string
  r_port :: int
  r_tls_domain :: string
  r_ad_tag :: string
  r_secret :: string
  r_api_token :: string
  r_container_id :: string
  r_state :: string
  r_state_message :: string
  r_data_quota_bytes :: "int option"
  r_expiration_rfc3339 :: "string option"
  r_max_tcp_conns :: "int option"
  r_max_unique_ips :: "int option"
  r_created_at :: string
  r_updated_at :: string

record admin =
  ad_ID :: int
  ad_Username :: string
  ad_PasswordHash :: string
  ad_MustChangePassword :: bool

record admin_row =
  a_id :: int
  a_username :: string
  a_password_hash :: string
  a_must_change_password :: int

record session_row =
  s_token_hash :: string
  s_admin_id :: int
  s_expires_at :: string

record db =
  t_proxies :: "proxy_row list"
  t_admins :: "admin_row list"
  t_sessions :: "session_row list"
  t_admin_seq :: int

definition empty_db :: db where
  "empty_db = \<lparr>t_proxies = [], t_admins = [], t_sessions = [], t_admin_seq = 0\<rparr>"

section \<open>The driver\<close>

record driver =
  dv_unique :: "string \<Rightarrow> string"
  dv_foreign_key :: string

definition driver_ok :: "driver \<Rightarrow> bool" where
  "driver_ok dv \<longleftrightarrow>
     strings_Contains (dv_unique dv ''proxies.port'') ''UNIQUE constraint failed'' \<and>
     strings_Contains (dv_unique dv ''proxies.port'') ''proxies.port'' \<and>
     \<not> strings_Contains (dv_unique dv ''proxies.id'') ''proxies.port''"

text \<open>What modernc.org/sqlite reports, as an instance.\<close>

definition sqlite_driver :: driver where
  "sqlite_driver =
     \<lparr>dv_unique = (\<lambda>col. ''constraint failed: UNIQUE constraint failed: '' @ col @ '' (2067)''),
      dv_foreign_key = ''constraint failed: FOREIGN KEY constraint failed (787)''\<rparr>"

definition isUniqueViolation :: "gerror option \<Rightarrow> string \<Rightarrow> bool" where
  "isUniqueViolation err column =
     (case err of
        None \<Rightarrow> False
      | Some e \<Rightarrow> strings_Contains (err_text e) ''UNIQUE constraint failed'' \<and>
                 strings_Contains (err_text e) column)"

definition ErrNotFound_err :: gerror where
  "ErrNotFound_err = GErr ''store: not found'' [ErrNotFound]"

definition ErrPortTaken_err :: gerror where
  "ErrPortTaken_err = GErr ''store: port already assigned to another proxy'' [ErrPortTaken]"

section \<open>Column conversions\<close>

definition nullU64 :: "64 word option \<Rightarrow> int option" where
  "nullU64 v = map_option sint v"

definition nullInt :: "int option \<Rightarrow> int option" where
  "nullInt v = v"

definition nullStr :: "string option \<Rightarrow> string option" where
  "nullStr v = v"

definition proxy_to_row :: "proxy \<Rightarrow> proxy_row" where
  "proxy_to_row p =
     \<lparr>r_id = px_ID p, r_name = px_Name p, r_port = px_Port p, r_tls_domain = px_TLSDomain p,
      r_ad_tag = px_AdTag p, r_secret = px_Secret p, r_api_token = px_APIToken p,
      r_container_id = px_ContainerID p, r_state = px_State p,
      r_state_message = px_StateMessage p,
      r_data_quota_bytes = nullU64 (px_DataQuotaBytes p),
      r_expiration_rfc3339 = nullStr (px_ExpirationRFC3339 p),
      r_max_tcp_conns = nullInt (px_MaxTCPConns p),
      r_max_unique_ips = nullInt (px_MaxUniqueIPs p),
      r_created_at = Format_RFC3339Nano (px_CreatedAt p),
      r_updated_at = Format_RFC3339Nano (px_UpdatedAt p)\<rparr>"

definition parse_time :: "string \<Rightarrow> instant" where
  "parse_time s = (case Parse_RFC3339 s of Some t \<Rightarrow> t | None \<Rightarrow> zero_time)"

definition scanProxy :: "proxy_row \<Rightarrow> proxy" where
  "scanProxy r =
     \<lparr>px_ID = r_id r, px_Name = r_name r, px_Port = r_port r, px_TLSDomain = r_tls_domain r,
      px_AdTag = r_ad_tag r, px_Secret = r_secret r, px_APIToken = r_api_token r,
      px_ContainerID = r_container_id r, px_State = r_state r,
      px_StateMessage = r_state_message r,
      px_DataQuotaBytes = map_option word_of_int (r_data_quota_bytes r),
      px_ExpirationRFC3339 = r_expiration_rfc3339 r,
      px_MaxTCPConns = r_max_tcp_conns r,
      px_MaxUniqueIPs = r_max_unique_ips r,
      px_CreatedAt = parse_time (r_created_at r),
      px_UpdatedAt = parse_time (r_updated_at r)\<rparr>"

section \<open>proxies.go\<close>

text \<open>The INSERT: the primary key and the UNIQUE port are checked.\<close>

definition insert_proxy :: "driver \<Rightarrow> proxy_row \<Rightarrow> db \<Rightarrow> gerror option \<times> db" where
  "insert_proxy dv r d =
     (if list_ex (\<lambda>q. r_id q = r_id r) (t_proxies d) then
        (Some (errorf (dv_unique dv ''proxies.id'')), d)
      else if list_ex (\<lambda>q. r_port q = r_port r) (t_proxies d) then
        (Some (errorf (dv_unique dv ''proxies.port'')), d)
      else (None, d\<lparr>t_proxies := t_proxies d @ [r]\<rparr>))"

definition CreateProxy :: "driver \<Rightarrow> gerror option \<Rightarrow> instant \<Rightarrow> proxy \<Rightarrow> db \<Rightarrow> gerror option \<times> db" where
  "CreateProxy dv fault now p d =
     (let p = p\<lparr>px_CreatedAt := now, px_UpdatedAt := now\<rparr>;
          (err, d') = (case fault of Some e \<Rightarrow> (Some e, d)
                       | None \<Rightarrow> insert_proxy dv (proxy_to_row p) d)
      in if isUniqueViolation err ''proxies.port'' then
           (Some (errorf_wrap_first ErrPortTaken_err ('': port '' @ Itoa (px_Port p))), d')
         else case err of
           Some e \<Rightarrow> (Some (errorf_wrap ''store: create proxy: '' e), d')
         | None \<Rightarrow> (None, d'))"

definition GetProxy :: "gerror option \<Rightarrow> string \<Rightarrow> db \<Rightarrow> proxy res" where
  "GetProxy fault pid d =
     (case fault of
        Some e \<Rightarrow> Inl e
      | None \<Rightarrow>
          (case find (\<lambda>r. r_id r = pid) (t_proxies d) of
             None \<Rightarrow> Inl (errorf_wrap_first ErrNotFound_err ('': proxy '' @ pid))
           | Some r \<Rightarrow> Inr (scanProxy r)))"

definition ListProxies :: "gerror option \<Rightarrow> db \<Rightarrow> proxy list res" where
  "ListProxies fault d =
     (case fault of
        Some e \<Rightarrow> Inl (errorf_wrap ''store: list proxies: '' e)
      | None \<Rightarrow> Inr (map scanProxy (sort_key r_port (t_proxies d))))"

text \<open>The UPDATE: every column but the id and the creation time; the UNIQUE port is checked
  against the other rows. The number of affected rows comes back.\<close>

definition set_row :: "proxy_row \<Rightarrow> proxy_row \<Rightarrow> proxy_row" where
  "set_row new old = new\<lparr>r_created_at := r_created_at old\<rparr>"

definition update_proxy :: "driver \<Rightarrow> proxy_row \<Rightarrow> db \<Rightarrow> nat res \<times> db" where
  "update_proxy dv r d =
     (if \<not> list_ex (\<lambda>q. r_id q = r_id r) (t_proxies d) then (Inr 0, d)
      else if list_ex (\<lambda>q. r_id q \<noteq> r_id r \<and> r_port q = r_port r) (t_proxies d) then
        (Inl (errorf (dv_unique dv ''proxies.port'')), d)
      else (Inr 1, d\<lparr>t_proxies :=
              map (\<lambda>q. if r_id q = r_id r then set_row r q else q) (t_proxies d)\<rparr>))"

definition UpdateProxy :: "driver \<Rightarrow> gerror option \<Rightarrow> instant \<Rightarrow> proxy \<Rightarrow> db \<Rightarrow> gerror option \<times> db" where
  "UpdateProxy dv fault now p d =
     (let p = p\<lparr>px_UpdatedAt := now\<rparr>;
          (res, d') = (case fault of Some e \<Rightarrow> (Inl e, d)
                       | None \<Rightarrow> update_proxy dv (proxy_to_row p) d)
      in case res of
           Inl e \<Rightarrow>
             if isUniqueViolation (Some e) ''proxies.port'' then
               (Some (errorf_wrap_first ErrPortTaken_err ('': port '' @ Itoa (px_Port p))), d')
             else (Some (errorf_wrap ''store: update proxy: '' e), d')
         | Inr n \<Rightarrow>
             if n = 0 then (Some (errorf_wrap_first ErrNotFound_err ('': proxy '' @ px_ID p)), d')
             else (None, d'))"

definition DeleteProxy :: "gerror option \<Rightarrow> string \<Rightarrow> db \<Rightarrow> gerror option \<times> db" where
  "DeleteProxy fault pid d =
     (case fault of
        Some e \<Rightarrow> (Some (errorf_wrap ''store: delete proxy: '' e), d)
      | None \<Rightarrow>
          (let n = length (filter (\<lambda>r. r_id r = pid) (t_proxies d));
               d' = d\<lparr>t_proxies := filter (\<lambda>r. r_id r \<noteq> pid) (t_proxies d)\<rparr>
           in if n = 0 then (Some (errorf_wrap_first ErrNotFound_err ('': proxy '' @ pid)), d')
              else (None, d')))"

section \<open>admins.go\<close>

definition scanAdmin :: "admin_row \<Rightarrow> admin" where
  "scanAdmin r =
     \<lparr>ad_ID = a_id r, ad_Username = a_username r, ad_PasswordHash = a_password_hash r,
      ad_MustChangePassword = (a_must_change_password r \<noteq> 0)\<rparr>"

definition AdminCount :: "gerror option \<Rightarrow> db \<Rightarrow> nat res" where
  "AdminCount fault d =
     (case fault of
        Some e \<Rightarrow> Inl (errorf_wrap ''store: count admins: '' e)
      | None \<Rightarrow> Inr (length (t_admins d)))"

definition insert_admin :: "driver \<Rightarrow> string \<Rightarrow> string \<Rightarrow> db \<Rightarrow> int res \<times> db" where
  "insert_admin dv username hash d =
     (if list_ex (\<lambda>q. a_username q = username) (t_admins d) then
        (Inl (errorf (dv_unique dv ''admins.username'')), d)
      else let aid = t_admin_seq d + 1
           in (Inr aid, d\<lparr>t_admins := t_admins d @
                 [\<lparr>a_id = aid, a_username = username, a_password_hash = hash,
                   a_must_change_password = 1\<rparr>], t_admin_seq := aid\<rparr>))"

definition CreateAdmin :: "driver \<Rightarrow> gerror option \<Rightarrow> string \<Rightarrow> string \<Rightarrow> db \<Rightarrow> admin res \<times> db" where
  "CreateAdmin dv fault username hash d =
     (let (res, d') = (case fault of Some e \<Rightarrow> (Inl e, d) | None \<Rightarrow> insert_admin dv username hash d)
      in case res of
           Inl e \<Rightarrow> (Inl (errorf_wrap ''store: create admin: '' e), d')
         | Inr aid \<Rightarrow> (Inr \<lparr>ad_ID = aid, ad_Username = username, ad_PasswordHash = hash,
                        ad_MustChangePassword = True\<rparr>, d'))"

definition AdminByUsername :: "gerror option \<Rightarrow> string \<Rightarrow> db \<Rightarrow> admin res" where
  "AdminByUsername fault username d =
     (case fault of
        Some e \<Rightarrow> Inl e
      | None \<Rightarrow>
          (case find (\<lambda>r. a_username r = username) (t_admins d) of
             None \<Rightarrow> Inl (errorf_wrap_first ErrNotFound_err ('': admin '' @ username))
           | Some r \<Rightarrow> Inr (scanAdmin r)))"

definition SetAdminPassword :: "gerror option \<Rightarrow> int \<Rightarrow> string \<Rightarrow> db \<Rightarrow> gerror option \<times> db" where
  "SetAdminPassword fault aid hash d =
     (case fault of
        Some e \<Rightarrow> (Some (errorf_wrap ''store: set admin password: '' e), d)
      | None \<Rightarrow> (None, d\<lparr>t_admins :=
          map (\<lambda>r. if a_id r = aid
                   then r\<lparr>a_password_hash := hash, a_must_change_password := 0\<rparr> else r)
            (t_admins d)\<rparr>))"

text \<open>INSERT OR REPLACE, with the foreign key into \<open>admins\<close>.\<close>

definition insert_session :: "driver \<Rightarrow> session_row \<Rightarrow> db \<Rightarrow> gerror option \<times> db" where
  "insert_session dv s d =
     (if \<not> list_ex (\<lambda>a. a_id a = s_admin_id s) (t_admins d) then
        (Some (errorf (dv_foreign_key dv)), d)
      else (None, d\<lparr>t_sessions :=
              filter (\<lambda>q. s_token_hash q \<noteq> s_token_hash s) (t_sessions d) @ [s]\<rparr>))"

definition CreateSession :: "driver \<Rightarrow> gerror option \<Rightarrow> string \<Rightarrow> int \<Rightarrow> instant \<Rightarrow> db \<Rightarrow> gerror option \<times> db" where
  "CreateSession dv fault tokenHash adminID expires d =
     (let (err, d') = (case fault of Some e \<Rightarrow> (Some e, d)
            | None \<Rightarrow> insert_session dv \<lparr>s_token_hash = tokenHash, s_admin_id = adminID,
                        s_expires_at = Format_RFC3339Nano expires\<rparr> d)
      in case err of
           Some e \<Rightarrow> (Some (errorf_wrap ''store: create session: '' e), d')
         | None \<Rightarrow> (None, d'))"

text \<open>The join of \<open>sessions\<close> and \<open>admins\<close>; \<open>expires_at > ?\<close> compares the two texts byte by byte.\<close>

definition SessionAdmin :: "gerror option \<Rightarrow> instant \<Rightarrow> string \<Rightarrow> db \<Rightarrow> admin res" where
  "SessionAdmin fault now tokenHash d =
     (case fault of
        Some e \<Rightarrow> Inl e
      | None \<Rightarrow>
          (case find (\<lambda>(s, a). s_token_hash s = tokenHash \<and> a_id a = s_admin_id s \<and>
                        text_less (Format_RFC3339Nano now) (s_expires_at s))
                  (List.product (t_sessions d) (t_admins d)) of
             None \<Rightarrow> Inl (errorf_wrap_first ErrNotFound_err '': session'')
           | Some (s, a) \<Rightarrow> Inr (scanAdmin a)))"

definition DeleteSession :: "gerror option \<Rightarrow> string \<Rightarrow> db \<Rightarrow> gerror option \<times> db" where
  "DeleteSession fault tokenHash d =
     (case fault of
        Some e \<Rightarrow> (Some (errorf_wrap ''store: delete session: '' e), d)
      | None \<Rightarrow> (None, d\<lparr>t_sessions := filter (\<lambda>s. s_token_hash s \<noteq> tokenHash) (t_sessions d)\<rparr>))"

section \<open>Well-formed databases\<close>

definition db_wf :: "db \<Rightarrow> bool" where
  "db_wf d \<longleftrightarrow>
     distinct (map r_id (t_proxies d)) \<and> distinct (map r_port (t_proxies d)) \<and>
     distinct (map a_id (t_admins d)) \<and> distinct (map a_username (t_admins d)) \<and>
     list_all (\<lambda>a. a_id a \<le> t_admin_seq d) (t_admins d) \<and>
     distinct (map s_token_hash (t_sessions d)) \<and>
     list_all (\<lambda>s. s_admin_id s \<in> a_id ` set (t_admins d)) (t_sessions d)"

lemma db_wf_empty: "db_wf empty_db"
  by (simp add: db_wf_def empty_db_def)

section \<open>Conversions\<close>

text \<open>The instant that reading a stored time gives back.\<close>

definition stored_time :: "instant \<Rightarrow> instant" where
  "stored_time t = parse_time (Format_RFC3339Nano t)"

lemma stored_time_id: "four_digit_year t \<Longrightarrow> stored_time t = t"
  by (simp add: stored_time_def parse_time_def Parse_Format_RFC3339Nano)

lemma word_of_int_sint: "word_of_int (sint w) = w"
  by simp

lemma scanProxy_to_row:
  "scanProxy (proxy_to_row p) =
     p\<lparr>px_CreatedAt := stored_time (px_CreatedAt p), px_UpdatedAt := stored_time (px_UpdatedAt p)\<rparr>"
  by (simp add: scanProxy_def proxy_to_row_def nullU64_def nullInt_def nullStr_def
      stored_time_def option.map_comp comp_def option.map_ident)

lemma to_row_fields [simp]:
  "r_id (proxy_to_row p) = px_ID p" "r_port (proxy_to_row p) = px_Port p"
  "r_state (proxy_to_row p) = px_State p"
  "r_created_at (proxy_to_row p) = Format_RFC3339Nano (px_CreatedAt p)"
  by (simp_all add: proxy_to_row_def)

lemma scan_fields [simp]:
  "px_ID (scanProxy r) = r_id r" "px_Port (scanProxy r) = r_port r"
  "px_State (scanProxy r) = r_state r" "px_ContainerID (scanProxy r) = r_container_id r"
  "px_CreatedAt (scanProxy r) = parse_time (r_created_at r)"
  by (simp_all add: scanProxy_def)

section \<open>The table as a map\<close>

definition proxies_of :: "db \<Rightarrow> string \<Rightarrow> proxy option" where
  "proxies_of d pid = map_option scanProxy (find (\<lambda>r. r_id r = pid) (t_proxies d))"

lemma proxies_of_ID: "proxies_of d pid = Some p \<Longrightarrow> px_ID p = pid"
  by (auto simp: proxies_of_def dest!: find_Some_key)

lemma proxies_of_None_iff: "proxies_of d pid = None \<longleftrightarrow> pid \<notin> r_id ` set (t_proxies d)"
  by (auto simp: proxies_of_def find_None_iff)

lemma proxies_of_row:
  "distinct (map r_id (t_proxies d)) \<Longrightarrow> r \<in> set (t_proxies d) \<Longrightarrow>
    proxies_of d (r_id r) = Some (scanProxy r)"
  by (simp add: proxies_of_def find_unique)

lemma ran_proxies_of:
  "distinct (map r_id (t_proxies d)) \<Longrightarrow> ran (proxies_of d) = scanProxy ` set (t_proxies d)"
  by (auto simp: ran_def proxies_of_def dest!: find_Some_key)
     (metis find_unique option.simps(9))

lemma find_append_key:
  "find P (xs @ ys) = (case find P xs of Some x \<Rightarrow> Some x | None \<Rightarrow> find P ys)"
  by (induction xs) auto

lemma find_filter_key:
  "find (\<lambda>r. f r = k) (filter (\<lambda>r. f r \<noteq> k') xs) = (if k = k' then None else find (\<lambda>r. f r = k) xs)"
  by (induction xs) auto

lemma find_map_update:
  assumes "\<And>r. f r = k' \<Longrightarrow> f (g r) = f r"
  shows "find (\<lambda>r. f r = k) (map (\<lambda>r. if f r = k' then g r else r) xs) =
    (if k = k' then map_option g (find (\<lambda>r. f r = k) xs) else find (\<lambda>r. f r = k) xs)"
  using assms by (induction xs) auto

text \<open>What each statement does, from its outcome.\<close>

lemma list_ex_key: "list_ex (\<lambda>q. f q = k) xs \<longleftrightarrow> k \<in> f ` set xs"
  by (auto simp: list_ex_iff image_iff)

lemma insert_proxy_None_iff:
  "insert_proxy dv r d = (None, d') \<longleftrightarrow>
     r_id r \<notin> r_id ` set (t_proxies d) \<and> r_port r \<notin> r_port ` set (t_proxies d) \<and>
     d' = d\<lparr>t_proxies := t_proxies d @ [r]\<rparr>"
  by (auto simp: insert_proxy_def list_ex_key)

lemma CreateProxy_None_iff:
  "CreateProxy dv fault now p d = (None, d') \<longleftrightarrow>
     fault = None \<and> px_ID p \<notin> r_id ` set (t_proxies d) \<and> px_Port p \<notin> r_port ` set (t_proxies d) \<and>
     d' = d\<lparr>t_proxies := t_proxies d @ [proxy_to_row (p\<lparr>px_CreatedAt := now, px_UpdatedAt := now\<rparr>)]\<rparr>"
  by (cases fault)
     (auto simp: CreateProxy_def isUniqueViolation_def insert_proxy_def list_ex_key Let_def
       split: if_splits)

lemma CreateProxy_Some: "CreateProxy dv fault now p d = (Some e, d') \<Longrightarrow> d' = d"
  by (auto simp: CreateProxy_def insert_proxy_def isUniqueViolation_def Let_def
      split: option.splits if_splits prod.splits)

lemma CreateProxy_taken:
  assumes "driver_ok dv" and "px_ID p \<notin> r_id ` set (t_proxies d)"
    and "px_Port p \<in> r_port ` set (t_proxies d)"
  shows "\<exists>e. CreateProxy dv None now p d = (Some e, d) \<and> errors_Is e ErrPortTaken"
  using assms
  by (auto simp: CreateProxy_def insert_proxy_def isUniqueViolation_def driver_ok_def list_ex_iff
      errors_Is_def ErrPortTaken_err_def errorf_wrap_first_def Let_def image_iff)

lemma UpdateProxy_None_iff:
  "UpdateProxy dv fault now p d = (None, d') \<longleftrightarrow>
     fault = None \<and> px_ID p \<in> r_id ` set (t_proxies d) \<and>
     (\<forall>q \<in> set (t_proxies d). r_id q \<noteq> px_ID p \<longrightarrow> r_port q \<noteq> px_Port p) \<and>
     d' = d\<lparr>t_proxies := map (\<lambda>q. if r_id q = px_ID p
              then set_row (proxy_to_row (p\<lparr>px_UpdatedAt := now\<rparr>)) q else q) (t_proxies d)\<rparr>"
proof (cases fault)
  case None
  then show ?thesis
    by (simp add: UpdateProxy_def update_proxy_def list_ex_key Let_def) (auto simp: list_ex_iff)
qed (simp add: UpdateProxy_def)

lemma UpdateProxy_Some: "UpdateProxy dv fault now p d = (Some e, d') \<Longrightarrow> d' = d"
  by (auto simp: UpdateProxy_def update_proxy_def Let_def
      split: option.splits if_splits sum.splits prod.splits)

lemma UpdateProxy_taken:
  assumes "driver_ok dv" and "px_ID p \<in> r_id ` set (t_proxies d)"
    and "q \<in> set (t_proxies d)" "r_id q \<noteq> px_ID p" "r_port q = px_Port p"
  shows "\<exists>e. UpdateProxy dv None now p d = (Some e, d) \<and> errors_Is e ErrPortTaken"
  using assms
  by (auto simp: UpdateProxy_def update_proxy_def isUniqueViolation_def driver_ok_def list_ex_iff
      errors_Is_def ErrPortTaken_err_def errorf_wrap_first_def Let_def image_iff)

lemma DeleteProxy_None_iff:
  "DeleteProxy fault pid d = (None, d') \<longleftrightarrow>
     fault = None \<and> pid \<in> r_id ` set (t_proxies d) \<and>
     d' = d\<lparr>t_proxies := filter (\<lambda>r. r_id r \<noteq> pid) (t_proxies d)\<rparr>"
  by (auto simp: DeleteProxy_def Let_def filter_empty_conv split: option.splits if_splits)

lemma DeleteProxy_Some: "DeleteProxy fault pid d = (Some e, d') \<Longrightarrow> d' = d"
  by (auto simp: DeleteProxy_def Let_def filter_empty_conv filter_id_conv
      split: option.splits if_splits)

lemma GetProxy_None_fault:
  "GetProxy None pid d = (case proxies_of d pid of
      None \<Rightarrow> Inl (errorf_wrap_first ErrNotFound_err ('': proxy '' @ pid)) | Some p \<Rightarrow> Inr p)"
  by (simp add: GetProxy_def proxies_of_def split: option.split)

lemma GetProxy_Inr_iff: "GetProxy fault pid d = Inr p \<longleftrightarrow> fault = None \<and> proxies_of d pid = Some p"
  by (auto simp: GetProxy_def proxies_of_def split: option.splits)

lemma ListProxies_Inr_iff:
  "ListProxies fault d = Inr ps \<longleftrightarrow> fault = None \<and> ps = map scanProxy (sort_key r_port (t_proxies d))"
  by (auto simp: ListProxies_def split: option.splits)

lemma proxies_of_create:
  assumes "CreateProxy dv fault now p d = (None, d')"
  shows "proxies_of d (px_ID p) = None"
    and "proxies_of d' = (proxies_of d)(px_ID p \<mapsto>
      p\<lparr>px_CreatedAt := stored_time now, px_UpdatedAt := stored_time now\<rparr>)"
proof -
  have new: "px_ID p \<notin> r_id ` set (t_proxies d)"
    and d': "d' = d\<lparr>t_proxies := t_proxies d @
      [proxy_to_row (p\<lparr>px_CreatedAt := now, px_UpdatedAt := now\<rparr>)]\<rparr>"
    using assms by (simp_all add: CreateProxy_None_iff)
  show none: "proxies_of d (px_ID p) = None"
    using new by (simp add: proxies_of_None_iff)
  show "proxies_of d' = (proxies_of d)(px_ID p \<mapsto>
      p\<lparr>px_CreatedAt := stored_time now, px_UpdatedAt := stored_time now\<rparr>)"
  proof
    fix k
    show "proxies_of d' k = ((proxies_of d)(px_ID p \<mapsto>
        p\<lparr>px_CreatedAt := stored_time now, px_UpdatedAt := stored_time now\<rparr>)) k"
      using none by (auto simp: proxies_of_def d' find_append_key scanProxy_to_row split: option.split)
  qed
qed

lemma scanProxy_set_row:
  "scanProxy (set_row (proxy_to_row p) q) =
     p\<lparr>px_CreatedAt := parse_time (r_created_at q), px_UpdatedAt := stored_time (px_UpdatedAt p)\<rparr>"
proof -
  have "scanProxy (set_row r q) = (scanProxy r)\<lparr>px_CreatedAt := parse_time (r_created_at q)\<rparr>" for r
    by (simp add: scanProxy_def set_row_def)
  then show ?thesis by (simp add: scanProxy_to_row)
qed

lemma proxies_of_update:
  assumes "UpdateProxy dv fault now p d = (None, d')"
  shows "\<exists>old. proxies_of d (px_ID p) = Some old \<and>
    proxies_of d' = (proxies_of d)(px_ID p \<mapsto>
      p\<lparr>px_CreatedAt := px_CreatedAt old, px_UpdatedAt := stored_time now\<rparr>)"
proof -
  let ?g = "set_row (proxy_to_row (p\<lparr>px_UpdatedAt := now\<rparr>))"
  have known: "px_ID p \<in> r_id ` set (t_proxies d)"
    and d': "d' = d\<lparr>t_proxies := map (\<lambda>q. if r_id q = px_ID p then ?g q else q) (t_proxies d)\<rparr>"
    using assms by (simp_all add: UpdateProxy_None_iff)
  obtain r where r: "find (\<lambda>r. r_id r = px_ID p) (t_proxies d) = Some r"
    using known by (cases "find (\<lambda>r. r_id r = px_ID p) (t_proxies d)") (auto simp: find_None_iff)
  have keep: "\<And>q. r_id q = px_ID p \<Longrightarrow> r_id (?g q) = r_id q"
    by (simp add: set_row_def)
  have find': "find (\<lambda>r. r_id r = k) (t_proxies d') =
      (if k = px_ID p then map_option ?g (find (\<lambda>r. r_id r = k) (t_proxies d))
       else find (\<lambda>r. r_id r = k) (t_proxies d))" for k
    using find_map_update [of r_id "px_ID p" ?g k "t_proxies d"] keep by (simp add: d')
  have "proxies_of d' k = ((proxies_of d)(px_ID p \<mapsto>
      p\<lparr>px_CreatedAt := px_CreatedAt (scanProxy r), px_UpdatedAt := stored_time now\<rparr>)) k" for k
    using r by (simp add: proxies_of_def find' scanProxy_set_row)
  then show ?thesis
    using r by (intro exI [of _ "scanProxy r"]) (auto simp: proxies_of_def)
qed

lemma proxies_of_delete:
  "DeleteProxy fault pid d = (None, d') \<Longrightarrow> proxies_of d' = (proxies_of d)(pid := None)"
  by (auto simp: DeleteProxy_None_iff proxies_of_def find_filter_key fun_eq_iff)

section \<open>Every statement keeps the tables well formed\<close>

lemma db_wf_create: "db_wf d \<Longrightarrow> CreateProxy dv fault now p d = (err, d') \<Longrightarrow> db_wf d'"
  by (cases err)
     (auto simp: CreateProxy_None_iff db_wf_def dest: CreateProxy_Some)

lemma distinct_update:
  assumes "distinct (map f xs)" and "distinct (map k xs)"
    and "\<And>x. x \<in> set xs \<Longrightarrow> k x = i \<Longrightarrow> f (g x) = v"
    and "\<forall>x \<in> set xs. k x \<noteq> i \<longrightarrow> f x \<noteq> v"
  shows "distinct (map f (map (\<lambda>x. if k x = i then g x else x) xs))"
  using assms by (induction xs) (auto simp: image_iff split: if_splits)

lemma db_wf_update: "db_wf d \<Longrightarrow> UpdateProxy dv fault now p d = (err, d') \<Longrightarrow> db_wf d'"
proof (cases err)
  case (Some e)
  moreover assume "db_wf d" "UpdateProxy dv fault now p d = (err, d')"
  ultimately show ?thesis using UpdateProxy_Some by blast
next
  case None
  assume wf: "db_wf d" and up: "UpdateProxy dv fault now p d = (err, d')"
  let ?g = "set_row (proxy_to_row (p\<lparr>px_UpdatedAt := now\<rparr>))"
  have d': "d' = d\<lparr>t_proxies := map (\<lambda>q. if r_id q = px_ID p then ?g q else q) (t_proxies d)\<rparr>"
    and free: "\<forall>q \<in> set (t_proxies d). r_id q \<noteq> px_ID p \<longrightarrow> r_port q \<noteq> px_Port p"
    using up None by (simp_all add: UpdateProxy_None_iff)
  have "distinct (map r_id (t_proxies d'))" "distinct (map r_port (t_proxies d'))"
    using wf free distinct_update [of r_id "t_proxies d" r_id "px_ID p" ?g "px_ID p"]
      distinct_update [of r_port "t_proxies d" r_id "px_ID p" ?g "px_Port p"]
    by (simp_all add: d' db_wf_def set_row_def)
  with wf show ?thesis by (simp add: db_wf_def d')
qed

lemma db_wf_delete: "db_wf d \<Longrightarrow> DeleteProxy fault pid d = (err, d') \<Longrightarrow> db_wf d'"
  by (cases err)
     (auto simp: DeleteProxy_None_iff db_wf_def distinct_map_filter dest: DeleteProxy_Some)

section \<open>The contract of the proxy table\<close>

text \<open>
  What the service layer relies on, as an interface over any representation: an abstract map
  from ids to proxies, and one law per operation. Its consequences (a lookup after an insert, the
  port of a deleted proxy free again, no two proxies on one port) are proved once, from the laws.
\<close>

locale proxy_table =
  fixes create :: "driver \<Rightarrow> gerror option \<Rightarrow> instant \<Rightarrow> proxy \<Rightarrow> 'd \<Rightarrow> gerror option \<times> 'd"
    and update :: "driver \<Rightarrow> gerror option \<Rightarrow> instant \<Rightarrow> proxy \<Rightarrow> 'd \<Rightarrow> gerror option \<times> 'd"
    and delete :: "gerror option \<Rightarrow> string \<Rightarrow> 'd \<Rightarrow> gerror option \<times> 'd"
    and get :: "gerror option \<Rightarrow> string \<Rightarrow> 'd \<Rightarrow> proxy res"
    and listing :: "gerror option \<Rightarrow> 'd \<Rightarrow> proxy list res"
    and tbl :: "'d \<Rightarrow> string \<Rightarrow> proxy option"
    and inv :: "'d \<Rightarrow> bool"
  assumes create_ok: "inv d \<Longrightarrow> create dv f now p d = (None, d') \<Longrightarrow>
      inv d' \<and> tbl d (px_ID p) = None \<and>
      tbl d' = (tbl d)(px_ID p \<mapsto> p\<lparr>px_CreatedAt := stored_time now, px_UpdatedAt := stored_time now\<rparr>)"
    and create_err: "create dv f now p d = (Some e, d') \<Longrightarrow> d' = d"
    and create_free: "inv d \<Longrightarrow> tbl d (px_ID p) = None \<Longrightarrow>
      (\<And>q. q \<in> ran (tbl d) \<Longrightarrow> px_Port q \<noteq> px_Port p) \<Longrightarrow> \<exists>d'. create dv None now p d = (None, d')"
    and create_taken: "driver_ok dv \<Longrightarrow> inv d \<Longrightarrow> tbl d (px_ID p) = None \<Longrightarrow> q \<in> ran (tbl d) \<Longrightarrow>
      px_Port q = px_Port p \<Longrightarrow> \<exists>e. create dv None now p d = (Some e, d) \<and> errors_Is e ErrPortTaken"
    and update_ok: "inv d \<Longrightarrow> update dv f now p d = (None, d') \<Longrightarrow>
      inv d' \<and> (\<exists>old. tbl d (px_ID p) = Some old \<and>
        tbl d' = (tbl d)(px_ID p \<mapsto> p\<lparr>px_CreatedAt := px_CreatedAt old, px_UpdatedAt := stored_time now\<rparr>))"
    and update_err: "update dv f now p d = (Some e, d') \<Longrightarrow> d' = d"
    and update_taken: "driver_ok dv \<Longrightarrow> inv d \<Longrightarrow> tbl d (px_ID p) \<noteq> None \<Longrightarrow> tbl d k = Some q \<Longrightarrow>
      k \<noteq> px_ID p \<Longrightarrow> px_Port q = px_Port p \<Longrightarrow>
      \<exists>e. update dv None now p d = (Some e, d) \<and> errors_Is e ErrPortTaken"
    and delete_ok: "inv d \<Longrightarrow> delete f pid d = (None, d') \<Longrightarrow>
      inv d' \<and> tbl d pid \<noteq> None \<and> tbl d' = (tbl d)(pid := None)"
    and delete_err: "delete f pid d = (Some e, d') \<Longrightarrow> d' = d"
    and delete_known: "tbl d pid \<noteq> None \<Longrightarrow> \<exists>d'. delete None pid d = (None, d')"
    and get_law: "get None pid d = (case tbl d pid of
      None \<Rightarrow> Inl (errorf_wrap_first ErrNotFound_err ('': proxy '' @ pid)) | Some p \<Rightarrow> Inr p)"
    and listing_law: "inv d \<Longrightarrow> listing f d = Inr ps \<Longrightarrow>
      set ps = ran (tbl d) \<and> distinct (map px_ID ps) \<and> sorted (map px_Port ps)"
    and ids_agree: "tbl d pid = Some p \<Longrightarrow> px_ID p = pid"
    and ports_inj: "inv d \<Longrightarrow> tbl d a = Some p \<Longrightarrow> tbl d b = Some q \<Longrightarrow> px_Port p = px_Port q \<Longrightarrow> a = b"
begin

lemma get_after_create:
  "inv d \<Longrightarrow> create dv f now p d = (None, d') \<Longrightarrow>
    get None (px_ID p) d' = Inr (p\<lparr>px_CreatedAt := stored_time now, px_UpdatedAt := stored_time now\<rparr>)"
  using create_ok [of d dv f now p d'] by (simp add: get_law)

lemma get_after_update:
  "inv d \<Longrightarrow> update dv f now p d = (None, d') \<Longrightarrow>
    \<exists>old. get None (px_ID p) d = Inr old \<and>
      get None (px_ID p) d' = Inr (p\<lparr>px_CreatedAt := px_CreatedAt old, px_UpdatedAt := stored_time now\<rparr>)"
  using update_ok [of d dv f now p d'] by (auto simp: get_law)

lemma get_after_delete:
  "inv d \<Longrightarrow> delete f pid d = (None, d') \<Longrightarrow>
    \<exists>e. get None pid d' = Inl e \<and> errors_Is e ErrNotFound"
  using delete_ok [of d f pid d'] by (auto simp: get_law errors_Is_def ErrNotFound_err_def errorf_wrap_first_def)

lemma port_free_after_delete:
  assumes inv: "inv d" and q: "tbl d pid = Some q" and del: "delete f pid d = (None, d')"
    and port: "px_Port p = px_Port q" and new: "tbl d (px_ID p) = None"
  shows "\<exists>d''. create dv None now p d' = (None, d'')"
proof (rule create_free)
  show "inv d'" and "tbl d' (px_ID p) = None"
    using delete_ok [OF inv del] new by auto
  show "px_Port r \<noteq> px_Port p" if r: "r \<in> ran (tbl d')" for r
  proof
    assume eq: "px_Port r = px_Port p"
    obtain k where "tbl d' k = Some r" using r by (auto simp: ran_def)
    then have "k \<noteq> pid" "tbl d k = Some r"
      using delete_ok [OF inv del] by (auto split: if_splits)
    then show False using ports_inj [OF inv, of k r pid q] q eq port by simp
  qed
qed

lemma create_others:
  "inv d \<Longrightarrow> create dv f now p d = (err, d') \<Longrightarrow> k \<noteq> px_ID p \<Longrightarrow> tbl d' k = tbl d k"
  using create_ok [of d dv f now p d'] create_err [of dv f now p d _ d'] by (cases err) auto

lemma update_others:
  "inv d \<Longrightarrow> update dv f now p d = (err, d') \<Longrightarrow> k \<noteq> px_ID p \<Longrightarrow> tbl d' k = tbl d k"
  using update_ok [of d dv f now p d'] update_err [of dv f now p d _ d'] by (cases err) auto

lemma delete_others:
  "inv d \<Longrightarrow> delete f pid d = (err, d') \<Longrightarrow> k \<noteq> pid \<Longrightarrow> tbl d' k = tbl d k"
  using delete_ok [of d f pid d'] delete_err [of f pid d _ d'] by (cases err) auto

lemma create_then_delete:
  assumes "inv d" and "create dv f now p d = (None, d')"
  shows "\<exists>d''. delete None (px_ID p) d' = (None, d'') \<and> tbl d'' = tbl d"
proof -
  have c: "inv d'" "tbl d (px_ID p) = None" "tbl d' (px_ID p) \<noteq> None"
    using create_ok [OF assms] by auto
  then obtain d'' where d'': "delete None (px_ID p) d' = (None, d'')"
    using delete_known by blast
  then have "tbl d'' = tbl d"
    using delete_ok [OF c(1) d''] create_ok [OF assms] by auto
  with d'' show ?thesis by blast
qed

end

interpretation proxies: proxy_table CreateProxy UpdateProxy DeleteProxy GetProxy ListProxies
    proxies_of db_wf
proof (unfold_locales, goal_cases)
  case (1 d dv f now p d')
  then show ?case
    using db_wf_create [of d dv f now p None d'] proxies_of_create [of dv f now p d d'] by auto
next
  case (2 dv f now p d e d')
  then show ?case by (rule CreateProxy_Some)
next
  case (3 d p dv now)
  then have "px_Port p \<notin> r_port ` set (t_proxies d)"
    using ran_proxies_of [of d] by (force simp: db_wf_def)
  with 3 show ?case by (simp add: CreateProxy_None_iff proxies_of_None_iff)
next
  case (4 dv d p q now)
  then have "px_Port p \<in> r_port ` set (t_proxies d)"
    using ran_proxies_of [of d] by (force simp: db_wf_def)
  with 4 show ?case by (intro CreateProxy_taken) (simp_all add: proxies_of_None_iff)
next
  case (5 d dv f now p d')
  then show ?case
    using db_wf_update [of d dv f now p None d'] proxies_of_update [of dv f now p d d'] by auto
next
  case (6 dv f now p d e d')
  then show ?case by (rule UpdateProxy_Some)
next
  case (7 dv d p k q now)
  then obtain r where "r \<in> set (t_proxies d)" "r_id r = k" "q = scanProxy r"
    by (auto simp: proxies_of_def dest!: find_Some_key)
  moreover have "px_ID p \<in> r_id ` set (t_proxies d)"
    using 7(3) proxies_of_None_iff [of d "px_ID p"] by simp
  ultimately show ?case
    using 7 by (intro UpdateProxy_taken [where q = r]) auto
next
  case (8 d f pid d')
  then show ?case
    using db_wf_delete [of d f pid None d'] proxies_of_delete [of f pid d d']
      proxies_of_None_iff [of d pid] by (auto simp: DeleteProxy_None_iff)
next
  case (9 f pid d e d')
  then show ?case by (rule DeleteProxy_Some)
next
  case (10 d pid)
  then show ?case using proxies_of_None_iff [of d pid] by (auto simp: DeleteProxy_None_iff)
next
  case (11 pid d)
  show ?case by (rule GetProxy_None_fault)
next
  case (12 d f ps)
  then have ps: "ps = map scanProxy (sort_key r_port (t_proxies d))"
    by (simp add: ListProxies_Inr_iff)
  have m: "mset (map r_id (sort_key r_port (t_proxies d))) = mset (map r_id (t_proxies d))"
    by simp
  have "distinct (map r_id (sort_key r_port (t_proxies d)))"
    using 12 mset_eq_imp_distinct_iff [OF m] by (simp add: db_wf_def)
  moreover have "map px_ID ps = map r_id (sort_key r_port (t_proxies d))"
    and "map px_Port ps = map r_port (sort_key r_port (t_proxies d))"
    by (simp_all add: ps)
  moreover have "set ps = ran (proxies_of d)"
    using 12 ran_proxies_of [of d] by (simp add: ps db_wf_def)
  ultimately show ?case
    by (simp only: sorted_sort_key simp_thms)
next
  case (13 d pid p)
  then show ?case by (rule proxies_of_ID)
next
  case (14 d a p b q)
  then obtain r s where "r \<in> set (t_proxies d)" "r_id r = a" "p = scanProxy r"
    "s \<in> set (t_proxies d)" "r_id s = b" "q = scanProxy s"
    by (auto simp: proxies_of_def dest!: find_Some_key)
  with 14 show ?case
    using distinct_map_inj [of r_port "t_proxies d" r s] by (auto simp: db_wf_def)
qed

section \<open>Admins and sessions\<close>

lemma text_less_asym: "text_less s t \<Longrightarrow> \<not> text_less t s"
  by (induction s t rule: text_less.induct) auto

lemma find_product_Some:
  assumes "find P (List.product xs ys) = Some (x, y)"
  shows "x \<in> set xs \<and> y \<in> set ys \<and> P (x, y)"
proof -
  have "(x, y) \<in> set (List.product xs ys) \<and> P (x, y)"
    using assms by (metis (no_types, lifting) find_Some_iff nth_mem)
  then show ?thesis by simp
qed

lemma SessionAdmin_Inr:
  "SessionAdmin fault now h d = Inr adm \<Longrightarrow>
    \<exists>s a. s \<in> set (t_sessions d) \<and> a \<in> set (t_admins d) \<and> s_token_hash s = h \<and>
      a_id a = s_admin_id s \<and> text_less (Format_RFC3339Nano now) (s_expires_at s) \<and>
      adm = scanAdmin a"
  by (auto simp: SessionAdmin_def split: option.splits dest!: find_product_Some)

lemma SessionAdmin_Inl: "SessionAdmin None now h d = Inl e \<Longrightarrow> errors_Is e ErrNotFound"
  by (auto simp: SessionAdmin_def errors_Is_def ErrNotFound_err_def errorf_wrap_first_def
      split: option.splits)

lemma SessionAdmin_accepts:
  assumes wf: "db_wf d" and s: "s \<in> set (t_sessions d)" "s_token_hash s = h"
    and live: "text_less (Format_RFC3339Nano now) (s_expires_at s)"
  shows "\<exists>a \<in> set (t_admins d). a_id a = s_admin_id s \<and> SessionAdmin None now h d = Inr (scanAdmin a)"
proof -
  let ?P = "\<lambda>(s, a). s_token_hash s = h \<and> a_id a = s_admin_id s \<and>
      text_less (Format_RFC3339Nano now) (s_expires_at s)"
  obtain a where a: "a \<in> set (t_admins d)" "a_id a = s_admin_id s"
    using wf s by (auto simp: db_wf_def list_all_iff)
  have "find ?P (List.product (t_sessions d) (t_admins d)) \<noteq> None"
    using s live a by (auto simp: find_None_iff)
  then obtain s' a' where f: "find ?P (List.product (t_sessions d) (t_admins d)) = Some (s', a')"
    by (cases "find ?P (List.product (t_sessions d) (t_admins d))") auto
  then have m: "s' \<in> set (t_sessions d)" "a' \<in> set (t_admins d)" "s_token_hash s' = h"
    "a_id a' = s_admin_id s'"
    using find_product_Some [OF f] by auto
  then have "s' = s"
    using wf s distinct_map_inj [of s_token_hash "t_sessions d" s' s] by (auto simp: db_wf_def)
  then show ?thesis
    using f m by (auto simp: SessionAdmin_def)
qed

lemma db_wf_CreateAdmin: "db_wf d \<Longrightarrow> CreateAdmin dv fault u h d = (r, d') \<Longrightarrow> db_wf d'"
  by (auto simp: CreateAdmin_def insert_admin_def db_wf_def list_ex_key list_all_iff Let_def
      split: option.splits if_splits) fastforce+

lemma db_wf_SetAdminPassword: "db_wf d \<Longrightarrow> SetAdminPassword fault i h d = (r, d') \<Longrightarrow> db_wf d'"
proof -
  assume wf: "db_wf d" and set: "SetAdminPassword fault i h d = (r, d')"
  let ?g = "\<lambda>r. if a_id r = i then r\<lparr>a_password_hash := h, a_must_change_password := 0\<rparr> else r"
  have "map a_id (map ?g (t_admins d)) = map a_id (t_admins d)"
    "map a_username (map ?g (t_admins d)) = map a_username (t_admins d)"
    by (simp_all add: comp_def)
  moreover from this have "a_id ` set (map ?g (t_admins d)) = a_id ` set (t_admins d)"
    by (metis list.set_map)
  moreover have "\<forall>a \<in> set (map ?g (t_admins d)). a_id a \<le> t_admin_seq d"
    using wf by (auto simp: db_wf_def list_all_iff)
  ultimately show ?thesis
    using wf set by (auto simp: SetAdminPassword_def db_wf_def list_all_iff simp del: map_map set_map
        split: option.splits)
qed

lemma db_wf_CreateSession: "db_wf d \<Longrightarrow> CreateSession dv fault h a x d = (r, d') \<Longrightarrow> db_wf d'"
  by (auto simp: CreateSession_def insert_session_def db_wf_def list_ex_key list_all_iff
      distinct_map_filter Let_def split: option.splits if_splits)

lemma db_wf_DeleteSession: "db_wf d \<Longrightarrow> DeleteSession fault h d = (r, d') \<Longrightarrow> db_wf d'"
  by (auto simp: DeleteSession_def db_wf_def list_all_iff distinct_map_filter split: option.splits)

lemma CreateSession_None_iff:
  "CreateSession dv fault h aid x d = (None, d') \<longleftrightarrow>
     fault = None \<and> aid \<in> a_id ` set (t_admins d) \<and>
     d' = d\<lparr>t_sessions := filter (\<lambda>q. s_token_hash q \<noteq> h) (t_sessions d) @
        [\<lparr>s_token_hash = h, s_admin_id = aid, s_expires_at = Format_RFC3339Nano x\<rparr>]\<rparr>"
  by (auto simp: CreateSession_def insert_session_def list_ex_key split: option.splits)

text \<open>How exact the expiry is: the stored texts order instants correctly whenever their whole
  seconds differ, so a session is accepted before the second it expires in and never after it.\<close>

lemma session_expiry:
  assumes wf: "db_wf d" and new: "CreateSession dv fault h aid expires d = (None, d')"
    and y: "four_digit_year now" "four_digit_year expires"
  shows "now div nsec < expires div nsec \<Longrightarrow>
      \<exists>a. SessionAdmin None now h d' = Inr (scanAdmin a) \<and> a_id a = aid"
    and "expires div nsec < now div nsec \<Longrightarrow>
      \<exists>e. SessionAdmin None now h d' = Inl e \<and> errors_Is e ErrNotFound"
proof -
  let ?s = "\<lparr>s_token_hash = h, s_admin_id = aid, s_expires_at = Format_RFC3339Nano expires\<rparr>"
  have wf': "db_wf d'" using wf new by (rule db_wf_CreateSession)
  have s: "?s \<in> set (t_sessions d')" using new by (simp add: CreateSession_None_iff)
  show "\<exists>a. SessionAdmin None now h d' = Inr (scanAdmin a) \<and> a_id a = aid"
    if "now div nsec < expires div nsec"
    using SessionAdmin_accepts [OF wf' s, of h now] RFC3339Nano_less [OF y that] by auto
  show "\<exists>e. SessionAdmin None now h d' = Inl e \<and> errors_Is e ErrNotFound"
    if "expires div nsec < now div nsec"
  proof -
    have gt: "text_less (Format_RFC3339Nano expires) (Format_RFC3339Nano now)"
      using RFC3339Nano_less [OF y(2) y(1) that] .
    have "SessionAdmin None now h d' \<noteq> Inr adm" for adm
    proof
      assume "SessionAdmin None now h d' = Inr adm"
      then obtain s where "s \<in> set (t_sessions d')" "s_token_hash s = h"
        "text_less (Format_RFC3339Nano now) (s_expires_at s)"
        by (auto dest: SessionAdmin_Inr)
      moreover from this have "s = ?s"
        using wf' s distinct_map_inj [of s_token_hash "t_sessions d'" s ?s] by (auto simp: db_wf_def)
      ultimately show False using text_less_asym [OF gt] by simp
    qed
    then show ?thesis
      using SessionAdmin_Inl by (cases "SessionAdmin None now h d'") auto
  qed
qed

lemma session_deleted:
  "DeleteSession None h d = (r, d') \<Longrightarrow> \<exists>e. SessionAdmin None now h d' = Inl e \<and> errors_Is e ErrNotFound"
proof -
  assume del: "DeleteSession None h d = (r, d')"
  then have "SessionAdmin None now h d' \<noteq> Inr adm" for adm
    by (auto simp: DeleteSession_def dest: SessionAdmin_Inr)
  then show ?thesis
    using SessionAdmin_Inl by (cases "SessionAdmin None now h d'") auto
qed

end
