(* ===== verification/Ports.thy ===== *)
theory Ports imports GoStrings begin

text \<open>
  \<open>internal/proxy/ports.go\<close>: the advisory port check made before a proxy is created or moved, and
  the recognition of a port conflict that Docker reports when the container starts. What the
  operating system answers to \<open>net.Listen\<close> and to closing the listener are arguments
  (\<open>None\<close> is a nil error).
\<close>

definition ErrPortReserved_err :: gerror where
  "ErrPortReserved_err = GErr ''proxy: port is reserved by the panel'' [ErrPortReserved]"

definition ErrPortConflict_err :: gerror where
  "ErrPortConflict_err = GErr ''proxy: port is already bound on the host'' [ErrPortConflict]"

fun check_reserved :: "int \<Rightarrow> int list \<Rightarrow> gerror option" where
  "check_reserved port [] = None"
| "check_reserved port (r # rs) =
     (if port = r then
        Some (errorf_wrap_first ErrPortReserved_err
          ('': '' @ Itoa port @ '' is used by the panel's web server''))
      else check_reserved port rs)"

definition CheckPort :: "(int \<Rightarrow> gerror option) \<Rightarrow> gerror option \<Rightarrow> int \<Rightarrow> int list \<Rightarrow> gerror option" where
  "CheckPort listen lclose port reserved =
     (if port < 1 \<or> port > 65535 then
        Some (errorf (''proxy: port '' @ Itoa port @ '' out of range 1-65535''))
      else case check_reserved port reserved of
        Some e \<Rightarrow> Some e
      | None \<Rightarrow>
          (case listen port of
             Some e \<Rightarrow> Some (errorf_wrap
               (''proxy: port '' @ Itoa port @ '' is already in use on this host: '') e)
           | None \<Rightarrow> lclose))"

definition isDockerPortConflict :: "gerror option \<Rightarrow> bool" where
  "isDockerPortConflict err =
     (case err of
        None \<Rightarrow> False
      | Some e \<Rightarrow> strings_Contains (err_text e) ''already allocated'' \<or>
                 strings_Contains (err_text e) ''address already in use'')"

definition wrapPortConflict :: "int \<Rightarrow> gerror option \<Rightarrow> gerror option" where
  "wrapPortConflict port err =
     (if \<not> isDockerPortConflict err then err
      else Some (errorf_wrap_first ErrPortConflict_err
        ('': port '' @ Itoa port @ '': '' @ (case err of Some e \<Rightarrow> err_text e | None \<Rightarrow> ''''))))"

lemma check_reserved_None: "check_reserved port rs = None \<longleftrightarrow> port \<notin> set rs"
  by (induction rs) auto

lemma check_reserved_Some:
  "check_reserved port rs = Some e \<Longrightarrow> port \<in> set rs \<and> errors_Is e ErrPortReserved"
  by (induction rs) (auto simp: errors_Is_def ErrPortReserved_err_def errorf_wrap_first_def
      split: if_splits)

lemma CheckPort_None_iff:
  "CheckPort listen lclose port reserved = None \<longleftrightarrow>
     1 \<le> port \<and> port \<le> 65535 \<and> port \<notin> set reserved \<and> listen port = None \<and> lclose = None"
  by (auto simp: CheckPort_def check_reserved_None split: option.splits dest: check_reserved_Some)

lemma CheckPort_reserved:
  "1 \<le> port \<Longrightarrow> port \<le> 65535 \<Longrightarrow> port \<in> set reserved \<Longrightarrow>
    \<exists>e. CheckPort listen lclose port reserved = Some e \<and> errors_Is e ErrPortReserved"
  by (auto simp: CheckPort_def check_reserved_None split: option.splits dest: check_reserved_Some)

lemma wrapPortConflict_None [simp]: "wrapPortConflict port None = None"
  by (simp add: wrapPortConflict_def isDockerPortConflict_def)

lemma wrapPortConflict_Some:
  "\<exists>e'. wrapPortConflict port (Some e) = Some e'"
  by (simp add: wrapPortConflict_def)

lemma wrapPortConflict_Is:
  "wrapPortConflict port (Some e) = Some e' \<Longrightarrow>
     errors_Is e' ErrPortConflict \<longleftrightarrow> isDockerPortConflict (Some e) \<or> errors_Is e ErrPortConflict"
  by (auto simp: wrapPortConflict_def errors_Is_def ErrPortConflict_err_def errorf_wrap_first_def
      split: if_splits)

end
