(* ===== verification/GoJson.thy ===== *)
theory GoJson imports GoStrings begin

text \<open>
  \<open>encoding/json\<close> of Go 1.25 as the control-API client uses it: UTF-8, the escaping of strings by
  \<open>Marshal\<close>, the syntax that \<open>Unmarshal\<close> accepts (with its nesting limit), and the storing of a
  parsed value into a Go value of a given type. Types are data here (\<open>jty\<close>), as they are for Go's
  reflection; \<open>typed\<close> says which Go values a type has and \<open>conforms\<close> which JSON values it accepts.
\<close>

section \<open>UTF-8\<close>

definition cont_byte :: "char \<Rightarrow> bool" where
  "cont_byte c \<longleftrightarrow> 128 \<le> code_of c \<and> code_of c < 192"

text \<open>The second byte's range depends on the first: no overlong forms, no surrogates, no code point
  above 10FFFF.\<close>

definition second_byte :: "char \<Rightarrow> char \<Rightarrow> bool" where
  "second_byte a b \<longleftrightarrow> cont_byte b \<and>
     (code_of a = 224 \<longrightarrow> 160 \<le> code_of b) \<and> (code_of a = 237 \<longrightarrow> code_of b < 160) \<and>
     (code_of a = 240 \<longrightarrow> 144 \<le> code_of b) \<and> (code_of a = 244 \<longrightarrow> code_of b < 144)"

text \<open>The length of the encoded code point at the head of a text, 0 if there is none.\<close>

fun rune_len :: "string \<Rightarrow> nat" where
  "rune_len [] = 0"
| "rune_len (a # s) =
     (let n = code_of a in
      if n < 128 then 1
      else if 194 \<le> n \<and> n < 224 then (case s of b # _ \<Rightarrow> if cont_byte b then 2 else 0 | _ \<Rightarrow> 0)
      else if 224 \<le> n \<and> n < 240 then
        (case s of b # c # _ \<Rightarrow> if second_byte a b \<and> cont_byte c then 3 else 0 | _ \<Rightarrow> 0)
      else if 240 \<le> n \<and> n < 245 then
        (case s of b # c # d # _ \<Rightarrow> if second_byte a b \<and> cont_byte c \<and> cont_byte d then 4 else 0 | _ \<Rightarrow> 0)
      else 0)"

definition rune_error :: string where
  "rune_error = [CHR 0xEF, CHR 0xBF, CHR 0xBD]"

text \<open>Every byte that is no part of a code point replaced by U+FFFD.\<close>

function to_valid :: "string \<Rightarrow> string" where
  "to_valid [] = []"
| "to_valid (a # s) =
     (let n = rune_len (a # s) in
      if n = 0 then rune_error @ to_valid s
      else take n (a # s) @ to_valid (drop n (a # s)))"
  by pat_completeness auto
termination by (relation "measure length") (auto simp: Let_def)

definition utf8_encode :: "nat \<Rightarrow> string" where
  "utf8_encode r =
     (if r < 128 then [chr_of r]
      else if r < 2048 then [chr_of (192 + r div 64), chr_of (128 + r mod 64)]
      else if 55296 \<le> r \<and> r < 57344 \<or> 1114111 < r then rune_error
      else if r < 65536 then
        [chr_of (224 + r div 4096), chr_of (128 + r div 64 mod 64), chr_of (128 + r mod 64)]
      else [chr_of (240 + r div 262144), chr_of (128 + r div 4096 mod 64),
            chr_of (128 + r div 64 mod 64), chr_of (128 + r mod 64)])"

section \<open>Strings\<close>

definition json_escape :: "char \<Rightarrow> string" where
  "json_escape c =
     (if c = c_dq then [c_bs, c_dq] else if c = c_bs then [c_bs, c_bs]
      else if code_of c = 8 then c_bs # ''b'' else if code_of c = 12 then c_bs # ''f''
      else if code_of c = 10 then c_bs # ''n'' else if code_of c = 13 then c_bs # ''r''
      else if code_of c = 9 then c_bs # ''t''
      else if code_of c < 32 \<or> c \<in> set ''<>&'' then
        c_bs # ''u00'' @ [hex_digit (code_of c div 16), hex_digit (code_of c mod 16)]
      else [c])"

function json_body :: "string \<Rightarrow> string" where
  "json_body [] = []"
| "json_body (a # s) =
     (let n = rune_len (a # s); r = take n (a # s) in
      if n = 0 then c_bs # ''ufffd'' @ json_body s
      else if n = 1 then json_escape a @ json_body s
      else if r = [CHR 0xE2, CHR 0x80, CHR 0xA8] then c_bs # ''u2028'' @ json_body (drop n (a # s))
      else if r = [CHR 0xE2, CHR 0x80, CHR 0xA9] then c_bs # ''u2029'' @ json_body (drop n (a # s))
      else r @ json_body (drop n (a # s)))"
  by pat_completeness auto
termination by (relation "measure length") (auto simp: Let_def)

definition json_string :: "string \<Rightarrow> string" where
  "json_string s = [c_dq] @ json_body s @ [c_dq]"

fun getu4 :: "string \<Rightarrow> nat option" where
  "getu4 (a # b # c # d # _) =
     (case (hex_val a, hex_val b, hex_val c, hex_val d) of
        (Some w, Some x, Some y, Some z) \<Rightarrow> Some (((w * 16 + x) * 16 + y) * 16 + z)
      | _ \<Rightarrow> None)"
| "getu4 _ = None"

definition high_surrogate :: "nat \<Rightarrow> bool" where
  "high_surrogate r \<longleftrightarrow> 55296 \<le> r \<and> r < 56320"

definition low_surrogate :: "nat \<Rightarrow> bool" where
  "low_surrogate r \<longleftrightarrow> 56320 \<le> r \<and> r < 57344"

text \<open>The character an escape of one letter stands for.\<close>

definition simple_escape :: "char \<Rightarrow> char option" where
  "simple_escape e =
     (if e \<in> {c_dq, c_bs, CHR ''/''} then Some e
      else map_of [(CHR ''b'', CHR 0x08), (CHR ''f'', CHR 0x0C), (CHR ''n'', c_nl), (CHR ''r'', CHR 0x0D),
        (CHR ''t'', CHR 0x09)] e)"

text \<open>A hexadecimal escape, with the second one of a surrogate pair: the bytes it stands for and how
  many characters after \<open>u\<close> it takes.\<close>

definition u_escape :: "nat \<Rightarrow> string \<Rightarrow> string \<times> nat" where
  "u_escape r t =
     (if \<not> high_surrogate r then (utf8_encode r, 4)
      else case drop 4 t of
        a # b # t' \<Rightarrow>
          (case getu4 t' of
             Some r1 \<Rightarrow>
               if a = c_bs \<and> b = CHR ''u'' \<and> low_surrogate r1
               then (utf8_encode ((r - 55296) * 1024 + (r1 - 56320) + 65536), 10) else (rune_error, 4)
           | None \<Rightarrow> (rune_error, 4))
      | _ \<Rightarrow> (rune_error, 4))"

lemma u_escape_pos: "0 < snd (u_escape r t)"
  by (auto simp: u_escape_def split: list.splits option.splits)

text \<open>The rest of a string literal: its value, and what follows the closing quote.\<close>

function unquote :: "string \<Rightarrow> (string \<times> string) option" where
  "unquote [] = None"
| "unquote (c # s) =
     (if c = c_dq then Some ([], s)
      else if c = c_bs then
        (case s of
           [] \<Rightarrow> None
         | e # t \<Rightarrow>
             (case simple_escape e of
                Some x \<Rightarrow> map_option (apfst (Cons x)) (unquote t)
              | None \<Rightarrow>
                  if e = CHR ''u'' then
                    (case getu4 t of
                       None \<Rightarrow> None
                     | Some r \<Rightarrow> map_option (apfst ((@) (fst (u_escape r t)))) (unquote (drop (snd (u_escape r t)) t)))
                  else None))
      else if code_of c < 32 then None
      else (let n = rune_len (c # s) in
            if n = 0 then map_option (apfst ((@) rune_error)) (unquote s)
            else map_option (apfst ((@) (take n (c # s)))) (unquote (drop n (c # s)))))"
  by pat_completeness auto
termination by (relation "measure length") (auto simp: Let_def)

section \<open>Values\<close>

datatype jval = VNull | VBool bool | VNum string | VStr string | VArr "jval list"
  | VObj "(string \<times> jval) list"

definition json_space :: "char \<Rightarrow> bool" where
  "json_space c \<longleftrightarrow> c = CHR '' '' \<or> c = c_nl \<or> code_of c = 9 \<or> code_of c = 13"

abbreviation skip_ws :: "string \<Rightarrow> string" where
  "skip_ws \<equiv> dropWhile json_space"

text \<open>A number: an optional sign, an integer without leading zeros, an optional fraction, an optional
  exponent. Each part gives its text and what follows.\<close>

definition digits :: "string \<Rightarrow> (string \<times> string) option" where
  "digits s = (case takeWhile is_digit s of [] \<Rightarrow> None | ds \<Rightarrow> Some (ds, dropWhile is_digit s))"

definition int_part :: "string \<Rightarrow> (string \<times> string) option" where
  "int_part s =
     (case s of CHR ''0'' # t \<Rightarrow> Some (''0'', t) | _ \<Rightarrow> digits s)"

definition frac_part :: "string \<Rightarrow> (string \<times> string) option" where
  "frac_part s =
     (case s of
        c # t \<Rightarrow> if c = CHR ''.'' then map_option (apfst (Cons c)) (digits t) else Some ([], s)
      | [] \<Rightarrow> Some ([], []))"

definition exp_part :: "string \<Rightarrow> (string \<times> string) option" where
  "exp_part s =
     (case s of
        c # t \<Rightarrow>
          if c = CHR ''e'' \<or> c = CHR ''E'' then
            (case t of
               d # u \<Rightarrow> if d = CHR ''+'' \<or> d = CHR ''-'' then map_option (apfst (\<lambda>ds. c # d # ds)) (digits u)
                        else map_option (apfst (Cons c)) (digits t)
             | [] \<Rightarrow> None)
          else Some ([], s)
      | [] \<Rightarrow> Some ([], []))"

definition sign_part :: "string \<Rightarrow> string \<times> string" where
  "sign_part s = (case s of c # t \<Rightarrow> if c = CHR ''-'' then ([c], t) else ([], s) | [] \<Rightarrow> ([], []))"

definition number :: "string \<Rightarrow> (string \<times> string) option" where
  "number s =
     (let (sg, s1) = sign_part s in
      case int_part s1 of
        None \<Rightarrow> None
      | Some (i, s2) \<Rightarrow>
          (case frac_part s2 of
             None \<Rightarrow> None
           | Some (f, s3) \<Rightarrow> map_option (apfst (\<lambda>e. sg @ i @ f @ e)) (exp_part s3)))"

definition scalar :: "string \<Rightarrow> (jval \<times> string) option" where
  "scalar s =
     (if prefix ''null'' s then Some (VNull, drop 4 s)
      else if prefix ''true'' s then Some (VBool True, drop 4 s)
      else if prefix ''false'' s then Some (VBool False, drop 5 s)
      else case s of
        [] \<Rightarrow> None
      | c # t \<Rightarrow> if c = c_dq then map_option (apfst VStr) (unquote t)
                else map_option (apfst VNum) (number s))"

text \<open>The rest of an array and of an object that are not empty, given a parser for values. Every
  element takes at least one character, so the length of the text is fuel enough.\<close>

fun elements :: "(string \<Rightarrow> (jval \<times> string) option) \<Rightarrow> nat \<Rightarrow> string \<Rightarrow> (jval list \<times> string) option" where
  "elements p 0 s = None"
| "elements p (Suc n) s =
     (case p s of
        None \<Rightarrow> None
      | Some (v, s1) \<Rightarrow>
          (case skip_ws s1 of
             [] \<Rightarrow> None
           | c # t \<Rightarrow> if c = CHR '']'' then Some ([v], t)
                     else if c = CHR '','' then map_option (apfst (Cons v)) (elements p n t)
                     else None))"

definition member :: "(string \<Rightarrow> (jval \<times> string) option) \<Rightarrow> string \<Rightarrow> ((string \<times> jval) \<times> string) option" where
  "member p s =
     (case skip_ws s of
        [] \<Rightarrow> None
      | q # t \<Rightarrow>
          if q \<noteq> c_dq then None
          else case unquote t of
            None \<Rightarrow> None
          | Some (k, s1) \<Rightarrow>
              (case skip_ws s1 of
                 [] \<Rightarrow> None
               | c # u \<Rightarrow> if c = CHR '':'' then map_option (apfst (Pair k)) (p u) else None))"

fun members ::
  "(string \<Rightarrow> (jval \<times> string) option) \<Rightarrow> nat \<Rightarrow> string \<Rightarrow> ((string \<times> jval) list \<times> string) option" where
  "members p 0 s = None"
| "members p (Suc n) s =
     (case member p s of
        None \<Rightarrow> None
      | Some (m, s1) \<Rightarrow>
          (case skip_ws s1 of
             [] \<Rightarrow> None
           | c # t \<Rightarrow> if c = CHR ''}'' then Some ([m], t)
                     else if c = CHR '','' then map_option (apfst (Cons m)) (members p n t)
                     else None))"

text \<open>A value nested at most \<open>d\<close> deep.\<close>

definition value_with ::
  "(string \<Rightarrow> (jval \<times> string) option) option \<Rightarrow> string \<Rightarrow> (jval \<times> string) option" where
  "value_with inner s0 =
     (case skip_ws s0 of
        [] \<Rightarrow> None
      | c # s \<Rightarrow>
          if c = CHR ''['' then
            (case inner of
               None \<Rightarrow> None
             | Some p \<Rightarrow>
                 if prefix '']'' (skip_ws s) then Some (VArr [], tl (skip_ws s))
                 else map_option (apfst VArr) (elements p (length s) s))
          else if c = CHR ''{'' then
            (case inner of
               None \<Rightarrow> None
             | Some p \<Rightarrow>
                 if prefix ''}'' (skip_ws s) then Some (VObj [], tl (skip_ws s))
                 else map_option (apfst VObj) (members p (length s) s))
          else scalar (c # s))"

primrec json_value :: "nat \<Rightarrow> string \<Rightarrow> (jval \<times> string) option" where
  "json_value 0 = value_with None"
| "json_value (Suc d) = value_with (Some (json_value d))"

definition max_nesting :: nat where
  "max_nesting = 10000"

definition json_parse :: "string \<Rightarrow> jval option" where
  "json_parse s =
     (case json_value max_nesting s of
        None \<Rightarrow> None
      | Some (v, rest) \<Rightarrow> if skip_ws rest = [] then Some v else None)"

section \<open>Strings read back\<close>

lemma rune_len_le: "rune_len s \<le> length s"
  by (cases s) (auto simp: Let_def split: list.splits)

lemma rune_len_take:
  "rune_len s = n \<Longrightarrow> n \<noteq> 0 \<Longrightarrow> rune_len (take n s @ t) = n"
  by (cases s) (auto simp: Let_def split: list.splits if_splits)

lemma rune_len_1: "rune_len (a # s) = 1 \<longleftrightarrow> code_of a < 128"
  by (auto simp: Let_def split: list.splits if_splits)

lemma rune_len_multi: "rune_len (a # s) = n \<Longrightarrow> 1 < n \<Longrightarrow> 128 \<le> code_of a"
  by (auto simp: Let_def split: list.splits if_splits)

lemma big_byte: "128 \<le> code_of a \<Longrightarrow> a \<noteq> c_dq \<and> a \<noteq> c_bs \<and> \<not> code_of a < 32"
  by auto

lemma unquote_rune:
  assumes n: "rune_len (a # s) = n" "1 < n"
  shows "unquote (take n (a # s) @ t) = map_option (apfst ((@) (take n (a # s)))) (unquote t)"
proof -
  have c: "take n (a # s) @ t = a # (take (n - 1) s @ t)" using n(2) by (cases n) auto
  have l: "rune_len (a # (take (n - 1) s @ t)) = n" using rune_len_take [OF n(1)] n(2) c by simp
  have le: "n \<le> length (a # s)" using rune_len_le [of "a # s"] n(1) by simp
  have "take n (a # (take (n - 1) s @ t)) = take n (a # s)" "drop n (a # (take (n - 1) s @ t)) = t"
    using le unfolding c [symmetric] by simp_all
  with big_byte [OF rune_len_multi [OF n]] n(2) show ?thesis
    unfolding c unquote.simps l Let_def by simp
qed

lemma unquote_ascii:
  assumes "32 \<le> code_of a" "code_of a < 128" "a \<noteq> c_dq" "a \<noteq> c_bs"
  shows "unquote (a # t) = map_option (apfst (Cons a)) (unquote t)"
proof -
  have "(@) [a] = Cons a" by auto
  moreover have "rune_len (a # t) = 1" using assms(2) rune_len_1 by blast
  ultimately show ?thesis using assms by (simp del: rune_len.simps)
qed

lemma utf8_ascii: "r < 128 \<Longrightarrow> utf8_encode r = [chr_of r]"
  by (simp add: utf8_encode_def)

lemma hex_val_digit: "n < 16 \<Longrightarrow> hex_val (hex_digit n) = Some n"
  by (rule all_below_by_list [where k = 16]) (simp_all add: hex_val_def hex_digit_def upt_rec)

lemma unquote_u:
  assumes "getu4 (h @ t) = Some r" "length h = 4" "\<not> high_surrogate r"
  shows "unquote (c_bs # CHR ''u'' # h @ t) = map_option (apfst ((@) (utf8_encode r))) (unquote t)"
  using assms by (simp add: simple_escape_def u_escape_def)

lemma getu4_byte:
  assumes "n < 128"
  shows "getu4 (CHR ''0'' # CHR ''0'' # hex_digit (n div 16) # hex_digit (n mod 16) # t) = Some n"
proof -
  have "hex_val CHR ''0'' = Some 0" by (simp add: hex_val_def)
  then show ?thesis using assms by (simp add: hex_val_digit)
qed

lemma unquote_simple:
  "simple_escape e = Some x \<Longrightarrow> unquote (c_bs # e # t) = map_option (apfst (Cons x)) (unquote t)"
  by simp

lemma unquote_escape:
  assumes "code_of a < 128"
  shows "unquote (json_escape a @ t) = map_option (apfst (Cons a)) (unquote t)"
proof -
  have u: "unquote (c_bs # ''u00'' @ [hex_digit (code_of a div 16), hex_digit (code_of a mod 16)] @ t) =
      map_option (apfst (Cons a)) (unquote t)"
  proof -
    have "(@) [a] = Cons a" by auto
    moreover have "\<not> high_surrogate (code_of a)" using assms by (simp add: high_surrogate_def)
    ultimately show ?thesis
      using unquote_u [of "''00'' @ [hex_digit (code_of a div 16), hex_digit (code_of a mod 16)]" t "code_of a"]
        getu4_byte [OF assms] utf8_ascii [OF assms] by simp
  qed
  have nm: "code_of a = n \<Longrightarrow> a = chr_of n" for n by auto
  show ?thesis
  proof (cases "a = c_dq \<or> a = c_bs \<or> code_of a \<in> {8, 12, 10, 13, 9}")
    case True
    have lit: "chr_of 8 = CHR 0x08" "chr_of 12 = CHR 0x0C" "chr_of 10 = c_nl" "chr_of 13 = CHR 0x0D"
      "chr_of 9 = CHR 0x09" by (simp_all add: char_of_def bit_0)
    have "a \<in> {c_dq, c_bs, CHR 0x08, CHR 0x0C, c_nl, CHR 0x0D, CHR 0x09}"
      using True nm [of 8, unfolded lit] nm [of 12, unfolded lit] nm [of 10, unfolded lit]
        nm [of 13, unfolded lit] nm [of 9, unfolded lit] by blast
    then obtain e where "json_escape a = [c_bs, e]" "simple_escape e = Some a"
      by (elim insertE) (simp_all add: json_escape_def simple_escape_def)
    then show ?thesis by (simp add: unquote_simple del: unquote.simps)
  next
    case False
    then show ?thesis
      using u unquote_ascii [of a t] assms by (auto simp: json_escape_def simp del: unquote.simps)
  qed
qed

text \<open>What \<open>Marshal\<close> writes for a string reads back as that string, with U+FFFD for each byte that
  was no text.\<close>

lemma unquote_json_body:
  "unquote (json_body s @ c_dq # t) = Some (to_valid s, t)"
proof (induction s rule: json_body.induct)
  case 1
  then show ?case by simp
next
  case (2 a s)
  define n where "n = rune_len (a # s)"
  have enc: "utf8_encode 65533 = rune_error" "utf8_encode 8232 = [CHR 0xE2, CHR 0x80, CHR 0xA8]"
    "utf8_encode 8233 = [CHR 0xE2, CHR 0x80, CHR 0xA9]"
    by (simp_all add: utf8_encode_def rune_error_def char_of_def bit_0)
  have u: "unquote (c_bs # CHR ''u'' # h @ json_body r @ c_dq # t) = Some (utf8_encode k @ to_valid r, t)"
    if "unquote (json_body r @ c_dq # t) = Some (to_valid r, t)" "length h = 4"
      "getu4 (h @ json_body r @ c_dq # t) = Some k" "\<not> high_surrogate k" for h k r
    using unquote_u [OF that(3,2,4)] that(1) by simp
  consider "n = 0" | "n = 1" | "1 < n" by linarith
  then show ?case
  proof cases
    case 1
    have "unquote (json_body s @ c_dq # t) = Some (to_valid s, t)"
      using 2(1) [OF n_def refl] 1 by simp
    then show ?thesis
      using u [of s "''fffd''" 65533] 1
      by (simp add: n_def enc hex_val_def high_surrogate_def del: rune_len.simps unquote.simps)
  next
    case one: 2
    have "unquote (json_body s @ c_dq # t) = Some (to_valid s, t)"
      using 2(2) [OF n_def refl] one by simp
    moreover have "code_of a < 128" using one rune_len_1 unfolding n_def by blast
    ultimately show ?thesis
      using unquote_escape [of a "json_body s @ c_dq # t"] one
      by (simp add: n_def del: rune_len.simps unquote.simps)
  next
    case more: 3
    let ?r = "take n (a # s)" and ?d = "drop n (a # s)"
    have valid: "to_valid (a # s) = ?r @ to_valid ?d"
      using more by (simp add: n_def Let_def del: rune_len.simps)
    have ih: "unquote (json_body ?d @ c_dq # t) = Some (to_valid ?d, t)"
    proof -
      have "n \<noteq> 0" "n \<noteq> 1" using more by simp_all
      then show ?thesis using 2(3-5) [OF n_def refl] by blast
    qed
    have "?r \<noteq> utf8_encode 8232 \<Longrightarrow> ?r \<noteq> utf8_encode 8233 \<Longrightarrow>
        json_body (a # s) = ?r @ json_body ?d"
      using more by (simp add: Let_def n_def [symmetric] enc del: rune_len.simps)
    then consider (s8) "?r = utf8_encode 8232" | (s9) "?r = utf8_encode 8233"
      | (plain) "json_body (a # s) = ?r @ json_body ?d"
      by blast
    then show ?thesis
    proof cases
      case s8
      then have "json_body (a # s) = c_bs # ''u2028'' @ json_body ?d"
        using more by (simp add: Let_def n_def [symmetric] enc del: rune_len.simps)
      then show ?thesis
        using u [OF ih, of "''2028''" 8232] s8 valid
        by (simp add: hex_val_def high_surrogate_def del: rune_len.simps unquote.simps)
    next
      case s9
      then have "json_body (a # s) = c_bs # ''u2029'' @ json_body ?d"
        using more by (simp add: Let_def n_def [symmetric] enc del: rune_len.simps)
      then show ?thesis
        using u [OF ih, of "''2029''" 8233] s9 valid
        by (simp add: hex_val_def high_surrogate_def del: rune_len.simps unquote.simps)
    next
      case plain
      then show ?thesis
        using unquote_rune [OF n_def [symmetric] more, of "json_body ?d @ c_dq # t"] ih valid
        by (simp del: rune_len.simps unquote.simps)
    qed
  qed
qed


lemma to_valid_ascii: "\<forall>c \<in> set s. code_of c < 128 \<Longrightarrow> to_valid s = s"
proof (induction s)
  case Nil
  then show ?case by simp
next
  case (Cons a s)
  have "rune_len (a # s) = 1" using Cons.prems rune_len_1 by simp
  then show ?case using Cons by simp
qed

text \<open>The recursive equations are used by name from here on.\<close>

declare rune_len.simps [simp del] to_valid.simps [simp del] json_body.simps [simp del]
  unquote.simps [simp del]

lemmas json_eval = unquote.simps rune_len.simps

end
