(* ===== verification/TelemtClient.thy ===== *)
theory TelemtClient imports GoJson begin

text \<open>
  \<open>internal/telemt/client/client.go\<close>: the data of telemt's Control API, the three-state patch
  fields and the JSON Merge Patch payload they marshal to. \<open>merge_patch\<close> is the meaning RFC 7396
  gives such a payload for a flat object; the lemmas say what each of the three states of a field
  does to the server's copy. The payload is shown to read back as what it was written from. The HTTP
  exchange is the theory \<open>TelemtAPI\<close>; the service and the poller see a client through the interface
  \<^emph>\<open>TelemtClient\<close> of \<open>service.go\<close>, a record of operations.
\<close>

section \<open>JSON values\<close>

datatype json = JNull | JBool bool | JNum int | JStr string

fun json_text :: "json \<Rightarrow> string" where
  "json_text JNull = ''null''"
| "json_text (JBool b) = (if b then ''true'' else ''false'')"
| "json_text (JNum i) = Itoa i"
| "json_text (JStr s) = json_string s"

definition json_object :: "(string \<times> json) list \<Rightarrow> string" where
  "json_object kvs =
     ''{'' @ strings_Join (map (\<lambda>(k, v). json_string k @ '':'' @ json_text v) kvs) '','' @ ''}''"

section \<open>Patch fields\<close>

record 'a opt =
  o_set :: bool
  o_val :: "'a option"

definition Unset :: "'a opt" where
  "Unset = \<lparr>o_set = False, o_val = None\<rparr>"

definition Value :: "'a \<Rightarrow> 'a opt" where
  "Value v = \<lparr>o_set = True, o_val = Some v\<rparr>"

definition Null :: "'a opt" where
  "Null = \<lparr>o_set = True, o_val = None\<rparr>"

definition From :: "'a option \<Rightarrow> 'a opt" where
  "From p = \<lparr>o_set = True, o_val = p\<rparr>"

definition IsSet :: "'a opt \<Rightarrow> bool" where
  "IsSet x = o_set x"

lemmas opt_defs = Unset_def Value_def Null_def From_def IsSet_def

record patch_user =
  pu_UserAdTag :: "string opt"
  pu_DataQuotaBytes :: "64 word opt"
  pu_ExpirationRFC3339 :: "string opt"
  pu_MaxTCPConns :: "int opt"
  pu_MaxUniqueIPs :: "int opt"
  pu_Enabled :: "bool opt"

definition empty_patch :: patch_user where
  "empty_patch = \<lparr>pu_UserAdTag = Unset, pu_DataQuotaBytes = Unset, pu_ExpirationRFC3339 = Unset,
     pu_MaxTCPConns = Unset, pu_MaxUniqueIPs = Unset, pu_Enabled = Unset\<rparr>"

definition json_ptr :: "('a \<Rightarrow> json) \<Rightarrow> 'a option \<Rightarrow> json" where
  "json_ptr f p = (case p of None \<Rightarrow> JNull | Some x \<Rightarrow> f x)"

definition patch_field :: "string \<Rightarrow> ('a \<Rightarrow> json) \<Rightarrow> 'a opt \<Rightarrow> (string \<times> json) list" where
  "patch_field k f x = (if IsSet x then [(k, json_ptr f (o_val x))] else [])"

text \<open>The payload's members, in the order \<open>json.Marshal\<close> writes a map: keys sorted.\<close>

definition patch_members :: "patch_user \<Rightarrow> (string \<times> json) list" where
  "patch_members p =
     patch_field ''data_quota_bytes'' (\<lambda>w. JNum (uint w)) (pu_DataQuotaBytes p) @
     patch_field ''enabled'' JBool (pu_Enabled p) @
     patch_field ''expiration_rfc3339'' JStr (pu_ExpirationRFC3339 p) @
     patch_field ''max_tcp_conns'' JNum (pu_MaxTCPConns p) @
     patch_field ''max_unique_ips'' JNum (pu_MaxUniqueIPs p) @
     patch_field ''user_ad_tag'' JStr (pu_UserAdTag p)"

definition MarshalJSON :: "patch_user \<Rightarrow> string" where
  "MarshalJSON p = json_object (patch_members p)"

section \<open>Merge patch\<close>

fun merge_patch :: "(string \<times> json) list \<Rightarrow> (string \<rightharpoonup> json) \<Rightarrow> (string \<rightharpoonup> json)" where
  "merge_patch [] m = m"
| "merge_patch ((k, v) # kvs) m =
     merge_patch kvs (if v = JNull then m(k := None) else m(k \<mapsto> v))"

lemma merge_patch_append: "merge_patch (xs @ ys) m = merge_patch ys (merge_patch xs m)"
  by (induction xs arbitrary: m) auto

lemma merge_patch_field:
  "merge_patch (patch_field k f x) m =
     (if \<not> o_set x then m
      else case o_val x of None \<Rightarrow> m(k := None) | Some v \<Rightarrow> (if f v = JNull then m(k := None) else m(k \<mapsto> f v)))"
  by (auto simp: patch_field_def IsSet_def json_ptr_def split: option.splits)

section \<open>The payload reads back\<close>

definition stops_number :: "char \<Rightarrow> bool" where
  "stops_number c \<longleftrightarrow> \<not> is_digit c \<and> c \<notin> {CHR ''.'', CHR ''e'', CHR ''E''}"

lemma digits_append:
  assumes "ds \<noteq> []" "\<forall>d \<in> set ds. is_digit d" "\<not> is_digit c"
  shows "digits (ds @ c # t) = Some (ds, c # t)"
  using assms by (cases ds) (auto simp: digits_def takeWhile_append dropWhile_append)

lemma format_nat_first: "0 < n \<Longrightarrow> hd (format_nat n) \<noteq> CHR ''0''"
proof (induction n rule: format_nat.induct)
  case (1 n)
  show ?case
  proof (cases "n < 10")
    case True
    then have "code_of (digit_char n) = 48 + n" by (simp add: digit_char_def)
    then have "code_of (digit_char n) \<noteq> code_of CHR ''0''" using 1(2) by simp
    then have "digit_char n \<noteq> CHR ''0''" by metis
    then show ?thesis using True by (subst format_nat.simps) simp
  next
    case False
    then have "hd (format_nat (n div 10)) \<noteq> CHR ''0''" using 1(1) by simp
    then show ?thesis using False by (subst format_nat.simps) (simp add: hd_append)
  qed
qed

lemma format_nat_zero: "format_nat 0 = ''0''"
  by (subst format_nat.simps) (simp add: digit_char_def char_of_def bit_0)

lemma int_part_format:
  assumes "\<not> is_digit c"
  shows "int_part (format_nat n @ c # t) = Some (format_nat n, c # t)"
proof (cases "n = 0")
  case True
  then show ?thesis by (simp add: int_part_def format_nat_zero)
next
  case False
  obtain d ds where f: "format_nat n = d # ds" by (cases "format_nat n") auto
  then have "d \<noteq> CHR ''0''" using format_nat_first [of n] False by simp
  then have "int_part (format_nat n @ c # t) = digits (format_nat n @ c # t)"
    unfolding f int_part_def by (auto split: char.splits bool.splits)
  then show ?thesis using digits_append [of "format_nat n" c t] format_nat_digits assms by simp
qed

lemma number_Itoa:
  assumes "stops_number c"
  shows "number (Itoa i @ c # t) = Some (Itoa i, c # t)"
proof -
  have fe: "frac_part (c # t) = Some ([], c # t)" "exp_part (c # t) = Some ([], c # t)"
    using assms by (simp_all add: frac_part_def exp_part_def stops_number_def)
  have ip: "int_part (format_nat n @ c # t) = Some (format_nat n, c # t)" for n
    using int_part_format assms by (simp add: stops_number_def)
  have sg: "sign_part (format_nat n @ c # t) = ([], format_nat n @ c # t)" for n
    using format_nat_head [of n] by (cases "format_nat n") (auto simp: sign_part_def)
  show ?thesis
  proof (cases "i < 0")
    case True
    then show ?thesis using ip fe by (simp add: number_def Itoa_def sign_part_def)
  next
    case False
    then show ?thesis using ip fe sg by (simp add: number_def Itoa_def)
  qed
qed

text \<open>What a JSON reader sees of a written value.\<close>

fun jval_of :: "json \<Rightarrow> jval" where
  "jval_of JNull = VNull"
| "jval_of (JBool b) = VBool b"
| "jval_of (JNum i) = VNum (Itoa i)"
| "jval_of (JStr s) = VStr (to_valid s)"

lemma Itoa_first: "\<exists>d ds. Itoa i = d # ds \<and> (is_digit d \<or> d = CHR ''-'')"
  using Itoa_chars [of _ i] by (cases "Itoa i") (auto simp: Itoa_def split: if_splits)

lemma json_value_text:
  assumes "stops_number c"
  shows "json_value d (json_text j @ c # t) = Some (jval_of j, c # t)"
proof -
  have v: "json_value d (x # s) = scalar (x # s)"
    if "\<not> json_space x" "x \<noteq> CHR ''[''" "x \<noteq> CHR ''{''" for x s
    using that by (cases d) (simp_all add: value_with_def)
  show ?thesis
  proof (cases j)
    case JNull
    then show ?thesis by (simp add: v json_space_def scalar_def)
  next
    case (JBool b)
    then show ?thesis by (simp add: v json_space_def scalar_def)
  next
    case (JNum i)
    obtain x ds where x: "Itoa i = x # ds" "is_digit x \<or> x = CHR ''-''" using Itoa_first by blast
    have "scalar (x # ds @ c # t) = map_option (apfst VNum) (number (x # ds @ c # t))"
      using x(2) by (auto simp: scalar_def is_digit_def)
    moreover have "\<not> json_space x" "x \<noteq> CHR ''[''" "x \<noteq> CHR ''{''"
      using x(2) by (auto simp: json_space_def is_digit_def)
    ultimately show ?thesis using number_Itoa [OF assms, of i t] JNum v x(1) by simp
  next
    case (JStr s)
    have "unquote (json_body s @ c_dq # c # t) = Some (to_valid s, c # t)" by (rule unquote_json_body)
    then show ?thesis by (simp add: JStr v json_space_def scalar_def json_string_def)
  qed
qed

definition json_member :: "string \<times> json \<Rightarrow> string" where
  "json_member kv = json_string (fst kv) @ '':'' @ json_text (snd kv)"

lemma json_object_eq: "json_object kvs = ''{'' @ strings_Join (map json_member kvs) '','' @ ''}''"
  by (simp add: json_object_def json_member_def [abs_def] case_prod_beta')

lemma member_text:
  assumes "stops_number c"
  shows "member (json_value d) (json_member (k, v) @ c # t) = Some ((to_valid k, jval_of v), c # t)"
  using unquote_json_body [of k "CHR '':'' # json_text v @ c # t"] json_value_text [OF assms, of d v t]
  by (simp add: member_def json_member_def json_string_def json_space_def)

definition read_member :: "string \<times> json \<Rightarrow> string \<times> jval" where
  "read_member kv = (to_valid (fst kv), jval_of (snd kv))"

lemma members_text:
  assumes "kvs \<noteq> []" "length kvs \<le> n"
  shows "members (json_value d) n (strings_Join (map json_member kvs) '','' @ ''}'' @ t) =
    Some (map read_member kvs, t)"
  using assms
proof (induction kvs arbitrary: n)
  case Nil
  then show ?case by simp
next
  case (Cons kv kvs)
  obtain k v where kv: "kv = (k, v)" by (cases kv)
  obtain m where n: "n = Suc m" using Cons.prems(2) by (cases n) auto
  have stop: "stops_number CHR '',''" "stops_number CHR ''}''"
    by (simp_all add: stops_number_def is_digit_def)
  show ?case
  proof (cases kvs)
    case Nil
    then show ?thesis
      using member_text [OF stop(2), of d k v t]
      by (simp add: n kv json_space_def read_member_def)
  next
    case (Cons kv' kvs')
    then show ?thesis
      using member_text [OF stop(1), of d k v "strings_Join (map json_member kvs) '','' @ ''}'' @ t"]
        Cons.IH [of m] Cons.prems(2)
      by (simp add: n kv json_space_def read_member_def)
  qed
qed

lemma joined_length: "\<forall>s \<in> set ss. s \<noteq> [] \<Longrightarrow> length ss \<le> length (strings_Join ss sep @ t)"
proof (induction ss sep rule: strings_Join.induct)
  case (3 s s' ss sep)
  then show ?case by (cases s) auto
qed (auto simp: Suc_le_eq)

lemma json_parse_object:
  "json_parse (json_object kvs) = Some (VObj (map read_member kvs))"
proof -
  have nest: "json_value max_nesting = value_with (Some (json_value 9999))"
  proof -
    have "max_nesting = Suc 9999" by (simp add: max_nesting_def)
    then show ?thesis using json_value.simps(2) [of 9999] by metis
  qed
  show ?thesis
  proof (cases kvs)
    case Nil
    then show ?thesis
      by (simp add: json_parse_def nest json_object_eq value_with_def json_space_def)
  next
    case (Cons kv kvs')
    let ?s = "strings_Join (map json_member kvs) '','' @ ''}''"
    have len: "length kvs \<le> length ?s"
      by (rule le_trans [OF _ joined_length]) (simp_all add: json_member_def json_string_def)
    obtain u where u: "?s = c_dq # u"
      by (cases kvs') (simp_all add: Cons json_member_def json_string_def)
    have "members (json_value 9999) (length ?s) ?s = Some (map read_member kvs, [])"
      using members_text [of kvs "length ?s" 9999 "[]"] len Cons by simp
    then show ?thesis
      unfolding json_parse_def nest json_object_eq value_with_def u
      by (simp add: json_space_def)
  qed
qed

lemma MarshalJSON_reads_back:
  "json_parse (MarshalJSON p) = Some (VObj (map read_member (patch_members p)))"
  by (simp add: MarshalJSON_def json_parse_object)

text \<open>The member of a field: absent, null or a value.\<close>

definition field_value :: "('a \<Rightarrow> jval) \<Rightarrow> 'a opt \<Rightarrow> jval option" where
  "field_value f x = (if IsSet x then Some (case o_val x of None \<Rightarrow> VNull | Some v \<Rightarrow> f v) else None)"

lemma read_patch_field:
  assumes "\<forall>c \<in> set k. code_of c < 128"
  shows "map read_member (patch_field k f x) =
    (case field_value (jval_of \<circ> f) x of None \<Rightarrow> [] | Some v \<Rightarrow> [(k, v)])"
  using to_valid_ascii [OF assms]
  by (simp add: patch_field_def field_value_def read_member_def json_ptr_def split: option.split)

lemma map_of_optional:
  "map_of (case v of None \<Rightarrow> [] | Some x \<Rightarrow> [(k, x)]) k' = (if k' = k then v else None)"
  by (cases v) simp_all


definition patch_keys :: "string list" where
  "patch_keys = [''data_quota_bytes'', ''enabled'', ''expiration_rfc3339'', ''max_tcp_conns'', ''max_unique_ips'', ''user_ad_tag'']"

lemma patch_members_read:
  fixes p :: patch_user
  defines "ms \<equiv> map read_member (patch_members p)"
  shows "map_of ms ''data_quota_bytes'' = field_value (\<lambda>w. VNum (Itoa (uint w))) (pu_DataQuotaBytes p)"
    "map_of ms ''enabled'' = field_value VBool (pu_Enabled p)"
    "map_of ms ''expiration_rfc3339'' = field_value (\<lambda>s. VStr (to_valid s)) (pu_ExpirationRFC3339 p)"
    "map_of ms ''max_tcp_conns'' = field_value (\<lambda>i. VNum (Itoa i)) (pu_MaxTCPConns p)"
    "map_of ms ''max_unique_ips'' = field_value (\<lambda>i. VNum (Itoa i)) (pu_MaxUniqueIPs p)"
    "map_of ms ''user_ad_tag'' = field_value (\<lambda>s. VStr (to_valid s)) (pu_UserAdTag p)"
    "fst ` set ms \<subseteq> set patch_keys" "distinct (map fst ms)"
proof -
  have f: "jval_of \<circ> (\<lambda>w. JNum (uint w)) = (\<lambda>w. VNum (Itoa (uint (w :: 64 word))))" "jval_of \<circ> JBool = VBool"
    "jval_of \<circ> JStr = (\<lambda>s. VStr (to_valid s))" "jval_of \<circ> JNum = (\<lambda>i. VNum (Itoa i))" by auto
  let ?field = "\<lambda>k v. case v of None \<Rightarrow> [] | Some x \<Rightarrow> [(k, x)]"
  have ms: "ms = ?field ''data_quota_bytes'' (field_value (\<lambda>w. VNum (Itoa (uint w))) (pu_DataQuotaBytes p)) @
    ?field ''enabled'' (field_value VBool (pu_Enabled p)) @
    ?field ''expiration_rfc3339'' (field_value (\<lambda>s. VStr (to_valid s)) (pu_ExpirationRFC3339 p)) @
    ?field ''max_tcp_conns'' (field_value (\<lambda>i. VNum (Itoa i)) (pu_MaxTCPConns p)) @
    ?field ''max_unique_ips'' (field_value (\<lambda>i. VNum (Itoa i)) (pu_MaxUniqueIPs p)) @
    ?field ''user_ad_tag'' (field_value (\<lambda>s. VStr (to_valid s)) (pu_UserAdTag p))"
    unfolding ms_def patch_members_def map_append f [symmetric]
    by (subst read_patch_field, simp)+ (rule refl)
  show "map_of ms ''data_quota_bytes'' = field_value (\<lambda>w. VNum (Itoa (uint w))) (pu_DataQuotaBytes p)"
    "map_of ms ''enabled'' = field_value VBool (pu_Enabled p)"
    "map_of ms ''expiration_rfc3339'' = field_value (\<lambda>s. VStr (to_valid s)) (pu_ExpirationRFC3339 p)"
    "map_of ms ''max_tcp_conns'' = field_value (\<lambda>i. VNum (Itoa i)) (pu_MaxTCPConns p)"
    "map_of ms ''max_unique_ips'' = field_value (\<lambda>i. VNum (Itoa i)) (pu_MaxUniqueIPs p)"
    "map_of ms ''user_ad_tag'' = field_value (\<lambda>s. VStr (to_valid s)) (pu_UserAdTag p)"
    unfolding ms map_of_append map_add_def map_of_optional by (simp_all split: option.split)
  show "fst ` set ms \<subseteq> set patch_keys" unfolding ms patch_keys_def by (auto split: option.splits)
  show "distinct (map fst ms)" unfolding ms by (auto split: option.splits)
qed

section \<open>Replies and errors\<close>

record user_links =
  ul_Classic :: "string list"
  ul_Secure :: "string list"
  ul_TLS :: "string list"
  ul_TLSDomains :: "(string \<times> string) list"

record user_info =
  ui_Username :: string
  ui_Enabled :: bool
  ui_InRuntime :: bool
  ui_UserAdTag :: "string option"
  ui_CurrentConnections :: "64 word"
  ui_ActiveUniqueIPs :: int
  ui_ActiveUniqueIPsList :: "string list"
  ui_TotalOctets :: "64 word"
  ui_DataQuotaBytes :: "64 word option"
  ui_ExpirationRFC3339 :: "string option"
  ui_MaxTCPConns :: "int option"
  ui_MaxUniqueIPs :: "int option"
  ui_Links :: user_links

record api_error =
  ae_Status :: int
  ae_Code :: string
  ae_Message :: string

definition APIError_Error :: "api_error \<Rightarrow> string" where
  "APIError_Error e =
     (if ae_Code e = '''' then ''telemt api: http '' @ Itoa (ae_Status e)
      else ''telemt api: '' @ ae_Code e @ '' (http '' @ Itoa (ae_Status e) @ ''): '' @ ae_Message e)"

text \<open>The client's address and token: \<open>New\<close> drops trailing slashes of the base URL.\<close>

record client =
  cl_baseURL :: string
  cl_token :: string

definition client_New :: "string \<Rightarrow> string \<Rightarrow> client" where
  "client_New baseURL token = \<lparr>cl_baseURL = strings_TrimRight baseURL ''/'', cl_token = token\<rparr>"

text \<open>The interface \<^emph>\<open>TelemtClient\<close> that the service uses. An operation sees whether the caller's
  context is already cancelled and how many environment actions came before it, so that the
  answers of a live telemt process may differ from call to call.\<close>

record telemt_client =
  tc_Health :: "bool \<Rightarrow> nat \<Rightarrow> gerror option"
  tc_Users :: "bool \<Rightarrow> nat \<Rightarrow> user_info list res"
  tc_PatchUser :: "bool \<Rightarrow> nat \<Rightarrow> string \<Rightarrow> patch_user \<Rightarrow> user_info res"

end
