(* ===== verification/World.thy ===== *)
theory World imports Config Store Ports TelemtClient Runtime begin

text \<open>
  The state that one running panel works on, and the primitive actions of its services: the
  database, the file tree under the data directory, the container runtime (a state of any type), the
  clock. Everything outside the repository answers through \<open>platform\<close>, an arbitrary function of the
  number of environment actions so far (\<open>w_tick\<close>), so that any call may fail at any time. A
  \<open>context.Context\<close> is the tick at which it is cancelled, if any.

  \<open>w_hist\<close> and \<open>w_sent\<close> are ghosts that no code reads: the file trees that a concurrent reader could
  have seen, latest first, and the live patches handed to telemt.
\<close>

section \<open>State\<close>

datatype node = Dir | File string

type_synonym fs = "string \<rightharpoonup> node"

record 'r world =
  w_db :: db
  w_fs :: fs
  w_rt :: 'r
  w_tick :: nat
  w_clock :: instant
  w_hist :: "fs list"
  w_sent :: "(string \<times> string \<times> patch_user) list"

text \<open>What the environment answers: the fault of a database statement or of a system call at a tick
  (\<open>None\<close> for none), how many bytes a failing write got out, which entries a failing
  removal left, temporary names per attempt, random bytes, fresh UUIDs, \<open>net.Listen\<close> and closing the
  listener, and how long an action takes.\<close>

record platform =
  pl_driver :: driver
  pl_db_fault :: "nat \<Rightarrow> gerror option"
  pl_fs_fault :: "nat \<Rightarrow> gerror option"
  pl_written :: "nat \<Rightarrow> nat"
  pl_survives :: "nat \<Rightarrow> string \<Rightarrow> bool"
  pl_tmp :: "nat \<Rightarrow> nat \<Rightarrow> string"
  pl_rand :: "nat \<Rightarrow> nat \<Rightarrow> string res"
  pl_uuid :: "nat \<Rightarrow> string"
  pl_listen :: "nat \<Rightarrow> int \<Rightarrow> gerror option"
  pl_lclose :: "nat \<Rightarrow> gerror option"
  pl_latency :: "nat \<Rightarrow> nat"

definition tick :: "platform \<Rightarrow> 'r world \<Rightarrow> 'r world" where
  "tick pl w = w\<lparr>w_tick := w_tick w + 1, w_clock := w_clock w + int (pl_latency pl (w_tick w))\<rparr>"

section \<open>Contexts\<close>

record ctx =
  cx_cancel_at :: "nat option"

definition Background :: ctx where
  "Background = \<lparr>cx_cancel_at = None\<rparr>"

definition WithoutCancel :: "ctx \<Rightarrow> ctx" where
  "WithoutCancel c = \<lparr>cx_cancel_at = None\<rparr>"

definition ctx_done :: "ctx \<Rightarrow> 'r world \<Rightarrow> bool" where
  "ctx_done c w = (case cx_cancel_at c of None \<Rightarrow> False | Some n \<Rightarrow> n \<le> w_tick w)"

definition ctx_Err :: gerror where
  "ctx_Err = errorf ''context canceled''"

lemma ctx_done_WithoutCancel [simp]: "\<not> ctx_done (WithoutCancel c) w"
  by (simp add: ctx_done_def WithoutCancel_def)

lemma ctx_done_Background [simp]: "\<not> ctx_done Background w"
  by (simp add: ctx_done_def Background_def)

section \<open>Database statements\<close>

text \<open>\<open>database/sql\<close> answers a statement on a cancelled context with the context's error.\<close>

definition db_fault :: "platform \<Rightarrow> ctx \<Rightarrow> 'r world \<Rightarrow> gerror option" where
  "db_fault pl c w = (if ctx_done c w then Some ctx_Err else pl_db_fault pl (w_tick w))"

definition db_query :: "(gerror option \<Rightarrow> db \<Rightarrow> 'a) \<Rightarrow> platform \<Rightarrow> ctx \<Rightarrow> 'r world \<Rightarrow> 'a \<times> 'r world" where
  "db_query q pl c w = (q (db_fault pl c w) (w_db w), tick pl w)"

definition db_exec :: "(gerror option \<Rightarrow> instant \<Rightarrow> db \<Rightarrow> 'a \<times> db) \<Rightarrow> platform \<Rightarrow> ctx \<Rightarrow> 'r world \<Rightarrow> 'a \<times> 'r world" where
  "db_exec x pl c w =
     (let (r, d') = x (db_fault pl c w) (w_clock w) (w_db w) in (r, (tick pl w)\<lparr>w_db := d'\<rparr>))"

definition st_GetProxy :: "platform \<Rightarrow> ctx \<Rightarrow> string \<Rightarrow> 'r world \<Rightarrow> proxy res \<times> 'r world" where
  "st_GetProxy pl c pid = db_query (\<lambda>f. GetProxy f pid) pl c"

definition st_ListProxies :: "platform \<Rightarrow> ctx \<Rightarrow> 'r world \<Rightarrow> proxy list res \<times> 'r world" where
  "st_ListProxies pl c = db_query ListProxies pl c"

definition st_CreateProxy :: "platform \<Rightarrow> ctx \<Rightarrow> proxy \<Rightarrow> 'r world \<Rightarrow> gerror option \<times> 'r world" where
  "st_CreateProxy pl c p = db_exec (\<lambda>f now. CreateProxy (pl_driver pl) f now p) pl c"

definition st_UpdateProxy :: "platform \<Rightarrow> ctx \<Rightarrow> proxy \<Rightarrow> 'r world \<Rightarrow> gerror option \<times> 'r world" where
  "st_UpdateProxy pl c p = db_exec (\<lambda>f now. UpdateProxy (pl_driver pl) f now p) pl c"

definition st_DeleteProxy :: "platform \<Rightarrow> ctx \<Rightarrow> string \<Rightarrow> 'r world \<Rightarrow> gerror option \<times> 'r world" where
  "st_DeleteProxy pl c pid = db_exec (\<lambda>f now. DeleteProxy f pid) pl c"

lemmas store_calls = st_GetProxy_def st_ListProxies_def st_CreateProxy_def st_UpdateProxy_def
  st_DeleteProxy_def

section \<open>Runtime and control API calls\<close>

definition call_rt :: "(bool \<Rightarrow> 'r \<Rightarrow> 'a \<times> 'r) \<Rightarrow> platform \<Rightarrow> ctx \<Rightarrow> 'r world \<Rightarrow> 'a \<times> 'r world" where
  "call_rt f pl c w = (let (r, s') = f (ctx_done c w) (w_rt w) in (r, (tick pl w)\<lparr>w_rt := s'\<rparr>))"

definition call_api :: "(bool \<Rightarrow> nat \<Rightarrow> 'a) \<Rightarrow> platform \<Rightarrow> ctx \<Rightarrow> 'r world \<Rightarrow> 'a \<times> 'r world" where
  "call_api f pl c w = (f (ctx_done c w) (w_tick w), tick pl w)"

section \<open>Random values and ports\<close>

definition rand_Read :: "platform \<Rightarrow> nat \<Rightarrow> 'r world \<Rightarrow> string res \<times> 'r world" where
  "rand_Read pl n w = (pl_rand pl (w_tick w) n, tick pl w)"

definition uuid_NewString :: "platform \<Rightarrow> 'r world \<Rightarrow> string \<times> 'r world" where
  "uuid_NewString pl w = (pl_uuid pl (w_tick w), tick pl w)"

definition os_CheckPort :: "platform \<Rightarrow> int \<Rightarrow> int list \<Rightarrow> 'r world \<Rightarrow> gerror option \<times> 'r world" where
  "os_CheckPort pl port reserved w =
     (CheckPort (pl_listen pl (w_tick w)) (pl_lclose pl (w_tick w)) port reserved, tick pl w)"

section \<open>The file tree\<close>

text \<open>File contents only: permission bits and ownership are not modelled. A failing call leaves the
  tree as it is, except a failing write (a prefix is written) and a failing \<open>RemoveAll\<close> (some entries
  are gone).\<close>

definition set_fs :: "fs \<Rightarrow> 'r world \<Rightarrow> 'r world" where
  "set_fs f w = w\<lparr>w_fs := f, w_hist := f # w_hist w\<rparr>"

text \<open>A path with the directories above it.\<close>

definition path_prefixes :: "string \<Rightarrow> string list" where
  "path_prefixes p =
     filter (\<lambda>q. q \<noteq> '''') (map (\<lambda>k. take k p) (filter (\<lambda>k. p ! k = CHR ''/'') [0..<length p])) @ [p]"

definition is_file :: "node option \<Rightarrow> bool" where
  "is_file n = (case n of Some (File _) \<Rightarrow> True | _ \<Rightarrow> False)"

definition os_MkdirAll :: "platform \<Rightarrow> string \<Rightarrow> 'r world \<Rightarrow> gerror option \<times> 'r world" where
  "os_MkdirAll pl path w =
     (case pl_fs_fault pl (w_tick w) of
        Some e \<Rightarrow> (Some e, tick pl w)
      | None \<Rightarrow>
          (case find (\<lambda>q. is_file (w_fs w q)) (path_prefixes path) of
             Some q \<Rightarrow> (Some (errorf (''mkdir '' @ q @ '': not a directory'')), tick pl w)
           | None \<Rightarrow> (None, set_fs (\<lambda>q. if q \<in> set (path_prefixes path) \<and> w_fs w q = None
                              then Some Dir else w_fs w q) (tick pl w))))"

text \<open>\<open>os.CreateTemp\<close>: the star of the pattern is replaced by a random text, up to 10000 times
  until the name is free; the file starts empty.\<close>

function temp_try :: "(nat \<Rightarrow> string) \<Rightarrow> fs \<Rightarrow> nat \<Rightarrow> string option" where
  "temp_try name f k =
     (if f (name k) = None then Some (name k)
      else if k + 1 < 10000 then temp_try name f (k + 1) else None)"
  by pat_completeness auto
termination by (relation "measure (\<lambda>(name, f, k). 10000 - k)") auto

declare temp_try.simps [simp del]

definition temp_name :: "string \<Rightarrow> string \<Rightarrow> string \<Rightarrow> string \<Rightarrow> string" where
  "temp_name dir pre rnd post =
     (if strings_HasSuffix dir ''/'' then dir else dir @ ''/'') @ pre @ rnd @ post"

definition os_CreateTemp :: "platform \<Rightarrow> string \<Rightarrow> string \<Rightarrow> string \<Rightarrow> 'r world \<Rightarrow> string res \<times> 'r world" where
  "os_CreateTemp pl dir pre post w =
     (case pl_fs_fault pl (w_tick w) of
        Some e \<Rightarrow> (Inl e, tick pl w)
      | None \<Rightarrow>
          if w_fs w dir \<noteq> Some Dir then
            (Inl (errorf (''open '' @ dir @ '': no such file or directory'')), tick pl w)
          else
            (case temp_try (\<lambda>k. temp_name dir pre (pl_tmp pl (w_tick w) k) post) (w_fs w) 0 of
               None \<Rightarrow> (Inl (errorf (''createtemp '' @ dir @ '': file exists'')), tick pl w)
             | Some path \<Rightarrow> (Inr path, set_fs ((w_fs w)(path \<mapsto> File '''')) (tick pl w))))"

text \<open>A write to an open file whose name was removed in the meantime is not seen in the tree.\<close>

definition put :: "platform \<Rightarrow> string \<Rightarrow> string \<Rightarrow> 'r world \<Rightarrow> 'r world" where
  "put pl path body w =
     (if w_fs w path = None then tick pl w else set_fs ((w_fs w)(path \<mapsto> File body)) (tick pl w))"

definition file_Write :: "platform \<Rightarrow> string \<Rightarrow> string \<Rightarrow> 'r world \<Rightarrow> gerror option \<times> 'r world" where
  "file_Write pl path body w =
     (case pl_fs_fault pl (w_tick w) of
        Some e \<Rightarrow> (Some e, put pl path (take (pl_written pl (w_tick w)) body) w)
      | None \<Rightarrow> (None, put pl path body w))"

definition file_Close :: "platform \<Rightarrow> 'r world \<Rightarrow> gerror option \<times> 'r world" where
  "file_Close pl w = (pl_fs_fault pl (w_tick w), tick pl w)"

definition os_Chmod :: "platform \<Rightarrow> string \<Rightarrow> 'r world \<Rightarrow> gerror option \<times> 'r world" where
  "os_Chmod pl path w =
     (case pl_fs_fault pl (w_tick w) of
        Some e \<Rightarrow> (Some e, tick pl w)
      | None \<Rightarrow>
          (if w_fs w path = None then Some (errorf (''chmod '' @ path @ '': no such file or directory'')) else None,
           tick pl w))"

definition os_Rename :: "platform \<Rightarrow> string \<Rightarrow> string \<Rightarrow> 'r world \<Rightarrow> gerror option \<times> 'r world" where
  "os_Rename pl old new w =
     (case pl_fs_fault pl (w_tick w) of
        Some e \<Rightarrow> (Some e, tick pl w)
      | None \<Rightarrow>
          if w_fs w old = None then
            (Some (errorf (''rename '' @ old @ '' '' @ new @ '': no such file or directory'')), tick pl w)
          else if w_fs w new = Some Dir then
            (Some (errorf (''rename '' @ old @ '' '' @ new @ '': file exists'')), tick pl w)
          else (None, set_fs ((w_fs w)(new := w_fs w old, old := None)) (tick pl w)))"

definition os_Remove :: "platform \<Rightarrow> string \<Rightarrow> 'r world \<Rightarrow> gerror option \<times> 'r world" where
  "os_Remove pl path w =
     (case pl_fs_fault pl (w_tick w) of
        Some e \<Rightarrow> (Some e, tick pl w)
      | None \<Rightarrow>
          if w_fs w path = None then
            (Some (errorf (''remove '' @ path @ '': no such file or directory'')), tick pl w)
          else (None, set_fs ((w_fs w)(path := None)) (tick pl w)))"

definition below :: "string \<Rightarrow> string \<Rightarrow> bool" where
  "below dir q \<longleftrightarrow> q = dir \<or> prefix (dir @ ''/'') q"

definition os_RemoveAll :: "platform \<Rightarrow> string \<Rightarrow> 'r world \<Rightarrow> gerror option \<times> 'r world" where
  "os_RemoveAll pl path w =
     (case pl_fs_fault pl (w_tick w) of
        Some e \<Rightarrow> (Some e, set_fs (\<lambda>q. if below path q \<and> \<not> pl_survives pl (w_tick w) q then None
                             else w_fs w q) (tick pl w))
      | None \<Rightarrow> (None, set_fs (\<lambda>q. if below path q then None else w_fs w q) (tick pl w)))"

lemmas fs_calls = os_MkdirAll_def os_CreateTemp_def file_Write_def put_def file_Close_def os_Chmod_def
  os_Rename_def os_Remove_def os_RemoveAll_def

section \<open>What an action leaves alone\<close>

text \<open>Time never runs backwards, and every action touches its own part of the state only.\<close>

definition same_but_fs :: "'r world \<Rightarrow> 'r world \<Rightarrow> bool" where
  "same_but_fs w w' \<longleftrightarrow> w_db w' = w_db w \<and> w_rt w' = w_rt w \<and> w_sent w' = w_sent w \<and>
     w_clock w \<le> w_clock w' \<and> w_tick w \<le> w_tick w'"

definition same_but_db :: "'r world \<Rightarrow> 'r world \<Rightarrow> bool" where
  "same_but_db w w' \<longleftrightarrow> w_fs w' = w_fs w \<and> w_hist w' = w_hist w \<and> w_rt w' = w_rt w \<and>
     w_sent w' = w_sent w \<and> w_clock w \<le> w_clock w' \<and> w_tick w \<le> w_tick w'"

definition same_but_rt :: "'r world \<Rightarrow> 'r world \<Rightarrow> bool" where
  "same_but_rt w w' \<longleftrightarrow> w_fs w' = w_fs w \<and> w_hist w' = w_hist w \<and> w_db w' = w_db w \<and>
     w_sent w' = w_sent w \<and> w_clock w \<le> w_clock w' \<and> w_tick w \<le> w_tick w'"

lemmas same_defs = same_but_fs_def same_but_db_def same_but_rt_def

lemma same_but_fs_refl [simp]: "same_but_fs w w"
  and same_but_db_refl [simp]: "same_but_db w w"
  and same_but_rt_refl [simp]: "same_but_rt w w"
  by (simp_all add: same_defs)

lemma same_but_fs_trans [trans]: "same_but_fs a b \<Longrightarrow> same_but_fs b c \<Longrightarrow> same_but_fs a c"
  by (auto simp: same_but_fs_def)

lemma same_but_rt_trans [trans]: "same_but_rt a b \<Longrightarrow> same_but_rt b c \<Longrightarrow> same_but_rt a c"
  by (auto simp: same_but_rt_def)

lemma tick_fields [simp]:
  "w_db (tick pl w) = w_db w" "w_fs (tick pl w) = w_fs w" "w_rt (tick pl w) = w_rt w"
  "w_hist (tick pl w) = w_hist w" "w_sent (tick pl w) = w_sent w"
  "w_tick (tick pl w) = w_tick w + 1"
  "w_clock (tick pl w) = w_clock w + int (pl_latency pl (w_tick w))"
  by (simp_all add: tick_def)

lemma set_fs_fields [simp]:
  "w_db (set_fs f w) = w_db w" "w_fs (set_fs f w) = f" "w_rt (set_fs f w) = w_rt w"
  "w_hist (set_fs f w) = f # w_hist w" "w_sent (set_fs f w) = w_sent w"
  "w_tick (set_fs f w) = w_tick w" "w_clock (set_fs f w) = w_clock w"
  by (simp_all add: set_fs_def)

named_theorems frames \<open>what a call leaves alone\<close>

lemma db_query_frame: "db_query q pl c w = (r, w') \<Longrightarrow> same_but_db w w' \<and> w_db w' = w_db w"
  by (auto simp: db_query_def same_defs)

lemma db_exec_frame: "db_exec x pl c w = (r, w') \<Longrightarrow> same_but_db w w'"
  by (auto simp: db_exec_def same_defs split: prod.splits)

lemma st_GetProxy_frame [frames]: "st_GetProxy pl c pid w = (r, w') \<Longrightarrow> same_but_db w w' \<and> w_db w' = w_db w"
  and st_ListProxies_frame [frames]: "st_ListProxies pl c w = (rs, w') \<Longrightarrow> same_but_db w w' \<and> w_db w' = w_db w"
  and st_CreateProxy_frame [frames]: "st_CreateProxy pl c p w = (e, w') \<Longrightarrow> same_but_db w w'"
  and st_UpdateProxy_frame [frames]: "st_UpdateProxy pl c p w = (e, w') \<Longrightarrow> same_but_db w w'"
  and st_DeleteProxy_frame [frames]: "st_DeleteProxy pl c pid w = (e, w') \<Longrightarrow> same_but_db w w'"
  by (auto simp: store_calls dest: db_query_frame db_exec_frame)

lemma call_rt_frame [frames]: "call_rt f pl c w = (r, w') \<Longrightarrow> same_but_rt w w'"
  by (auto simp: call_rt_def same_defs split: prod.splits)

lemma call_api_frame [frames]:
  "call_api f pl c w = (r, w') \<Longrightarrow> same_but_rt w w' \<and> w_rt w' = w_rt w"
  by (auto simp: call_api_def same_defs)

lemma rand_Read_frame [frames]: "rand_Read pl n w = (r, w') \<Longrightarrow> same_but_rt w w' \<and> w_rt w' = w_rt w"
  and uuid_frame [frames]: "uuid_NewString pl w = (s, w') \<Longrightarrow> same_but_rt w w' \<and> w_rt w' = w_rt w"
  and os_CheckPort_frame [frames]:
    "os_CheckPort pl port rs w = (e, w') \<Longrightarrow> same_but_rt w w' \<and> w_rt w' = w_rt w"
  by (auto simp: rand_Read_def uuid_NewString_def os_CheckPort_def same_defs)

lemma fs_frames [frames]:
  "os_MkdirAll pl path w = (e, w') \<Longrightarrow> same_but_fs w w'"
  "os_CreateTemp pl dir pre post w = (t, w') \<Longrightarrow> same_but_fs w w'"
  "file_Write pl path body w = (e, w') \<Longrightarrow> same_but_fs w w'"
  "file_Close pl w = (e, w') \<Longrightarrow> same_but_fs w w'"
  "os_Chmod pl path w = (e, w') \<Longrightarrow> same_but_fs w w'"
  "os_Rename pl path path' w = (e, w') \<Longrightarrow> same_but_fs w w'"
  "os_Remove pl path w = (e, w') \<Longrightarrow> same_but_fs w w'"
  "os_RemoveAll pl path w = (e, w') \<Longrightarrow> same_but_fs w w'"
  by (auto simp: fs_calls same_defs split: option.splits if_splits)

section \<open>The proxy table of a world\<close>

abbreviation rows :: "'r world \<Rightarrow> string \<Rightarrow> proxy option" where
  "rows w \<equiv> proxies_of (w_db w)"

text \<open>The outcome of each statement, through the contract of the proxy table.\<close>

lemma st_CreateProxy_None:
  assumes "db_wf (w_db w)" "st_CreateProxy pl c p w = (None, w')"
  shows "db_wf (w_db w')" "rows w (px_ID p) = None"
    "rows w' = (rows w)(px_ID p \<mapsto>
       p\<lparr>px_CreatedAt := stored_time (w_clock w), px_UpdatedAt := stored_time (w_clock w)\<rparr>)"
    "\<not> ctx_done c w"
  using assms proxies.create_ok [of "w_db w" "pl_driver pl" "db_fault pl c w" "w_clock w" p]
  by (auto simp: store_calls db_exec_def db_fault_def CreateProxy_None_iff split: prod.splits)

lemma st_CreateProxy_Some: "st_CreateProxy pl c p w = (Some e, w') \<Longrightarrow> w_db w' = w_db w"
  by (auto simp: store_calls db_exec_def split: prod.splits dest: proxies.create_err)

lemma st_UpdateProxy_None:
  assumes "db_wf (w_db w)" "st_UpdateProxy pl c p w = (None, w')"
  obtains old where "db_wf (w_db w')" "rows w (px_ID p) = Some old"
    "rows w' = (rows w)(px_ID p \<mapsto>
       p\<lparr>px_CreatedAt := px_CreatedAt old, px_UpdatedAt := stored_time (w_clock w)\<rparr>)"
    "\<not> ctx_done c w"
proof -
  have up: "UpdateProxy (pl_driver pl) (db_fault pl c w) (w_clock w) p (w_db w) = (None, w_db w')"
    using assms(2) by (auto simp: store_calls db_exec_def split: prod.splits)
  moreover have "\<not> ctx_done c w" using up by (auto simp: UpdateProxy_None_iff db_fault_def split: if_splits)
  ultimately show thesis using proxies.update_ok [OF assms(1) up] that by auto
qed

lemma st_UpdateProxy_Some: "st_UpdateProxy pl c p w = (Some e, w') \<Longrightarrow> w_db w' = w_db w"
  by (auto simp: store_calls db_exec_def split: prod.splits dest: proxies.update_err)

lemma st_DeleteProxy_None:
  assumes "db_wf (w_db w)" "st_DeleteProxy pl c pid w = (None, w')"
  shows "db_wf (w_db w')" "rows w pid \<noteq> None" "rows w' = (rows w)(pid := None)"
  using assms proxies.delete_ok [of "w_db w" "db_fault pl c w" pid]
  by (auto simp: store_calls db_exec_def split: prod.splits)

lemma st_DeleteProxy_Some: "st_DeleteProxy pl c pid w = (Some e, w') \<Longrightarrow> w_db w' = w_db w"
  by (auto simp: store_calls db_exec_def split: prod.splits dest: proxies.delete_err)

lemma st_GetProxy_Inr: "st_GetProxy pl c pid w = (Inr p, w') \<Longrightarrow> rows w pid = Some p \<and> px_ID p = pid"
  by (auto simp: store_calls db_query_def GetProxy_Inr_iff dest: proxies.ids_agree)

lemma st_ListProxies_Inr:
  "db_wf (w_db w) \<Longrightarrow> st_ListProxies pl c w = (Inr ps, w') \<Longrightarrow>
     set ps = ran (rows w) \<and> distinct (map px_ID ps) \<and> sorted (map px_Port ps)"
  by (auto simp: store_calls db_query_def dest: proxies.listing_law)

lemma wf_after:
  assumes "db_wf (w_db w)"
  shows "st_CreateProxy pl c p w = (e, w') \<Longrightarrow> db_wf (w_db w')"
    "st_UpdateProxy pl c p w = (e, w') \<Longrightarrow> db_wf (w_db w')"
    "st_DeleteProxy pl c pid w = (e, w') \<Longrightarrow> db_wf (w_db w')"
  using assms
  by (auto simp: store_calls db_exec_def split: prod.splits
      dest: db_wf_create db_wf_update db_wf_delete)

lemma others_after:
  assumes "db_wf (w_db w)"
  shows "st_CreateProxy pl c p w = (e, w') \<Longrightarrow> k \<noteq> px_ID p \<Longrightarrow> rows w' k = rows w k"
    "st_UpdateProxy pl c p w = (e, w') \<Longrightarrow> k \<noteq> px_ID p \<Longrightarrow> rows w' k = rows w k"
    "st_DeleteProxy pl c pid w = (e, w') \<Longrightarrow> k \<noteq> pid \<Longrightarrow> rows w' k = rows w k"
  using assms
  by (auto simp: store_calls db_exec_def split: prod.splits
      dest: proxies.create_others proxies.update_others proxies.delete_others)

text \<open>On a context that is not cancelled and a database that does not fail, updating an existing row
  to its own port, or deleting an existing row, succeeds.\<close>

definition db_reliable :: "platform \<Rightarrow> bool" where
  "db_reliable pl \<longleftrightarrow> (\<forall>n. pl_db_fault pl n = None)"

lemma st_UpdateProxy_works:
  assumes "db_reliable pl" "\<not> ctx_done c w" "db_wf (w_db w)" "rows w (px_ID p) = Some old"
    "px_Port old = px_Port p"
  shows "fst (st_UpdateProxy pl c p w) = None"
proof -
  obtain r where r: "r \<in> set (t_proxies (w_db w))" "r_id r = px_ID p" "r_port r = px_Port p"
    using assms(4,5) by (auto simp: proxies_of_def dest!: find_Some_key)
  have "\<forall>q \<in> set (t_proxies (w_db w)). r_id q \<noteq> px_ID p \<longrightarrow> r_port q \<noteq> px_Port p"
  proof (intro ballI impI notI)
    fix q assume q: "q \<in> set (t_proxies (w_db w))" "r_id q \<noteq> px_ID p" "r_port q = px_Port p"
    then have "q = r"
      using assms(3) r distinct_map_inj [of r_port _ q r] by (auto simp: db_wf_def)
    with q r show False by simp
  qed
  then have "\<exists>d'. UpdateProxy (pl_driver pl) None (w_clock w) p (w_db w) = (None, d')"
    using imageI [OF r(1), of r_id] r(2) by (auto simp: UpdateProxy_None_iff)
  then show ?thesis
    using assms(1,2) by (auto simp: store_calls db_exec_def db_fault_def db_reliable_def)
qed

lemma st_DeleteProxy_works:
  assumes "db_reliable pl" "\<not> ctx_done c w" "rows w pid \<noteq> None"
  shows "fst (st_DeleteProxy pl c pid w) = None"
  using proxies.delete_known [OF assms(3)] assms(1,2)
  by (auto simp: store_calls db_exec_def db_fault_def db_reliable_def)

end
