(* ===== verification/TConfig.thy ===== *)
theory TConfig imports GoStrings begin

text \<open>
  \<open>internal/telemt/tconfig\<close>: validating a proxy's settings and rendering its \<open>config.toml\<close>
  (\<open>render.go\<close> with the embedded template \<open>config.toml.tmpl\<close>). The template is a list of
  lines, of which some appear only when a field is present: \<open>{{- if .F }}\<close> tests a string for
  being non-empty and a pointer for being non-nil. The reading side is a reader of the file's
  own subset of TOML (section headers and one-line entries), so that the lemmas say what a reader
  of the rendered text finds in it.
\<close>

record spec =
  sp_Username :: string
  sp_Secret :: string
  sp_Port :: int
  sp_TLSDomain :: string
  sp_AdTag :: string
  sp_APIToken :: string
  sp_APIWhitelist :: "string list"
  sp_PublicHost :: string
  sp_DataQuotaBytes :: "64 word option"
  sp_ExpirationRFC3339 :: "string option"
  sp_MaxTCPConns :: "int option"
  sp_MaxUniqueIPs :: "int option"

section \<open>Validation\<close>

definition hex32 :: "string \<Rightarrow> string \<Rightarrow> gerror option" where
  "hex32 field v =
     (if length v \<noteq> 32 then
        Some (errorf (''tconfig: '' @ field @ '' must be 32 hex chars, got '' @ Itoa (int (length v))))
      else case hex_Decode v of
        Inl e \<Rightarrow> Some (errorf_wrap (''tconfig: '' @ field @ '' is not hex: '') e)
      | Inr _ \<Rightarrow> None)"

fun check_quotes :: "string list \<Rightarrow> gerror option" where
  "check_quotes [] = None"
| "check_quotes (v # vs) =
     (if strings_ContainsAny v [c_dq, c_nl, c_bs] then
        Some (errorf (''tconfig: value '' @ go_quote v @ '' contains a quote, backslash or newline''))
      else check_quotes vs)"

definition validate :: "spec \<Rightarrow> gerror option" where
  "validate s =
     (if sp_Username s = '''' then Some (errorf ''tconfig: username is empty'')
      else case hex32 ''secret'' (sp_Secret s) of Some e \<Rightarrow> Some e | None \<Rightarrow>
      (case (if sp_AdTag s \<noteq> '''' then hex32 ''ad_tag'' (sp_AdTag s) else None) of
         Some e \<Rightarrow> Some e
       | None \<Rightarrow>
         if sp_Port s < 1 \<or> sp_Port s > 65535 then
           Some (errorf (''tconfig: port '' @ Itoa (sp_Port s) @ '' out of range 1-65535''))
         else if sp_TLSDomain s = '''' then Some (errorf ''tconfig: tls_domain is empty'')
         else if sp_APIToken s = '''' then Some (errorf ''tconfig: api token is empty'')
         else if sp_APIWhitelist s = [] then
           Some (errorf ''tconfig: api whitelist is empty, which would expose the control API'')
         else check_quotes ([sp_TLSDomain s, sp_APIToken s, sp_PublicHost s, sp_Username s]
                            @ sp_APIWhitelist s)))"

section \<open>The template\<close>

definition quoted :: "string \<Rightarrow> string" where
  "quoted s = [c_dq] @ s @ [c_dq]"

definition entry :: "string \<Rightarrow> string \<Rightarrow> string" where
  "entry k v = k @ '' = '' @ v"

definition user_section :: "spec \<Rightarrow> string \<Rightarrow> string option \<Rightarrow> string list" where
  "user_section s name val =
     (case val of None \<Rightarrow> [] | Some v \<Rightarrow> ['''', ''['' @ name @ '']'', entry (sp_Username s) v])"

definition nonempty :: "string \<Rightarrow> string option" where
  "nonempty s = (if s = '''' then None else Some s)"

definition template_lines :: "spec \<Rightarrow> string list" where
  "template_lines s =
     [''# Generated by telemt-panel. Edits here are overwritten when the proxy is'',
      ''# recreated; change settings through the panel instead.'',
      '''',
      ''[general]'',
      entry ''use_middle_proxy'' ''true'',
      entry ''log_level'' (quoted ''normal''),
      '''',
      ''[general.modes]'',
      entry ''classic'' ''false'',
      entry ''secure'' ''false'',
      entry ''tls'' ''true'',
      '''',
      ''[general.links]'',
      entry ''show'' (quoted ''*'')] @
     (if sp_PublicHost s \<noteq> '''' then [entry ''public_host'' (quoted (sp_PublicHost s))] else []) @
     [entry ''public_port'' (Itoa (sp_Port s)),
      '''',
      ''[server]'',
      entry ''port'' (Itoa (sp_Port s)),
      '''',
      ''[server.api]'',
      entry ''enabled'' ''true'',
      entry ''listen'' (quoted ''0.0.0.0:9091''),
      entry ''whitelist'' (''['' @ strings_Join (map quoted (sp_APIWhitelist s)) '', '' @ '']''),
      entry ''auth_header'' (quoted (sp_APIToken s)),
      entry ''minimal_runtime_enabled'' ''true'',
      entry ''minimal_runtime_cache_ttl_ms'' ''1000'',
      '''',
      ''[[server.listeners]]'',
      entry ''ip'' (quoted ''0.0.0.0''),
      entry ''port'' (Itoa (sp_Port s)),
      '''',
      ''[censorship]'',
      entry ''tls_domain'' (quoted (sp_TLSDomain s)),
      entry ''mask'' ''true'',
      entry ''tls_emulation'' ''true'',
      entry ''tls_front_dir'' (quoted ''tlsfront''),
      entry ''unknown_sni_action'' (quoted ''reject_handshake''),
      '''',
      ''[access.users]'',
      entry (sp_Username s) (quoted (sp_Secret s))] @
     user_section s ''access.user_ad_tags'' (map_option quoted (nonempty (sp_AdTag s))) @
     user_section s ''access.user_max_tcp_conns'' (map_option Itoa (sp_MaxTCPConns s)) @
     user_section s ''access.user_expirations'' (map_option quoted (sp_ExpirationRFC3339 s)) @
     user_section s ''access.user_data_quota'' (map_option FormatUint64 (sp_DataQuotaBytes s)) @
     user_section s ''access.user_max_unique_ips'' (map_option Itoa (sp_MaxUniqueIPs s))"

definition unlines :: "string list \<Rightarrow> string" where
  "unlines ls = concat (map (\<lambda>l. l @ [c_nl]) ls)"

definition Render :: "spec \<Rightarrow> string res" where
  "Render s =
     (case validate s of
        Some e \<Rightarrow> Inl e
      | None \<Rightarrow>
          (let out = unlines (template_lines s)
           in Inr (if strings_HasSuffix out [c_nl] then out else out @ [c_nl])))"

section \<open>Reading the file back\<close>

definition header_name :: "string \<Rightarrow> string" where
  "header_name l = takeWhile (\<lambda>c. c \<noteq> CHR '']'') (dropWhile (\<lambda>c. c = CHR ''['') l)"

definition entry_parts :: "string \<Rightarrow> string \<times> string" where
  "entry_parts l =
     (takeWhile (\<lambda>c. c \<noteq> CHR '' '') l, drop 3 (dropWhile (\<lambda>c. c \<noteq> CHR '' '') l))"

fun scan_lines :: "string \<Rightarrow> string list \<Rightarrow> (string \<times> string \<times> string) list" where
  "scan_lines sec [] = []"
| "scan_lines sec (l # ls) =
     (if l = '''' \<or> hd l = CHR ''#'' then scan_lines sec ls
      else if hd l = CHR ''['' then scan_lines (header_name l) ls
      else (sec, entry_parts l) # scan_lines sec ls)"

definition toml_entries :: "string \<Rightarrow> (string \<times> string \<times> string) list" where
  "toml_entries txt = scan_lines '''' (split_on c_nl txt)"

text \<open>What the settings mean, entry by entry: section, key and value.\<close>

definition opt_entry :: "string \<Rightarrow> string \<Rightarrow> string option \<Rightarrow> (string \<times> string \<times> string) list" where
  "opt_entry sec key v = (case v of None \<Rightarrow> [] | Some x \<Rightarrow> [(sec, key, x)])"

definition config_entries :: "spec \<Rightarrow> (string \<times> string \<times> string) list" where
  "config_entries s =
     [(''general'', ''use_middle_proxy'', ''true''),
      (''general'', ''log_level'', quoted ''normal''),
      (''general.modes'', ''classic'', ''false''),
      (''general.modes'', ''secure'', ''false''),
      (''general.modes'', ''tls'', ''true''),
      (''general.links'', ''show'', quoted ''*'')] @
     opt_entry ''general.links'' ''public_host'' (map_option quoted (nonempty (sp_PublicHost s))) @
     [(''general.links'', ''public_port'', Itoa (sp_Port s)),
      (''server'', ''port'', Itoa (sp_Port s)),
      (''server.api'', ''enabled'', ''true''),
      (''server.api'', ''listen'', quoted ''0.0.0.0:9091''),
      (''server.api'', ''whitelist'',
         ''['' @ strings_Join (map quoted (sp_APIWhitelist s)) '', '' @ '']''),
      (''server.api'', ''auth_header'', quoted (sp_APIToken s)),
      (''server.api'', ''minimal_runtime_enabled'', ''true''),
      (''server.api'', ''minimal_runtime_cache_ttl_ms'', ''1000''),
      (''server.listeners'', ''ip'', quoted ''0.0.0.0''),
      (''server.listeners'', ''port'', Itoa (sp_Port s)),
      (''censorship'', ''tls_domain'', quoted (sp_TLSDomain s)),
      (''censorship'', ''mask'', ''true''),
      (''censorship'', ''tls_emulation'', ''true''),
      (''censorship'', ''tls_front_dir'', quoted ''tlsfront''),
      (''censorship'', ''unknown_sni_action'', quoted ''reject_handshake''),
      (''access.users'', sp_Username s, quoted (sp_Secret s))] @
     opt_entry ''access.user_ad_tags'' (sp_Username s) (map_option quoted (nonempty (sp_AdTag s))) @
     opt_entry ''access.user_max_tcp_conns'' (sp_Username s) (map_option Itoa (sp_MaxTCPConns s)) @
     opt_entry ''access.user_expirations'' (sp_Username s)
       (map_option quoted (sp_ExpirationRFC3339 s)) @
     opt_entry ''access.user_data_quota'' (sp_Username s)
       (map_option FormatUint64 (sp_DataQuotaBytes s)) @
     opt_entry ''access.user_max_unique_ips'' (sp_Username s) (map_option Itoa (sp_MaxUniqueIPs s))"

section \<open>Lemmas\<close>

lemma hex32_None_iff: "hex32 field v = None \<longleftrightarrow> length v = 32 \<and> (\<forall>c \<in> set v. is_hex c)"
  using hex_Decode_Inr_iff [of v] by (auto simp: hex32_def split: sum.splits)

lemma check_quotes_None_iff:
  "check_quotes vs = None \<longleftrightarrow> (\<forall>v \<in> set vs. set v \<inter> {c_dq, c_nl, c_bs} = {})"
  by (induction vs) (auto simp: strings_ContainsAny_iff)

definition valid_spec :: "spec \<Rightarrow> bool" where
  "valid_spec s \<longleftrightarrow>
     sp_Username s \<noteq> '''' \<and>
     length (sp_Secret s) = 32 \<and> list_all is_hex (sp_Secret s) \<and>
     (sp_AdTag s = '''' \<or> length (sp_AdTag s) = 32 \<and> list_all is_hex (sp_AdTag s)) \<and>
     1 \<le> sp_Port s \<and> sp_Port s \<le> 65535 \<and>
     sp_TLSDomain s \<noteq> '''' \<and> sp_APIToken s \<noteq> '''' \<and> sp_APIWhitelist s \<noteq> [] \<and>
     list_all (\<lambda>v. \<not> strings_ContainsAny v [c_dq, c_nl, c_bs])
       ([sp_TLSDomain s, sp_APIToken s, sp_PublicHost s, sp_Username s] @ sp_APIWhitelist s)"

lemma list_all_no_quotes:
  "list_all (\<lambda>v. \<not> strings_ContainsAny v [c_dq, c_nl, c_bs]) vs \<longleftrightarrow> check_quotes vs = None"
  by (auto simp: check_quotes_None_iff list_all_iff strings_ContainsAny_iff)

lemma validate_None_iff: "validate s = None \<longleftrightarrow> valid_spec s"
  unfolding validate_def valid_spec_def list_all_no_quotes
  by (simp add: err_chain_None hex32_None_iff list_all_iff)

lemma unlines_suffix: "ls \<noteq> [] \<Longrightarrow> suffix [c_nl] (unlines ls)"
  by (induction ls rule: rev_induct) (auto simp: unlines_def suffix_def)

lemma template_lines_nonempty: "template_lines s \<noteq> []"
  by (simp add: template_lines_def)

lemma Render_eq:
  "Render s = (case validate s of Some e \<Rightarrow> Inl e | None \<Rightarrow> Inr (unlines (template_lines s)))"
  using unlines_suffix [OF template_lines_nonempty [of s]]
  by (simp add: Render_def Let_def strings_HasSuffix_def split: option.split)

lemma split_on_unlines:
  "\<forall>l \<in> set ls. c_nl \<notin> set l \<Longrightarrow> split_on c_nl (unlines ls) = ls @ ['''']"
  by (induction ls) (auto simp: unlines_def split_on_append)

definition bare_key :: "string \<Rightarrow> bool" where
  "bare_key k \<longleftrightarrow> k \<noteq> '''' \<and> hd k \<noteq> CHR ''#'' \<and> hd k \<noteq> CHR ''['' \<and> CHR '' '' \<notin> set k"

lemma bare_key_Cons:
  "bare_key (c # cs) \<longleftrightarrow> c \<noteq> CHR ''#'' \<and> c \<noteq> CHR ''['' \<and> CHR '' '' \<notin> set (c # cs)"
  by (auto simp: bare_key_def)

lemma entry_parts_entry: "CHR '' '' \<notin> set k \<Longrightarrow> entry_parts (entry k v) = (k, v)"
  by (auto simp: entry_parts_def entry_def takeWhile_append dropWhile_append)

lemma scan_entry:
  "bare_key k \<Longrightarrow> scan_lines sec (entry k v # ls) = (sec, k, v) # scan_lines sec ls"
  by (cases k) (auto simp: bare_key_def entry_parts_entry, auto simp: entry_def)

lemma scan_header: "scan_lines sec ((CHR ''['' # l) # ls) = scan_lines (header_name (CHR ''['' # l)) ls"
  by simp

lemma scan_blank: "scan_lines sec ([] # ls) = scan_lines sec ls"
  by simp

lemma scan_comment: "scan_lines sec ((CHR ''#'' # l) # ls) = scan_lines sec ls"
  by simp

lemmas scan_simps = scan_header scan_blank scan_comment scan_entry

lemma scan_user_section:
  assumes "bare_key (sp_Username s)" and "header_name (''['' @ name @ '']'') = name"
  shows "scan_lines sec (user_section s name v @ ls) =
    opt_entry name (sp_Username s) v @ scan_lines (if v = None then sec else name) ls"
  using assms by (cases v) (simp_all add: user_section_def opt_entry_def scan_simps del: scan_lines.simps(2))

lemma user_section_chars:
  assumes "l \<in> set (user_section s name v)" and "c_nl \<notin> set name" "c_nl \<notin> set (sp_Username s)"
    and "\<And>x. v = Some x \<Longrightarrow> c_nl \<notin> set x"
  shows "c_nl \<notin> set l"
  using assms by (auto simp: user_section_def entry_def split: option.splits)

lemma is_hex_not_nl: "is_hex c \<Longrightarrow> c \<noteq> c_nl"
  by (auto simp: is_hex_def hex_val_def)

lemma is_digit_not_nl: "is_digit c \<Longrightarrow> c \<noteq> c_nl"
  by (auto simp: is_digit_def)

lemma Itoa_no_nl: "c_nl \<notin> set (Itoa i)"
  using Itoa_chars [of c_nl i] is_digit_not_nl by auto

lemma FormatUint64_no_nl: "c_nl \<notin> set (FormatUint64 w)"
  using format_nat_digits [of "unat w"] is_digit_not_nl by (auto simp: FormatUint64_def)

lemma strings_Join_chars: "c \<in> set (strings_Join ss sep) \<Longrightarrow> c \<in> set sep \<or> (\<exists>s \<in> set ss. c \<in> set s)"
  by (induction ss sep rule: strings_Join.induct) auto

lemma quoted_no_nl [simp]: "c_nl \<in> set (quoted s) \<longleftrightarrow> c_nl \<in> set s"
  by (auto simp: quoted_def)

lemma entry_no_nl [simp]: "c_nl \<in> set (entry k v) \<longleftrightarrow> c_nl \<in> set k \<or> c_nl \<in> set v"
  by (auto simp: entry_def)

lemma template_lines_no_nl:
  assumes v: "valid_spec s"
    and e: "\<And>x. sp_ExpirationRFC3339 s = Some x \<Longrightarrow> c_nl \<notin> set x"
    and l: "l \<in> set (template_lines s)"
  shows "c_nl \<notin> set l"
proof -
  have nl: "c_nl \<notin> set (sp_TLSDomain s)" "c_nl \<notin> set (sp_APIToken s)"
    "c_nl \<notin> set (sp_PublicHost s)" "c_nl \<notin> set (sp_Username s)"
    and w: "\<forall>x \<in> set (sp_APIWhitelist s). c_nl \<notin> set x"
    using v by (auto simp: valid_spec_def strings_ContainsAny_iff list_all_iff)
  have h: "c_nl \<notin> set (sp_Secret s)" "c_nl \<notin> set (sp_AdTag s)"
    using v is_hex_not_nl by (auto simp: valid_spec_def list_all_iff)
  have j: "c_nl \<notin> set (strings_Join (map quoted (sp_APIWhitelist s)) '', '')"
    using w by (auto dest!: strings_Join_chars)
  have sec: "c_nl \<notin> set l'"
    if "l' \<in> set (user_section s ''access.user_ad_tags'' (map_option quoted (nonempty (sp_AdTag s))))
      \<or> l' \<in> set (user_section s ''access.user_max_tcp_conns'' (map_option Itoa (sp_MaxTCPConns s)))
      \<or> l' \<in> set (user_section s ''access.user_expirations'' (map_option quoted (sp_ExpirationRFC3339 s)))
      \<or> l' \<in> set (user_section s ''access.user_data_quota'' (map_option FormatUint64 (sp_DataQuotaBytes s)))
      \<or> l' \<in> set (user_section s ''access.user_max_unique_ips'' (map_option Itoa (sp_MaxUniqueIPs s)))"
    for l'
    using that nl h e
    by (elim disjE; elim user_section_chars)
       (auto simp: nonempty_def Itoa_no_nl FormatUint64_no_nl split: if_splits)
  show ?thesis
    using l nl h j sec unfolding template_lines_def
    by (auto simp: Itoa_no_nl split: if_splits)
qed

lemma toml_entries_Render:
  assumes r: "Render s = Inr out" and k: "bare_key (sp_Username s)"
    and e: "\<And>x. sp_ExpirationRFC3339 s = Some x \<Longrightarrow> c_nl \<notin> set x"
  shows "toml_entries out = config_entries s"
proof -
  have v: "valid_spec s" and out: "out = unlines (template_lines s)"
    using r validate_None_iff [of s] by (auto simp: Render_eq split: option.splits)
  have "split_on c_nl out = template_lines s @ ['''']"
    using template_lines_no_nl [OF v e] unfolding out by (intro split_on_unlines) blast
  moreover have "scan_lines '''' (template_lines s @ ['''']) = config_entries s"
    unfolding template_lines_def config_entries_def
    by (simp add: scan_simps scan_user_section k bare_key_Cons header_name_def nonempty_def
        opt_entry_def [of "''general.links''"] del: scan_lines.simps(2))
  ultimately show ?thesis by (simp add: toml_entries_def)
qed

end
