(* ===== verification/Link.thy ===== *)
theory Link imports GoStrings begin

text \<open>
  \<open>internal/telemt/link/link.go\<close>: building the \<open>tg://proxy\<close> and \<open>https://t.me/proxy\<close> links of a
  fake-TLS proxy. A link is one string; the lemmas read its parts back and show that a link
  determines the host, the port, the secret and the domain it was built from.
\<close>

definition normalizeSecret :: "string \<Rightarrow> string res" where
  "normalizeSecret s =
     (if length s \<noteq> 32 then
        Inl (errorf (''link: secret must be 32 hex chars, got '' @ Itoa (int (length s))))
      else case hex_Decode (strings_ToLower s) of
        Inl e \<Rightarrow> Inl (errorf_wrap ''link: secret is not hex: '' e)
      | Inr _ \<Rightarrow> Inr (strings_ToLower s))"

definition build :: "string \<Rightarrow> string \<Rightarrow> int \<Rightarrow> string \<Rightarrow> string \<Rightarrow> string res" where
  "build base host port secretHex domain =
     (case normalizeSecret secretHex of
        Inl e \<Rightarrow> Inl e
      | Inr secret \<Rightarrow>
          if host = '''' then Inl (errorf ''link: host is empty'')
          else if port < 1 \<or> port > 65535 then
            Inl (errorf (''link: port '' @ Itoa port @ '' out of range 1-65535''))
          else if domain = '''' then Inl (errorf ''link: domain is empty'')
          else Inr (base @ ''?server='' @ QueryEscape host @
                    ''&port='' @ Itoa port @
                    ''&secret=ee'' @ secret @ hex_Encode domain))"

definition FakeTLS :: "string \<Rightarrow> int \<Rightarrow> string \<Rightarrow> string \<Rightarrow> string res" where
  "FakeTLS host port secretHex domain = build ''tg://proxy'' host port secretHex domain"

definition FakeTLSHTTPS :: "string \<Rightarrow> int \<Rightarrow> string \<Rightarrow> string \<Rightarrow> string res" where
  "FakeTLSHTTPS host port secretHex domain =
     build ''https://t.me/proxy'' host port secretHex domain"

lemma hex_Decode_lower:
  "(\<exists>t. hex_Decode (strings_ToLower s) = Inr t) \<longleftrightarrow> even (length s) \<and> (\<forall>c \<in> set s. is_hex c)"
  by (auto simp: hex_Decode_Inr_iff strings_ToLower_def is_hex_lower_char)

lemma normalizeSecret_Inr_iff:
  "normalizeSecret s = Inr n \<longleftrightarrow>
     length s = 32 \<and> (\<forall>c \<in> set s. is_hex c) \<and> n = strings_ToLower s"
  using hex_Decode_lower [of s] by (auto simp: normalizeSecret_def split: sum.splits)

lemma build_Inr_iff:
  "build base host port secret domain = Inr l \<longleftrightarrow>
     length secret = 32 \<and> (\<forall>c \<in> set secret. is_hex c) \<and> host \<noteq> '''' \<and>
     1 \<le> port \<and> port \<le> 65535 \<and> domain \<noteq> '''' \<and>
     l = base @ ''?server='' @ QueryEscape host @ ''&port='' @ Itoa port @
         ''&secret=ee'' @ strings_ToLower secret @ hex_Encode domain"
proof (cases "normalizeSecret secret")
  case (Inl e)
  then show ?thesis
    using normalizeSecret_Inr_iff [of secret "strings_ToLower secret"]
    by (auto simp: build_def)
next
  case (Inr n)
  then show ?thesis
    using normalizeSecret_Inr_iff [of secret n] by (auto simp: build_def)
qed

text \<open>Reading the three query parameters of a link back.\<close>

definition cut :: "char \<Rightarrow> string \<Rightarrow> string \<times> string" where
  "cut d s = (takeWhile (\<lambda>c. c \<noteq> d) s, tl (dropWhile (\<lambda>c. c \<noteq> d) s))"

definition query_pairs :: "string \<Rightarrow> (string \<times> string) list" where
  "query_pairs q = map (cut (CHR ''='')) (split_on (CHR ''&'') q)"

lemma cut_append: "d \<notin> set a \<Longrightarrow> cut d (a @ d # b) = (a, b)"
  by (auto simp: cut_def takeWhile_append dropWhile_append)

lemma is_lower_hex_plain: "is_lower_hex c \<Longrightarrow> c \<noteq> CHR ''&'' \<and> c \<noteq> CHR ''='' \<and> c \<noteq> CHR ''#''
    \<and> c \<noteq> CHR ''?''"
  by (auto simp: is_lower_hex_def is_digit_def)

lemma Itoa_plain: "c \<in> set (Itoa i) \<Longrightarrow> c \<noteq> CHR ''&'' \<and> c \<noteq> CHR ''='' \<and> c \<noteq> CHR ''#''"
  using Itoa_chars [of c i] by (auto simp: is_digit_def)

lemma ToLower_hex: "\<forall>c \<in> set s. is_hex c \<Longrightarrow> c \<in> set (strings_ToLower s) \<Longrightarrow> is_lower_hex c"
  by (auto simp: strings_ToLower_def lower_char_hex)

lemma build_query_pairs:
  assumes "\<forall>c \<in> set secret. is_hex c"
  shows "query_pairs (''server='' @ QueryEscape host @ ''&port='' @ Itoa port @
           ''&secret=ee'' @ strings_ToLower secret @ hex_Encode domain) =
         [(''server'', QueryEscape host), (''port'', Itoa port),
          (''secret'', ''ee'' @ strings_ToLower secret @ hex_Encode domain)]"
proof -
  let ?a = "''server='' @ QueryEscape host" and ?b = "''port='' @ Itoa port"
    and ?c = "''secret=ee'' @ strings_ToLower secret @ hex_Encode domain"
  have "CHR ''&'' \<notin> set ?a" "CHR ''&'' \<notin> set ?b"
    using QueryEscape_no_delim(1) [of host] Itoa_plain [of "CHR ''&''" port] by auto
  moreover have "CHR ''&'' \<notin> set ?c"
    using is_lower_hex_plain [of "CHR ''&''"] ToLower_hex [OF assms, of "CHR ''&''"]
      hex_Encode_lower [of "CHR ''&''" domain] by auto
  moreover have "''server='' @ QueryEscape host @ ''&port='' @ Itoa port @
      ''&secret=ee'' @ strings_ToLower secret @ hex_Encode domain
      = ?a @ CHR ''&'' # ?b @ CHR ''&'' # ?c" by simp
  ultimately have "split_on (CHR ''&'') (''server='' @ QueryEscape host @ ''&port='' @ Itoa port @
      ''&secret=ee'' @ strings_ToLower secret @ hex_Encode domain) = [?a, ?b, ?c]"
    by (simp only: split_on_append split_on_none not_False_eq_True)
  moreover have "cut (CHR ''='') ?a = (''server'', QueryEscape host)"
    "cut (CHR ''='') ?b = (''port'', Itoa port)"
    "cut (CHR ''='') ?c = (''secret'', ''ee'' @ strings_ToLower secret @ hex_Encode domain)"
    by (simp_all add: cut_def)
  ultimately show ?thesis by (simp only: query_pairs_def list.map)
qed

lemma build_inj:
  assumes "build base host port secret domain = Inr l"
    and "build base host' port' secret' domain' = Inr l"
  shows "host = host' \<and> port = port' \<and> strings_ToLower secret = strings_ToLower secret' \<and>
    domain = domain'"
proof -
  let ?q = "\<lambda>h p s d. ''server='' @ QueryEscape h @ ''&port='' @ Itoa p @
      ''&secret=ee'' @ strings_ToLower s @ hex_Encode d"
  have "query_pairs (?q host port secret domain) = query_pairs (?q host' port' secret' domain')"
    using assms by (simp add: build_Inr_iff)
  moreover have "\<forall>c \<in> set secret. is_hex c" "\<forall>c \<in> set secret'. is_hex c"
    and len: "length (strings_ToLower secret) = length (strings_ToLower secret')"
    using assms by (simp_all add: build_Inr_iff)
  ultimately have "QueryEscape host = QueryEscape host'" "Itoa port = Itoa port'"
    and sd: "strings_ToLower secret @ hex_Encode domain = strings_ToLower secret' @ hex_Encode domain'"
    by (simp_all only: build_query_pairs) simp_all
  then show ?thesis
    using len by (auto dest: QueryEscape_inj Itoa_inj hex_Encode_inj)
qed

end
