(* ===== verification/Service.thy ===== *)
theory Service imports World TConfig Link begin

text \<open>
  \<open>internal/proxy/service.go\<close>: the service's construction, the creation of a proxy as a saga with
  compensating actions, the atomic write of its configuration, the wait for its control API, and
  its links.
\<close>

definition Username :: string where
  "Username = ''user''"

definition HealthBudget :: duration where
  "HealthBudget = 30 * Second"

definition LabelManaged :: string where
  "LabelManaged = ''mtpanel.managed''"

definition LabelProxyID :: string where
  "LabelProxyID = ''mtpanel.proxy_id''"

section \<open>Construction\<close>

record 'r deps =
  dp_Runtime :: "'r runtime"
  dp_Cfg :: config
  dp_HostDataDir :: string
  dp_NewClient :: "(proxy \<Rightarrow> string \<Rightarrow> telemt_client) option"
  dp_HealthBudget :: duration

text \<open>A service with its defaults filled in, and the platform it runs on. The store is part of the
  world; \<open>Now\<close> reads the world's clock. How a control-API client built by \<open>client.New\<close> reaches telemt
  is the argument \<open>dial\<close>.\<close>

record 'r service =
  sv_pl :: platform
  sv_Runtime :: "'r runtime"
  sv_Cfg :: config
  sv_HostDataDir :: string
  sv_NewClient :: "proxy \<Rightarrow> string \<Rightarrow> telemt_client"
  sv_HealthBudget :: duration

definition New :: "platform \<Rightarrow> (client \<Rightarrow> telemt_client) \<Rightarrow> 'r deps \<Rightarrow> 'r service" where
  "New pl dial d =
     \<lparr>sv_pl = pl, sv_Runtime = dp_Runtime d, sv_Cfg = dp_Cfg d,
      sv_HostDataDir = (if dp_HostDataDir d = '''' then cf_DataDir (dp_Cfg d) else dp_HostDataDir d),
      sv_NewClient = (case dp_NewClient d of Some f \<Rightarrow> f
        | None \<Rightarrow> (\<lambda>p ip. dial (client_New (''http://'' @ ip @ '':9091'') (px_APIToken p)))),
      sv_HealthBudget = (if dp_HealthBudget d = 0 then HealthBudget else dp_HealthBudget d)\<rparr>"

section \<open>The configuration file\<close>

definition configDir :: "'r service \<Rightarrow> string \<Rightarrow> string" where
  "configDir sv pid = filepath_Join [cf_DataDir (sv_Cfg sv), ''proxies'', pid]"

definition hostConfigDir :: "'r service \<Rightarrow> string \<Rightarrow> string" where
  "hostConfigDir sv pid = filepath_Join [sv_HostDataDir sv, ''proxies'', pid]"

definition write_temp :: "platform \<Rightarrow> string \<Rightarrow> string \<Rightarrow> string \<Rightarrow> 'r world \<Rightarrow> gerror option \<times> 'r world" where
  "write_temp pl tmp path body w =
     (let (e, w) = file_Write pl tmp body w in
      case e of
        Some e \<Rightarrow> (let (_, w) = file_Close pl w in (Some (errorf_wrap ''proxy: write config: '' e), w))
      | None \<Rightarrow>
     (let (e, w) = file_Close pl w in
      case e of
        Some e \<Rightarrow> (Some (errorf_wrap ''proxy: close config: '' e), w)
      | None \<Rightarrow>
     (let (e, w) = os_Chmod pl tmp w in
      case e of
        Some e \<Rightarrow> (Some (errorf_wrap ''proxy: chmod config: '' e), w)
      | None \<Rightarrow>
     (let (e, w) = os_Rename pl tmp path w in
      case e of
        Some e \<Rightarrow> (Some (errorf_wrap ''proxy: rename config: '' e), w)
      | None \<Rightarrow> (None, w)))))"

definition writeAtomic :: "platform \<Rightarrow> string \<Rightarrow> string \<Rightarrow> 'r world \<Rightarrow> gerror option \<times> 'r world" where
  "writeAtomic pl path body w =
     (let (t, w) = os_CreateTemp pl (filepath_Dir path) ''.config-'' ''.toml'' w in
      case t of
        Inl e \<Rightarrow> (Some (errorf_wrap ''proxy: temp config: '' e), w)
      | Inr tmp \<Rightarrow>
          (let (err, w) = write_temp pl tmp path body w;
               (_, w) = os_Remove pl tmp w
           in (err, w)))"

definition config_spec :: "'r service \<Rightarrow> proxy \<Rightarrow> spec" where
  "config_spec sv p =
     \<lparr>sp_Username = Username, sp_Secret = px_Secret p, sp_Port = px_Port p,
      sp_TLSDomain = px_TLSDomain p, sp_AdTag = px_AdTag p, sp_APIToken = px_APIToken p,
      sp_APIWhitelist = [cf_NetworkSubnet (sv_Cfg sv)], sp_PublicHost = cf_PublicHost (sv_Cfg sv),
      sp_DataQuotaBytes = px_DataQuotaBytes p, sp_ExpirationRFC3339 = px_ExpirationRFC3339 p,
      sp_MaxTCPConns = px_MaxTCPConns p, sp_MaxUniqueIPs = px_MaxUniqueIPs p\<rparr>"

definition writeConfig :: "'r service \<Rightarrow> proxy \<Rightarrow> 'r world \<Rightarrow> gerror option \<times> 'r world" where
  "writeConfig sv p w =
     (let dir = configDir sv (px_ID p);
          (e, w) = os_MkdirAll (sv_pl sv) dir w in
      case e of
        Some e \<Rightarrow> (Some (errorf_wrap ''proxy: create config dir: '' e), w)
      | None \<Rightarrow>
          (case Render (config_spec sv p) of
             Inl e \<Rightarrow> (Some e, w)
           | Inr body \<Rightarrow> writeAtomic (sv_pl sv) (filepath_Join [dir, ''config.toml'']) body w))"

section \<open>Waiting for the control API\<close>

text \<open>One round of the loop: whether the proxy answered, and the error to remember otherwise.\<close>

definition probe :: "'r service \<Rightarrow> ctx \<Rightarrow> proxy \<Rightarrow> gerror option \<Rightarrow> 'r world \<Rightarrow> (bool \<times> gerror option) \<times> 'r world" where
  "probe sv c p lastErr w =
     (let (r, w) = call_rt (\<lambda>b. rt_Inspect (sv_Runtime sv) b (px_ContainerID p)) (sv_pl sv) c w in
      case r of
        Inl e \<Rightarrow> ((False, Some e), w)
      | Inr info \<Rightarrow>
          if ci_IPAddress info \<noteq> '''' then
            (let (h, w) = call_api (tc_Health (sv_NewClient sv p (ci_IPAddress info))) (sv_pl sv) c w
             in ((h = None, h), w))
          else ((False, lastErr), w))"

text \<open>The \<open>select\<close> between the context and a one-second timer: whether the context ended the wait. A
  context cancelled before the timer fires wins.\<close>

definition select_wait :: "platform \<Rightarrow> ctx \<Rightarrow> 'r world \<Rightarrow> bool \<times> 'r world" where
  "select_wait pl c w =
     (if ctx_done c w then (True, tick pl w)
      else if ctx_done c (tick pl w) then (True, tick pl w)
      else (False, (tick pl w)\<lparr>w_clock := w_clock (tick pl w) + Second\<rparr>))"

definition show_error :: "gerror option \<Rightarrow> string" where
  "show_error e = (case e of None \<Rightarrow> ''<nil>'' | Some e \<Rightarrow> err_text e)"

lemma probe_frame [frames]: "probe sv c p l w = (r, w') \<Longrightarrow> same_but_rt w w'"
  unfolding probe_def
  by (auto split: prod.splits sum.splits if_splits dest!: call_rt_frame call_api_frame
      intro: same_but_rt_trans)

lemma select_wait_frame [frames]:
  "select_wait pl c w = (d, w') \<Longrightarrow> same_but_rt w w' \<and> w_rt w' = w_rt w"
  by (auto simp: select_wait_def same_defs Second_def split: if_splits)

lemma select_wait_second: "select_wait pl c w = (False, w') \<Longrightarrow> w_clock w + Second \<le> w_clock w'"
  by (auto simp: select_wait_def split: if_splits)

lemma round_advances:
  assumes "probe sv c p l w = (r, w1)" "select_wait pl c w1 = (False, w2)"
  shows "w_clock w + Second \<le> w_clock w2"
  using probe_frame [OF assms(1)] select_wait_second [OF assms(2)] by (simp add: same_but_rt_def)

function wait_loop :: "'r service \<Rightarrow> ctx \<Rightarrow> proxy \<Rightarrow> instant \<Rightarrow> gerror option \<Rightarrow> 'r world \<Rightarrow> gerror option \<times> 'r world" where
  "wait_loop sv c p deadline lastErr w =
     (if \<not> w_clock w < deadline then
        (Some (errorf (''proxy: control API did not become healthy within '' @
           Duration_String (sv_HealthBudget sv) @ '': '' @ show_error lastErr)), w)
      else
        (case probe sv c p lastErr w of
           ((True, _), w) \<Rightarrow> (None, w)
         | ((False, lastErr), w) \<Rightarrow>
             (case select_wait (sv_pl sv) c w of
                (True, w) \<Rightarrow> (Some ctx_Err, w)
              | (False, w) \<Rightarrow> wait_loop sv c p deadline lastErr w)))"
  by pat_completeness auto
termination
proof (relation "measure (\<lambda>(sv, c, p, deadline, lastErr, w). nat (deadline - w_clock w))", goal_cases)
  case 1
  then show ?case by simp
next
  case (2 sv c p deadline lastErr w x w1 b l y w2)
  then have "w_clock w + Second \<le> w_clock w2"
    by (auto dest!: round_advances [OF sym])
  with 2(1) show ?case by (simp add: Second_def)
qed

declare wait_loop.simps [simp del]

definition waitHealthy :: "'r service \<Rightarrow> ctx \<Rightarrow> proxy \<Rightarrow> 'r world \<Rightarrow> gerror option \<times> 'r world" where
  "waitHealthy sv c p w = wait_loop sv c p (w_clock w + sv_HealthBudget sv) None w"

section \<open>The atomic write\<close>

text \<open>The relation between the trees before and after writing \<open>path\<close>: a reader of \<open>path\<close> saw the old
  file or the whole new one, a success installs the new one, a failure keeps the old one, and no
  other path changed except \<open>tmp\<close>.\<close>

definition atomic_between :: "string \<Rightarrow> string \<Rightarrow> string \<Rightarrow> gerror option \<Rightarrow> 'r world \<Rightarrow> 'r world \<Rightarrow> bool" where
  "atomic_between tmp path body e w w' \<longleftrightarrow>
     (\<exists>hs. w_hist w' = hs @ w_hist w \<and>
        (\<forall>f \<in> set hs. f path = w_fs w path \<or> f path = Some (File body))) \<and>
     w_fs w' path = (if e = None then Some (File body) else w_fs w path) \<and>
     (\<forall>q. q \<noteq> path \<longrightarrow> q \<noteq> tmp \<longrightarrow> w_fs w' q = w_fs w q)"

lemma write_temp_frame [frames]: "write_temp pl tmp path body w = (e, w') \<Longrightarrow> same_but_fs w w'"
  unfolding write_temp_def
  by (auto split: prod.splits option.splits dest!: fs_frames intro: same_but_fs_trans)

lemma write_temp_atomic:
  assumes "write_temp pl tmp path body w = (e, w')" and "tmp \<noteq> path"
  shows "atomic_between tmp path body e w w'"
  using assms unfolding write_temp_def atomic_between_def
  by (auto simp: file_Write_def put_def file_Close_def os_Chmod_def os_Rename_def
      split: prod.splits option.splits if_splits)

lemma os_Remove_atomic:
  assumes "os_Remove pl tmp w = (r, w')" "tmp \<noteq> path"
  shows "\<exists>hs. w_hist w' = hs @ w_hist w \<and> (\<forall>f \<in> set hs. f path = w_fs w path)"
    and "q \<noteq> tmp \<Longrightarrow> w_fs w' q = w_fs w q"
  using assms by (auto simp: os_Remove_def split: option.splits if_splits)

lemma temp_try_Some: "temp_try name f k = Some p \<Longrightarrow> f p = None \<and> (\<exists>j. p = name j)"
proof (induction name f k rule: temp_try.induct)
  case (1 name f k)
  then show ?case by (simp add: temp_try.simps [of name f k] split: if_splits) blast
qed

lemma os_CreateTemp_Inr:
  assumes "os_CreateTemp pl dir pre post w = (Inr tmp, w')"
  shows "\<exists>rnd. tmp = temp_name dir pre rnd post" "w_fs w tmp = None"
    "w_fs w' = (w_fs w)(tmp \<mapsto> File '''')" "w_hist w' = w_fs w' # w_hist w" "w_fs w dir = Some Dir"
  using assms
  by (auto simp: os_CreateTemp_def split: option.splits if_splits dest!: temp_try_Some)

lemma os_CreateTemp_Inl:
  "os_CreateTemp pl dir pre post w = (Inl e, w') \<Longrightarrow> w_fs w' = w_fs w \<and> w_hist w' = w_hist w"
  by (auto simp: os_CreateTemp_def split: option.splits if_splits)

lemma writeAtomic_frame [frames]: "writeAtomic pl path body w = (e, w') \<Longrightarrow> same_but_fs w w'"
  unfolding writeAtomic_def
  by (auto split: prod.splits sum.splits dest!: fs_frames write_temp_frame intro: same_but_fs_trans)

text \<open>\<open>dir\<close> is the directory of \<open>path\<close>, whose last element does not look like a temporary name.\<close>

lemma temp_name_other:
  assumes "path = dir @ CHR ''/'' # n" "\<not> prefix ''.config-'' n" "\<not> strings_HasSuffix dir ''/''"
  shows "temp_name dir ''.config-'' rnd post \<noteq> path"
  using assms by (auto simp: temp_name_def prefix_def)

lemma writeAtomic_atomic:
  assumes run: "writeAtomic pl path body w = (e, w')"
    and dir: "filepath_Dir path = dir" "path = dir @ CHR ''/'' # n" "\<not> prefix ''.config-'' n"
      "\<not> strings_HasSuffix dir ''/''"
  obtains tmp where "w_fs w tmp = None \<or> w_fs w' tmp = w_fs w tmp" "tmp \<noteq> path"
    "\<exists>rnd. tmp = temp_name dir ''.config-'' rnd ''.toml''"
    "atomic_between tmp path body e w w'"
proof (cases "os_CreateTemp pl dir ''.config-'' ''.toml'' w")
  case (Pair t w1)
  show thesis
  proof (cases t)
    case (Inl err)
    then have "w_fs w' = w_fs w" "w_hist w' = w_hist w" "e \<noteq> None"
      using run Pair dir(1) os_CreateTemp_Inl [of pl dir _ _ w err w1]
      by (auto simp: writeAtomic_def)
    then show thesis
      using temp_name_other [OF dir(2-4)]
      by (intro that [of "temp_name dir ''.config-'' '''' ''.toml''"]) (auto simp: atomic_between_def)
  next
    case (Inr tmp)
    note c = os_CreateTemp_Inr [OF Pair [unfolded Inr]]
    then have ne: "tmp \<noteq> path" using temp_name_other [OF dir(2-4)] by auto
    obtain e2 w2 where t: "write_temp pl tmp path body w1 = (e2, w2)" by fastforce
    obtain r w3 where rm: "os_Remove pl tmp w2 = (r, w3)" by fastforce
    have e: "e = e2" "w' = w3"
      using run Pair Inr dir(1) t rm by (simp_all add: writeAtomic_def)
    have "atomic_between tmp path body e w w'"
      using write_temp_atomic [OF t ne] os_Remove_atomic [OF rm ne] c ne
      unfolding atomic_between_def e by (auto 4 4)
    then show thesis using that [of tmp] c ne by blast
  qed
qed

section \<open>The configuration of a proxy on disk\<close>

abbreviation configPath :: "'r service \<Rightarrow> string \<Rightarrow> string" where
  "configPath sv pid \<equiv> filepath_Join [configDir sv pid, ''config.toml'']"

lemma configPath_eq:
  assumes "plain_name pid"
  shows "configPath sv pid = configDir sv pid @ CHR ''/'' # ''config.toml''"
    and "filepath_Dir (configPath sv pid) = configDir sv pid"
    and "\<not> strings_HasSuffix (configDir sv pid) ''/''"
proof -
  have t: "plain_name ''config.toml''" by (simp add: plain_name_def)
  show "configPath sv pid = configDir sv pid @ CHR ''/'' # ''config.toml''"
    and "filepath_Dir (configPath sv pid) = configDir sv pid"
    using Join_file [OF assms t, of "cf_DataDir (sv_Cfg sv)"] by (simp_all add: configDir_def)
  have "pid \<noteq> ''''" "CHR ''/'' \<notin> set pid" using assms by (auto simp: plain_name_def)
  then have "last (configDir sv pid) \<noteq> CHR ''/''" "configDir sv pid \<noteq> ''''"
    by (auto simp: configDir_def Join_proxies [OF assms] dest: last_in_set)
  then show "\<not> strings_HasSuffix (configDir sv pid) ''/''"
    by (auto simp: strings_HasSuffix_def suffix_def)
qed

lemma config_name_plain: "\<not> prefix ''.config-'' ''config.toml''"
  by simp

lemma prefixes_shorter: "q \<in> set (path_prefixes p) \<Longrightarrow> length q \<le> length p"
  by (auto simp: path_prefixes_def)

lemma path_in_prefixes: "p \<in> set (path_prefixes p)"
  by (simp add: path_prefixes_def)

lemma os_MkdirAll_effect:
  assumes "os_MkdirAll pl path w = (e, w')"
  shows "w_fs w q \<noteq> None \<Longrightarrow> w_fs w' q = w_fs w q"
    and "q \<notin> set (path_prefixes path) \<Longrightarrow> w_fs w' q = w_fs w q"
    and "w_fs w' q \<noteq> w_fs w q \<Longrightarrow> w_fs w' q = Some Dir"
    and "\<exists>hs. w_hist w' = hs @ w_hist w \<and> set hs \<subseteq> {w_fs w'}"
    and "e = None \<Longrightarrow> w_fs w' path = Some Dir"
proof -
  show "w_fs w q \<noteq> None \<Longrightarrow> w_fs w' q = w_fs w q"
    and "q \<notin> set (path_prefixes path) \<Longrightarrow> w_fs w' q = w_fs w q"
    and "w_fs w' q \<noteq> w_fs w q \<Longrightarrow> w_fs w' q = Some Dir"
    and "\<exists>hs. w_hist w' = hs @ w_hist w \<and> set hs \<subseteq> {w_fs w'}"
    using assms by (auto simp: os_MkdirAll_def split: option.splits if_splits)
  assume "e = None"
  then have none: "find (\<lambda>q. is_file (w_fs w q)) (path_prefixes path) = None"
    and fs: "w_fs w' = (\<lambda>q. if q \<in> set (path_prefixes path) \<and> w_fs w q = None then Some Dir else w_fs w q)"
    using assms by (auto simp: os_MkdirAll_def split: option.splits)
  have "\<not> is_file (w_fs w path)"
    using none path_in_prefixes [of path] by (auto simp: find_None_iff)
  then show "w_fs w' path = Some Dir"
    using path_in_prefixes [of path] by (auto simp: fs is_file_def split: option.splits node.splits)
qed

lemma writeConfig_frame [frames]: "writeConfig sv p w = (e, w') \<Longrightarrow> same_but_fs w w'"
  unfolding writeConfig_def Let_def
  by (auto split: prod.splits sum.splits option.splits dest!: fs_frames writeAtomic_frame
      intro: same_but_fs_trans)

text \<open>All that writing a configuration does to the tree: a reader of the file saw the old file or
  the complete new one; success means that the new one is there, failure that the old one still is;
  nothing that existed elsewhere changed.\<close>

lemma writeConfig_effect:
  assumes run: "writeConfig sv p w = (e, w')" and id: "plain_name (px_ID p)"
  defines "path \<equiv> configPath sv (px_ID p)"
  shows "\<exists>hs. w_hist w' = hs @ w_hist w \<and> (\<forall>f \<in> set hs. f path = w_fs w path \<or>
      (\<exists>body. Render (config_spec sv p) = Inr body \<and> f path = Some (File body)))"
    and "e = None \<Longrightarrow> \<exists>body. Render (config_spec sv p) = Inr body \<and> w_fs w' path = Some (File body)"
    and "e \<noteq> None \<Longrightarrow> w_fs w' path = w_fs w path"
    and "w_fs w q \<noteq> None \<Longrightarrow> q \<noteq> path \<Longrightarrow> w_fs w' q = w_fs w q"
proof -
  let ?dir = "configDir sv (px_ID p)"
  note cp = configPath_eq [OF id, of sv, folded path_def]
  obtain e1 w1 where m: "os_MkdirAll (sv_pl sv) ?dir w = (e1, w1)" by fastforce
  have "path \<notin> set (path_prefixes ?dir)"
    using prefixes_shorter [of path ?dir] cp(1) by auto
  note mk = os_MkdirAll_effect [OF m] os_MkdirAll_effect(2) [OF m this]
  have stop: "(\<exists>hs. w_hist w' = hs @ w_hist w \<and> (\<forall>f \<in> set hs. f path = w_fs w path \<or>
      (\<exists>body. Render (config_spec sv p) = Inr body \<and> f path = Some (File body)))) \<and>
      (e = None \<longrightarrow> (\<exists>body. Render (config_spec sv p) = Inr body \<and> w_fs w' path = Some (File body))) \<and>
      (e \<noteq> None \<longrightarrow> w_fs w' path = w_fs w path) \<and>
      (w_fs w q \<noteq> None \<longrightarrow> q \<noteq> path \<longrightarrow> w_fs w' q = w_fs w q)" for q
  proof (cases "e1 \<noteq> None \<or> (\<exists>err. Render (config_spec sv p) = Inl err)")
    case True
    then have "w' = w1" "e \<noteq> None"
      using run m by (auto simp: writeConfig_def Let_def split: option.splits sum.splits)
    with mk show ?thesis by auto
  next
    case False
    then obtain body where b: "e1 = None" "Render (config_spec sv p) = Inr body"
      by (cases "Render (config_spec sv p)") auto
    have "writeAtomic (sv_pl sv) path body w1 = (e, w')"
      using run m b by (simp add: writeConfig_def Let_def path_def)
    then obtain tmp where t: "w_fs w1 tmp = None \<or> w_fs w' tmp = w_fs w1 tmp" "tmp \<noteq> path"
      and at: "atomic_between tmp path body e w1 w'"
      using writeAtomic_atomic [OF _ cp(2) cp(1) _ cp(3)] by (metis config_name_plain)
    show ?thesis
      using at t mk b(2) unfolding atomic_between_def by (auto 4 4)
  qed
  show "\<exists>hs. w_hist w' = hs @ w_hist w \<and> (\<forall>f \<in> set hs. f path = w_fs w path \<or>
      (\<exists>body. Render (config_spec sv p) = Inr body \<and> f path = Some (File body)))"
    and "e = None \<Longrightarrow> \<exists>body. Render (config_spec sv p) = Inr body \<and> w_fs w' path = Some (File body)"
    and "e \<noteq> None \<Longrightarrow> w_fs w' path = w_fs w path"
    and "w_fs w q \<noteq> None \<Longrightarrow> q \<noteq> path \<Longrightarrow> w_fs w' q = w_fs w q"
    using stop by blast+
qed

section \<open>The wait\<close>

text \<open>The loop as a step relation: \<open>n\<close> rounds that ended without an answer and without the context
  ending, and then one of three ways out. Every fact about the loop is an induction on the rounds.\<close>

inductive wait_rounds :: "'r service \<Rightarrow> ctx \<Rightarrow> proxy \<Rightarrow> instant \<Rightarrow> nat \<Rightarrow> gerror option \<Rightarrow> 'r world \<Rightarrow>
    gerror option \<Rightarrow> 'r world \<Rightarrow> bool"
  for sv c p dl
where
  start: "wait_rounds sv c p dl 0 l w l w"
| round: "wait_rounds sv c p dl n l w l1 w1 \<Longrightarrow> w_clock w1 < dl \<Longrightarrow>
    probe sv c p l1 w1 = ((False, l2), w2) \<Longrightarrow> select_wait (sv_pl sv) c w2 = (False, w3) \<Longrightarrow>
    wait_rounds sv c p dl (Suc n) l w l2 w3"

inductive_cases wait_roundsE: "wait_rounds sv c p dl (Suc n) l w l' w'"

definition wait_exit :: "'r service \<Rightarrow> ctx \<Rightarrow> proxy \<Rightarrow> instant \<Rightarrow> gerror option \<Rightarrow> 'r world \<Rightarrow>
    gerror option \<Rightarrow> 'r world \<Rightarrow> bool" where
  "wait_exit sv c p dl l w r w' \<longleftrightarrow>
     (\<not> w_clock w < dl \<and> w' = w \<and> r = Some (errorf (''proxy: control API did not become healthy within '' @
        Duration_String (sv_HealthBudget sv) @ '': '' @ show_error l))) \<or>
     (w_clock w < dl \<and> r = None \<and> fst (fst (probe sv c p l w)) \<and> w' = snd (probe sv c p l w)) \<or>
     (w_clock w < dl \<and> r = Some ctx_Err \<and> \<not> fst (fst (probe sv c p l w)) \<and>
        select_wait (sv_pl sv) c (snd (probe sv c p l w)) = (True, w'))"

lemma wait_rounds_first:
  assumes "wait_rounds sv c p dl n l2 w3 l' w'" "w_clock w < dl"
    "probe sv c p l w = ((False, l2), w2)" "select_wait (sv_pl sv) c w2 = (False, w3)"
  shows "wait_rounds sv c p dl (Suc n) l w l' w'"
  using assms by induction (auto intro: wait_rounds.intros)

lemma wait_loop_rounds:
  assumes "wait_loop sv c p dl l w = (r, w')"
  shows "\<exists>n l1 w1. wait_rounds sv c p dl n l w l1 w1 \<and> wait_exit sv c p dl l1 w1 r w'"
  using assms
proof (induction sv c p dl l w arbitrary: r w' rule: wait_loop.induct)
  case (1 sv c p dl l w)
  obtain ok l' w1 where pr: "probe sv c p l w = ((ok, l'), w1)" by (metis prod.exhaust)
  obtain d w2 where se: "select_wait (sv_pl sv) c w1 = (d, w2)" by fastforce
  note step = 1(2) [unfolded wait_loop.simps [of sv c p dl l w] pr prod.case se]
  show ?case
  proof (cases "\<not> w_clock w < dl \<or> ok \<or> d")
    case True
    then have "wait_exit sv c p dl l w r w'"
      using step pr se by (cases ok; cases d; auto simp: wait_exit_def split: if_splits)
    then show ?thesis using wait_rounds.start by blast
  next
    case False
    then have again: "\<not> \<not> w_clock w < dl" "ok = False" "d = False" by simp_all
    moreover have "wait_loop sv c p dl l' w2 = (r, w')"
      using again step by simp
    ultimately have "\<exists>n l1 w1. wait_rounds sv c p dl n l' w2 l1 w1 \<and> wait_exit sv c p dl l1 w1 r w'"
      by (rule 1(1) [OF _ pr [symmetric] refl _ se [symmetric]])
    then obtain n l1 u where "wait_rounds sv c p dl n l' w2 l1 u" "wait_exit sv c p dl l1 u r w'"
      by blast
    moreover from this(1) have "wait_rounds sv c p dl (Suc n) l w l1 u"
      by (rule wait_rounds_first) (use again pr se in simp_all)
    ultimately show ?thesis by blast
  qed
qed

text \<open>What every probe and every wait keeps, the loop keeps.\<close>

lemma wait_rounds_invariant:
  assumes "wait_rounds sv c p dl n l w l' w'" and "Q w"
    and probe: "\<And>l u x u'. Q u \<Longrightarrow> probe sv c p l u = (x, u') \<Longrightarrow> Q u'"
    and select: "\<And>u d u'. Q u \<Longrightarrow> select_wait (sv_pl sv) c u = (d, u') \<Longrightarrow> Q u'"
  shows "Q w'"
  using assms(1,2) by induction (blast dest: probe select)+

lemma wait_loop_invariant:
  assumes run: "wait_loop sv c p dl l w = (r, w')" and "Q w"
    and probe: "\<And>l u x u'. Q u \<Longrightarrow> probe sv c p l u = (x, u') \<Longrightarrow> Q u'"
    and select: "\<And>u d u'. Q u \<Longrightarrow> select_wait (sv_pl sv) c u = (d, u') \<Longrightarrow> Q u'"
  shows "Q w'"
proof -
  obtain n l1 w1 where r: "wait_rounds sv c p dl n l w l1 w1" "wait_exit sv c p dl l1 w1 r w'"
    using wait_loop_rounds [OF run] by blast
  have q: "Q w1"
    by (rule wait_rounds_invariant [where Q = Q, OF r(1) assms(2)]) (erule (1) probe, erule (1) select)
  obtain x w2 where pr: "probe sv c p l1 w1 = (x, w2)" by fastforce
  from r(2) show ?thesis
    using q probe [OF q pr] select [OF probe [OF q pr]] pr unfolding wait_exit_def by auto
qed

text \<open>Every round takes a second or more, and starts before the deadline.\<close>

lemma wait_rounds_clock:
  "wait_rounds sv c p dl n l w l' w' \<Longrightarrow>
     w_clock w + int n * Second \<le> w_clock w' \<and> (n > 0 \<longrightarrow> w_clock w + (int n - 1) * Second < dl)"
proof (induction rule: wait_rounds.induct)
  case (start l w)
  then show ?case by simp
next
  case (round n l w l1 w1 l2 w2 w3)
  then show ?case
    using round_advances [OF round(3,4)] by (simp add: algebra_simps)
qed

lemma wait_loop_frame: "wait_loop sv c p dl l w = (r, w') \<Longrightarrow> same_but_rt w w'"
  by (erule wait_loop_invariant [where Q = "same_but_rt w"])
    (auto dest: probe_frame select_wait_frame intro: same_but_rt_trans)

lemma waitHealthy_frame [frames]: "waitHealthy sv c p w = (r, w') \<Longrightarrow> same_but_rt w w'"
  by (auto simp: waitHealthy_def dest: wait_loop_frame)

text \<open>The three outcomes of the wait.\<close>

lemma probe_ready:
  assumes "probe sv c p l w = ((True, l'), w')"
  obtains info w1 where
    "call_rt (\<lambda>b. rt_Inspect (sv_Runtime sv) b (px_ContainerID p)) (sv_pl sv) c w = (Inr info, w1)"
    "ci_IPAddress info \<noteq> ''''"
    "tc_Health (sv_NewClient sv p (ci_IPAddress info)) (ctx_done c w1) (w_tick w1) = None"
  using assms unfolding probe_def call_api_def by (auto split: prod.splits sum.splits if_splits)

lemma waitHealthy_outcome:
  assumes run: "waitHealthy sv c p w = (r, w')"
  shows "r = None \<Longrightarrow> \<exists>u info u1.
      call_rt (\<lambda>b. rt_Inspect (sv_Runtime sv) b (px_ContainerID p)) (sv_pl sv) c u = (Inr info, u1) \<and>
      ci_IPAddress info \<noteq> '''' \<and>
      tc_Health (sv_NewClient sv p (ci_IPAddress info)) (ctx_done c u1) (w_tick u1) = None \<and>
      w_clock u < w_clock w + sv_HealthBudget sv"
    and "r = Some e \<Longrightarrow> (e = ctx_Err \<and> ctx_done c w') \<or> w_clock w + sv_HealthBudget sv \<le> w_clock w'"
proof -
  obtain n l1 w1 where r: "wait_rounds sv c p (w_clock w + sv_HealthBudget sv) n None w l1 w1"
    "wait_exit sv c p (w_clock w + sv_HealthBudget sv) l1 w1 r w'"
    using wait_loop_rounds run unfolding waitHealthy_def by blast
  show "\<exists>u info u1.
      call_rt (\<lambda>b. rt_Inspect (sv_Runtime sv) b (px_ContainerID p)) (sv_pl sv) c u = (Inr info, u1) \<and>
      ci_IPAddress info \<noteq> '''' \<and>
      tc_Health (sv_NewClient sv p (ci_IPAddress info)) (ctx_done c u1) (w_tick u1) = None \<and>
      w_clock u < w_clock w + sv_HealthBudget sv" if "r = None"
  proof -
    obtain ok l' w2 where pr: "probe sv c p l1 w1 = ((ok, l'), w2)" by (metis prod.exhaust)
    with r(2) that have "ok" "w_clock w1 < w_clock w + sv_HealthBudget sv"
      unfolding wait_exit_def by auto
    then have "probe sv c p l1 w1 = ((True, l'), w2)" using pr by simp
    then show ?thesis
      by (rule probe_ready) (use \<open>w_clock w1 < w_clock w + sv_HealthBudget sv\<close> in blast)
  qed
  show "(e = ctx_Err \<and> ctx_done c w') \<or> w_clock w + sv_HealthBudget sv \<le> w_clock w'" if "r = Some e"
    using r(2) that unfolding wait_exit_def
    by (auto simp: select_wait_def ctx_done_def split: if_splits option.splits)
qed

text \<open>The wait ends: it makes at most one probe per started second of the budget.\<close>

lemma waitHealthy_rounds:
  assumes "waitHealthy sv c p w = (r, w')"
  shows "\<exists>n l1 w1. wait_rounds sv c p (w_clock w + sv_HealthBudget sv) n None w l1 w1 \<and>
    wait_exit sv c p (w_clock w + sv_HealthBudget sv) l1 w1 r w' \<and>
    (n > 0 \<longrightarrow> (int n - 1) * Second < sv_HealthBudget sv)"
  using wait_loop_rounds [of sv c p "w_clock w + sv_HealthBudget sv" None w r w'] assms
    wait_rounds_clock unfolding waitHealthy_def by (metis add_less_cancel_left)

section \<open>Links\<close>

definition service_Link :: "'r service \<Rightarrow> proxy \<Rightarrow> string" where
  "service_Link sv p =
     (let host = (if cf_PublicHost (sv_Cfg sv) = '''' then ''SERVER-IP'' else cf_PublicHost (sv_Cfg sv))
      in case FakeTLS host (px_Port p) (px_Secret p) (px_TLSDomain p) of
           Inl _ \<Rightarrow> '''' | Inr l \<Rightarrow> l)"

definition ReconcileLink :: "string \<Rightarrow> bool \<Rightarrow> string list \<Rightarrow> string \<times> bool" where
  "ReconcileLink loc publicHostSet telemtLinks =
     (if \<not> publicHostSet \<and> telemtLinks \<noteq> [] \<and> hd telemtLinks \<noteq> '''' then (hd telemtLinks, True)
      else (loc, False))"

lemma service_Link_nonempty:
  "service_Link sv p \<noteq> '''' \<longleftrightarrow>
     length (px_Secret p) = 32 \<and> (\<forall>c \<in> set (px_Secret p). is_hex c) \<and>
     1 \<le> px_Port p \<and> px_Port p \<le> 65535 \<and> px_TLSDomain p \<noteq> ''''"
proof -
  let ?host = "if cf_PublicHost (sv_Cfg sv) = '''' then ''SERVER-IP'' else cf_PublicHost (sv_Cfg sv)"
  have host: "?host \<noteq> ''''" by simp
  have "service_Link sv p \<noteq> '''' \<longleftrightarrow>
      (\<exists>l. build ''tg://proxy'' ?host (px_Port p) (px_Secret p) (px_TLSDomain p) = Inr l \<and> l \<noteq> '''')"
    unfolding service_Link_def Let_def FakeTLS_def by (auto split: sum.splits)
  then show ?thesis using host by (auto simp: build_Inr_iff)
qed

section \<open>Calls on a runtime that keeps its contract\<close>

lemma call_rt_D: "call_rt f pl c w = (r, w') \<Longrightarrow> f (ctx_done c w) (w_rt w) = (r, w_rt w')"
  by (auto simp: call_rt_def split: prod.splits)

context container_runtime
begin

lemma call_keeps:
  assumes "inv (w_rt w)"
  shows "call_rt (\<lambda>b. rt_Start rt b i) pl c w = (r, w') \<Longrightarrow> inv (w_rt w') \<and> ctrs (w_rt w') = ctrs (w_rt w)"
    "call_rt (\<lambda>b. rt_Stop rt b i) pl c w = (r, w') \<Longrightarrow> inv (w_rt w') \<and> ctrs (w_rt w') = ctrs (w_rt w)"
    "call_rt (\<lambda>b. rt_Ping rt b) pl c w = (r, w') \<Longrightarrow> inv (w_rt w') \<and> ctrs (w_rt w') = ctrs (w_rt w)"
    "call_rt (\<lambda>b. rt_EnsureNetwork rt b n sub) pl c w = (r, w') \<Longrightarrow>
       inv (w_rt w') \<and> ctrs (w_rt w') = ctrs (w_rt w)"
    "call_rt (\<lambda>b. rt_Pull rt b img) pl c w = (r, w') \<Longrightarrow> inv (w_rt w') \<and> ctrs (w_rt w') = ctrs (w_rt w)"
    "call_rt (\<lambda>b. rt_Logs rt b i tail) pl c w = (rl, w') \<Longrightarrow>
       inv (w_rt w') \<and> ctrs (w_rt w') = ctrs (w_rt w)"
    "call_rt (\<lambda>b. rt_Inspect rt b i) pl c w = (ri, w') \<Longrightarrow>
       inv (w_rt w') \<and> ctrs (w_rt w') = ctrs (w_rt w)"
    "call_rt (\<lambda>b. rt_List rt b ls) pl c w = (rc, w') \<Longrightarrow>
       inv (w_rt w') \<and> ctrs (w_rt w') = ctrs (w_rt w)"
  using assms by (auto dest!: call_rt_D dest: keeps)

lemma call_create:
  assumes "inv (w_rt w)"
  shows "call_rt (\<lambda>b. rt_Create rt b sp) pl c w = (Inr i, w') \<Longrightarrow>
      inv (w_rt w') \<and> i \<noteq> '''' \<and> ctrs (w_rt w) i = None \<and>
      ctrs (w_rt w') = (ctrs (w_rt w))(i \<mapsto> cs_Labels sp)"
    "call_rt (\<lambda>b. rt_Create rt b sp) pl c w = (Inl e, w') \<Longrightarrow>
      inv (w_rt w') \<and> ctrs (w_rt w') = ctrs (w_rt w)"
  using assms by (auto dest!: call_rt_D dest: create_ok create_err)

lemma call_remove:
  assumes "inv (w_rt w)" "call_rt (\<lambda>b. rt_Remove rt b i) pl c w = (r, w')"
  shows "inv (w_rt w')" "j \<noteq> i \<Longrightarrow> ctrs (w_rt w') j = ctrs (w_rt w) j"
    "r = None \<or> (\<exists>e. r = Some e \<and> errors_Is e ErrNoSuchContainer) \<Longrightarrow>
      ctrs (w_rt w') = (ctrs (w_rt w))(i := None)"
    "r \<noteq> None \<Longrightarrow> ctrs (w_rt w') = ctrs (w_rt w)"
proof -
  note run = call_rt_D [OF assms(2)]
  show "inv (w_rt w')"
    using remove_ok [OF assms(1)] remove_err [OF assms(1)] run by (cases r) blast+
  show "j \<noteq> i \<Longrightarrow> ctrs (w_rt w') j = ctrs (w_rt w) j"
    using remove_others [OF assms(1) run] .
  show "r = None \<or> (\<exists>e. r = Some e \<and> errors_Is e ErrNoSuchContainer) \<Longrightarrow>
      ctrs (w_rt w') = (ctrs (w_rt w))(i := None)"
    using removed [OF assms(1) run] by blast
  show "r \<noteq> None \<Longrightarrow> ctrs (w_rt w') = ctrs (w_rt w)"
    using remove_err [OF assms(1)] run by (cases r) blast+
qed

lemma call_list:
  assumes "inv (w_rt w)" "call_rt (\<lambda>b. rt_List rt b ls) pl c w = (Inr cs, w')" "ci \<in> set cs"
  shows "ctrs (w_rt w) (ci_ID ci) = Some (ci_Labels ci)"
    "plain_keys ls \<Longrightarrow> labels_match ls (ci_Labels ci)"
  using list_sound [OF assms(1) call_rt_D [OF assms(2)] assms(3)] by auto

lemma probe_keeps:
  assumes sv: "sv_Runtime sv = rt" and inv: "inv (w_rt w)" and run: "probe sv c p l w = (r, w')"
  shows "inv (w_rt w') \<and> ctrs (w_rt w') = ctrs (w_rt w)"
proof -
  obtain x w1 where i: "call_rt (\<lambda>b. rt_Inspect rt b (px_ContainerID p)) (sv_pl sv) c w = (x, w1)"
    by fastforce
  have "w_rt w' = w_rt w1"
    using run i unfolding probe_def sv
    by (auto split: prod.splits sum.splits if_splits dest: call_api_frame)
  then show ?thesis using call_keeps(7) [OF inv i] by simp
qed

lemma waitHealthy_keeps:
  assumes "sv_Runtime sv = rt" "inv (w_rt w)" "waitHealthy sv c p w = (r, w')"
  shows "inv (w_rt w') \<and> ctrs (w_rt w') = ctrs (w_rt w)"
  using assms(3) unfolding waitHealthy_def
  by (rule wait_loop_invariant [where Q = "\<lambda>u. inv (w_rt u) \<and> ctrs (w_rt u) = ctrs (w_rt w)"])
    (use assms(1,2) in \<open>simp, metis probe_keeps, metis select_wait_frame\<close>)

end

end
