(* ===== verification/Saga.thy ===== *)
theory Saga imports Service begin

text \<open>
  \<open>Service.Create\<close> of \<open>internal/proxy/service.go\<close>: a saga. Each completed step pushes a compensating
  action; a failure before the container runs undoes them all, latest first. Once the container is
  started it is kept, whatever the outcome of the wait for its control API. The stages are the
  numbered steps of the code; each takes the undo stack built so far.
\<close>

record create_request =
  cr_Name :: string
  cr_Port :: int
  cr_TLSDomain :: string
  cr_AdTag :: string
  cr_DataQuotaBytes :: "64 word option"
  cr_ExpirationRFC3339 :: "string option"
  cr_MaxTCPConns :: "int option"
  cr_MaxUniqueIPs :: "int option"

definition randomHex :: "platform \<Rightarrow> nat \<Rightarrow> 'r world \<Rightarrow> string res \<times> 'r world" where
  "randomHex pl n w =
     (let (r, w) = rand_Read pl n w in
      case r of
        Inl e \<Rightarrow> (Inl (errorf_wrap ''proxy: generate random: '' e), w)
      | Inr b \<Rightarrow> (Inr (hex_Encode b), w))"

section \<open>Compensating actions\<close>

datatype undo = UndoRow string | UndoDir string | UndoContainer string

fun run_undo :: "'r service \<Rightarrow> ctx \<Rightarrow> undo \<Rightarrow> 'r world \<Rightarrow> 'r world" where
  "run_undo sv c (UndoRow pid) w = snd (st_DeleteProxy (sv_pl sv) (WithoutCancel c) pid w)"
| "run_undo sv c (UndoDir dir) w = snd (os_RemoveAll (sv_pl sv) dir w)"
| "run_undo sv c (UndoContainer i) w =
     snd (call_rt (\<lambda>b. rt_Remove (sv_Runtime sv) b i) (sv_pl sv) (WithoutCancel c) w)"

definition rollback :: "'r service \<Rightarrow> ctx \<Rightarrow> undo list \<Rightarrow> 'r world \<Rightarrow> 'r world" where
  "rollback sv c us w = fold (run_undo sv c) (rev us) w"

section \<open>The stages\<close>

definition container_spec_of :: "'r service \<Rightarrow> proxy \<Rightarrow> container_spec" where
  "container_spec_of sv p =
     \<lparr>cs_Name = ''telemt-'' @ px_ID p, cs_Image = cf_TelemtImage (sv_Cfg sv),
      cs_Labels = [(LabelManaged, ''true''), (LabelProxyID, px_ID p)],
      cs_ConfigHostDir = hostConfigDir sv (px_ID p), cs_Port = px_Port p,
      cs_Network = cf_Network (sv_Cfg sv)\<rparr>"

text \<open>After the start: the outcome of the wait becomes the state, committed even if the caller left.\<close>

definition set_outcome :: "gerror option \<Rightarrow> proxy \<Rightarrow> proxy" where
  "set_outcome e p =
     (case e of
        Some e \<Rightarrow> p\<lparr>px_State := StateError, px_StateMessage := err_text e\<rparr>
      | None \<Rightarrow> p\<lparr>px_State := StateRunning, px_StateMessage := ''''\<rparr>)"

definition create_finish :: "'r service \<Rightarrow> ctx \<Rightarrow> proxy \<Rightarrow> 'r world \<Rightarrow> proxy res \<times> 'r world" where
  "create_finish sv c p w =
     (let (e, w) = waitHealthy sv c p w;
          p = set_outcome e p;
          (e, w) = st_UpdateProxy (sv_pl sv) (WithoutCancel c) p w
      in case e of Some e \<Rightarrow> (Inl e, w) | None \<Rightarrow> (Inr p, w))"

text \<open>Steps 4 and 5: create and start the container.\<close>

definition create_container :: "'r service \<Rightarrow> ctx \<Rightarrow> undo list \<Rightarrow> proxy \<Rightarrow> 'r world \<Rightarrow> proxy res \<times> 'r world" where
  "create_container sv c us p w =
     (let (r, w) = call_rt (\<lambda>b. rt_Create (sv_Runtime sv) b (container_spec_of sv p)) (sv_pl sv) c w in
      case r of
        Inl e \<Rightarrow> (Inl e, rollback sv c us w)
      | Inr i \<Rightarrow>
          (let us = us @ [UndoContainer i];
               p = p\<lparr>px_ContainerID := i\<rparr>;
               (e, w) = call_rt (\<lambda>b. rt_Start (sv_Runtime sv) b i) (sv_pl sv) c w
           in case e of
                Some e \<Rightarrow> (Inl (the (wrapPortConflict (px_Port p) (Some e))), rollback sv c us w)
              | None \<Rightarrow> create_finish sv c p w))"

text \<open>Step 3: the network and the image.\<close>

definition create_prepare :: "'r service \<Rightarrow> ctx \<Rightarrow> undo list \<Rightarrow> proxy \<Rightarrow> 'r world \<Rightarrow> proxy res \<times> 'r world" where
  "create_prepare sv c us p w =
     (let (e, w) = call_rt (\<lambda>b. rt_EnsureNetwork (sv_Runtime sv) b (cf_Network (sv_Cfg sv))
                     (cf_NetworkSubnet (sv_Cfg sv))) (sv_pl sv) c w in
      case e of
        Some e \<Rightarrow> (Inl e, rollback sv c us w)
      | None \<Rightarrow>
          (let (e, w) = call_rt (\<lambda>b. rt_Pull (sv_Runtime sv) b (cf_TelemtImage (sv_Cfg sv))) (sv_pl sv) c w
           in case e of
                Some e \<Rightarrow> (Inl e, rollback sv c us w)
              | None \<Rightarrow> create_container sv c us p w))"

text \<open>Steps 1 and 2: claim the port in the database, write the configuration.\<close>

definition create_claim :: "'r service \<Rightarrow> ctx \<Rightarrow> proxy \<Rightarrow> 'r world \<Rightarrow> proxy res \<times> 'r world" where
  "create_claim sv c p w =
     (let (e, w) = st_CreateProxy (sv_pl sv) c p w in
      case e of
        Some e \<Rightarrow> (Inl e, w)
      | None \<Rightarrow>
          (let us = [UndoRow (px_ID p)];
               (e, w) = writeConfig sv p w
           in case e of
                Some e \<Rightarrow> (Inl e, rollback sv c us w)
              | None \<Rightarrow> create_prepare sv c (us @ [UndoDir (configDir sv (px_ID p))]) p w))"

definition new_proxy :: "create_request \<Rightarrow> string \<Rightarrow> string \<Rightarrow> string \<Rightarrow> proxy" where
  "new_proxy req secret token pid =
     \<lparr>px_ID = pid,
      px_Name = (if cr_Name req = '''' then ''proxy-'' @ Itoa (cr_Port req) else cr_Name req),
      px_Port = cr_Port req, px_TLSDomain = cr_TLSDomain req, px_AdTag = cr_AdTag req,
      px_Secret = secret, px_APIToken = token, px_ContainerID = '''',
      px_State = StateCreating, px_StateMessage = '''',
      px_DataQuotaBytes = cr_DataQuotaBytes req, px_ExpirationRFC3339 = cr_ExpirationRFC3339 req,
      px_MaxTCPConns = cr_MaxTCPConns req, px_MaxUniqueIPs = cr_MaxUniqueIPs req,
      px_CreatedAt = zero_time, px_UpdatedAt = zero_time\<rparr>"

definition Create :: "'r service \<Rightarrow> ctx \<Rightarrow> create_request \<Rightarrow> 'r world \<Rightarrow> proxy res \<times> 'r world" where
  "Create sv c req w =
     (let (e, w) = os_CheckPort (sv_pl sv) (cr_Port req) (cf_ReservedPorts (sv_Cfg sv)) w in
      case e of
        Some e \<Rightarrow> (Inl e, w)
      | None \<Rightarrow>
          if cr_TLSDomain req = '''' then (Inl (errorf ''proxy: fake domain is required''), w)
          else
            (let (secret, w) = randomHex (sv_pl sv) 16 w in
             case secret of
               Inl e \<Rightarrow> (Inl e, w)
             | Inr secret \<Rightarrow>
                 (let (token, w) = randomHex (sv_pl sv) 32 w in
                  case token of
                    Inl e \<Rightarrow> (Inl e, w)
                  | Inr token \<Rightarrow>
                      (let (pid, w) = uuid_NewString (sv_pl sv) w
                       in create_claim sv c (new_proxy req secret token pid) w))))"

section \<open>Undoing\<close>

lemma randomHex_frame [frames]: "randomHex pl n w = (r, w') \<Longrightarrow> same_but_rt w w' \<and> w_rt w' = w_rt w"
  by (auto simp: randomHex_def split: prod.splits sum.splits dest!: rand_Read_frame)

lemma rollback_Nil [simp]: "rollback sv c [] w = w"
  by (simp add: rollback_def)

lemma rollback_snoc [simp]: "rollback sv c (us @ [u]) w = rollback sv c us (run_undo sv c u w)"
  by (simp add: rollback_def)

lemma rollback_one [simp]: "rollback sv c [u] w = run_undo sv c u w"
  by (simp add: rollback_def)

text \<open>A proxy as a row holds it: equal up to the two timestamps.\<close>

definition same_proxy :: "proxy \<Rightarrow> proxy \<Rightarrow> bool" where
  "same_proxy p q \<longleftrightarrow> q = p\<lparr>px_CreatedAt := px_CreatedAt q, px_UpdatedAt := px_UpdatedAt q\<rparr>"

lemma same_proxy_fields:
  assumes "same_proxy p q"
  shows "px_ID q = px_ID p" "px_Port q = px_Port p" "px_State q = px_State p"
    "px_ContainerID q = px_ContainerID p" "px_Secret q = px_Secret p" "px_APIToken q = px_APIToken p"
    "px_TLSDomain q = px_TLSDomain p" "px_AdTag q = px_AdTag p" "px_Name q = px_Name p"
    "px_StateMessage q = px_StateMessage p"
  by (subst assms [unfolded same_proxy_def], simp)+

lemma same_proxy_stamp:
  "same_proxy p (p\<lparr>px_CreatedAt := a, px_UpdatedAt := b\<rparr>)"
  by (simp add: same_proxy_def)

text \<open>What the rollback of the first steps does when its statements work: the row is gone, the runtime
  untouched.\<close>

definition undoes :: "'r service \<Rightarrow> ctx \<Rightarrow> undo list \<Rightarrow> string \<Rightarrow> bool" where
  "undoes sv c us pid \<longleftrightarrow>
     (\<forall>u. db_wf (w_db u) \<longrightarrow> rows u pid \<noteq> None \<longrightarrow>
        rows (rollback sv c us u) = (rows u)(pid := None) \<and> w_rt (rollback sv c us u) = w_rt u \<and>
        db_wf (w_db (rollback sv c us u)))"

lemma undoes_row:
  assumes "db_reliable (sv_pl sv)"
  shows "undoes sv c [UndoRow pid] pid"
proof -
  have "rows u' = (rows u)(pid := None) \<and> w_rt u' = w_rt u \<and> db_wf (w_db u')"
    if u: "db_wf (w_db u)" "rows u pid \<noteq> None"
      "u' = snd (st_DeleteProxy (sv_pl sv) (WithoutCancel c) pid u)" for u u' :: "'a world"
  proof -
    have "st_DeleteProxy (sv_pl sv) (WithoutCancel c) pid u = (None, u')"
      using st_DeleteProxy_works [OF assms, of "WithoutCancel c" u pid] u by (simp add: prod_eq_iff)
    note gone = st_DeleteProxy_None [OF u(1) this] st_DeleteProxy_frame [OF this]
    then show ?thesis by (simp add: same_but_db_def)
  qed
  then show ?thesis unfolding undoes_def rollback_one run_undo.simps by blast
qed

lemma undoes_dir:
  assumes "undoes sv c us pid"
  shows "undoes sv c (us @ [UndoDir d]) pid"
proof -
  have "w_db (snd (os_RemoveAll pl d u)) = w_db u \<and> w_rt (snd (os_RemoveAll pl d u)) = w_rt u"
    for pl and u :: "'a world"
    by (simp add: os_RemoveAll_def split: option.split)
  with assms show ?thesis by (simp add: undoes_def)
qed

section \<open>Every failure is undone\<close>

lemma create_finish_effect:
  assumes run: "create_finish sv c p w = (r, w')" and wf: "db_wf (w_db w)"
    and row: "rows w (px_ID p) = Some old" "px_Port old = px_Port p"
  shows "db_wf (w_db w')" "w_fs w' = w_fs w"
    "\<And>q. r = Inr q \<Longrightarrow> \<exists>e w1. waitHealthy sv c p w = (e, w1) \<and> q = set_outcome e p \<and> w_rt w' = w_rt w1 \<and>
       (\<exists>q'. same_proxy q q' \<and> rows w' = (rows w)(px_ID p \<mapsto> q'))"
    "\<And>e. r = Inl e \<Longrightarrow> w_db w' = w_db w \<and> \<not> db_reliable (sv_pl sv)"
proof -
  obtain e w1 where wait: "waitHealthy sv c p w = (e, w1)" by fastforce
  have f1: "w_db w1 = w_db w" "w_fs w1 = w_fs w"
    using waitHealthy_frame [OF wait] by (simp_all add: same_but_rt_def)
  let ?p = "set_outcome e p"
  have p: "px_ID ?p = px_ID p" "px_Port ?p = px_Port p"
    by (simp_all add: set_outcome_def split: option.split)
  obtain x w2 where up: "st_UpdateProxy (sv_pl sv) (WithoutCancel c) ?p w1 = (x, w2)" by fastforce
  have w2: "w' = w2" and r: "r = (case x of Some e \<Rightarrow> Inl e | None \<Rightarrow> Inr ?p)"
    using run wait up by (auto simp: create_finish_def split: option.splits)
  have wf1: "db_wf (w_db w1)" using wf f1 by simp
  have f2: "w_rt w2 = w_rt w1" "w_fs w2 = w_fs w1"
    using st_UpdateProxy_frame [OF up] by (simp_all add: same_but_db_def)
  show "db_wf (w_db w')" using wf_after(2) [OF wf1 up] by (simp add: w2)
  show "w_fs w' = w_fs w" using f1 f2 by (simp add: w2)
  show "\<exists>e w1. waitHealthy sv c p w = (e, w1) \<and> q = set_outcome e p \<and> w_rt w' = w_rt w1 \<and>
       (\<exists>q'. same_proxy q q' \<and> rows w' = (rows w)(px_ID p \<mapsto> q'))" if "r = Inr q" for q
  proof -
    have x: "x = None" "q = ?p" using r that by (auto split: option.splits)
    obtain old' :: proxy where "rows w2 = (rows w1)(px_ID ?p \<mapsto>
        ?p\<lparr>px_CreatedAt := px_CreatedAt old', px_UpdatedAt := stored_time (w_clock w1)\<rparr>)"
      by (rule st_UpdateProxy_None [OF wf1 up [unfolded x]])
    then show ?thesis
      using wait f1 f2 x(2) by (auto simp: w2 p intro: same_proxy_stamp)
  qed
  show "w_db w' = w_db w \<and> \<not> db_reliable (sv_pl sv)" if "r = Inl e'" for e'
  proof -
    have x: "x = Some e'" using r that by (auto split: option.splits)
    then have "\<not> db_reliable (sv_pl sv)"
      using st_UpdateProxy_works [of "sv_pl sv" "WithoutCancel c" w1 ?p old] up wf1 row f1(1) p
      by auto
    then show ?thesis using st_UpdateProxy_Some [OF up [unfolded x]] f1 by (simp add: w2)
  qed
qed

text \<open>\<open>Create\<close> is its guards, the random values and then the claim.\<close>

lemma Create_cases:
  assumes run: "Create sv c req w = (r, w')"
  obtains (early) e where "r = Inl e" "w_db w' = w_db w" "w_rt w' = w_rt w" "w_fs w' = w_fs w"
  | (claim) w4 sec tok t t' t1 t2 where "create_claim sv c (new_proxy req (hex_Encode sec) (hex_Encode tok)
      (pl_uuid (sv_pl sv) t)) w4 = (r, w')"
      "w_db w4 = w_db w" "w_rt w4 = w_rt w" "w_fs w4 = w_fs w" "cr_TLSDomain req \<noteq> ''''"
      "CheckPort (pl_listen (sv_pl sv) t') (pl_lclose (sv_pl sv) t') (cr_Port req)
         (cf_ReservedPorts (sv_Cfg sv)) = None"
      "pl_rand (sv_pl sv) t1 16 = Inr sec" "pl_rand (sv_pl sv) t2 32 = Inr tok"
proof -
  obtain x w1 where cp: "os_CheckPort (sv_pl sv) (cr_Port req) (cf_ReservedPorts (sv_Cfg sv)) w = (x, w1)"
    by fastforce
  obtain s w2 where s: "randomHex (sv_pl sv) 16 w1 = (s, w2)" by fastforce
  obtain t w3 where t: "randomHex (sv_pl sv) 32 w2 = (t, w3)" by fastforce
  obtain pid w4 where u: "uuid_NewString (sv_pl sv) w3 = (pid, w4)" by fastforce
  have f: "w_db u = w_db w \<and> w_rt u = w_rt w \<and> w_fs u = w_fs w" if "u \<in> {w1, w2, w3, w4}" for u
    using that os_CheckPort_frame [OF cp] randomHex_frame [OF s] randomHex_frame [OF t] uuid_frame [OF u]
    by (auto simp: same_but_rt_def)
  show thesis
  proof (cases "x \<noteq> None \<or> cr_TLSDomain req = '''' \<or> (\<exists>e. s = Inl e) \<or> (\<exists>e. t = Inl e)")
    case True
    then have "w' \<in> {w1, w2, w3} \<and> (\<exists>e. r = Inl e)"
      using run cp s t by (auto simp: Create_def split: option.splits if_splits sum.splits)
    then obtain e where "w' \<in> {w1, w2, w3, w4}" "r = Inl e" by blast
    with f [of w'] early show thesis by blast
  next
    case False
    then obtain sec tok where st: "x = None" "s = Inr sec" "t = Inr tok" by (cases s; cases t) auto
    obtain b b' where hex: "sec = hex_Encode b" "tok = hex_Encode b'"
      and rnd: "pl_rand (sv_pl sv) (w_tick w1) 16 = Inr b" "pl_rand (sv_pl sv) (w_tick w2) 32 = Inr b'"
      using s t st by (auto simp: randomHex_def rand_Read_def split: prod.splits sum.splits)
    have pid: "pid = pl_uuid (sv_pl sv) (w_tick w3)" using u by (auto simp: uuid_NewString_def)
    have "CheckPort (pl_listen (sv_pl sv) (w_tick w)) (pl_lclose (sv_pl sv) (w_tick w)) (cr_Port req)
        (cf_ReservedPorts (sv_Cfg sv)) = None"
      using cp st by (simp add: os_CheckPort_def)
    moreover have "create_claim sv c (new_proxy req (hex_Encode b) (hex_Encode b') pid) w4 = (r, w')"
      using run cp s t u False st hex by (simp add: Create_def)
    moreover have "w_db w4 = w_db w" "w_rt w4 = w_rt w" "w_fs w4 = w_fs w" using f [of w4] by simp_all
    ultimately show thesis using claim [OF _ _ _ _ _ _ rnd] False unfolding pid by blast
  qed
qed

context container_runtime
begin

lemma create_container_fails:
  assumes sv: "sv_Runtime sv = rt" and rel: "db_reliable (sv_pl sv)" "remove_works rt ctrs inv"
    and us: "undoes sv c us (px_ID p)"
    and w: "inv (w_rt w)" "db_wf (w_db w)" "rows w (px_ID p) = Some old" "px_Port old = px_Port p"
    and run: "create_container sv c us p w = (Inl e, w')"
  shows "rows w' = (rows w)(px_ID p := None) \<and> ctrs (w_rt w') = ctrs (w_rt w) \<and> inv (w_rt w')"
proof -
  obtain r w1 where cr: "call_rt (\<lambda>b. rt_Create rt b (container_spec_of sv p)) (sv_pl sv) c w = (r, w1)"
    by fastforce
  have f1: "w_db w1 = w_db w" using call_rt_frame [OF cr] by (simp add: same_but_rt_def)
  show ?thesis
  proof (cases r)
    case (Inl e1)
    then have "w' = rollback sv c us w1" using run cr by (simp add: create_container_def sv)
    then show ?thesis
      using us w f1 call_create(2) [OF w(1) cr [unfolded Inl]] by (simp add: undoes_def)
  next
    case (Inr i)
    note c1 = call_create(1) [OF w(1) cr [unfolded Inr]]
    obtain x w2 where st: "call_rt (\<lambda>b. rt_Start rt b i) (sv_pl sv) c w1 = (x, w2)" by fastforce
    have f2: "w_db w2 = w_db w" using call_rt_frame [OF st] f1 by (simp add: same_but_rt_def)
    have c2: "inv (w_rt w2)" "ctrs (w_rt w2) = ctrs (w_rt w1)"
      using call_keeps(1) [OF _ st] c1 by blast+
    show ?thesis
    proof (cases x)
      case None
      then have fin: "create_finish sv c (p\<lparr>px_ContainerID := i\<rparr>) w2 = (Inl e, w')"
        using run cr st Inr by (simp add: create_container_def sv Let_def)
      have "\<not> db_reliable (sv_pl sv)"
        using create_finish_effect(4) [OF fin, of old] w f2 by simp
      with rel show ?thesis by blast
    next
      case (Some e2)
      then have w': "w' = rollback sv c us (run_undo sv c (UndoContainer i) w2)"
        using run cr st Inr by (simp add: create_container_def sv Let_def)
      obtain y w3 where rm: "call_rt (\<lambda>b. rt_Remove rt b i) (sv_pl sv) (WithoutCancel c) w2 = (y, w3)"
        by fastforce
      have w3: "run_undo sv c (UndoContainer i) w2 = w3" using rm by (simp add: sv)
      have "y = None"
        using rel(2) c1 c2 call_rt_D [OF rm] unfolding remove_works_def
        by (metis fst_conv fun_upd_same option.discI)
      then have "ctrs (w_rt w3) = ctrs (w_rt w)" "inv (w_rt w3)"
        using call_remove [OF c2(1) rm] c1 c2(2) by auto
      moreover have "w_db w3 = w_db w" using call_rt_frame [OF rm] f2 by (simp add: same_but_rt_def)
      ultimately show ?thesis using us w unfolding w' w3 undoes_def by simp
    qed
  qed
qed

lemma create_prepare_fails:
  assumes sv: "sv_Runtime sv = rt" and rel: "db_reliable (sv_pl sv)" "remove_works rt ctrs inv"
    and us: "undoes sv c us (px_ID p)"
    and w: "inv (w_rt w)" "db_wf (w_db w)" "rows w (px_ID p) = Some old" "px_Port old = px_Port p"
    and run: "create_prepare sv c us p w = (Inl e, w')"
  shows "rows w' = (rows w)(px_ID p := None) \<and> ctrs (w_rt w') = ctrs (w_rt w) \<and> inv (w_rt w')"
proof -
  obtain x w1 where n: "call_rt (\<lambda>b. rt_EnsureNetwork rt b (cf_Network (sv_Cfg sv))
      (cf_NetworkSubnet (sv_Cfg sv))) (sv_pl sv) c w = (x, w1)" by fastforce
  obtain y w2 where pu: "call_rt (\<lambda>b. rt_Pull rt b (cf_TelemtImage (sv_Cfg sv))) (sv_pl sv) c w1 = (y, w2)"
    by fastforce
  have f: "w_db w1 = w_db w" "w_db w2 = w_db w"
    using call_rt_frame [OF n] call_rt_frame [OF pu] by (simp_all add: same_but_rt_def)
  have k1: "inv (w_rt w1)" "ctrs (w_rt w1) = ctrs (w_rt w)" using call_keeps(4) [OF w(1) n] by blast+
  have k2: "inv (w_rt w2)" "ctrs (w_rt w2) = ctrs (w_rt w1)" using call_keeps(5) [OF k1(1) pu] by blast+
  show ?thesis
  proof (cases "x \<noteq> None \<or> y \<noteq> None")
    case True
    then have "w' = rollback sv c us w1 \<or> w' = rollback sv c us w2"
      using run n pu by (cases x; cases y; simp add: create_prepare_def sv)
    then show ?thesis using us w f k1 k2 unfolding undoes_def by (elim disjE) simp_all
  next
    case False
    then have "create_container sv c us p w2 = (Inl e, w')"
      using run n pu by (simp add: create_prepare_def sv)
    from create_container_fails [OF sv rel us k2(1) _ _ w(4) this] show ?thesis
      using w f k1 k2 by simp
  qed
qed

lemma create_claim_fails:
  assumes sv: "sv_Runtime sv = rt" and rel: "db_reliable (sv_pl sv)" "remove_works rt ctrs inv"
    and w: "inv (w_rt w)" "db_wf (w_db w)"
    and run: "create_claim sv c p w = (Inl e, w')"
  shows "rows w' = rows w \<and> ctrs (w_rt w') = ctrs (w_rt w) \<and> inv (w_rt w')"
proof -
  obtain x w1 where cl: "st_CreateProxy (sv_pl sv) c p w = (x, w1)" by fastforce
  have rt1: "w_rt w1 = w_rt w" using st_CreateProxy_frame [OF cl] by (simp add: same_but_db_def)
  show ?thesis
  proof (cases x)
    case (Some e1)
    then have "w' = w1" using run cl by (simp add: create_claim_def)
    then show ?thesis using st_CreateProxy_Some [OF cl [unfolded Some]] rt1 w by simp
  next
    case None
    note c1 = st_CreateProxy_None [OF w(2) cl [unfolded None]]
    obtain y w2 where wc: "writeConfig sv p w1 = (y, w2)" by fastforce
    have f2: "w_db w2 = w_db w1" "w_rt w2 = w_rt w1"
      using writeConfig_frame [OF wc] by (simp_all add: same_but_fs_def)
    have undone: "(rows w1)(px_ID p := None) = rows w" using c1(2,3) by (simp add: fun_eq_iff)
    show ?thesis
    proof (cases y)
      case (Some e2)
      then have "w' = rollback sv c [UndoRow (px_ID p)] w2"
        using run cl wc None by (simp add: create_claim_def Let_def)
      then show ?thesis
        using undoes_row [OF rel(1), of c "px_ID p"] c1 f2 undone rt1 w(1) by (simp add: undoes_def)
    next
      case None
      then have run2: "create_prepare sv c ([UndoRow (px_ID p)] @ [UndoDir (configDir sv (px_ID p))]) p w2
          = (Inl e, w')"
        using run cl wc \<open>x = None\<close> by (simp add: create_claim_def Let_def)
      have "rows w2 (px_ID p) = Some (p\<lparr>px_CreatedAt := stored_time (w_clock w),
          px_UpdatedAt := stored_time (w_clock w)\<rparr>)"
        using c1(3) f2 by simp
      from create_prepare_fails [OF sv rel undoes_dir [OF undoes_row [OF rel(1)]] _ _ this _ run2]
      show ?thesis using c1(1) f2 rt1 w(1) undone by simp
    qed
  qed
qed

lemma Create_fails:
  assumes sv: "sv_Runtime sv = rt" and rel: "db_reliable (sv_pl sv)" "remove_works rt ctrs inv"
    and w: "inv (w_rt w)" "db_wf (w_db w)"
    and run: "Create sv c req w = (Inl e, w')"
  shows "rows w' = rows w \<and> ctrs (w_rt w') = ctrs (w_rt w) \<and> inv (w_rt w')"
proof (cases rule: Create_cases [OF run, case_names early claim])
  case (early e)
  with w show ?thesis by simp
next
  case (claim w4 sec tok t t' t1 t2)
  have "inv (w_rt w4)" "db_wf (w_db w4)" using w claim(2,3) by simp_all
  from create_claim_fails [OF sv rel this claim(1)] show ?thesis by (simp only: claim(2,3))
qed

end

section \<open>Nothing else is disturbed\<close>

text \<open>From \<open>w0\<close> to \<open>w\<close>: the other rows, the containers that existed and the files outside one
  proxy's directory are as they were, whatever failed in between.\<close>

definition undisturbed :: "'r service \<Rightarrow> ('r \<Rightarrow> string \<rightharpoonup> labels) \<Rightarrow> ('r \<Rightarrow> bool) \<Rightarrow> string \<Rightarrow>
    'r world \<Rightarrow> 'r world \<Rightarrow> bool" where
  "undisturbed sv ctrs good pid w0 w \<longleftrightarrow>
     good (w_rt w) \<and> db_wf (w_db w) \<and>
     (\<forall>k. k \<noteq> pid \<longrightarrow> rows w k = rows w0 k) \<and>
     (\<forall>j l. ctrs (w_rt w0) j = Some l \<longrightarrow> ctrs (w_rt w) j = Some l) \<and>
     (\<forall>q n. w_fs w0 q = Some n \<longrightarrow> \<not> below (configDir sv pid) q \<longrightarrow> w_fs w q = Some n)"

definition undo_allowed :: "'r service \<Rightarrow> ('r \<Rightarrow> string \<rightharpoonup> labels) \<Rightarrow> string \<Rightarrow> 'r world \<Rightarrow> undo \<Rightarrow> bool" where
  "undo_allowed sv ctrs pid w0 u =
     (case u of
        UndoRow k \<Rightarrow> k = pid
      | UndoDir d \<Rightarrow> d = configDir sv pid
      | UndoContainer i \<Rightarrow> ctrs (w_rt w0) i = None)"

lemma undisturbed_db:
  assumes "undisturbed sv ctrs good pid w0 w" "same_but_db w w'" "db_wf (w_db w')"
    "\<And>k. k \<noteq> pid \<Longrightarrow> rows w' k = rows w k"
  shows "undisturbed sv ctrs good pid w0 w'"
  using assms by (simp add: undisturbed_def same_but_db_def)

lemma undisturbed_rt:
  assumes "undisturbed sv ctrs good pid w0 w" "same_but_rt w w'" "good (w_rt w')"
    "\<And>j l. ctrs (w_rt w0) j = Some l \<Longrightarrow> ctrs (w_rt w) j = Some l \<Longrightarrow> ctrs (w_rt w') j = Some l"
  shows "undisturbed sv ctrs good pid w0 w'"
  using assms by (simp add: undisturbed_def same_but_rt_def)

lemma undisturbed_fs:
  assumes "undisturbed sv ctrs good pid w0 w" "same_but_fs w w'"
    "\<And>q n. w_fs w q = Some n \<Longrightarrow> \<not> below (configDir sv pid) q \<Longrightarrow> w_fs w' q = Some n"
  shows "undisturbed sv ctrs good pid w0 w'"
  using assms by (simp add: undisturbed_def same_but_fs_def)

lemma RemoveAll_outside:
  "os_RemoveAll pl d w = (e, w') \<Longrightarrow> \<not> below d q \<Longrightarrow> w_fs w' q = w_fs w q"
  by (auto simp: os_RemoveAll_def split: option.splits)

lemma configPath_below: "plain_name pid \<Longrightarrow> below (configDir sv pid) (configPath sv pid)"
  by (simp add: configPath_eq(1) below_def)

context container_runtime
begin

lemma run_undo_undisturbed:
  assumes sv: "sv_Runtime sv = rt" and u: "undo_allowed sv ctrs pid w0 u"
    and w: "undisturbed sv ctrs inv pid w0 w"
  shows "undisturbed sv ctrs inv pid w0 (run_undo sv c u w)"
proof (cases u)
  case (UndoRow k)
  obtain e w' where d: "st_DeleteProxy (sv_pl sv) (WithoutCancel c) pid w = (e, w')" by fastforce
  have "db_wf (w_db w)" using w by (simp add: undisturbed_def)
  then show ?thesis
    using undisturbed_db [OF w st_DeleteProxy_frame [OF d] wf_after(3) [OF _ d] others_after(3) [OF _ d]]
      u UndoRow d by (simp add: undo_allowed_def)
next
  case (UndoDir d)
  obtain e w' where r: "os_RemoveAll (sv_pl sv) (configDir sv pid) w = (e, w')" by fastforce
  then show ?thesis
    using undisturbed_fs [OF w fs_frames(8) [OF r]] RemoveAll_outside [OF r] u UndoDir
    by (simp add: undo_allowed_def)
next
  case (UndoContainer i)
  obtain e w' where r: "call_rt (\<lambda>b. rt_Remove rt b i) (sv_pl sv) (WithoutCancel c) w = (e, w')"
    by fastforce
  have i: "inv (w_rt w)" using w by (simp add: undisturbed_def)
  have none: "ctrs (w_rt w0) i = None" using u UndoContainer by (simp add: undo_allowed_def)
  have "undisturbed sv ctrs inv pid w0 w'"
  proof (rule undisturbed_rt [OF w call_rt_frame [OF r] call_remove(1) [OF i r]])
    fix j l assume j: "ctrs (w_rt w0) j = Some l" "ctrs (w_rt w) j = Some l"
    then have "j \<noteq> i" using none by auto
    then show "ctrs (w_rt w') j = Some l" using call_remove(2) [OF i r, of j] j(2) by simp
  qed
  then show ?thesis using r UndoContainer sv by simp
qed

lemma rollback_undisturbed:
  assumes sv: "sv_Runtime sv = rt" and us: "\<forall>u \<in> set us. undo_allowed sv ctrs pid w0 u"
    and w: "undisturbed sv ctrs inv pid w0 w"
  shows "undisturbed sv ctrs inv pid w0 (rollback sv c us w)"
  using us w
proof (induction us arbitrary: w rule: rev_induct)
  case Nil
  then show ?case by simp
next
  case (snoc u us)
  then show ?case using run_undo_undisturbed [OF sv, of pid w0 u w c] by simp
qed

lemma create_finish_undisturbed:
  assumes sv: "sv_Runtime sv = rt" and w: "undisturbed sv ctrs inv (px_ID p) w0 w"
    and run: "create_finish sv c p w = (r, w')"
  shows "undisturbed sv ctrs inv (px_ID p) w0 w'"
proof -
  obtain e w1 where wait: "waitHealthy sv c p w = (e, w1)" by fastforce
  have i: "inv (w_rt w)" using w by (simp add: undisturbed_def)
  note k = waitHealthy_keeps [OF sv i wait]
  have w1: "undisturbed sv ctrs inv (px_ID p) w0 w1"
    by (rule undisturbed_rt [OF w waitHealthy_frame [OF wait]]) (simp_all add: k)
  obtain x w2 where up: "st_UpdateProxy (sv_pl sv) (WithoutCancel c) (set_outcome e p) w1 = (x, w2)"
    by fastforce
  have "w' = w2" using run wait up by (auto simp: create_finish_def split: option.splits)
  moreover have "px_ID (set_outcome e p) = px_ID p" by (simp add: set_outcome_def split: option.split)
  moreover have "db_wf (w_db w1)" using w1 by (simp add: undisturbed_def)
  ultimately show ?thesis
    using undisturbed_db [OF w1 st_UpdateProxy_frame [OF up] wf_after(2) [OF _ up] others_after(2) [OF _ up]]
    by simp
qed

lemma create_container_undisturbed:
  assumes sv: "sv_Runtime sv = rt" and us: "\<forall>u \<in> set us. undo_allowed sv ctrs (px_ID p) w0 u"
    and w: "undisturbed sv ctrs inv (px_ID p) w0 w"
    and run: "create_container sv c us p w = (r, w')"
  shows "undisturbed sv ctrs inv (px_ID p) w0 w'"
proof -
  obtain x w1 where cr: "call_rt (\<lambda>b. rt_Create rt b (container_spec_of sv p)) (sv_pl sv) c w = (x, w1)"
    by fastforce
  have i: "inv (w_rt w)" using w by (simp add: undisturbed_def)
  show ?thesis
  proof (cases x)
    case (Inl e1)
    have "undisturbed sv ctrs inv (px_ID p) w0 w1"
      by (rule undisturbed_rt [OF w call_rt_frame [OF cr]])
        (simp_all add: call_create(2) [OF i cr [unfolded Inl]])
    then show ?thesis
      using rollback_undisturbed [OF sv us] run cr Inl by (auto simp: create_container_def sv)
  next
    case (Inr cid)
    note c1 = call_create(1) [OF i cr [unfolded Inr]]
    have w1: "undisturbed sv ctrs inv (px_ID p) w0 w1"
      by (rule undisturbed_rt [OF w call_rt_frame [OF cr]]) (use c1 in auto)
    obtain y w2 where st: "call_rt (\<lambda>b. rt_Start rt b cid) (sv_pl sv) c w1 = (y, w2)" by fastforce
    have k2: "inv (w_rt w2)" "ctrs (w_rt w2) = ctrs (w_rt w1)"
      using call_keeps(1) [OF _ st] c1 by blast+
    have w2: "undisturbed sv ctrs inv (px_ID p) w0 w2"
      by (rule undisturbed_rt [OF w1 call_rt_frame [OF st]]) (simp_all add: k2)
    have "ctrs (w_rt w0) cid = None"
      using c1 w by (cases "ctrs (w_rt w0) cid") (auto simp: undisturbed_def)
    then have us': "\<forall>u \<in> set (us @ [UndoContainer cid]). undo_allowed sv ctrs (px_ID p) w0 u"
      using us by (auto simp: undo_allowed_def)
    show ?thesis
    proof (cases y)
      case None
      then have "create_finish sv c (p\<lparr>px_ContainerID := cid\<rparr>) w2 = (r, w')"
        using run cr st Inr by (simp add: create_container_def sv Let_def)
      from create_finish_undisturbed [OF sv _ this] show ?thesis using w2 by simp
    next
      case (Some e)
      then have "w' = rollback sv c (us @ [UndoContainer cid]) w2"
        using run cr st Inr by (auto simp add: create_container_def sv Let_def)
      then show ?thesis using rollback_undisturbed [OF sv us' w2] by simp
    qed
  qed
qed

lemma create_prepare_undisturbed:
  assumes sv: "sv_Runtime sv = rt" and us: "\<forall>u \<in> set us. undo_allowed sv ctrs (px_ID p) w0 u"
    and w: "undisturbed sv ctrs inv (px_ID p) w0 w"
    and run: "create_prepare sv c us p w = (r, w')"
  shows "undisturbed sv ctrs inv (px_ID p) w0 w'"
proof -
  obtain x w1 where n: "call_rt (\<lambda>b. rt_EnsureNetwork rt b (cf_Network (sv_Cfg sv))
      (cf_NetworkSubnet (sv_Cfg sv))) (sv_pl sv) c w = (x, w1)" by fastforce
  obtain y w2 where pu: "call_rt (\<lambda>b. rt_Pull rt b (cf_TelemtImage (sv_Cfg sv))) (sv_pl sv) c w1 = (y, w2)"
    by fastforce
  have i: "inv (w_rt w)" using w by (simp add: undisturbed_def)
  note k1 = call_keeps(4) [OF i n]
  have w1: "undisturbed sv ctrs inv (px_ID p) w0 w1"
    by (rule undisturbed_rt [OF w call_rt_frame [OF n]]) (simp_all add: k1)
  note k2 = call_keeps(5) [OF _ pu]
  have w2: "undisturbed sv ctrs inv (px_ID p) w0 w2"
    by (rule undisturbed_rt [OF w1 call_rt_frame [OF pu]]) (use k1 k2 in simp_all)
  consider "w' = rollback sv c us w1" | "w' = rollback sv c us w2"
    | "create_container sv c us p w2 = (r, w')"
    using run n pu by (cases x; cases y) (auto simp: create_prepare_def sv)
  then show ?thesis
    by cases (use rollback_undisturbed [OF sv us w1] rollback_undisturbed [OF sv us w2]
        create_container_undisturbed [OF sv us w2] in simp_all)
qed

lemma create_claim_undisturbed:
  assumes sv: "sv_Runtime sv = rt" and w: "inv (w_rt w)" "db_wf (w_db w)"
    and id: "plain_name (px_ID p)" and run: "create_claim sv c p w = (r, w')"
  shows "undisturbed sv ctrs inv (px_ID p) w w'"
proof -
  obtain x w1 where cl: "st_CreateProxy (sv_pl sv) c p w = (x, w1)" by fastforce
  have w0: "undisturbed sv ctrs inv (px_ID p) w w" using w by (simp add: undisturbed_def)
  have w1: "undisturbed sv ctrs inv (px_ID p) w w1"
    by (rule undisturbed_db [OF w0 st_CreateProxy_frame [OF cl] wf_after(1) [OF w(2) cl]
          others_after(1) [OF w(2) cl]])
  obtain y w2 where wc: "writeConfig sv p w1 = (y, w2)" by fastforce
  have w2: "undisturbed sv ctrs inv (px_ID p) w w2"
    by (rule undisturbed_fs [OF w1 writeConfig_frame [OF wc]])
      (use writeConfig_effect(4) [OF wc id] configPath_below [OF id] in fastforce)
  let ?us = "[UndoRow (px_ID p)]" and ?us' = "[UndoRow (px_ID p), UndoDir (configDir sv (px_ID p))]"
  have us: "\<forall>u \<in> set ?us. undo_allowed sv ctrs (px_ID p) w u"
    "\<forall>u \<in> set ?us'. undo_allowed sv ctrs (px_ID p) w u"
    by (simp_all add: undo_allowed_def)
  consider "w' = w1" | "w' = rollback sv c ?us w2" | "create_prepare sv c ?us' p w2 = (r, w')"
    using run cl wc by (cases x; cases y) (auto simp: create_claim_def Let_def)
  then show ?thesis
    by cases (use w1 rollback_undisturbed [OF sv us(1) w2] create_prepare_undisturbed [OF sv us(2) w2]
        in simp_all)
qed

end

section \<open>What a successful creation leaves\<close>

lemma set_outcome_fields [simp]:
  "px_ID (set_outcome e p) = px_ID p" "px_Port (set_outcome e p) = px_Port p"
  "px_ContainerID (set_outcome e p) = px_ContainerID p" "px_Name (set_outcome e p) = px_Name p"
  "px_Secret (set_outcome e p) = px_Secret p" "px_APIToken (set_outcome e p) = px_APIToken p"
  "px_TLSDomain (set_outcome e p) = px_TLSDomain p" "px_AdTag (set_outcome e p) = px_AdTag p"
  "px_DataQuotaBytes (set_outcome e p) = px_DataQuotaBytes p"
  "px_ExpirationRFC3339 (set_outcome e p) = px_ExpirationRFC3339 p"
  "px_MaxTCPConns (set_outcome e p) = px_MaxTCPConns p"
  "px_MaxUniqueIPs (set_outcome e p) = px_MaxUniqueIPs p"
  by (simp_all add: set_outcome_def split: option.split)

lemma set_outcome_state:
  "px_State (set_outcome e p) = (if e = None then StateRunning else StateError)"
  by (simp add: set_outcome_def split: option.split)

definition managed_labels :: "string \<Rightarrow> labels" where
  "managed_labels pid = [(LabelManaged, ''true''), (LabelProxyID, pid)]"

lemma container_labels: "cs_Labels (container_spec_of sv p) = managed_labels (px_ID p)"
  by (simp add: container_spec_of_def managed_labels_def)

lemma config_spec_outcome [simp]:
  "config_spec sv (set_outcome e (p\<lparr>px_ContainerID := i\<rparr>)) = config_spec sv p"
  by (simp add: config_spec_def)

context container_runtime
begin

lemma create_container_ok:
  assumes sv: "sv_Runtime sv = rt"
    and w: "inv (w_rt w)" "db_wf (w_db w)" "rows w (px_ID p) = Some old" "px_Port old = px_Port p"
    and run: "create_container sv c us p w = (Inr q, w')"
  shows "\<exists>e i q'. q = set_outcome e (p\<lparr>px_ContainerID := i\<rparr>) \<and> i \<noteq> '''' \<and>
      ctrs (w_rt w) i = None \<and> ctrs (w_rt w') = (ctrs (w_rt w))(i \<mapsto> managed_labels (px_ID p)) \<and>
      same_proxy q q' \<and> rows w' = (rows w)(px_ID p \<mapsto> q') \<and> w_fs w' = w_fs w"
proof -
  obtain x w1 where cr: "call_rt (\<lambda>b. rt_Create rt b (container_spec_of sv p)) (sv_pl sv) c w = (x, w1)"
    by fastforce
  then obtain i where x: "x = Inr i" using run by (cases x) (auto simp: create_container_def sv)
  note c1 = call_create(1) [OF w(1) cr [unfolded x], unfolded container_labels]
  obtain y w2 where st: "call_rt (\<lambda>b. rt_Start rt b i) (sv_pl sv) c w1 = (y, w2)" by fastforce
  have k2: "inv (w_rt w2)" "ctrs (w_rt w2) = ctrs (w_rt w1)"
    using call_keeps(1) [OF _ st] c1 by blast+
  have f: "w_db w2 = w_db w" "w_fs w2 = w_fs w"
    using call_rt_frame [OF cr] call_rt_frame [OF st] by (simp_all add: same_but_rt_def)
  let ?p = "p\<lparr>px_ContainerID := i\<rparr>"
  have fin: "create_finish sv c ?p w2 = (Inr q, w')"
    using run cr st x by (cases y) (auto simp: create_container_def sv Let_def)
  have pre: "db_wf (w_db w2)" "rows w2 (px_ID ?p) = Some old" "px_Port old = px_Port ?p"
    using w f by simp_all
  obtain e w3 q' where e: "waitHealthy sv c ?p w2 = (e, w3)" "q = set_outcome e ?p" "w_rt w' = w_rt w3"
    "same_proxy q q'" "rows w' = (rows w2)(px_ID ?p \<mapsto> q')"
    using create_finish_effect(3) [OF fin pre refl] by blast
  have "w_fs w' = w_fs w2" by (rule create_finish_effect(2) [OF fin pre])
  moreover have "ctrs (w_rt w3) = ctrs (w_rt w2)" using waitHealthy_keeps [OF sv k2(1) e(1)] by blast
  moreover have "rows w2 = rows w" using f(1) by simp
  ultimately show ?thesis using e c1 k2 f(2) by simp metis
qed

lemma create_prepare_ok:
  assumes sv: "sv_Runtime sv = rt" and w: "inv (w_rt w)"
    and run: "create_prepare sv c us p w = (Inr q, w')"
  shows "\<exists>w2. create_container sv c us p w2 = (Inr q, w') \<and> inv (w_rt w2) \<and>
    ctrs (w_rt w2) = ctrs (w_rt w) \<and> w_db w2 = w_db w \<and> w_fs w2 = w_fs w"
proof -
  obtain x w1 where n: "call_rt (\<lambda>b. rt_EnsureNetwork rt b (cf_Network (sv_Cfg sv))
      (cf_NetworkSubnet (sv_Cfg sv))) (sv_pl sv) c w = (x, w1)" by fastforce
  obtain y w2 where pu: "call_rt (\<lambda>b. rt_Pull rt b (cf_TelemtImage (sv_Cfg sv))) (sv_pl sv) c w1 = (y, w2)"
    by fastforce
  have "create_container sv c us p w2 = (Inr q, w')"
    using run n pu by (cases x; cases y) (auto simp: create_prepare_def sv)
  moreover have k1: "inv (w_rt w1)" "ctrs (w_rt w1) = ctrs (w_rt w)" using call_keeps(4) [OF w n] by blast+
  moreover have "inv (w_rt w2)" "ctrs (w_rt w2) = ctrs (w_rt w1)"
    using call_keeps(5) [OF k1(1) pu] by blast+
  moreover have "w_db w2 = w_db w" "w_fs w2 = w_fs w"
    using call_rt_frame [OF n] call_rt_frame [OF pu] by (simp_all add: same_but_rt_def)
  ultimately show ?thesis by auto
qed

lemma create_claim_ok:
  assumes sv: "sv_Runtime sv = rt" and w: "inv (w_rt w)" "db_wf (w_db w)"
    and id: "plain_name (px_ID p)" and run: "create_claim sv c p w = (Inr q, w')"
  shows "rows w (px_ID p) = None"
    "\<exists>e i q'. q = set_outcome e (p\<lparr>px_ContainerID := i\<rparr>) \<and> i \<noteq> '''' \<and>
      ctrs (w_rt w) i = None \<and> ctrs (w_rt w') = (ctrs (w_rt w))(i \<mapsto> managed_labels (px_ID p)) \<and>
      same_proxy q q' \<and> rows w' = (rows w)(px_ID p \<mapsto> q')"
    "\<exists>body. Render (config_spec sv p) = Inr body \<and> w_fs w' (configPath sv (px_ID p)) = Some (File body)"
proof -
  obtain x w1 where cl: "st_CreateProxy (sv_pl sv) c p w = (x, w1)" by fastforce
  then have x: "x = None" using run by (cases x) (auto simp: create_claim_def)
  note c1 = st_CreateProxy_None [OF w(2) cl [unfolded x]]
  obtain y w2 where wc: "writeConfig sv p w1 = (y, w2)" by fastforce
  then have y: "y = None" using run cl x by (cases y) (auto simp: create_claim_def Let_def)
  obtain body where body: "Render (config_spec sv p) = Inr body"
    "w_fs w2 (configPath sv (px_ID p)) = Some (File body)"
    using writeConfig_effect(2) [OF wc id y] by blast
  have f2: "w_db w2 = w_db w1" "w_rt w2 = w_rt w"
    using writeConfig_frame [OF wc] st_CreateProxy_frame [OF cl]
    by (simp_all add: same_but_fs_def same_but_db_def)
  let ?us = "[UndoRow (px_ID p), UndoDir (configDir sv (px_ID p))]"
  have pr: "create_prepare sv c ?us p w2 = (Inr q, w')"
    using run cl wc x y by (simp add: create_claim_def Let_def)
  have i2: "inv (w_rt w2)" using w f2 by simp
  obtain w3 where w3: "create_container sv c ?us p w3 = (Inr q, w')" "inv (w_rt w3)"
    "ctrs (w_rt w3) = ctrs (w_rt w2)" "w_db w3 = w_db w2" "w_fs w3 = w_fs w2"
    using create_prepare_ok [OF sv i2 pr] by blast
  have r3: "rows w3 = (rows w)(px_ID p \<mapsto>
       p\<lparr>px_CreatedAt := stored_time (w_clock w), px_UpdatedAt := stored_time (w_clock w)\<rparr>)"
    using c1(3) w3(4) f2(1) by simp
  have "db_wf (w_db w3)" using c1(1) w3(4) f2(1) by simp
  from create_container_ok [OF sv w3(2) this _ _ w3(1)] r3
  obtain e i q' where q: "q = set_outcome e (p\<lparr>px_ContainerID := i\<rparr>)" "i \<noteq> ''''"
    "ctrs (w_rt w3) i = None" "ctrs (w_rt w') = (ctrs (w_rt w3))(i \<mapsto> managed_labels (px_ID p))"
    "same_proxy q q'" "rows w' = (rows w3)(px_ID p \<mapsto> q')" "w_fs w' = w_fs w3"
    by auto
  show "rows w (px_ID p) = None" by (rule c1(2))
  show "\<exists>e i q'. q = set_outcome e (p\<lparr>px_ContainerID := i\<rparr>) \<and> i \<noteq> '''' \<and>
      ctrs (w_rt w) i = None \<and> ctrs (w_rt w') = (ctrs (w_rt w))(i \<mapsto> managed_labels (px_ID p)) \<and>
      same_proxy q q' \<and> rows w' = (rows w)(px_ID p \<mapsto> q')"
    using q r3 w3(3) f2(2) by (intro exI [of _ e] exI [of _ i] exI [of _ q']) simp
  show "\<exists>body. Render (config_spec sv p) = Inr body \<and> w_fs w' (configPath sv (px_ID p)) = Some (File body)"
    using body q(7) w3(5) by simp
qed

end

end
