(* ===== verification/Lifecycle.thy ===== *)
theory Lifecycle imports Saga begin

text \<open>
  \<open>internal/proxy/lifecycle.go\<close>: operations on an existing proxy: lookup and listing, the
  control-API client, deletion, changing limits with a live patch, recreation on another port or
  domain, and logs. (Orphans and reconciliation are in \<open>Reconcile\<close>.)
\<close>

section \<open>Lookup\<close>

definition Get :: "'r service \<Rightarrow> ctx \<Rightarrow> string \<Rightarrow> 'r world \<Rightarrow> proxy res \<times> 'r world" where
  "Get sv c pid w = st_GetProxy (sv_pl sv) c pid w"

definition List :: "'r service \<Rightarrow> ctx \<Rightarrow> 'r world \<Rightarrow> proxy list res \<times> 'r world" where
  "List sv c w = st_ListProxies (sv_pl sv) c w"

definition ClientFor :: "'r service \<Rightarrow> ctx \<Rightarrow> proxy \<Rightarrow> 'r world \<Rightarrow> telemt_client res \<times> 'r world" where
  "ClientFor sv c p w =
     (if px_ContainerID p = '''' then
        (Inl (errorf (''proxy '' @ px_ID p @ '' has no container'')), w)
      else
        (let (r, w) = call_rt (\<lambda>b. rt_Inspect (sv_Runtime sv) b (px_ContainerID p)) (sv_pl sv) c w in
         case r of
           Inl e \<Rightarrow> (Inl e, w)
         | Inr info \<Rightarrow>
             if ci_IPAddress info = '''' then
               (Inl (errorf (''proxy '' @ px_ID p @ '' has no address on '' @ cf_Network (sv_Cfg sv))), w)
             else (Inr (sv_NewClient sv p (ci_IPAddress info)), w)))"

definition DockerOK :: "'r service \<Rightarrow> ctx \<Rightarrow> 'r world \<Rightarrow> bool \<times> 'r world" where
  "DockerOK sv c w =
     (let (e, w) = call_rt (\<lambda>b. rt_Ping (sv_Runtime sv) b) (sv_pl sv) c w in (e = None, w))"

definition Logs :: "'r service \<Rightarrow> ctx \<Rightarrow> string \<Rightarrow> 'r world \<Rightarrow> string res \<times> 'r world" where
  "Logs sv c pid w =
     (let (r, w) = st_GetProxy (sv_pl sv) c pid w in
      case r of
        Inl e \<Rightarrow> (Inl e, w)
      | Inr p \<Rightarrow>
          if px_ContainerID p = '''' then (Inl (errorf (''proxy '' @ pid @ '' has no container'')), w)
          else call_rt (\<lambda>b. rt_Logs (sv_Runtime sv) b (px_ContainerID p) 200) (sv_pl sv) c w)"

section \<open>Deletion\<close>

text \<open>An error of \<open>Runtime.Remove\<close> that does not stop the caller: the container is already gone.\<close>

definition removal_failed :: "gerror option \<Rightarrow> bool" where
  "removal_failed e = (case e of None \<Rightarrow> False | Some e \<Rightarrow> \<not> errors_Is e ErrNoSuchContainer)"

definition Delete :: "'r service \<Rightarrow> ctx \<Rightarrow> string \<Rightarrow> 'r world \<Rightarrow> gerror option \<times> 'r world" where
  "Delete sv c pid w =
     (let (r, w) = st_GetProxy (sv_pl sv) c pid w in
      case r of
        Inl e \<Rightarrow> (Some e, w)
      | Inr p \<Rightarrow>
          (let (e, w) = (if px_ContainerID p \<noteq> ''''
                 then call_rt (\<lambda>b. rt_Remove (sv_Runtime sv) b (px_ContainerID p)) (sv_pl sv) c w
                 else (None, w))
           in if removal_failed e then (e, w)
              else
                (let (e, w) = os_RemoveAll (sv_pl sv) (configDir sv pid) w in
                 case e of
                   Some e \<Rightarrow> (Some (errorf_wrap ''proxy: remove config dir: '' e), w)
                 | None \<Rightarrow> st_DeleteProxy (sv_pl sv) (WithoutCancel c) pid w)))"

section \<open>Limits\<close>

text \<open>A pointer is an option: \<open>Some None\<close> is the pointer to a nil pointer, which clears a limit.\<close>

record limits_patch =
  lp_AdTag :: "string option"
  lp_DataQuotaBytes :: "64 word option option"
  lp_ExpirationRFC3339 :: "string option option"
  lp_MaxTCPConns :: "int option option"
  lp_MaxUniqueIPs :: "int option option"

definition apply_patch :: "limits_patch \<Rightarrow> proxy \<Rightarrow> proxy" where
  "apply_patch lp p =
     (let p = (case lp_AdTag lp of None \<Rightarrow> p | Some v \<Rightarrow> p\<lparr>px_AdTag := v\<rparr>);
          p = (case lp_DataQuotaBytes lp of None \<Rightarrow> p | Some v \<Rightarrow> p\<lparr>px_DataQuotaBytes := v\<rparr>);
          p = (case lp_ExpirationRFC3339 lp of None \<Rightarrow> p | Some v \<Rightarrow> p\<lparr>px_ExpirationRFC3339 := v\<rparr>);
          p = (case lp_MaxTCPConns lp of None \<Rightarrow> p | Some v \<Rightarrow> p\<lparr>px_MaxTCPConns := v\<rparr>)
      in (case lp_MaxUniqueIPs lp of None \<Rightarrow> p | Some v \<Rightarrow> p\<lparr>px_MaxUniqueIPs := v\<rparr>))"

definition apiPatch :: "limits_patch \<Rightarrow> patch_user" where
  "apiPatch lp =
     empty_patch
       \<lparr>pu_UserAdTag := (case lp_AdTag lp of None \<Rightarrow> Unset
          | Some t \<Rightarrow> if t = '''' then Null else Value t),
        pu_DataQuotaBytes := (case lp_DataQuotaBytes lp of None \<Rightarrow> Unset | Some v \<Rightarrow> From v),
        pu_ExpirationRFC3339 := (case lp_ExpirationRFC3339 lp of None \<Rightarrow> Unset | Some v \<Rightarrow> From v),
        pu_MaxTCPConns := (case lp_MaxTCPConns lp of None \<Rightarrow> Unset | Some v \<Rightarrow> From v),
        pu_MaxUniqueIPs := (case lp_MaxUniqueIPs lp of None \<Rightarrow> Unset | Some v \<Rightarrow> From v)\<rparr>"

text \<open>The live patch, recorded in the ghost \<open>w_sent\<close>.\<close>

definition send_patch :: "'r service \<Rightarrow> ctx \<Rightarrow> telemt_client \<Rightarrow> string \<Rightarrow> patch_user \<Rightarrow> 'r world \<Rightarrow>
    user_info res \<times> 'r world" where
  "send_patch sv c tc pid pu w =
     (let (r, w) = call_api (\<lambda>b n. tc_PatchUser tc b n Username pu) (sv_pl sv) c w
      in (r, w\<lparr>w_sent := w_sent w @ [(pid, Username, pu)]\<rparr>))"

definition live_apply :: "'r service \<Rightarrow> ctx \<Rightarrow> proxy \<Rightarrow> limits_patch \<Rightarrow> 'r world \<Rightarrow> string \<times> 'r world" where
  "live_apply sv c p lp w =
     (let p = p\<lparr>px_StateMessage := ''''\<rparr>;
          (r, w) = ClientFor sv c p w in
      case r of
        Inl e \<Rightarrow> (''limits saved; live apply failed: '' @ err_text e, w)
      | Inr tc \<Rightarrow>
          (let (r, w) = send_patch sv c tc (px_ID p) (apiPatch lp) w in
           case r of
             Inl e \<Rightarrow> (''limits saved; live apply failed: '' @ err_text e, w)
           | Inr _ \<Rightarrow> ('''', w)))"

definition UpdateLimits :: "'r service \<Rightarrow> ctx \<Rightarrow> string \<Rightarrow> limits_patch \<Rightarrow> 'r world \<Rightarrow> proxy res \<times> 'r world" where
  "UpdateLimits sv c pid lp w =
     (let (r, w) = st_GetProxy (sv_pl sv) c pid w in
      case r of
        Inl e \<Rightarrow> (Inl e, w)
      | Inr p \<Rightarrow>
          (let p = apply_patch lp p;
               (e, w) = writeConfig sv p w
           in case e of
                Some e \<Rightarrow> (Inl e, w)
              | None \<Rightarrow>
                  (let (msg, w) = live_apply sv c p lp w;
                       p = p\<lparr>px_StateMessage := msg\<rparr>;
                       (e, w) = st_UpdateProxy (sv_pl sv) (WithoutCancel c) p w
                   in case e of Some e \<Rightarrow> (Inl e, w) | None \<Rightarrow> (Inr p, w))))"

section \<open>Recreation\<close>

definition record_error :: "'r service \<Rightarrow> ctx \<Rightarrow> proxy \<Rightarrow> gerror \<Rightarrow> 'r world \<Rightarrow> 'r world" where
  "record_error sv c p e w =
     snd (st_UpdateProxy (sv_pl sv) (WithoutCancel c)
       (p\<lparr>px_State := StateError, px_StateMessage := err_text e\<rparr>) w)"

definition startContainer :: "'r service \<Rightarrow> ctx \<Rightarrow> proxy \<Rightarrow> 'r world \<Rightarrow> proxy res \<times> 'r world" where
  "startContainer sv c p w =
     (let (r, w) = call_rt (\<lambda>b. rt_Create (sv_Runtime sv) b (container_spec_of sv p)) (sv_pl sv) c w in
      case r of
        Inl e \<Rightarrow> (Inl e, record_error sv c p e w)
      | Inr i \<Rightarrow>
          (let p = p\<lparr>px_ContainerID := i\<rparr>;
               (e, w) = call_rt (\<lambda>b. rt_Start (sv_Runtime sv) b i) (sv_pl sv) c w
           in case e of
                Some e \<Rightarrow>
                  (let e = the (wrapPortConflict (px_Port p) (Some e))
                   in (Inl e, record_error sv c p e w))
              | None \<Rightarrow>
                  (let (e, w) = waitHealthy sv c p w;
                       p = set_outcome e p;
                       (e, w) = st_UpdateProxy (sv_pl sv) (WithoutCancel c) p w
                   in case e of Some e \<Rightarrow> (Inl e, w) | None \<Rightarrow> (Inr p, w))))"

text \<open>The destructive half: the old container goes, the new port and domain are committed, the
  configuration is written, and a new container is started.\<close>

definition recreate_container :: "'r service \<Rightarrow> ctx \<Rightarrow> proxy \<Rightarrow> int \<Rightarrow> string \<Rightarrow> 'r world \<Rightarrow> proxy res \<times> 'r world" where
  "recreate_container sv c p port tlsDomain w =
     (let old = px_ContainerID p;
          (e, w) = (if old \<noteq> ''''
             then call_rt (\<lambda>b. rt_Remove (sv_Runtime sv) b old) (sv_pl sv) c w else (None, w))
      in if removal_failed e then (Inl (the e), w)
         else
           (let p = p\<lparr>px_Port := port, px_TLSDomain := tlsDomain, px_ContainerID := ''''\<rparr>;
                (e, w) = st_UpdateProxy (sv_pl sv) (WithoutCancel c) p w
            in case e of
                 Some e \<Rightarrow> (Inl e, w)
               | None \<Rightarrow>
                   (let (e, w) = writeConfig sv p w
                    in case e of Some e \<Rightarrow> (Inl e, w) | None \<Rightarrow> startContainer sv c p w)))"

definition Recreate :: "'r service \<Rightarrow> ctx \<Rightarrow> string \<Rightarrow> int \<Rightarrow> string \<Rightarrow> 'r world \<Rightarrow> proxy res \<times> 'r world" where
  "Recreate sv c pid port tlsDomain w =
     (let (r, w) = st_GetProxy (sv_pl sv) c pid w in
      case r of
        Inl e \<Rightarrow> (Inl e, w)
      | Inr p \<Rightarrow>
          (let (e, w) = (if port \<noteq> px_Port p
                 then os_CheckPort (sv_pl sv) port (cf_ReservedPorts (sv_Cfg sv)) w else (None, w))
           in case e of
                Some e \<Rightarrow> (Inl e, w)
              | None \<Rightarrow>
                  if tlsDomain = '''' then (Inl (errorf ''proxy: fake domain is required''), w)
                  else
                    (let p = p\<lparr>px_State := StateRecreating\<rparr>;
                         (e, w) = st_UpdateProxy (sv_pl sv) c p w
                     in case e of
                          Some e \<Rightarrow> (Inl e, w)
                        | None \<Rightarrow> recreate_container sv c p port tlsDomain w)))"

section \<open>The patch on the wire\<close>

text \<open>telemt's record of the user, as far as the panel patches it: an absent member is no override.\<close>

definition limits_doc :: "proxy \<Rightarrow> string \<rightharpoonup> json" where
  "limits_doc p = (\<lambda>k.
     if k = ''user_ad_tag'' then (if px_AdTag p = '''' then None else Some (JStr (px_AdTag p)))
     else if k = ''data_quota_bytes'' then map_option (\<lambda>q. JNum (uint q)) (px_DataQuotaBytes p)
     else if k = ''expiration_rfc3339'' then map_option JStr (px_ExpirationRFC3339 p)
     else if k = ''max_tcp_conns'' then map_option JNum (px_MaxTCPConns p)
     else if k = ''max_unique_ips'' then map_option JNum (px_MaxUniqueIPs p)
     else None)"

lemma apply_patch_fields:
  "px_AdTag (apply_patch lp p) = (case lp_AdTag lp of None \<Rightarrow> px_AdTag p | Some v \<Rightarrow> v)"
  "px_DataQuotaBytes (apply_patch lp p) =
     (case lp_DataQuotaBytes lp of None \<Rightarrow> px_DataQuotaBytes p | Some v \<Rightarrow> v)"
  "px_ExpirationRFC3339 (apply_patch lp p) =
     (case lp_ExpirationRFC3339 lp of None \<Rightarrow> px_ExpirationRFC3339 p | Some v \<Rightarrow> v)"
  "px_MaxTCPConns (apply_patch lp p) = (case lp_MaxTCPConns lp of None \<Rightarrow> px_MaxTCPConns p | Some v \<Rightarrow> v)"
  "px_MaxUniqueIPs (apply_patch lp p) = (case lp_MaxUniqueIPs lp of None \<Rightarrow> px_MaxUniqueIPs p | Some v \<Rightarrow> v)"
  by (simp_all add: apply_patch_def Let_def split: option.split)

lemma apply_patch_keeps [simp]:
  "px_ID (apply_patch lp p) = px_ID p" "px_Port (apply_patch lp p) = px_Port p"
  "px_Name (apply_patch lp p) = px_Name p" "px_Secret (apply_patch lp p) = px_Secret p"
  "px_APIToken (apply_patch lp p) = px_APIToken p" "px_TLSDomain (apply_patch lp p) = px_TLSDomain p"
  "px_ContainerID (apply_patch lp p) = px_ContainerID p" "px_State (apply_patch lp p) = px_State p"
  by (simp_all add: apply_patch_def Let_def split: option.split)

lemma apiPatch_fields:
  "pu_UserAdTag (apiPatch lp) = (case lp_AdTag lp of None \<Rightarrow> Unset
     | Some t \<Rightarrow> if t = '''' then Null else Value t)"
  "pu_DataQuotaBytes (apiPatch lp) = (case lp_DataQuotaBytes lp of None \<Rightarrow> Unset | Some v \<Rightarrow> From v)"
  "pu_ExpirationRFC3339 (apiPatch lp) = (case lp_ExpirationRFC3339 lp of None \<Rightarrow> Unset | Some v \<Rightarrow> From v)"
  "pu_MaxTCPConns (apiPatch lp) = (case lp_MaxTCPConns lp of None \<Rightarrow> Unset | Some v \<Rightarrow> From v)"
  "pu_MaxUniqueIPs (apiPatch lp) = (case lp_MaxUniqueIPs lp of None \<Rightarrow> Unset | Some v \<Rightarrow> From v)"
  "pu_Enabled (apiPatch lp) = Unset"
  by (simp_all add: apiPatch_def empty_patch_def)

lemma merge_field_at:
  assumes "\<And>v. f v \<noteq> JNull"
  shows "merge_patch (patch_field k f x) m j =
    (if j = k \<and> o_set x then map_option f (o_val x) else m j)"
  using assms by (simp add: merge_patch_field split: option.split)

lemma merge_members_at:
  "merge_patch (patch_members pu) m j =
     (if j = ''user_ad_tag'' \<and> o_set (pu_UserAdTag pu) then map_option JStr (o_val (pu_UserAdTag pu))
      else if j = ''max_unique_ips'' \<and> o_set (pu_MaxUniqueIPs pu) then map_option JNum (o_val (pu_MaxUniqueIPs pu))
      else if j = ''max_tcp_conns'' \<and> o_set (pu_MaxTCPConns pu) then map_option JNum (o_val (pu_MaxTCPConns pu))
      else if j = ''expiration_rfc3339'' \<and> o_set (pu_ExpirationRFC3339 pu)
        then map_option JStr (o_val (pu_ExpirationRFC3339 pu))
      else if j = ''enabled'' \<and> o_set (pu_Enabled pu) then map_option JBool (o_val (pu_Enabled pu))
      else if j = ''data_quota_bytes'' \<and> o_set (pu_DataQuotaBytes pu)
        then map_option (\<lambda>w. JNum (uint w)) (o_val (pu_DataQuotaBytes pu))
      else m j)"
  unfolding patch_members_def merge_patch_append
  by (simp only: merge_field_at json.distinct not_False_eq_True)

lemma limits_doc_at:
  "limits_doc p ''user_ad_tag'' = (if px_AdTag p = '''' then None else Some (JStr (px_AdTag p)))"
  "limits_doc p ''data_quota_bytes'' = map_option (\<lambda>q. JNum (uint q)) (px_DataQuotaBytes p)"
  "limits_doc p ''expiration_rfc3339'' = map_option JStr (px_ExpirationRFC3339 p)"
  "limits_doc p ''max_tcp_conns'' = map_option JNum (px_MaxTCPConns p)"
  "limits_doc p ''max_unique_ips'' = map_option JNum (px_MaxUniqueIPs p)"
  by (simp_all add: limits_doc_def)

lemma five_cases:
  "(j = a \<Longrightarrow> P) \<Longrightarrow> (j = b \<Longrightarrow> P) \<Longrightarrow> (j = c \<Longrightarrow> P) \<Longrightarrow> (j = d \<Longrightarrow> P) \<Longrightarrow> (j = e \<Longrightarrow> P) \<Longrightarrow>
     (j \<notin> {a, b, c, d, e} \<Longrightarrow> P) \<Longrightarrow> P"
  by blast

lemma merge_apiPatch:
  "merge_patch (patch_members (apiPatch lp)) (limits_doc p) = limits_doc (apply_patch lp p)"
proof
  fix j
  note facts = merge_members_at limits_doc_at apiPatch_fields apply_patch_fields opt_defs
  show "merge_patch (patch_members (apiPatch lp)) (limits_doc p) j = limits_doc (apply_patch lp p) j"
  proof (rule five_cases [of j "''user_ad_tag''" _ "''data_quota_bytes''" "''expiration_rfc3339''"
        "''max_tcp_conns''" "''max_unique_ips''"], goal_cases)
    case 1
    show ?case unfolding 1 by (simp add: facts split: option.split)
  next
    case 2
    show ?case unfolding 2 by (simp add: facts split: option.split)
  next
    case 3
    show ?case unfolding 3 by (simp add: facts split: option.split)
  next
    case 4
    show ?case unfolding 4 by (simp add: facts split: option.split)
  next
    case 5
    show ?case unfolding 5 by (simp add: facts split: option.split)
  next
    case 6
    then show ?case by (simp add: merge_members_at apiPatch_fields opt_defs limits_doc_def)
  qed
qed

section \<open>Deletion\<close>

lemma st_GetProxy_same: "st_GetProxy pl c pid w = (r, w') \<Longrightarrow>
    w_db w' = w_db w \<and> w_fs w' = w_fs w \<and> w_rt w' = w_rt w \<and> w_hist w' = w_hist w \<and> w_sent w' = w_sent w"
  by (drule st_GetProxy_frame) (simp add: same_but_db_def)

lemma RemoveAll_None:
  "os_RemoveAll pl d w = (None, w') \<Longrightarrow> w_fs w' = (\<lambda>q. if below d q then None else w_fs w q)"
  by (auto simp: os_RemoveAll_def split: option.splits)

text \<open>The optional removal of the recorded container.\<close>

definition remove_recorded :: "'r service \<Rightarrow> ctx \<Rightarrow> string \<Rightarrow> 'r world \<Rightarrow> gerror option \<times> 'r world" where
  "remove_recorded sv c i w =
     (if i \<noteq> '''' then call_rt (\<lambda>b. rt_Remove (sv_Runtime sv) b i) (sv_pl sv) c w else (None, w))"

lemma remove_recorded_frame: "remove_recorded sv c i w = (e, w') \<Longrightarrow> same_but_rt w w'"
  by (auto simp: remove_recorded_def split: if_splits dest: call_rt_frame)

lemma Delete_None:
  assumes "Delete sv c pid w = (None, w')"
  obtains p w1 e w2 w3 where "st_GetProxy (sv_pl sv) c pid w = (Inr p, w1)"
    "remove_recorded sv c (px_ContainerID p) w1 = (e, w2)" "\<not> removal_failed e"
    "os_RemoveAll (sv_pl sv) (configDir sv pid) w2 = (None, w3)"
    "st_DeleteProxy (sv_pl sv) (WithoutCancel c) pid w3 = (None, w')"
  using assms unfolding Delete_def remove_recorded_def [symmetric]
  by (auto simp: removal_failed_def split: prod.splits sum.splits if_splits option.splits)

lemma Delete_Some:
  assumes run: "Delete sv c pid w = (Some e, w')"
  shows "w_db w' = w_db w"
proof -
  obtain r w1 where g: "st_GetProxy (sv_pl sv) c pid w = (r, w1)" by fastforce
  note s1 = st_GetProxy_same [OF g]
  show ?thesis
  proof (cases r)
    case (Inl err)
    then show ?thesis using run g s1 by (simp add: Delete_def)
  next
    case (Inr p)
    obtain x w2 where rm: "remove_recorded sv c (px_ContainerID p) w1 = (x, w2)" by fastforce
    obtain y w3 where ra: "os_RemoveAll (sv_pl sv) (configDir sv pid) w2 = (y, w3)" by fastforce
    have f: "w_db w2 = w_db w" "w_db w3 = w_db w"
      using remove_recorded_frame [OF rm] fs_frames(8) [OF ra] s1
      by (simp_all add: same_but_rt_def same_but_fs_def)
    consider "w' = w2" | "w' = w3" | "st_DeleteProxy (sv_pl sv) (WithoutCancel c) pid w3 = (Some e, w')"
      using run g Inr rm ra unfolding Delete_def remove_recorded_def [symmetric]
      by (auto split: if_splits option.splits)
    then show ?thesis
    proof cases
      case 3
      then show ?thesis using f st_DeleteProxy_Some by metis
    qed (simp_all add: f)
  qed
qed

context container_runtime
begin

lemma remove_recorded_gone:
  assumes sv: "sv_Runtime sv = rt" and w: "inv (w_rt w)"
    and run: "remove_recorded sv c i w = (e, w')" and ok: "\<not> removal_failed e"
  shows "inv (w_rt w') \<and> ctrs (w_rt w') = (if i = '''' then ctrs (w_rt w) else (ctrs (w_rt w))(i := None))"
proof (cases "i = ''''")
  case True
  with run w show ?thesis by (simp add: remove_recorded_def)
next
  case False
  then have r: "call_rt (\<lambda>b. rt_Remove rt b i) (sv_pl sv) c w = (e, w')"
    using run by (simp add: remove_recorded_def sv)
  have "e = None \<or> (\<exists>x. e = Some x \<and> errors_Is x ErrNoSuchContainer)"
    using ok by (auto simp: removal_failed_def split: option.splits)
  then show ?thesis using call_remove(1,3) [OF w r] False by simp
qed

lemma Delete_ok:
  assumes sv: "sv_Runtime sv = rt" and w: "inv (w_rt w)" "db_wf (w_db w)"
    and run: "Delete sv c pid w = (None, w')"
  shows "\<exists>p. rows w pid = Some p \<and> rows w' = (rows w)(pid := None) \<and>
    ctrs (w_rt w') = (if px_ContainerID p = '''' then ctrs (w_rt w)
       else (ctrs (w_rt w))(px_ContainerID p := None)) \<and>
    w_fs w' = (\<lambda>q. if below (configDir sv pid) q then None else w_fs w q) \<and>
    db_wf (w_db w') \<and> inv (w_rt w')"
proof -
  obtain p w1 e w2 w3 where s: "st_GetProxy (sv_pl sv) c pid w = (Inr p, w1)"
    "remove_recorded sv c (px_ContainerID p) w1 = (e, w2)" "\<not> removal_failed e"
    "os_RemoveAll (sv_pl sv) (configDir sv pid) w2 = (None, w3)"
    "st_DeleteProxy (sv_pl sv) (WithoutCancel c) pid w3 = (None, w')"
    using Delete_None [OF run] .
  note f1 = st_GetProxy_same [OF s(1)]
  have f2: "w_db w2 = w_db w1" "w_fs w2 = w_fs w1"
    using remove_recorded_frame [OF s(2)] by (simp_all add: same_but_rt_def)
  have f3: "w_db w3 = w_db w2" "w_rt w3 = w_rt w2"
    using fs_frames(8) [OF s(4)] by (simp_all add: same_but_fs_def)
  have f4: "w_fs w' = w_fs w3" "w_rt w' = w_rt w3"
    using st_DeleteProxy_frame [OF s(5)] by (simp_all add: same_but_db_def)
  have "inv (w_rt w1)" using w f1 by simp
  note gone = remove_recorded_gone [OF sv this s(2,3)]
  have "db_wf (w_db w3)" using w f1 f2 f3 by simp
  note del = st_DeleteProxy_None [OF this s(5)]
  show ?thesis
    using st_GetProxy_Inr [OF s(1)] f1 f2 f3 f4 gone del RemoveAll_None [OF s(4)] by auto
qed

end

section \<open>Limits\<close>

lemma ClientFor_frame: "ClientFor sv c p w = (r, w') \<Longrightarrow> same_but_rt w w'"
  by (auto simp: ClientFor_def split: prod.splits sum.splits if_splits dest: call_rt_frame)

lemma live_apply_effect:
  assumes "live_apply sv c p lp w = (msg, w')"
  shows "w_db w' = w_db w" "w_fs w' = w_fs w" "w_hist w' = w_hist w"
    "msg = '''' \<Longrightarrow> w_sent w' = w_sent w @ [(px_ID p, Username, apiPatch lp)]"
    "msg = '''' \<or> prefix ''limits saved; live apply failed: '' msg"
  using assms unfolding live_apply_def send_patch_def Let_def
  by (auto split: prod.splits sum.splits dest!: ClientFor_frame call_api_frame
      simp: same_but_rt_def)

lemma UpdateLimits_steps:
  assumes run: "UpdateLimits sv c pid lp w = (r, w')"
  obtains (early) e where "r = Inl e" "w_db w' = w_db w" "w_rt w' = w_rt w" "w_sent w' = w_sent w"
  | (update) p w1 w2 msg w3 e where "st_GetProxy (sv_pl sv) c pid w = (Inr p, w1)"
      "writeConfig sv (apply_patch lp p) w1 = (None, w2)"
      "live_apply sv c (apply_patch lp p) lp w2 = (msg, w3)"
      "st_UpdateProxy (sv_pl sv) (WithoutCancel c) ((apply_patch lp p)\<lparr>px_StateMessage := msg\<rparr>) w3 = (e, w')"
      "r = (case e of Some e \<Rightarrow> Inl e | None \<Rightarrow> Inr ((apply_patch lp p)\<lparr>px_StateMessage := msg\<rparr>))"
proof -
  obtain x w1 where g: "st_GetProxy (sv_pl sv) c pid w = (x, w1)" by fastforce
  note s1 = st_GetProxy_same [OF g]
  show thesis
  proof (cases x)
    case (Inl err)
    then show thesis using early [of err] run g s1 by (auto simp: UpdateLimits_def)
  next
    case (Inr p)
    obtain y w2 where wc: "writeConfig sv (apply_patch lp p) w1 = (y, w2)" by fastforce
    have f2: "w_db w2 = w_db w1" "w_rt w2 = w_rt w1" "w_sent w2 = w_sent w1"
      using writeConfig_frame [OF wc] by (simp_all add: same_but_fs_def)
    show thesis
    proof (cases y)
      case (Some err)
      then show thesis using early [of err] run g Inr wc s1 f2 by (auto simp: UpdateLimits_def Let_def)
    next
      case None
      then show thesis
        using update [OF g [unfolded Inr] wc [unfolded None]] run g Inr wc
        by (auto simp: UpdateLimits_def Let_def split: prod.splits option.splits)
    qed
  qed
qed

lemma UpdateLimits_Inl:
  assumes run: "UpdateLimits sv c pid lp w = (Inl e, w')"
  shows "w_db w' = w_db w"
proof (cases rule: UpdateLimits_steps [OF run, case_names early update])
  case (early e)
  then show ?thesis by simp
next
  case (update p w1 w2 msg w3 e')
  obtain x where x: "e' = Some x" using update(5) by (cases e') auto
  show ?thesis
    using st_UpdateProxy_Some [OF update(4) [unfolded x]] writeConfig_frame [OF update(2)]
      st_GetProxy_same [OF update(1)] live_apply_effect(1) [OF update(3)]
    by (simp add: same_but_fs_def)
qed

context container_runtime
begin

lemma ClientFor_keeps:
  assumes "sv_Runtime sv = rt" "inv (w_rt w)" "ClientFor sv c p w = (r, w')"
  shows "inv (w_rt w') \<and> ctrs (w_rt w') = ctrs (w_rt w)"
proof (cases "px_ContainerID p = ''''")
  case True
  with assms show ?thesis by (simp add: ClientFor_def)
next
  case False
  obtain x w1 where i: "call_rt (\<lambda>b. rt_Inspect rt b (px_ContainerID p)) (sv_pl sv) c w = (x, w1)"
    by fastforce
  then have "w' = w1"
    using assms(1,3) False by (auto simp: ClientFor_def split: sum.splits if_splits)
  then show ?thesis using call_keeps(7) [OF assms(2) i] by simp
qed

lemma live_apply_keeps:
  assumes "sv_Runtime sv = rt" "inv (w_rt w)" "live_apply sv c p lp w = (msg, w')"
  shows "inv (w_rt w') \<and> ctrs (w_rt w') = ctrs (w_rt w)"
proof -
  obtain x w1 where cf: "ClientFor sv c (p\<lparr>px_StateMessage := []\<rparr>) w = (x, w1)" by fastforce
  then have "w_rt w' = w_rt w1"
    using assms(3) by (auto simp: live_apply_def send_patch_def Let_def split: sum.splits prod.splits
        dest!: call_api_frame)
  then show ?thesis using ClientFor_keeps [OF assms(1,2) cf] by simp
qed

lemma UpdateLimits_ok:
  assumes sv: "sv_Runtime sv = rt" and w: "inv (w_rt w)" "db_wf (w_db w)" and id: "plain_name pid"
    and run: "UpdateLimits sv c pid lp w = (Inr q, w')"
  shows "\<exists>p msg. rows w pid = Some p \<and> q = (apply_patch lp p)\<lparr>px_StateMessage := msg\<rparr> \<and>
    (\<exists>q'. same_proxy q q' \<and> rows w' = (rows w)(pid \<mapsto> q')) \<and>
    (\<exists>body. Render (config_spec sv q) = Inr body \<and> w_fs w' (configPath sv pid) = Some (File body)) \<and>
    ctrs (w_rt w') = ctrs (w_rt w) \<and>
    (msg = '''' \<longrightarrow> w_sent w' = w_sent w @ [(pid, Username, apiPatch lp)])"
proof (cases rule: UpdateLimits_steps [OF run, case_names early update])
  case (early e)
  then show ?thesis by simp
next
  case (update p w1 w2 msg w3 e)
  have e: "e = None" and q: "q = (apply_patch lp p)\<lparr>px_StateMessage := msg\<rparr>"
    using update(5) by (auto split: option.splits)
  have p: "rows w pid = Some p" "px_ID p = pid" using st_GetProxy_Inr [OF update(1)] by auto
  note f1 = st_GetProxy_same [OF update(1)]
  have f2: "w_db w2 = w_db w1" "w_rt w2 = w_rt w1" "w_sent w2 = w_sent w1"
    using writeConfig_frame [OF update(2)] by (simp_all add: same_but_fs_def)
  note f3 = live_apply_effect [OF update(3)]
  have f4: "w_fs w' = w_fs w3" "w_rt w' = w_rt w3" "w_sent w' = w_sent w3"
    using st_UpdateProxy_frame [OF update(4)] by (simp_all add: same_but_db_def)
  have id': "plain_name (px_ID (apply_patch lp p))" using id p by simp
  have "config_spec sv q = config_spec sv (apply_patch lp p)" by (simp add: q config_spec_def)
  then have cfg: "\<exists>body. Render (config_spec sv q) = Inr body \<and> w_fs w' (configPath sv pid) = Some (File body)"
    using writeConfig_effect(2) [OF update(2) id' refl] f3 f4 p by simp
  have i2: "inv (w_rt w2)" using w f1 f2 by simp
  note k = live_apply_keeps [OF sv i2 update(3)]
  have wf3: "db_wf (w_db w3)" using w f1 f2 f3 by simp
  obtain old :: proxy where "rows w' = (rows w3)(px_ID q \<mapsto>
      q\<lparr>px_CreatedAt := px_CreatedAt old, px_UpdatedAt := stored_time (w_clock w3)\<rparr>)"
    by (rule st_UpdateProxy_None [OF wf3 update(4) [unfolded e], folded q])
  moreover have "px_ID q = pid" using p by (simp add: q)
  moreover have "rows w3 = rows w" using f1 f2 f3 by simp
  ultimately have "\<exists>q'. same_proxy q q' \<and> rows w' = (rows w)(pid \<mapsto> q')"
    using same_proxy_stamp by metis
  then show ?thesis
    using p q cfg k f1 f2 f3 f4 by auto
qed

end

section \<open>Starting a container for an existing row\<close>

lemma startContainer_eq:
  "startContainer sv c p w =
     (let (r, w) = call_rt (\<lambda>b. rt_Create (sv_Runtime sv) b (container_spec_of sv p)) (sv_pl sv) c w in
      case r of
        Inl e \<Rightarrow> (Inl e, record_error sv c p e w)
      | Inr i \<Rightarrow>
          (let p = p\<lparr>px_ContainerID := i\<rparr>;
               (e, w) = call_rt (\<lambda>b. rt_Start (sv_Runtime sv) b i) (sv_pl sv) c w
           in case e of
                Some e \<Rightarrow>
                  (let e = the (wrapPortConflict (px_Port p) (Some e))
                   in (Inl e, record_error sv c p e w))
              | None \<Rightarrow> create_finish sv c p w))"
  unfolding startContainer_def create_finish_def ..

text \<open>Recording an error on an existing row whose port does not change.\<close>

lemma record_error_effect:
  assumes wf: "db_wf (w_db w)" and row: "rows w (px_ID p) = Some old" "px_Port old = px_Port p"
  shows "same_but_db w (record_error sv c p e w)" "db_wf (w_db (record_error sv c p e w))"
    "k \<noteq> px_ID p \<Longrightarrow> rows (record_error sv c p e w) k = rows w k"
    "db_reliable (sv_pl sv) \<Longrightarrow> \<exists>q'. rows (record_error sv c p e w) (px_ID p) = Some q' \<and>
       same_proxy (p\<lparr>px_State := StateError, px_StateMessage := err_text e\<rparr>) q'"
proof -
  let ?p = "p\<lparr>px_State := StateError, px_StateMessage := err_text e\<rparr>"
  obtain x w' where up: "st_UpdateProxy (sv_pl sv) (WithoutCancel c) ?p w = (x, w')" by fastforce
  have w': "record_error sv c p e w = w'" using up by (simp add: record_error_def)
  show "same_but_db w (record_error sv c p e w)" using st_UpdateProxy_frame [OF up] by (simp add: w')
  show "db_wf (w_db (record_error sv c p e w))" using wf_after(2) [OF wf up] by (simp add: w')
  show "k \<noteq> px_ID p \<Longrightarrow> rows (record_error sv c p e w) k = rows w k"
    using others_after(2) [OF wf up] by (simp add: w')
  assume "db_reliable (sv_pl sv)"
  then have x: "x = None"
    using st_UpdateProxy_works [of "sv_pl sv" "WithoutCancel c" w ?p old] up wf row by simp
  obtain old' :: proxy where "rows w' = (rows w)(px_ID ?p \<mapsto>
      ?p\<lparr>px_CreatedAt := px_CreatedAt old', px_UpdatedAt := stored_time (w_clock w)\<rparr>)"
    by (rule st_UpdateProxy_None [OF wf up [unfolded x]])
  then show "\<exists>q'. rows (record_error sv c p e w) (px_ID p) = Some q' \<and> same_proxy ?p q'"
    unfolding w' by (simp add: same_proxy_stamp)
qed

context container_runtime
begin

lemma startContainer_steps:
  assumes sv: "sv_Runtime sv = rt" and w: "inv (w_rt w)"
    and run: "startContainer sv c p w = (r, w')"
  obtains (refused) e w1 where "r = Inl e" "w' = record_error sv c p e w1" "same_but_rt w w1"
      "inv (w_rt w1)" "ctrs (w_rt w1) = ctrs (w_rt w)"
  | (dead) e i w1 where "r = Inl e" "w' = record_error sv c (p\<lparr>px_ContainerID := i\<rparr>) e w1"
      "same_but_rt w w1" "inv (w_rt w1)" "ctrs (w_rt w) i = None"
      "ctrs (w_rt w1) = (ctrs (w_rt w))(i \<mapsto> managed_labels (px_ID p))"
  | (started) i w1 where "create_finish sv c (p\<lparr>px_ContainerID := i\<rparr>) w1 = (r, w')"
      "same_but_rt w w1" "inv (w_rt w1)" "i \<noteq> ''''" "ctrs (w_rt w) i = None"
      "ctrs (w_rt w1) = (ctrs (w_rt w))(i \<mapsto> managed_labels (px_ID p))"
proof -
  obtain x w1 where cr: "call_rt (\<lambda>b. rt_Create rt b (container_spec_of sv p)) (sv_pl sv) c w = (x, w1)"
    by fastforce
  note f1 = call_rt_frame [OF cr]
  show thesis
  proof (cases x)
    case (Inl e)
    then have "r = Inl e" "w' = record_error sv c p e w1"
      using run cr by (simp_all add: startContainer_eq sv)
    then show thesis using refused f1 call_create(2) [OF w cr [unfolded Inl]] by blast
  next
    case (Inr i)
    note c1 = call_create(1) [OF w cr [unfolded Inr], unfolded container_labels]
    obtain y w2 where st: "call_rt (\<lambda>b. rt_Start rt b i) (sv_pl sv) c w1 = (y, w2)" by fastforce
    have i1: "inv (w_rt w1)" using c1 by blast
    note k2 = call_keeps(1) [OF i1 st]
    have f2: "same_but_rt w w2" using same_but_rt_trans [OF f1 call_rt_frame [OF st]] .
    have c2: "ctrs (w_rt w2) = (ctrs (w_rt w))(i \<mapsto> managed_labels (px_ID p))" using c1 k2 by simp
    show thesis
    proof (cases y)
      case (Some e)
      define e' where "e' = the (wrapPortConflict (px_Port p) (Some e))"
      have "r = Inl e'" "w' = record_error sv c (p\<lparr>px_ContainerID := i\<rparr>) e' w2"
        using run cr Inr st Some by (simp_all add: startContainer_eq sv Let_def e'_def)
      then show thesis using dead f2 k2 c1 c2 by blast
    next
      case None
      then have "create_finish sv c (p\<lparr>px_ContainerID := i\<rparr>) w2 = (r, w')"
        using run cr Inr st by (simp add: startContainer_eq sv Let_def)
      then show thesis using started f2 k2 c1 c2 by blast
    qed
  qed
qed

lemma startContainer_ok:
  assumes sv: "sv_Runtime sv = rt" and w: "inv (w_rt w)" "db_wf (w_db w)"
    and row: "rows w (px_ID p) = Some old" "px_Port old = px_Port p"
    and run: "startContainer sv c p w = (Inr q, w')"
  shows "\<exists>e i q'. q = set_outcome e (p\<lparr>px_ContainerID := i\<rparr>) \<and> i \<noteq> '''' \<and>
      ctrs (w_rt w) i = None \<and> ctrs (w_rt w') = (ctrs (w_rt w))(i \<mapsto> managed_labels (px_ID p)) \<and>
      same_proxy q q' \<and> rows w' = (rows w)(px_ID p \<mapsto> q') \<and> w_fs w' = w_fs w"
proof (cases rule: startContainer_steps [OF sv w(1) run, case_names refused dead started])
  case (started i w1)
  have f1: "w_db w1 = w_db w" "w_fs w1 = w_fs w" using started(2) by (simp_all add: same_but_rt_def)
  have pre: "db_wf (w_db w1)" "rows w1 (px_ID (p\<lparr>px_ContainerID := i\<rparr>)) = Some old"
    "px_Port old = px_Port (p\<lparr>px_ContainerID := i\<rparr>)"
    using w row f1 by simp_all
  obtain e w3 q' where e: "waitHealthy sv c (p\<lparr>px_ContainerID := i\<rparr>) w1 = (e, w3)"
    "q = set_outcome e (p\<lparr>px_ContainerID := i\<rparr>)" "w_rt w' = w_rt w3" "same_proxy q q'"
    "rows w' = (rows w1)(px_ID (p\<lparr>px_ContainerID := i\<rparr>) \<mapsto> q')"
    using create_finish_effect(3) [OF started(1) pre refl] by blast
  have "w_fs w' = w_fs w1" by (rule create_finish_effect(2) [OF started(1) pre])
  moreover have "ctrs (w_rt w3) = ctrs (w_rt w1)" using waitHealthy_keeps [OF sv started(3) e(1)] by blast
  moreover have "rows w1 = rows w" using f1 by simp
  ultimately show ?thesis using e started f1 by simp metis
qed simp_all

lemma startContainer_err:
  assumes sv: "sv_Runtime sv = rt" and w: "inv (w_rt w)" "db_wf (w_db w)"
    and row: "rows w (px_ID p) = Some old" "px_Port old = px_Port p"
    and run: "startContainer sv c p w = (Inl e, w')" and rel: "db_reliable (sv_pl sv)"
  shows "\<exists>q'. rows w' (px_ID p) = Some q' \<and> px_State q' = StateError \<and> px_StateMessage q' = err_text e \<and>
    px_Port q' = px_Port p"
proof -
  have *: ?thesis if w': "w' = record_error sv c p' e w1" and f: "same_but_rt w w1"
    and p': "px_ID p' = px_ID p" "px_Port p' = px_Port p" for p' w1
  proof -
    have "db_wf (w_db w1)" "rows w1 (px_ID p') = Some old" "px_Port old = px_Port p'"
      using w row f p' by (simp_all add: same_but_rt_def)
    from record_error_effect(4) [OF this rel, of c e]
    obtain q' where "rows w' (px_ID p) = Some q'"
      "same_proxy (p'\<lparr>px_State := StateError, px_StateMessage := err_text e\<rparr>) q'"
      unfolding w' p' by blast
    then show ?thesis using p' same_proxy_fields [of _ q'] by fastforce
  qed
  show ?thesis
  proof (cases rule: startContainer_steps [OF sv w(1) run, case_names refused dead started])
    case (started i w1)
    have "db_wf (w_db w1)" "rows w1 (px_ID (p\<lparr>px_ContainerID := i\<rparr>)) = Some old"
      "px_Port old = px_Port (p\<lparr>px_ContainerID := i\<rparr>)"
      using started(2) w row by (simp_all add: same_but_rt_def)
    from create_finish_effect(4) [OF started(1) this refl] rel show ?thesis by blast
  qed (use * in auto)
qed

lemma startContainer_undisturbed:
  assumes sv: "sv_Runtime sv = rt" and w: "undisturbed sv ctrs inv (px_ID p) w0 w"
    and row: "rows w (px_ID p) = Some old" "px_Port old = px_Port p"
    and run: "startContainer sv c p w = (r, w')"
  shows "undisturbed sv ctrs inv (px_ID p) w0 w'"
proof -
  have i: "inv (w_rt w)" and wf: "db_wf (w_db w)" using w by (simp_all add: undisturbed_def)
  have keep: "undisturbed sv ctrs inv (px_ID p) w0 w1"
    if "same_but_rt w w1" "inv (w_rt w1)" "\<And>j l. ctrs (w_rt w) j = Some l \<Longrightarrow> ctrs (w_rt w1) j = Some l"
    for w1 using undisturbed_rt [OF w that(1,2)] that(3) by blast
  have err: "undisturbed sv ctrs inv (px_ID p) w0 (record_error sv c p' e w1)"
    if "undisturbed sv ctrs inv (px_ID p) w0 w1" "same_but_rt w w1" "px_ID p' = px_ID p"
      "px_Port p' = px_Port p" for p' e w1
  proof -
    have "db_wf (w_db w1)" "rows w1 (px_ID p') = Some old" "px_Port old = px_Port p'"
      using wf row that by (simp_all add: same_but_rt_def)
    note r = record_error_effect(1-3) [OF this, where sv = sv and c = c and e = e]
    show ?thesis by (rule undisturbed_db [OF that(1) r(1,2)]) (use r(3) that(3) in simp)
  qed
  show ?thesis
  proof (cases rule: startContainer_steps [OF sv i run, case_names refused dead started])
    case (refused e w1)
    show ?thesis unfolding refused(2)
      by (rule err [OF keep]) (use refused in simp_all)
  next
    case (dead e i w1)
    show ?thesis unfolding dead(2)
      by (rule err [OF keep]) (use dead in auto)
  next
    case (started i w1)
    have "undisturbed sv ctrs inv (px_ID p) w0 w1" by (rule keep) (use started in auto)
    then show ?thesis using create_finish_undisturbed [OF sv _ started(1)] by simp
  qed
qed

end

section \<open>Recreation\<close>

definition moved :: "proxy \<Rightarrow> int \<Rightarrow> string \<Rightarrow> proxy" where
  "moved p port dn = p\<lparr>px_Port := port, px_TLSDomain := dn, px_ContainerID := ''''\<rparr>"

lemma moved_fields [simp]:
  "px_ID (moved p port dn) = px_ID p" "px_Port (moved p port dn) = port"
  "px_TLSDomain (moved p port dn) = dn" "px_ContainerID (moved p port dn) = ''''"
  "px_Secret (moved p port dn) = px_Secret p" "px_APIToken (moved p port dn) = px_APIToken p"
  "px_Name (moved p port dn) = px_Name p" "px_State (moved p port dn) = px_State p"
  by (simp_all add: moved_def)

lemma recreate_container_eq:
  "recreate_container sv c p port dn w =
     (let (e, w) = remove_recorded sv c (px_ContainerID p) w
      in if removal_failed e then (Inl (the e), w)
         else
           (let (e, w) = st_UpdateProxy (sv_pl sv) (WithoutCancel c) (moved p port dn) w
            in case e of
                 Some e \<Rightarrow> (Inl e, w)
               | None \<Rightarrow>
                   (let (e, w) = writeConfig sv (moved p port dn) w
                    in case e of Some e \<Rightarrow> (Inl e, w) | None \<Rightarrow> startContainer sv c (moved p port dn) w)))"
  by (simp only: recreate_container_def remove_recorded_def moved_def Let_def)

text \<open>The guards of \<open>Recreate\<close>, and what is left when they pass.\<close>

lemma Recreate_cases:
  assumes run: "Recreate sv c pid port dn w = (r, w')" and wf: "db_wf (w_db w)"
  obtains (early) e where "r = Inl e" "w_db w' = w_db w" "w_rt w' = w_rt w" "w_fs w' = w_fs w"
  | (destructive) p q w1 where "rows w pid = Some p" "px_ID p = pid" "dn \<noteq> ''''"
      "port \<noteq> px_Port p \<Longrightarrow> 1 \<le> port \<and> port \<le> 65535 \<and> port \<notin> set (cf_ReservedPorts (sv_Cfg sv))"
      "recreate_container sv c (p\<lparr>px_State := StateRecreating\<rparr>) port dn w1 = (r, w')"
      "same_proxy (p\<lparr>px_State := StateRecreating\<rparr>) q" "rows w1 = (rows w)(pid \<mapsto> q)"
      "db_wf (w_db w1)" "w_rt w1 = w_rt w" "w_fs w1 = w_fs w" "\<not> ctx_done c w"
proof -
  obtain x w1 where g: "st_GetProxy (sv_pl sv) c pid w = (x, w1)" by fastforce
  note s1 = st_GetProxy_same [OF g]
  show thesis
  proof (cases x)
    case (Inl e)
    then show thesis using early [of e] run g s1 by (auto simp: Recreate_def)
  next
    case (Inr p)
    have p: "rows w pid = Some p" "px_ID p = pid" "\<not> ctx_done c w"
      using st_GetProxy_Inr [OF g [unfolded Inr]] g [unfolded Inr]
      by (auto simp: store_calls db_query_def db_fault_def GetProxy_Inr_iff split: if_splits)
    obtain y w2 where cp: "(if port \<noteq> px_Port p
        then os_CheckPort (sv_pl sv) port (cf_ReservedPorts (sv_Cfg sv)) w1 else (None, w1)) = (y, w2)"
      by fastforce
    have s2: "w_db w2 = w_db w" "w_rt w2 = w_rt w" "w_fs w2 = w_fs w"
      using cp s1 os_CheckPort_frame [of "sv_pl sv" port "cf_ReservedPorts (sv_Cfg sv)" w1 y w2]
      by (auto simp: same_but_rt_def split: if_splits)
    show thesis
    proof (cases "y \<noteq> None \<or> dn = ''''")
      case True
      then have "\<exists>e. r = Inl e \<and> w' = w2"
        using run g Inr cp by (cases y) (auto simp: Recreate_def)
      then show thesis using early s2 by blast
    next
      case False
      then have ok: "y = None" "dn \<noteq> ''''" by auto
      have port: "port \<noteq> px_Port p \<Longrightarrow>
          1 \<le> port \<and> port \<le> 65535 \<and> port \<notin> set (cf_ReservedPorts (sv_Cfg sv))"
        using cp ok by (auto simp: os_CheckPort_def CheckPort_None_iff)
      let ?p = "p\<lparr>px_State := StateRecreating\<rparr>"
      obtain z w3 where up: "st_UpdateProxy (sv_pl sv) c ?p w2 = (z, w3)" by fastforce
      have s3: "w_rt w3 = w_rt w2" "w_fs w3 = w_fs w2"
        using st_UpdateProxy_frame [OF up] by (simp_all add: same_but_db_def)
      show thesis
      proof (cases z)
        case (Some e)
        then show thesis
          using early [of e] run g Inr cp ok up s2 s3 st_UpdateProxy_Some [of "sv_pl sv" c ?p w2 e w3]
          by (auto simp: Recreate_def Let_def)
      next
        case None
        have wf2: "db_wf (w_db w2)" using wf s2 by simp
        obtain old :: proxy where up': "db_wf (w_db w3)" "rows w3 = (rows w2)(px_ID ?p \<mapsto>
            ?p\<lparr>px_CreatedAt := px_CreatedAt old, px_UpdatedAt := stored_time (w_clock w2)\<rparr>)"
          by (rule st_UpdateProxy_None [OF wf2 up [unfolded None]])
        let ?q = "?p\<lparr>px_CreatedAt := px_CreatedAt old, px_UpdatedAt := stored_time (w_clock w2)\<rparr>"
        have "same_proxy ?p ?q" by (rule same_proxy_stamp)
        moreover have "rows w3 = (rows w)(pid \<mapsto> ?q)" using up' s2 p by simp
        moreover have "w_rt w3 = w_rt w" "w_fs w3 = w_fs w" using s2 s3 by simp_all
        moreover have "recreate_container sv c ?p port dn w3 = (r, w')"
          using run g Inr cp ok up None by (simp add: Recreate_def Let_def)
        ultimately show thesis
          using destructive [OF p(1,2) ok(2) port _ _ _ up'(1)] p(3) by blast
      qed
    qed
  qed
qed

context container_runtime
begin

text \<open>The destructive half, step by step.\<close>

lemma recreate_container_cases:
  assumes sv: "sv_Runtime sv = rt" and w: "inv (w_rt w)" "db_wf (w_db w)"
    and run: "recreate_container sv c p port dn w = (r, w')"
  obtains (stuck) e where "r = Inl e" "w_db w' = w_db w" "w_fs w' = w_fs w" "inv (w_rt w')"
      "ctrs (w_rt w') = ctrs (w_rt w)"
  | (rejected) e where "r = Inl e" "w_db w' = w_db w" "w_fs w' = w_fs w" "inv (w_rt w')"
      "ctrs (w_rt w') = (if px_ContainerID p = '''' then ctrs (w_rt w)
         else (ctrs (w_rt w))(px_ContainerID p := None))"
      "(\<exists>u. st_UpdateProxy (sv_pl sv) (WithoutCancel c) (moved p port dn) u = (Some e, w') \<and> w_db u = w_db w)"
  | (committed) q w2 where "same_proxy (moved p port dn) q" "rows w2 = (rows w)(px_ID p \<mapsto> q)"
      "db_wf (w_db w2)" "inv (w_rt w2)"
      "ctrs (w_rt w2) = (if px_ContainerID p = '''' then ctrs (w_rt w)
         else (ctrs (w_rt w))(px_ContainerID p := None))"
      "w_fs w2 = w_fs w"
      "(\<exists>e. r = Inl e \<and> writeConfig sv (moved p port dn) w2 = (Some e, w')) \<or>
       (\<exists>w3. writeConfig sv (moved p port dn) w2 = (None, w3) \<and>
          startContainer sv c (moved p port dn) w3 = (r, w'))"
proof -
  obtain x w1 where rm: "remove_recorded sv c (px_ContainerID p) w = (x, w1)" by fastforce
  have f1: "w_db w1 = w_db w" "w_fs w1 = w_fs w"
    using remove_recorded_frame [OF rm] by (simp_all add: same_but_rt_def)
  show thesis
  proof (cases "removal_failed x")
    case True
    then obtain e where e: "x = Some e" by (cases x) (auto simp: removal_failed_def)
    then have i: "px_ContainerID p \<noteq> ''''" using rm by (auto simp: remove_recorded_def)
    then have r: "call_rt (\<lambda>b. rt_Remove rt b (px_ContainerID p)) (sv_pl sv) c w = (x, w1)"
      using rm by (simp add: remove_recorded_def sv)
    have "r = Inl e" "w' = w1" using run rm True e by (simp_all add: recreate_container_eq)
    then show thesis using stuck f1 call_remove(1,4) [OF w(1) r] e by blast
  next
    case False
    note gone = remove_recorded_gone [OF sv w(1) rm False]
    obtain y w2 where up: "st_UpdateProxy (sv_pl sv) (WithoutCancel c) (moved p port dn) w1 = (y, w2)"
      by fastforce
    have f2: "w_rt w2 = w_rt w1" "w_fs w2 = w_fs w1"
      using st_UpdateProxy_frame [OF up] by (simp_all add: same_but_db_def)
    show thesis
    proof (cases y)
      case (Some e)
      then have "r = Inl e" "w' = w2" using run rm False up by (simp_all add: recreate_container_eq)
      then show thesis
        using rejected [of e] gone f1 f2 st_UpdateProxy_Some [OF up [unfolded Some]] up Some by auto
    next
      case None
      have wf1: "db_wf (w_db w1)" using w f1 by simp
      obtain old :: proxy where up': "db_wf (w_db w2)" "rows w2 = (rows w1)(px_ID (moved p port dn) \<mapsto>
          (moved p port dn)\<lparr>px_CreatedAt := px_CreatedAt old, px_UpdatedAt := stored_time (w_clock w1)\<rparr>)"
        by (rule st_UpdateProxy_None [OF wf1 up [unfolded None]])
      obtain z w3 where wc: "writeConfig sv (moved p port dn) w2 = (z, w3)" by fastforce
      have last: "(\<exists>e. r = Inl e \<and> writeConfig sv (moved p port dn) w2 = (Some e, w')) \<or>
         (\<exists>w3. writeConfig sv (moved p port dn) w2 = (None, w3) \<and>
            startContainer sv c (moved p port dn) w3 = (r, w'))"
        using run rm False up None wc by (cases z) (auto simp: recreate_container_eq)
      show thesis
        by (rule committed [OF same_proxy_stamp _ up'(1) _ _ _ last])
          (use up' f1 f2 gone in simp_all)
    qed
  qed
qed

lemma Recreate_ok:
  assumes sv: "sv_Runtime sv = rt" and w: "inv (w_rt w)" "db_wf (w_db w)" and id: "plain_name pid"
    and run: "Recreate sv c pid port dn w = (Inr q, w')"
  shows "\<exists>p e i q'. rows w pid = Some p \<and>
    q = set_outcome e (p\<lparr>px_State := StateRecreating, px_Port := port, px_TLSDomain := dn, px_ContainerID := i\<rparr>) \<and>
    same_proxy q q' \<and> rows w' = (rows w)(pid \<mapsto> q') \<and>
    ctrs (w_rt w') = (if px_ContainerID p = '''' then ctrs (w_rt w)
       else (ctrs (w_rt w))(px_ContainerID p := None))(i \<mapsto> managed_labels pid) \<and>
    (\<exists>body. Render (config_spec sv q) = Inr body \<and> w_fs w' (configPath sv pid) = Some (File body))"
proof (cases rule: Recreate_cases [OF run w(2), case_names early destructive])
  case (early e)
  then show ?thesis by simp
next
  case (destructive p p' w1)
  let ?p = "p\<lparr>px_State := StateRecreating\<rparr>" and ?m = "moved (p\<lparr>px_State := StateRecreating\<rparr>) port dn"
  have i1: "inv (w_rt w1)" using w destructive(9) by simp
  show ?thesis
  proof (cases rule: recreate_container_cases [OF sv i1 destructive(8,5),
        case_names stuck rejected committed])
    case (committed m w2)
    then obtain w3 where wc: "writeConfig sv ?m w2 = (None, w3)"
      and st: "startContainer sv c ?m w3 = (Inr q, w')" by auto
    have f3: "w_db w3 = w_db w2" "w_rt w3 = w_rt w2"
      using writeConfig_frame [OF wc] by (simp_all add: same_but_fs_def)
    have mid: "px_ID ?m = pid" "px_ID ?p = pid" using destructive(2) by simp_all
    have pre: "inv (w_rt w3)" "db_wf (w_db w3)" "rows w3 (px_ID ?m) = Some m" "px_Port m = px_Port ?m"
      using committed(1-4) f3 same_proxy_fields(2) [OF committed(1)] mid by simp_all
    obtain e i q' where q: "q = set_outcome e (?m\<lparr>px_ContainerID := i\<rparr>)"
      "ctrs (w_rt w') = (ctrs (w_rt w3))(i \<mapsto> managed_labels (px_ID ?m))"
      "same_proxy q q'" "rows w' = (rows w3)(px_ID ?m \<mapsto> q')" "w_fs w' = w_fs w3"
      using startContainer_ok [OF sv pre st] by blast
    have "plain_name (px_ID ?m)" using id mid by simp
    note cfg = writeConfig_effect(2) [OF wc this refl]
    have "config_spec sv q = config_spec sv ?m" unfolding q(1) by (rule config_spec_outcome)
    then have "\<exists>body. Render (config_spec sv q) = Inr body \<and> w_fs w' (configPath sv pid) = Some (File body)"
      using cfg q(5) mid by simp
    moreover have "rows w' = (rows w)(pid \<mapsto> q')"
      using q(4) f3 committed(2) destructive(7) mid by simp
    moreover have "ctrs (w_rt w') = (if px_ContainerID p = '''' then ctrs (w_rt w)
       else (ctrs (w_rt w))(px_ContainerID p := None))(i \<mapsto> managed_labels pid)"
      using q(2) f3(2) committed(5) destructive(9) mid by simp
    moreover have "q = set_outcome e (p\<lparr>px_State := StateRecreating, px_Port := port,
        px_TLSDomain := dn, px_ContainerID := i\<rparr>)"
      unfolding q(1) by (simp add: moved_def)
    ultimately show ?thesis using destructive(1) q(3) by blast
  qed simp_all
qed

end

section \<open>What every operation keeps, whatever its outcome\<close>

text \<open>The parts of a proxy that no operation changes.\<close>

definition same_identity :: "proxy \<Rightarrow> proxy \<Rightarrow> bool" where
  "same_identity p q \<longleftrightarrow>
     px_ID q = px_ID p \<and> px_Name q = px_Name p \<and> px_Secret q = px_Secret p \<and> px_APIToken q = px_APIToken p"

definition port_allowed :: "'r service \<Rightarrow> int \<Rightarrow> bool" where
  "port_allowed sv port \<longleftrightarrow> 1 \<le> port \<and> port \<le> 65535 \<and> port \<notin> set (cf_ReservedPorts (sv_Cfg sv))"

text \<open>What a client connects to.\<close>

definition place :: "proxy \<Rightarrow> int \<times> string" where
  "place p = (px_Port p, px_TLSDomain p)"

text \<open>The row of one proxy after an operation on it: the same proxy, on its old port or on an
  allowed one, and with its old domain or a non-empty one.\<close>

definition row_evolves :: "'r service \<Rightarrow> string \<Rightarrow> 'r world \<Rightarrow> 'r world \<Rightarrow> bool" where
  "row_evolves sv pid w w' \<longleftrightarrow>
     (rows w pid = None \<longrightarrow> rows w' pid = None) \<and>
     (\<forall>p. rows w pid = Some p \<longrightarrow> (\<exists>q. rows w' pid = Some q \<and> same_identity p q \<and>
        (px_Port q = px_Port p \<or> port_allowed sv (px_Port q)) \<and>
        (px_TLSDomain q = px_TLSDomain p \<or> px_TLSDomain q \<noteq> '''')))"

lemma same_identity_refl [simp]: "same_identity p p"
  by (simp add: same_identity_def)

lemma same_proxy_identity: "same_proxy p q \<Longrightarrow> same_identity p q \<and> place q = place p"
  by (simp add: same_identity_def same_proxy_fields place_def)

lemma row_evolves_same: "w_db w' = w_db w \<Longrightarrow> row_evolves sv pid w w'"
  by (simp add: row_evolves_def)

lemma update_row:
  assumes wf: "db_wf (w_db w)" and up: "st_UpdateProxy pl c p w = (e, w')"
    and row: "rows w (px_ID p) = Some old"
  obtains r where "rows w' (px_ID p) = Some r" "r = old \<or> same_proxy p r"
proof (cases e)
  case None
  obtain old' :: proxy where "rows w' = (rows w)(px_ID p \<mapsto>
      p\<lparr>px_CreatedAt := px_CreatedAt old', px_UpdatedAt := stored_time (w_clock w)\<rparr>)"
    by (rule st_UpdateProxy_None [OF wf up [unfolded None]])
  then show thesis using that same_proxy_stamp by simp
next
  case (Some x)
  then show thesis using that st_UpdateProxy_Some [OF up [unfolded Some]] row by simp
qed

lemma writeConfig_outside:
  assumes "writeConfig sv p w = (e, w')" "plain_name (px_ID p)" "w_fs w q = Some n"
    "\<not> below (configDir sv (px_ID p)) q"
  shows "w_fs w' q = Some n"
  using writeConfig_effect(4) [OF assms(1,2), of q] configPath_below [OF assms(2), of sv] assms(3,4)
  by fastforce

context container_runtime
begin

lemma finish_row:
  assumes sv: "sv_Runtime sv = rt" and wf: "db_wf (w_db w)" and row: "rows w (px_ID p) = Some old"
    and run: "create_finish sv c p w = (r, w')"
  obtains q where "rows w' (px_ID p) = Some q" "q = old \<or> (same_identity p q \<and> place q = place p)"
proof -
  obtain e w1 where wait: "waitHealthy sv c p w = (e, w1)" by fastforce
  have f: "w_db w1 = w_db w" using waitHealthy_frame [OF wait] by (simp add: same_but_rt_def)
  obtain x w2 where up: "st_UpdateProxy (sv_pl sv) (WithoutCancel c) (set_outcome e p) w1 = (x, w2)"
    by fastforce
  have w2: "w' = w2" using run wait up by (auto simp: create_finish_def split: option.splits)
  have wf1: "db_wf (w_db w1)" "rows w1 (px_ID (set_outcome e p)) = Some old" using wf row f by simp_all
  obtain q where "rows w2 (px_ID (set_outcome e p)) = Some q" "q = old \<or> same_proxy (set_outcome e p) q"
    by (rule update_row [OF wf1(1) up wf1(2)])
  moreover have "same_identity (set_outcome e p) q \<longleftrightarrow> same_identity p q"
    by (simp add: same_identity_def)
  ultimately show thesis using that w2 same_proxy_identity [of "set_outcome e p" q] by (auto simp: place_def)
qed

lemma startContainer_row:
  assumes sv: "sv_Runtime sv = rt" and w: "inv (w_rt w)" "db_wf (w_db w)"
    and row: "rows w (px_ID p) = Some old" and run: "startContainer sv c p w = (r, w')"
  obtains (found) q where "rows w' (px_ID p) = Some q" "q = old \<or> (same_identity p q \<and> place q = place p)"
proof -
  have err: thesis if w': "w' = record_error sv c p' e w1" and f: "same_but_rt w w1"
    and p': "px_ID p' = px_ID p" "place p' = place p" "px_Name p' = px_Name p"
      "px_Secret p' = px_Secret p" "px_APIToken p' = px_APIToken p" for p' e w1
  proof -
    let ?p = "p'\<lparr>px_State := StateError, px_StateMessage := err_text e\<rparr>"
    obtain x w2 where up: "st_UpdateProxy (sv_pl sv) (WithoutCancel c) ?p w1 = (x, w2)" by fastforce
    have "w' = w2" using up by (simp add: w' record_error_def)
    moreover have pre: "db_wf (w_db w1)" "rows w1 (px_ID ?p) = Some old"
      using w row f p' by (simp_all add: same_but_rt_def)
    moreover obtain q where "rows w2 (px_ID ?p) = Some q" "q = old \<or> same_proxy ?p q"
      by (rule update_row [OF pre(1) up pre(2)])
    moreover have "same_identity ?p q \<longleftrightarrow> same_identity p q" using p' by (simp add: same_identity_def)
    ultimately show thesis using found p' same_proxy_identity [of ?p q] by (auto simp: place_def)
  qed
  show thesis
  proof (cases rule: startContainer_steps [OF sv w(1) run, case_names refused dead started])
    case (refused e w1)
    then show thesis using err [of p e w1] by simp
  next
    case (dead e i w1)
    then show thesis using err [of "p\<lparr>px_ContainerID := i\<rparr>" e w1] by (simp add: place_def)
  next
    case (started i w1)
    let ?p = "p\<lparr>px_ContainerID := i\<rparr>"
    have pre: "db_wf (w_db w1)" "rows w1 (px_ID ?p) = Some old"
      using w row started(2) by (simp_all add: same_but_rt_def)
    obtain q where "rows w' (px_ID ?p) = Some q" "q = old \<or> (same_identity ?p q \<and> place q = place ?p)"
      by (rule finish_row [OF sv pre started(1)])
    then show thesis using found by (simp add: same_identity_def place_def)
  qed
qed

text \<open>Recreation touches its own row, its own container and its own directory, nothing else.\<close>

lemma Recreate_keeps:
  assumes sv: "sv_Runtime sv = rt" and w: "inv (w_rt w)" "db_wf (w_db w)" and id: "plain_name pid"
    and run: "Recreate sv c pid port dn w = (r, w')"
  shows "inv (w_rt w') \<and> db_wf (w_db w') \<and> (\<forall>k. k \<noteq> pid \<longrightarrow> rows w' k = rows w k) \<and>
    row_evolves sv pid w w' \<and>
    (\<forall>j l. ctrs (w_rt w) j = Some l \<longrightarrow> (\<forall>p. rows w pid = Some p \<longrightarrow> px_ContainerID p \<noteq> j) \<longrightarrow>
       ctrs (w_rt w') j = Some l) \<and>
    (\<forall>q n. w_fs w q = Some n \<longrightarrow> \<not> below (configDir sv pid) q \<longrightarrow> w_fs w' q = Some n)"
proof (cases rule: Recreate_cases [OF run w(2), case_names early destructive])
  case (early e)
  then show ?thesis using w row_evolves_same [of w' w sv pid] by simp
next
  case (destructive p p' w1)
  let ?p = "p\<lparr>px_State := StateRecreating\<rparr>" and ?m = "moved (p\<lparr>px_State := StateRecreating\<rparr>) port dn"
  have i1: "inv (w_rt w1)" using w destructive(9) by simp
  have allowed: "port = px_Port p \<or> port_allowed sv port"
    using destructive(4) by (auto simp: port_allowed_def)
  have p': "same_identity p p'" "place p' = place p"
    using same_proxy_identity [OF destructive(6)] by (simp_all add: same_identity_def place_def)
  show ?thesis
  proof (cases rule: recreate_container_cases [OF sv i1 destructive(8,5),
        case_names stuck rejected committed])
    case (stuck e)
    then show ?thesis using destructive p' by (auto simp: row_evolves_def place_def)
  next
    case (rejected e)
    then show ?thesis using destructive p' by (auto simp: row_evolves_def place_def)
  next
    case (committed m w2)
    have mid: "px_ID ?m = pid" using destructive(2) by simp
    have r2: "rows w2 = (rows w)(pid \<mapsto> m)" using committed(2) destructive(2,7) by simp
    have m: "same_identity p m" "place m = (port, dn)"
      using same_proxy_identity [OF committed(1)] by (simp_all add: same_identity_def place_def)
    obtain x w3 where wc: "writeConfig sv ?m w2 = (x, w3)" by fastforce
    have f3: "w_db w3 = w_db w2" "w_rt w3 = w_rt w2"
      using writeConfig_frame [OF wc] by (simp_all add: same_but_fs_def)
    have id': "plain_name (px_ID ?m)" using id mid by simp
    have fs3: "w_fs w3 q = Some n" if "w_fs w q = Some n" "\<not> below (configDir sv pid) q" for q n
      using writeConfig_outside [OF wc id'] that committed(6) destructive(10) mid by simp
    have u3: "undisturbed sv ctrs inv pid w3 w3"
      using committed(3,4) f3 by (simp add: undisturbed_def)
    have row3: "rows w3 (px_ID ?m) = Some m" using r2 f3 mid by simp
    obtain q' where w': "undisturbed sv ctrs inv pid w3 w'" "rows w' pid = Some q'"
      "q' = m \<or> (same_identity ?m q' \<and> place q' = place ?m)"
    proof (cases "\<exists>e. r = Inl e \<and> writeConfig sv ?m w2 = (Some e, w')")
      case True
      then show thesis using that u3 row3 wc mid by auto
    next
      case False
      then have st: "startContainer sv c ?m w3 = (r, w')" using committed(7) wc by auto
      have wf3: "inv (w_rt w3)" "db_wf (w_db w3)" using committed(3,4) f3 by simp_all
      have "px_Port m = px_Port ?m" using m by (simp add: place_def)
      from startContainer_undisturbed [OF sv u3 [folded mid] row3 this st]
      have "undisturbed sv ctrs inv pid w3 w'" by (simp only: mid)
      then show thesis
        using startContainer_row [OF sv wf3 row3 st] that mid by metis
    qed
    have "same_identity p q' \<and> place q' = (port, dn)"
      using w'(3) m by (auto simp: same_identity_def place_def)
    then have "row_evolves sv pid w w'"
      using w'(2) allowed destructive(1,3) by (auto simp: row_evolves_def place_def)
    moreover have "ctrs (w_rt w') j = Some l"
      if "ctrs (w_rt w) j = Some l" "px_ContainerID p \<noteq> j" for j l
    proof -
      have "ctrs (w_rt w3) j = Some l"
        using that committed(5) f3(2) destructive(9) by auto
      then show ?thesis using w'(1) by (simp add: undisturbed_def)
    qed
    moreover have "rows w' k = rows w k" if "k \<noteq> pid" for k
      using w'(1) that f3 r2 by (simp add: undisturbed_def)
    moreover have "w_fs w' q = Some n" if "w_fs w q = Some n" "\<not> below (configDir sv pid) q" for q n
      using w'(1) fs3 [OF that] that(2) by (simp add: undisturbed_def)
    moreover have "inv (w_rt w')" "db_wf (w_db w')" using w'(1) by (simp_all add: undisturbed_def)
    ultimately show ?thesis using destructive(1) by auto
  qed
qed

end

context container_runtime
begin

lemma remove_recorded_any:
  assumes sv: "sv_Runtime sv = rt" and w: "inv (w_rt w)" and run: "remove_recorded sv c i w = (e, w')"
  shows "inv (w_rt w') \<and> (\<forall>j. j \<noteq> i \<longrightarrow> ctrs (w_rt w') j = ctrs (w_rt w) j)"
proof (cases "i = ''''")
  case True
  with run w show ?thesis by (simp add: remove_recorded_def)
next
  case False
  then have r: "call_rt (\<lambda>b. rt_Remove rt b i) (sv_pl sv) c w = (e, w')"
    using run by (simp add: remove_recorded_def sv)
  show ?thesis using call_remove(1,2) [OF w r] by blast
qed

lemma Delete_keeps:
  assumes sv: "sv_Runtime sv = rt" and w: "inv (w_rt w)" "db_wf (w_db w)"
    and run: "Delete sv c pid w = (e, w')"
  shows "inv (w_rt w') \<and> db_wf (w_db w') \<and> (\<forall>k. k \<noteq> pid \<longrightarrow> rows w' k = rows w k) \<and>
    rows w' pid \<in> {None, rows w pid} \<and>
    (\<forall>j l. ctrs (w_rt w) j = Some l \<longrightarrow> (\<forall>p. rows w pid = Some p \<longrightarrow> px_ContainerID p \<noteq> j) \<longrightarrow>
       ctrs (w_rt w') j = Some l) \<and>
    (\<forall>q n. w_fs w q = Some n \<longrightarrow> \<not> below (configDir sv pid) q \<longrightarrow> w_fs w' q = Some n)"
proof -
  obtain r w1 where g: "st_GetProxy (sv_pl sv) c pid w = (r, w1)" by fastforce
  note s1 = st_GetProxy_same [OF g]
  show ?thesis
  proof (cases r)
    case (Inl err)
    then show ?thesis using run g s1 w by (simp add: Delete_def)
  next
    case (Inr p)
    have p: "rows w pid = Some p" using st_GetProxy_Inr [OF g [unfolded Inr]] by blast
    obtain x w2 where rm: "remove_recorded sv c (px_ContainerID p) w1 = (x, w2)" by fastforce
    have f2: "w_db w2 = w_db w" "w_fs w2 = w_fs w"
      using remove_recorded_frame [OF rm] s1 by (simp_all add: same_but_rt_def)
    have i1: "inv (w_rt w1)" using w s1 by simp
    note k2 = remove_recorded_any [OF sv i1 rm]
    obtain y w3 where ra: "os_RemoveAll (sv_pl sv) (configDir sv pid) w2 = (y, w3)" by fastforce
    have f3: "w_db w3 = w_db w2" "w_rt w3 = w_rt w2"
      using fs_frames(8) [OF ra] by (simp_all add: same_but_fs_def)
    obtain z w4 where de: "st_DeleteProxy (sv_pl sv) (WithoutCancel c) pid w3 = (z, w4)" by fastforce
    have f4: "w_fs w4 = w_fs w3" "w_rt w4 = w_rt w3"
      using st_DeleteProxy_frame [OF de] by (simp_all add: same_but_db_def)
    have wf3: "db_wf (w_db w3)" using w f2 f3 by simp
    have d4: "db_wf (w_db w4)" "\<forall>k. k \<noteq> pid \<longrightarrow> rows w4 k = rows w k"
      using wf_after(3) [OF wf3 de] others_after(3) [OF wf3 de] f2 f3 by simp_all
    have d5: "rows w4 pid \<in> {None, rows w pid}"
      using st_DeleteProxy_None(3) [OF wf3, of "sv_pl sv" "WithoutCancel c" pid w4]
        st_DeleteProxy_Some [of "sv_pl sv" "WithoutCancel c" pid w3 _ w4] f2 f3 de
      by (cases z) auto
    consider "w' = w2" | "w' = w3" | "w' = w4"
      using run g Inr rm ra de unfolding Delete_def remove_recorded_def [symmetric]
      by (auto split: if_splits option.splits)
    then show ?thesis
      using p k2 f2 f3 f4 d4 d5 w s1 RemoveAll_outside [OF ra] by cases auto
  qed
qed

lemma UpdateLimits_keeps:
  assumes sv: "sv_Runtime sv = rt" and w: "inv (w_rt w)" "db_wf (w_db w)"
    and run: "UpdateLimits sv c pid lp w = (r, w')"
  shows "inv (w_rt w') \<and> db_wf (w_db w') \<and> (\<forall>k. k \<noteq> pid \<longrightarrow> rows w' k = rows w k) \<and>
    row_evolves sv pid w w' \<and> ctrs (w_rt w') = ctrs (w_rt w)"
proof (cases rule: UpdateLimits_steps [OF run, case_names early update])
  case (early e)
  then show ?thesis using w row_evolves_same [of w' w sv pid] by simp
next
  case (update p w1 w2 msg w3 e)
  let ?q = "(apply_patch lp p)\<lparr>px_StateMessage := msg\<rparr>"
  have p: "rows w pid = Some p" "px_ID p = pid" using st_GetProxy_Inr [OF update(1)] by auto
  note f1 = st_GetProxy_same [OF update(1)]
  have f2: "w_db w2 = w_db w1" "w_rt w2 = w_rt w1"
    using writeConfig_frame [OF update(2)] by (simp_all add: same_but_fs_def)
  note f3 = live_apply_effect [OF update(3)]
  have f4: "w_rt w' = w_rt w3" using st_UpdateProxy_frame [OF update(4)] by (simp add: same_but_db_def)
  have i2: "inv (w_rt w2)" using w f1 f2 by simp
  note k = live_apply_keeps [OF sv i2 update(3)]
  have wf3: "db_wf (w_db w3)" "rows w3 (px_ID ?q) = Some p" using w f1 f2 f3 p by simp_all
  obtain q' where "rows w' (px_ID ?q) = Some q'" "q' = p \<or> same_proxy ?q q'"
    by (rule update_row [OF wf3(1) update(4) wf3(2)])
  moreover have "same_identity ?q q' \<longleftrightarrow> same_identity p q'" by (simp add: same_identity_def)
  ultimately have "row_evolves sv pid w w'"
    using p same_proxy_identity [of ?q q'] by (auto simp: row_evolves_def place_def)
  moreover have "\<forall>k. k \<noteq> pid \<longrightarrow> rows w' k = rows w k"
    using others_after(2) [OF wf3(1) update(4)] p f1 f2 f3 by simp
  ultimately show ?thesis
    using wf_after(2) [OF wf3(1) update(4)] k f1 f2 f4 by simp
qed

text \<open>A port that another row holds is found out too late: the old container is gone by the time the
  database rejects the port, and the row is left at \<open>recreating\<close>.\<close>

lemma Recreate_port_taken:
  assumes sv: "sv_Runtime sv = rt" and w: "inv (w_rt w)" "db_wf (w_db w)"
    and rel: "db_reliable (sv_pl sv)" "driver_ok (pl_driver (sv_pl sv))" "remove_works rt ctrs inv"
    and live: "cx_cancel_at c = None"
    and p: "rows w pid = Some p" "px_ContainerID p = i" "ctrs (w_rt w) i = Some l" "i \<noteq> ''''"
    and other: "rows w k = Some q" "k \<noteq> pid" "px_Port q = port"
    and dn: "dn \<noteq> ''''" and free: "CheckPort (pl_listen (sv_pl sv) (w_tick w + 1)) (pl_lclose (sv_pl sv) (w_tick w + 1))
      port (cf_ReservedPorts (sv_Cfg sv)) = None"
    and run: "Recreate sv c pid port dn w = (r, w')"
  shows "(\<exists>e. r = Inl e \<and> errors_Is e ErrPortTaken) \<and> ctrs (w_rt w') = (ctrs (w_rt w))(i := None) \<and>
    (\<exists>p'. rows w' pid = Some p' \<and> px_State p' = StateRecreating \<and> px_ContainerID p' = i \<and>
       px_Port p' = px_Port p)"
proof -
  have pid: "px_ID p = pid" using p(1) by (rule proxies.ids_agree)
  have ports: "px_Port p \<noteq> port" using proxies.ports_inj [OF w(2) p(1) other(1)] other by auto
  have live': "\<not> ctx_done c u" for u :: "'r world" using live by (simp add: ctx_done_def)
  obtain x w1 where g: "st_GetProxy (sv_pl sv) c pid w = (x, w1)" by fastforce
  have x: "x = Inr p" and w1: "w1 = tick (sv_pl sv) w"
    using g rel(1) live' p(1) by (auto simp: store_calls db_query_def db_fault_def db_reliable_def
        proxies.get_law)
  obtain y w2 where cp: "os_CheckPort (sv_pl sv) port (cf_ReservedPorts (sv_Cfg sv)) w1 = (y, w2)" by fastforce
  have y: "y = None" using cp free w1 by (simp add: os_CheckPort_def)
  have s2: "w_db w2 = w_db w" "w_rt w2 = w_rt w"
    using os_CheckPort_frame [OF cp] w1 by (simp_all add: same_but_rt_def)
  let ?p = "p\<lparr>px_State := StateRecreating\<rparr>"
  obtain z w3 where up: "st_UpdateProxy (sv_pl sv) c ?p w2 = (z, w3)" by fastforce
  have wf2: "db_wf (w_db w2)" "rows w2 (px_ID ?p) = Some p" using w s2 p pid by simp_all
  have z: "z = None" using st_UpdateProxy_works [OF rel(1) live' wf2] up by simp
  obtain old :: proxy where up': "db_wf (w_db w3)" "rows w3 = (rows w2)(px_ID ?p \<mapsto>
      ?p\<lparr>px_CreatedAt := px_CreatedAt old, px_UpdatedAt := stored_time (w_clock w2)\<rparr>)"
    by (rule st_UpdateProxy_None [OF wf2(1) up [unfolded z]])
  have rt3: "w_rt w3 = w_rt w" using st_UpdateProxy_frame [OF up] s2 by (simp add: same_but_db_def)
  have run': "recreate_container sv c ?p port dn w3 = (r, w')"
    using run g x cp y ports dn up z by (simp add: Recreate_def Let_def)
  have i3: "inv (w_rt w3)" using w rt3 by simp
  have q3: "rows w3 k = Some q" "rows w3 pid \<noteq> None" using up'(2) s2 other pid by simp_all
  have taken: "\<exists>e. st_UpdateProxy (sv_pl sv) (WithoutCancel c) (moved ?p port dn) u = (Some e, u') \<and>
      errors_Is e ErrPortTaken"
    if u: "w_db u = w_db w3" "st_UpdateProxy (sv_pl sv) (WithoutCancel c) (moved ?p port dn) u = (e, u')" for u e u'
    using proxies.update_taken [OF rel(2) up'(1), of "moved ?p port dn" k q "w_clock u"] q3 other pid u rel(1)
    by (auto simp: store_calls db_exec_def db_fault_def db_reliable_def)
  obtain v w4 where rm: "remove_recorded sv c (px_ContainerID ?p) w3 = (v, w4)" by fastforce
  have call: "call_rt (\<lambda>b. rt_Remove rt b i) (sv_pl sv) c w3 = (v, w4)"
    using rm p(2,4) by (simp add: remove_recorded_def sv)
  have "ctrs (w_rt w3) i \<noteq> None" using p(3) rt3 by simp
  then have v: "v = None"
    using rel(3) i3 call_rt_D [OF call] unfolding remove_works_def by (metis fst_conv)
  then have "\<not> removal_failed v" by (simp add: removal_failed_def)
  note gone = remove_recorded_gone [OF sv i3 rm this]
  have f4: "w_db w4 = w_db w3" using remove_recorded_frame [OF rm] by (simp add: same_but_rt_def)
  obtain e w5 where up2: "st_UpdateProxy (sv_pl sv) (WithoutCancel c) (moved ?p port dn) w4 = (e, w5)" by fastforce
  obtain err where e: "e = Some err" "errors_Is err ErrPortTaken" using taken [OF f4 up2] up2 by auto
  have "r = Inl err" "w' = w5"
    using run' rm up2 e v by (simp_all add: recreate_container_eq removal_failed_def)
  moreover have "w_rt w5 = w_rt w4" using st_UpdateProxy_frame [OF up2] by (simp add: same_but_db_def)
  moreover have "w_db w5 = w_db w3" using st_UpdateProxy_Some [OF up2 [unfolded e]] f4 by simp
  ultimately show ?thesis
    using e(2) gone rt3 p up'(2) pid by auto
qed

end

end
