(* ===== verification/Reconcile.thy ===== *)
theory Reconcile imports Lifecycle begin

text \<open>
  \<open>internal/proxy/lifecycle.go\<close>, the part that compares the rows with the containers that carry the
  panel's label: orphans and their removal, and \<open>Reconcile\<close>, which makes the containers match the rows
  after a restart.
\<close>

definition managed_filter :: labels where
  "managed_filter = [(LabelManaged, ''true'')]"

lemma managed_filter_plain [simp]: "plain_keys managed_filter"
  by (simp add: managed_filter_def plain_keys_def LabelManaged_def)

definition container_proxy :: "container_info \<Rightarrow> string" where
  "container_proxy ci = label_of (ci_Labels ci) LabelProxyID"

section \<open>Orphans\<close>

definition orphans_of :: "proxy list \<Rightarrow> container_info list \<Rightarrow> container_info list" where
  "orphans_of ps cs = filter (\<lambda>ci. \<not> list_ex (\<lambda>p. px_ID p = container_proxy ci) ps) cs"

definition Orphans :: "'r service \<Rightarrow> ctx \<Rightarrow> 'r world \<Rightarrow> container_info list res \<times> 'r world" where
  "Orphans sv c w =
     (let (r, w) = st_ListProxies (sv_pl sv) c w in
      case r of
        Inl e \<Rightarrow> (Inl e, w)
      | Inr ps \<Rightarrow>
          (let (l, w) = call_rt (\<lambda>b. rt_List (sv_Runtime sv) b managed_filter) (sv_pl sv) c w
           in case l of Inl e \<Rightarrow> (Inl e, w) | Inr cs \<Rightarrow> (Inr (orphans_of ps cs), w)))"

definition RemoveOrphan :: "'r service \<Rightarrow> ctx \<Rightarrow> string \<Rightarrow> 'r world \<Rightarrow> gerror option \<times> 'r world" where
  "RemoveOrphan sv c cid w =
     (let (r, w) = Orphans sv c w in
      case r of
        Inl e \<Rightarrow> (Some e, w)
      | Inr os \<Rightarrow>
          if list_ex (\<lambda>ci. ci_ID ci = cid) os
          then call_rt (\<lambda>b. rt_Remove (sv_Runtime sv) b cid) (sv_pl sv) c w
          else (Some (errorf (''proxy: container '' @ cid @ '' is not an orphan'')), w))"

section \<open>Reconciliation\<close>

record reconcile_report =
  rp_Orphans :: "string list"
  rp_Restarted :: "string list"
  rp_CleanedUp :: "string list"

text \<open>The map from proxy ids to containers: a later container overrides an earlier one.\<close>

definition by_proxy_id :: "container_info list \<Rightarrow> string \<Rightarrow> container_info option" where
  "by_proxy_id cs pid = find (\<lambda>ci. container_proxy ci = pid) (rev cs)"

definition reconcile_row :: "'r service \<Rightarrow> ctx \<Rightarrow> container_info list \<Rightarrow> proxy \<Rightarrow>
    reconcile_report \<times> 'r world \<Rightarrow> reconcile_report \<times> 'r world" where
  "reconcile_row sv c cs p = (\<lambda>(rep, w).
     case by_proxy_id cs (px_ID p) of
       Some ci \<Rightarrow>
         if px_ContainerID p \<noteq> ci_ID ci then
           (let (_, w) = st_UpdateProxy (sv_pl sv) c (p\<lparr>px_ContainerID := ci_ID ci\<rparr>) w in (rep, w))
         else (rep, w)
     | None \<Rightarrow>
         if px_State p = StateCreating then
           (let (_, w) = os_RemoveAll (sv_pl sv) (configDir sv (px_ID p)) w;
                (e, w) = st_DeleteProxy (sv_pl sv) (WithoutCancel c) (px_ID p) w
            in (if e = None then rep\<lparr>rp_CleanedUp := rp_CleanedUp rep @ [px_ID p]\<rparr> else rep, w))
         else
           (let (r, w) = startContainer sv c p w
            in case r of
                 Inr _ \<Rightarrow> (rep\<lparr>rp_Restarted := rp_Restarted rep @ [px_ID p]\<rparr>, w)
               | Inl _ \<Rightarrow> (rep, w)))"

definition empty_report :: reconcile_report where
  "empty_report = \<lparr>rp_Orphans = [], rp_Restarted = [], rp_CleanedUp = []\<rparr>"

definition Reconcile :: "'r service \<Rightarrow> ctx \<Rightarrow> 'r world \<Rightarrow> reconcile_report res \<times> 'r world" where
  "Reconcile sv c w =
     (let (r, w) = st_ListProxies (sv_pl sv) c w in
      case r of
        Inl e \<Rightarrow> (Inl e, w)
      | Inr ps \<Rightarrow>
          (let (l, w) = call_rt (\<lambda>b. rt_List (sv_Runtime sv) b managed_filter) (sv_pl sv) c w
           in case l of
                Inl e \<Rightarrow> (Inl e, w)
              | Inr cs \<Rightarrow>
                  (let rep = empty_report\<lparr>rp_Orphans := map ci_ID (orphans_of ps cs)\<rparr>;
                       (rep, w) = fold (reconcile_row sv c cs) ps (rep, w)
                   in (Inr rep, w))))"

section \<open>Lemmas\<close>

lemma orphans_of_iff:
  "ci \<in> set (orphans_of ps cs) \<longleftrightarrow> ci \<in> set cs \<and> container_proxy ci \<notin> px_ID ` set ps"
  by (auto simp: orphans_of_def list_ex_iff image_iff)

lemma by_proxy_id_Some:
  "by_proxy_id cs pid = Some ci \<Longrightarrow> ci \<in> set cs \<and> container_proxy ci = pid"
  by (drule find_Some_key [of container_proxy pid "rev cs", folded by_proxy_id_def]) simp

lemma by_proxy_id_None:
  "by_proxy_id cs pid = None \<longleftrightarrow> pid \<notin> container_proxy ` set cs"
  by (auto simp: by_proxy_id_def find_None_iff)

text \<open>A listing of proxies names exactly the ids of the rows.\<close>

lemma listed_ids:
  assumes "db_wf (w_db w)" "st_ListProxies pl c w = (Inr ps, w')"
  shows "px_ID ` set ps = {k. rows w k \<noteq> None}" "p \<in> set ps \<Longrightarrow> rows w (px_ID p) = Some p"
    "distinct (map px_ID ps)"
proof -
  have ps: "set ps = ran (rows w)" "distinct (map px_ID ps)"
    using st_ListProxies_Inr [OF assms] by auto
  show "distinct (map px_ID ps)" by (rule ps(2))
  have id: "rows w k = Some p \<Longrightarrow> px_ID p = k" for k p by (rule proxies.ids_agree)
  show "p \<in> set ps \<Longrightarrow> rows w (px_ID p) = Some p"
    unfolding ps(1) ran_def using id by fastforce
  then show "px_ID ` set ps = {k. rows w k \<noteq> None}"
    using ps(1) id by (force simp: ran_def image_iff)
qed

lemma ListProxies_frames:
  "st_ListProxies pl c w = (r, w') \<Longrightarrow> w_db w' = w_db w \<and> w_rt w' = w_rt w \<and> w_fs w' = w_fs w"
  by (drule st_ListProxies_frame) (simp add: same_but_db_def)

context container_runtime
begin

lemma Orphans_Inr:
  assumes sv: "sv_Runtime sv = rt" and w: "inv (w_rt w)" "db_wf (w_db w)"
    and run: "Orphans sv c w = (Inr os, w')" and ci: "ci \<in> set os"
  shows "ctrs (w_rt w) (ci_ID ci) = Some (ci_Labels ci)"
    "labels_match managed_filter (ci_Labels ci)" "rows w (container_proxy ci) = None"
proof -
  obtain ps w1 cs where l: "st_ListProxies (sv_pl sv) c w = (Inr ps, w1)"
    "call_rt (\<lambda>b. rt_List rt b managed_filter) (sv_pl sv) c w1 = (Inr cs, w')" "os = orphans_of ps cs"
    using run unfolding Orphans_def sv by (auto split: prod.splits sum.splits)
  have i1: "inv (w_rt w1)" using ListProxies_frames [OF l(1)] w by simp
  have c: "ci \<in> set cs" "container_proxy ci \<notin> px_ID ` set ps"
    using ci l(3) by (simp_all add: orphans_of_iff)
  show "ctrs (w_rt w) (ci_ID ci) = Some (ci_Labels ci)" "labels_match managed_filter (ci_Labels ci)"
    using call_list [OF i1 l(2) c(1)] ListProxies_frames [OF l(1)] managed_filter_plain by simp_all
  show "rows w (container_proxy ci) = None"
    using c(2) unfolding listed_ids(1) [OF w(2) l(1)] by simp
qed

lemma Orphans_keeps:
  assumes sv: "sv_Runtime sv = rt" and w: "inv (w_rt w)" and run: "Orphans sv c w = (r, w')"
  shows "inv (w_rt w') \<and> ctrs (w_rt w') = ctrs (w_rt w) \<and> w_db w' = w_db w \<and> w_fs w' = w_fs w"
proof -
  obtain x w1 where l: "st_ListProxies (sv_pl sv) c w = (x, w1)" by fastforce
  note f1 = ListProxies_frames [OF l]
  obtain y w2 where l2: "call_rt (\<lambda>b. rt_List rt b managed_filter) (sv_pl sv) c w1 = (y, w2)" by fastforce
  have "inv (w_rt w1)" using f1 w by simp
  note k2 = call_keeps(8) [OF this l2] call_rt_frame [OF l2]
  have "w' = w1 \<or> w' = w2" using run l l2 unfolding Orphans_def sv by (auto split: sum.splits)
  then show ?thesis using f1 k2 w by (auto simp: same_but_rt_def)
qed

text \<open>Only a container that carries the panel's label and belongs to no row can be taken down.\<close>

lemma RemoveOrphan_effect:
  assumes sv: "sv_Runtime sv = rt" and w: "inv (w_rt w)" "db_wf (w_db w)"
    and run: "RemoveOrphan sv c cid w = (r, w')"
  shows "w_db w' = w_db w" "w_fs w' = w_fs w" "inv (w_rt w')"
    "ctrs (w_rt w) j = Some l \<Longrightarrow> j \<noteq> cid \<or> rows w (label_of l LabelProxyID) \<noteq> None \<or>
       label_of l LabelManaged \<noteq> ''true'' \<Longrightarrow> ctrs (w_rt w') j = Some l"
    "r = None \<Longrightarrow> ctrs (w_rt w') cid = None"
proof -
  obtain x w1 where o: "Orphans sv c w = (x, w1)" by fastforce
  note k1 = Orphans_keeps [OF sv w(1) o]
  have *: "w_db w' = w_db w \<and> w_fs w' = w_fs w \<and> inv (w_rt w') \<and>
    (ctrs (w_rt w) j = Some l \<longrightarrow> j \<noteq> cid \<or> rows w (label_of l LabelProxyID) \<noteq> None \<or>
       label_of l LabelManaged \<noteq> ''true'' \<longrightarrow> ctrs (w_rt w') j = Some l) \<and>
    (r = None \<longrightarrow> ctrs (w_rt w') cid = None)"
  proof (cases "\<exists>os. x = Inr os \<and> list_ex (\<lambda>ci. ci_ID ci = cid) os")
    case False
    then have "w' = w1 \<and> r \<noteq> None"
      using run o unfolding RemoveOrphan_def by (auto split: sum.splits if_splits)
    with k1 show ?thesis by auto
  next
    case True
    then obtain os ci where os: "x = Inr os" "list_ex (\<lambda>ci. ci_ID ci = cid) os" "ci \<in> set os" "ci_ID ci = cid"
      by (auto simp: list_ex_iff)
    have rm: "call_rt (\<lambda>b. rt_Remove rt b cid) (sv_pl sv) c w1 = (r, w')"
      using run o os(1,2) unfolding RemoveOrphan_def sv by simp
    note orphan = Orphans_Inr [OF sv w o [unfolded os(1)] os(3), unfolded os(4) container_proxy_def]
    have i1: "inv (w_rt w1)" using k1 by blast
    have "w_db w' = w_db w1" "w_fs w' = w_fs w1"
      using call_rt_frame [OF rm] by (simp_all add: same_but_rt_def)
    moreover have "label_of (ci_Labels ci) LabelManaged = ''true''"
      using orphan(2) by (simp add: labels_match_def managed_filter_def)
    ultimately show ?thesis
      using k1 orphan(1,3) call_remove(1,2,3) [OF i1 rm] by (cases "j = cid") auto
  qed
  show "w_db w' = w_db w" "w_fs w' = w_fs w" "inv (w_rt w')"
    "ctrs (w_rt w) j = Some l \<Longrightarrow> j \<noteq> cid \<or> rows w (label_of l LabelProxyID) \<noteq> None \<or>
       label_of l LabelManaged \<noteq> ''true'' \<Longrightarrow> ctrs (w_rt w') j = Some l"
    "r = None \<Longrightarrow> ctrs (w_rt w') cid = None"
    using * by blast+
qed

end

section \<open>What a pass does to one row\<close>

text \<open>The row of \<open>p\<close> after the pass: a row with a listed container keeps everything but its container
  id; an abandoned creation may go; any other row stays the same proxy on the same port.\<close>

definition row_reconciled :: "container_info list \<Rightarrow> proxy \<Rightarrow> proxy option \<Rightarrow> bool" where
  "row_reconciled cs p r \<longleftrightarrow>
     (case by_proxy_id cs (px_ID p) of
        Some ci \<Rightarrow> (\<exists>q. r = Some q \<and> (q = p \<or> same_proxy (p\<lparr>px_ContainerID := ci_ID ci\<rparr>) q))
      | None \<Rightarrow>
          if px_State p = StateCreating then r = None \<or> r = Some p
          else (\<exists>q. r = Some q \<and> same_identity p q \<and> place q = place p))"

text \<open>What the report may claim in a given world.\<close>

definition report_true :: "('r \<Rightarrow> string \<rightharpoonup> labels) \<Rightarrow> reconcile_report \<Rightarrow> 'r world \<Rightarrow> bool" where
  "report_true ctrs rep w \<longleftrightarrow>
     (\<forall>k \<in> set (rp_CleanedUp rep). rows w k = None) \<and>
     (\<forall>k \<in> set (rp_Restarted rep). \<exists>q. rows w k = Some q \<and>
        px_State q \<in> {StateRunning, StateError} \<and> ctrs (w_rt w) (px_ContainerID q) = Some (managed_labels k))"

context container_runtime
begin

lemma reconcile_row_effect:
  assumes sv: "sv_Runtime sv = rt" and w: "inv (w_rt w)" "db_wf (w_db w)"
    and row: "rows w (px_ID p) = Some p"
    and run: "reconcile_row sv c cs p (rep, w) = (rep', w')"
  shows "undisturbed sv ctrs inv (px_ID p) w w'" "row_reconciled cs p (rows w' (px_ID p))"
    "rep' = rep \<or>
     (rep' = rep\<lparr>rp_CleanedUp := rp_CleanedUp rep @ [px_ID p]\<rparr> \<and> rows w' (px_ID p) = None) \<or>
     (rep' = rep\<lparr>rp_Restarted := rp_Restarted rep @ [px_ID p]\<rparr> \<and> (\<exists>q. rows w' (px_ID p) = Some q \<and>
        px_State q \<in> {StateRunning, StateError} \<and>
        ctrs (w_rt w') (px_ContainerID q) = Some (managed_labels (px_ID p))))"
proof -
  have u0: "undisturbed sv ctrs inv (px_ID p) w w" using w by (simp add: undisturbed_def)
  have "undisturbed sv ctrs inv (px_ID p) w w' \<and> row_reconciled cs p (rows w' (px_ID p)) \<and>
    (rep' = rep \<or>
     (rep' = rep\<lparr>rp_CleanedUp := rp_CleanedUp rep @ [px_ID p]\<rparr> \<and> rows w' (px_ID p) = None) \<or>
     (rep' = rep\<lparr>rp_Restarted := rp_Restarted rep @ [px_ID p]\<rparr> \<and> (\<exists>q. rows w' (px_ID p) = Some q \<and>
        px_State q \<in> {StateRunning, StateError} \<and>
        ctrs (w_rt w') (px_ContainerID q) = Some (managed_labels (px_ID p)))))"
  proof (cases "by_proxy_id cs (px_ID p)")
    case (Some ci)
    let ?p = "p\<lparr>px_ContainerID := ci_ID ci\<rparr>"
    show ?thesis
    proof (cases "px_ContainerID p = ci_ID ci")
      case True
      then have "w' = w" "rep' = rep" using run Some by (simp_all add: reconcile_row_def)
      then show ?thesis using u0 row Some by (simp add: row_reconciled_def)
    next
      case False
      obtain e w1 where up: "st_UpdateProxy (sv_pl sv) c ?p w = (e, w1)" by fastforce
      have eq: "w' = w1" "rep' = rep" using run Some False up by (simp_all add: reconcile_row_def)
      have row': "rows w (px_ID ?p) = Some p" using row by simp
      obtain q where "rows w1 (px_ID ?p) = Some q" "q = p \<or> same_proxy ?p q"
        by (rule update_row [OF w(2) up row'])
      moreover have "undisturbed sv ctrs inv (px_ID p) w w1"
        by (rule undisturbed_db [OF u0 st_UpdateProxy_frame [OF up] wf_after(2) [OF w(2) up]])
          (use others_after(2) [OF w(2) up] in simp)
      ultimately show ?thesis using eq Some by (simp add: row_reconciled_def)
    qed
  next
    case None
    show ?thesis
    proof (cases "px_State p = StateCreating")
      case True
      obtain x w1 where ra: "os_RemoveAll (sv_pl sv) (configDir sv (px_ID p)) w = (x, w1)" by fastforce
      obtain e w2 where de: "st_DeleteProxy (sv_pl sv) (WithoutCancel c) (px_ID p) w1 = (e, w2)" by fastforce
      have eq: "w' = w2" "rep' = (if e = None then rep\<lparr>rp_CleanedUp := rp_CleanedUp rep @ [px_ID p]\<rparr> else rep)"
        using run None True ra de by (auto simp: reconcile_row_def)
      have u1: "undisturbed sv ctrs inv (px_ID p) w w1"
        by (rule undisturbed_fs [OF u0 fs_frames(8) [OF ra]]) (use RemoveAll_outside [OF ra] in simp)
      have f1: "w_db w1 = w_db w" using fs_frames(8) [OF ra] by (simp add: same_but_fs_def)
      have wf1: "db_wf (w_db w1)" using w f1 by simp
      have "undisturbed sv ctrs inv (px_ID p) w w2"
        by (rule undisturbed_db [OF u1 st_DeleteProxy_frame [OF de] wf_after(3) [OF wf1 de]])
          (use others_after(3) [OF wf1 de] in simp)
      moreover have "rows w2 (px_ID p) = (if e = None then None else Some p)"
        using st_DeleteProxy_None(3) [OF wf1, of "sv_pl sv" "WithoutCancel c" "px_ID p" w2]
          st_DeleteProxy_Some [of "sv_pl sv" "WithoutCancel c" "px_ID p" w1 _ w2] de f1 row
        by (cases e) auto
      ultimately show ?thesis using eq None True by (simp add: row_reconciled_def)
    next
      case False
      obtain r w1 where st: "startContainer sv c p w = (r, w1)" by fastforce
      have eq: "w' = w1" "rep' = (case r of Inr _ \<Rightarrow> rep\<lparr>rp_Restarted := rp_Restarted rep @ [px_ID p]\<rparr> | Inl _ \<Rightarrow> rep)"
        using run None False st by (auto simp: reconcile_row_def split: sum.splits)
      have u1: "undisturbed sv ctrs inv (px_ID p) w w1"
        by (rule startContainer_undisturbed [OF sv u0 row refl st])
      obtain q where q: "rows w1 (px_ID p) = Some q" "q = p \<or> (same_identity p q \<and> place q = place p)"
        by (rule startContainer_row [OF sv w row st])
      have rep: "rep' = rep \<or> (rep' = rep\<lparr>rp_Restarted := rp_Restarted rep @ [px_ID p]\<rparr> \<and>
        (\<exists>q. rows w1 (px_ID p) = Some q \<and> px_State q \<in> {StateRunning, StateError} \<and>
          ctrs (w_rt w1) (px_ContainerID q) = Some (managed_labels (px_ID p))))"
      proof (cases r)
        case (Inl e)
        then show ?thesis using eq by simp
      next
        case (Inr p1)
        obtain e i q' where "p1 = set_outcome e (p\<lparr>px_ContainerID := i\<rparr>)"
          "ctrs (w_rt w1) = (ctrs (w_rt w))(i \<mapsto> managed_labels (px_ID p))"
          "same_proxy p1 q'" "rows w1 = (rows w)(px_ID p \<mapsto> q')"
          using startContainer_ok [OF sv w row refl st [unfolded Inr]] by blast
        then show ?thesis using eq Inr by (simp add: same_proxy_fields set_outcome_state)
      qed
      have "row_reconciled cs p (rows w1 (px_ID p))"
        using q None False by (auto simp: row_reconciled_def)
      then show ?thesis using eq(1) u1 rep by blast
    qed
  qed
  then show "undisturbed sv ctrs inv (px_ID p) w w'" "row_reconciled cs p (rows w' (px_ID p))"
    "rep' = rep \<or>
     (rep' = rep\<lparr>rp_CleanedUp := rp_CleanedUp rep @ [px_ID p]\<rparr> \<and> rows w' (px_ID p) = None) \<or>
     (rep' = rep\<lparr>rp_Restarted := rp_Restarted rep @ [px_ID p]\<rparr> \<and> (\<exists>q. rows w' (px_ID p) = Some q \<and>
        px_State q \<in> {StateRunning, StateError} \<and>
        ctrs (w_rt w') (px_ContainerID q) = Some (managed_labels (px_ID p))))"
    by blast+
qed

text \<open>All rows, one after the other.\<close>

lemma reconcile_rows_effect:
  assumes sv: "sv_Runtime sv = rt" and w: "inv (w_rt w)" "db_wf (w_db w)"
    and ps: "distinct (map px_ID ps)" "\<And>p. p \<in> set ps \<Longrightarrow> rows w (px_ID p) = Some p"
    and rep: "report_true ctrs rep w" "set (rp_CleanedUp rep) \<inter> px_ID ` set ps = {}"
      "set (rp_Restarted rep) \<inter> px_ID ` set ps = {}"
    and run: "fold (reconcile_row sv c cs) ps (rep, w) = (rep', w')"
  shows "inv (w_rt w') \<and> db_wf (w_db w') \<and>
    (\<forall>j l. ctrs (w_rt w) j = Some l \<longrightarrow> ctrs (w_rt w') j = Some l) \<and>
    (\<forall>k. k \<notin> px_ID ` set ps \<longrightarrow> rows w' k = rows w k) \<and>
    (\<forall>p \<in> set ps. row_reconciled cs p (rows w' (px_ID p))) \<and>
    report_true ctrs rep' w' \<and> rp_Orphans rep' = rp_Orphans rep"
  using w ps rep run
proof (induction ps arbitrary: rep w)
  case Nil
  then show ?case by simp
next
  case (Cons p ps)
  obtain rep1 w1 where step: "reconcile_row sv c cs p (rep, w) = (rep1, w1)" by fastforce
  have row: "rows w (px_ID p) = Some p" using Cons.prems(4) by simp
  note e = reconcile_row_effect [OF sv Cons.prems(1,2) row step]
  have w1: "inv (w_rt w1)" "db_wf (w_db w1)"
    "\<And>k. k \<noteq> px_ID p \<Longrightarrow> rows w1 k = rows w k"
    "\<And>j l. ctrs (w_rt w) j = Some l \<Longrightarrow> ctrs (w_rt w1) j = Some l"
    using e(1) by (simp_all add: undisturbed_def)
  have ne: "px_ID q \<noteq> px_ID p" if "q \<in> set ps" for q using Cons.prems(3) that by (auto simp: image_iff)
  have rows1: "\<And>q. q \<in> set ps \<Longrightarrow> rows w1 (px_ID q) = Some q"
    using Cons.prems(4) w1(3) ne by simp
  have old: "report_true ctrs rep w1"
  proof -
    have "k \<noteq> px_ID p" if "k \<in> set (rp_CleanedUp rep) \<union> set (rp_Restarted rep)" for k
      using that Cons.prems(6,7) by auto
    then have "rows w1 k = rows w k" if "k \<in> set (rp_CleanedUp rep) \<union> set (rp_Restarted rep)" for k
      using that w1(3) by blast
    then show ?thesis using Cons.prems(5) w1(4) unfolding report_true_def by (metis UnCI)
  qed
  have rep1: "report_true ctrs rep1 w1" "set (rp_CleanedUp rep1) \<inter> px_ID ` set ps = {}"
    "set (rp_Restarted rep1) \<inter> px_ID ` set ps = {}" "rp_Orphans rep1 = rp_Orphans rep"
    using e(3) old Cons.prems(6,7) ne unfolding report_true_def by auto
  have run1: "fold (reconcile_row sv c cs) ps (rep1, w1) = (rep', w')" using Cons.prems(8) step by simp
  have dist: "distinct (map px_ID ps)" using Cons.prems(3) by simp
  note ih = Cons.IH [OF w1(1,2) dist rows1 rep1(1-3) run1]
  have "rows w' (px_ID p) = rows w1 (px_ID p)"
    using ih Cons.prems(3) by (auto simp: image_iff)
  then show ?case using ih e(2) w1(3,4) rep1(4) by auto
qed

end

section \<open>A whole pass\<close>

lemma report_true_empty: "report_true ctrs (empty_report\<lparr>rp_Orphans := os\<rparr>) w"
  by (simp add: report_true_def empty_report_def)

context container_runtime
begin

lemma Reconcile_effect:
  assumes sv: "sv_Runtime sv = rt" and w: "inv (w_rt w)" "db_wf (w_db w)"
    and run: "Reconcile sv c w = (Inr rep, w')"
  obtains cs w1 w2 where "call_rt (\<lambda>b. rt_List rt b managed_filter) (sv_pl sv) c w1 = (Inr cs, w2)"
    "w_rt w1 = w_rt w"
    "\<And>k p. rows w k = Some p \<Longrightarrow> row_reconciled cs p (rows w' k)"
    "\<And>k. rows w k = None \<Longrightarrow> rows w' k = None"
    "\<And>j l. ctrs (w_rt w) j = Some l \<Longrightarrow> ctrs (w_rt w') j = Some l"
    "rp_Orphans rep = map ci_ID (filter (\<lambda>ci. rows w (container_proxy ci) = None) cs)"
    "report_true ctrs rep w'" "inv (w_rt w')" "db_wf (w_db w')"
proof -
  obtain ps w1 cs w2 where l: "st_ListProxies (sv_pl sv) c w = (Inr ps, w1)"
    "call_rt (\<lambda>b. rt_List rt b managed_filter) (sv_pl sv) c w1 = (Inr cs, w2)"
    and fold: "fold (reconcile_row sv c cs) ps (empty_report\<lparr>rp_Orphans := map ci_ID (orphans_of ps cs)\<rparr>, w2)
      = (rep, w')"
    using run unfolding Reconcile_def sv Let_def by (auto split: prod.splits sum.splits)
  note f1 = ListProxies_frames [OF l(1)] and ids = listed_ids [OF w(2) l(1)]
  have i1: "inv (w_rt w1)" using f1 w by simp
  note k2 = call_keeps(8) [OF i1 l(2)]
  have f2: "w_db w2 = w_db w" "ctrs (w_rt w2) = ctrs (w_rt w)" "inv (w_rt w2)"
    using call_rt_frame [OF l(2)] k2 f1 by (simp_all add: same_but_rt_def)
  have wf2: "db_wf (w_db w2)" and rows2: "\<And>p. p \<in> set ps \<Longrightarrow> rows w2 (px_ID p) = Some p"
    using w(2) f2(1) ids(2) by simp_all
  have e: "inv (w_rt w') \<and> db_wf (w_db w') \<and>
    (\<forall>j l. ctrs (w_rt w2) j = Some l \<longrightarrow> ctrs (w_rt w') j = Some l) \<and>
    (\<forall>k. k \<notin> px_ID ` set ps \<longrightarrow> rows w' k = rows w2 k) \<and>
    (\<forall>p \<in> set ps. row_reconciled cs p (rows w' (px_ID p))) \<and>
    report_true ctrs rep w' \<and>
    rp_Orphans rep = rp_Orphans (empty_report\<lparr>rp_Orphans := map ci_ID (orphans_of ps cs)\<rparr>)"
    by (rule reconcile_rows_effect [OF sv f2(3) wf2 ids(3) rows2 report_true_empty _ _ fold])
      (simp_all add: empty_report_def)
  have known: "k \<in> px_ID ` set ps \<longleftrightarrow> rows w k \<noteq> None" for k unfolding ids(1) by simp
  have orph: "orphans_of ps cs = filter (\<lambda>ci. rows w (container_proxy ci) = None) cs"
    unfolding orphans_of_def
  proof (rule filter_cong [OF refl])
    fix ci
    have "list_ex (\<lambda>p. px_ID p = container_proxy ci) ps \<longleftrightarrow> container_proxy ci \<in> px_ID ` set ps"
      unfolding list_ex_iff image_iff by metis
    then show "(\<not> list_ex (\<lambda>p. px_ID p = container_proxy ci) ps) = (rows w (container_proxy ci) = None)"
      using known [of "container_proxy ci"] by simp
  qed
  show thesis
  proof (rule that [OF l(2)])
    show "w_rt w1 = w_rt w" using f1 by simp
    show "row_reconciled cs p (rows w' k)" if "rows w k = Some p" for k p
    proof -
      have "px_ID p = k" using that by (rule proxies.ids_agree)
      moreover have "k \<in> px_ID ` set ps" using that known by simp
      then obtain q where "q \<in> set ps" "px_ID q = k" by auto
      with ids(2) that have "p \<in> set ps" by (metis option.inject)
      ultimately show ?thesis using e by blast
    qed
    show "rows w' k = None" if "rows w k = None" for k
      using that e known f2(1) by auto
    show "rp_Orphans rep = map ci_ID (filter (\<lambda>ci. rows w (container_proxy ci) = None) cs)"
      using e by (simp add: orph)
  qed (use e f2 in simp_all)
qed

lemma Reconcile_failed:
  assumes sv: "sv_Runtime sv = rt" and w: "inv (w_rt w)" and run: "Reconcile sv c w = (Inl e, w')"
  shows "w_db w' = w_db w \<and> w_fs w' = w_fs w \<and> inv (w_rt w') \<and> ctrs (w_rt w') = ctrs (w_rt w)"
proof -
  obtain x w1 where l: "st_ListProxies (sv_pl sv) c w = (x, w1)" by fastforce
  note f1 = ListProxies_frames [OF l]
  obtain y w2 where l2: "call_rt (\<lambda>b. rt_List rt b managed_filter) (sv_pl sv) c w1 = (y, w2)" by fastforce
  have "inv (w_rt w1)" using f1 w by simp
  note k2 = call_keeps(8) [OF this l2] call_rt_frame [OF l2]
  have "w' = w1 \<or> w' = w2"
    using run l l2 unfolding Reconcile_def sv by (auto simp: Let_def split: sum.splits prod.splits)
  then show ?thesis using f1 k2 w by (auto simp: same_but_rt_def)
qed

end

context complete_listing
begin

text \<open>With a complete listing, a row that owns a container is never given up or rebuilt.\<close>

lemma Reconcile_owned:
  assumes sv: "sv_Runtime sv = rt" and w: "inv (w_rt w)" "db_wf (w_db w)"
    and run: "Reconcile sv c w = (Inr rep, w')"
    and row: "rows w k = Some p" and own: "ctrs (w_rt w) i = Some l"
      "label_of l LabelManaged = ''true''" "label_of l LabelProxyID = k"
  shows "\<exists>q j. rows w' k = Some q \<and> (q = p \<or> same_proxy (p\<lparr>px_ContainerID := j\<rparr>) q)"
proof -
  obtain cs w1 w2 where list: "call_rt (\<lambda>b. rt_List rt b managed_filter) (sv_pl sv) c w1 = (Inr cs, w2)"
    "w_rt w1 = w_rt w" and rec: "\<And>k p. rows w k = Some p \<Longrightarrow> row_reconciled cs p (rows w' k)"
    by (rule Reconcile_effect [OF sv w run]) blast
  have "labels_match managed_filter l" using own(2) by (simp add: labels_match_def managed_filter_def)
  moreover have i1: "inv (w_rt w1)" "ctrs (w_rt w1) i = Some l" using w list(2) own by simp_all
  ultimately obtain ci where ci: "ci \<in> set cs" "ci_ID ci = i"
    using list_complete [OF i1(1) call_rt_D [OF list(1)] i1(2)] by blast
  have "ci_Labels ci = l"
    using call_list(1) [OF i1(1) list(1) ci(1)] i1(2) ci(2) by simp
  then have "container_proxy ci = k" using own(3) by (simp add: container_proxy_def)
  then have "by_proxy_id cs k \<noteq> None" using ci(1) by (auto simp: by_proxy_id_None)
  then obtain cj where "by_proxy_id cs (px_ID p) = Some cj"
    using proxies.ids_agree [OF row] by auto
  then show ?thesis using rec [OF row] by (auto simp: row_reconciled_def)
qed

end

end
