(* ===== verification/Panel.thy ===== *)
theory Panel imports Reconcile begin

text \<open>
  The panel as a whole: any sequence of the service's operations, by any callers with any contexts,
  with time passing and restarts in between, as a step relation over worlds; and the invariant that
  every reachable world satisfies. The invariant spans the store, the service, the configuration and
  the link builder.
\<close>

section \<open>Steps\<close>

text \<open>An operation of the service, of the kinds that the web handlers, the poller and \<open>main\<close> call.
  \<open>Sessions\<close> stands for the statements on the admin and session tables, which leave the proxies
  alone.\<close>

inductive panel_step :: "'r service \<Rightarrow> 'r world \<Rightarrow> 'r world \<Rightarrow> bool" for sv where
  create: "Create sv c req w = (r, w') \<Longrightarrow> panel_step sv w w'"
| delete: "Delete sv c pid w = (e, w') \<Longrightarrow> panel_step sv w w'"
| limits: "UpdateLimits sv c pid lp w = (r, w') \<Longrightarrow> panel_step sv w w'"
| recreate: "Recreate sv c pid port dn w = (r, w') \<Longrightarrow> panel_step sv w w'"
| orphan: "RemoveOrphan sv c cid w = (e, w') \<Longrightarrow> panel_step sv w w'"
| reconcile: "Reconcile sv c w = (rr, w') \<Longrightarrow> panel_step sv w w'"
| sessions: "w' = w\<lparr>w_db := d\<rparr> \<Longrightarrow> t_proxies d = t_proxies (w_db w) \<Longrightarrow> db_wf d \<Longrightarrow> panel_step sv w w'"
| idle: "w_clock w \<le> t \<Longrightarrow> panel_step sv w (w\<lparr>w_clock := t, w_tick := n\<rparr>)"

inductive_cases panel_stepE: "panel_step sv w w'"

definition reachable :: "'r service \<Rightarrow> 'r world \<Rightarrow> 'r world \<Rightarrow> bool" where
  "reachable sv w0 w \<longleftrightarrow> (panel_step sv)\<^sup>*\<^sup>* w0 w"

text \<open>What the random sources promise: as many bytes as asked for, and UUIDs that are plain names.\<close>

definition honest_random :: "platform \<Rightarrow> bool" where
  "honest_random pl \<longleftrightarrow>
     (\<forall>t n b. pl_rand pl t n = Inr b \<longrightarrow> length b = n) \<and> (\<forall>t. plain_name (pl_uuid pl t))"

section \<open>The invariant\<close>

definition good_proxy :: "'r service \<Rightarrow> proxy \<Rightarrow> bool" where
  "good_proxy sv p \<longleftrightarrow>
     plain_name (px_ID p) \<and> port_allowed sv (px_Port p) \<and> px_TLSDomain p \<noteq> '''' \<and>
     length (px_Secret p) = 32 \<and> (\<forall>c \<in> set (px_Secret p). is_hex c) \<and> length (px_APIToken p) = 64"

definition panel_inv :: "'r service \<Rightarrow> ('r \<Rightarrow> bool) \<Rightarrow> 'r world \<Rightarrow> bool" where
  "panel_inv sv good w \<longleftrightarrow>
     good (w_rt w) \<and> db_wf (w_db w) \<and> (\<forall>k p. rows w k = Some p \<longrightarrow> good_proxy sv p)"

lemma good_evolves:
  assumes "good_proxy sv p" "same_identity p q" "px_Port q = px_Port p \<or> port_allowed sv (px_Port q)"
    "px_TLSDomain q = px_TLSDomain p \<or> px_TLSDomain q \<noteq> ''''"
  shows "good_proxy sv q"
  using assms by (auto simp: good_proxy_def same_identity_def)

lemma good_new_proxy:
  assumes "honest_random (sv_pl sv)" "pl_rand (sv_pl sv) t 16 = Inr b" "pl_rand (sv_pl sv) t' 32 = Inr b'"
    "port_allowed sv (cr_Port req)" "cr_TLSDomain req \<noteq> ''''"
  shows "good_proxy sv (new_proxy req (hex_Encode b) (hex_Encode b') (pl_uuid (sv_pl sv) u))"
proof -
  have "length b = 16" "length b' = 32" "plain_name (pl_uuid (sv_pl sv) u)"
    using assms(1-3) unfolding honest_random_def by blast+
  moreover have "\<forall>c \<in> set (hex_Encode b). is_hex c"
    using hex_Encode_lower is_lower_hex_is_hex by blast
  ultimately show ?thesis using assms(4,5) by (simp add: good_proxy_def new_proxy_def)
qed

section \<open>A creation leaves at most its own row\<close>

text \<open>Whatever a creation leaves under its id is the proxy it set out to create.\<close>

definition own_row :: "proxy \<Rightarrow> 'r world \<Rightarrow> bool" where
  "own_row p w \<longleftrightarrow> db_wf (w_db w) \<and>
     (\<forall>q. rows w (px_ID p) = Some q \<longrightarrow> same_identity p q \<and> place q = place p)"

lemma own_row_same: "own_row p w \<Longrightarrow> w_db w' = w_db w \<Longrightarrow> own_row p w'"
  by (simp add: own_row_def)

lemma own_row_undo: "own_row p w \<Longrightarrow> own_row p (run_undo sv c u w)"
proof (cases u)
  case (UndoRow k)
  assume own: "own_row p w"
  obtain e w' where d: "st_DeleteProxy (sv_pl sv) (WithoutCancel c) k w = (e, w')" by fastforce
  have wf: "db_wf (w_db w)" using own by (simp add: own_row_def)
  have "db_wf (w_db w')" by (rule wf_after(3) [OF wf d])
  moreover have "rows w' j = rows w j \<or> rows w' j = None" for j
    using others_after(3) [OF wf d, of j] st_DeleteProxy_None(3) [OF wf, of "sv_pl sv" "WithoutCancel c" k w']
      st_DeleteProxy_Some [of "sv_pl sv" "WithoutCancel c" k w _ w'] d by (cases e) auto
  ultimately show ?thesis using own d UndoRow by (simp add: own_row_def) (metis option.distinct(1))
next
  case (UndoDir d)
  assume "own_row p w"
  then show ?thesis
    using UndoDir fs_frames(8) [of "sv_pl sv" d w]
    by (cases "os_RemoveAll (sv_pl sv) d w") (auto simp: same_but_fs_def intro: own_row_same)
next
  case (UndoContainer i)
  assume "own_row p w"
  then show ?thesis
    using UndoContainer call_rt_frame [of "\<lambda>b. rt_Remove (sv_Runtime sv) b i" "sv_pl sv" "WithoutCancel c" w]
    by (cases "call_rt (\<lambda>b. rt_Remove (sv_Runtime sv) b i) (sv_pl sv) (WithoutCancel c) w")
      (auto simp: same_but_rt_def intro: own_row_same)
qed

lemma own_row_rollback: "own_row p w \<Longrightarrow> own_row p (rollback sv c us w)"
  by (induction us arbitrary: w rule: rev_induct) (simp_all add: own_row_undo)

lemma own_row_update:
  assumes own: "own_row p w" and up: "st_UpdateProxy pl c q w = (e, w')"
    and q: "same_identity p q" "place q = place p"
  shows "own_row p w'"
proof -
  have wf: "db_wf (w_db w)" using own by (simp add: own_row_def)
  have id: "px_ID q = px_ID p" using q by (simp add: same_identity_def)
  show ?thesis
  proof (cases e)
    case None
    obtain old :: proxy where "rows w' = (rows w)(px_ID q \<mapsto>
        q\<lparr>px_CreatedAt := px_CreatedAt old, px_UpdatedAt := stored_time (w_clock w)\<rparr>)"
      by (rule st_UpdateProxy_None [OF wf up [unfolded None]])
    then show ?thesis
      using wf_after(2) [OF wf up] q id by (simp add: own_row_def same_identity_def place_def)
  next
    case (Some x)
    then show ?thesis using own st_UpdateProxy_Some [OF up [unfolded Some]] own_row_same by blast
  qed
qed

lemma own_row_finish:
  assumes own: "own_row p w" and run: "create_finish sv c q w = (r, w')"
    and q: "same_identity p q" "place q = place p"
  shows "own_row p w'"
proof -
  obtain e w1 where wait: "waitHealthy sv c q w = (e, w1)" by fastforce
  have "own_row p w1"
    using waitHealthy_frame [OF wait] own by (auto simp: same_but_rt_def intro: own_row_same)
  moreover obtain x w2 where up: "st_UpdateProxy (sv_pl sv) (WithoutCancel c) (set_outcome e q) w1 = (x, w2)"
    by fastforce
  moreover have "w' = w2" using run wait up by (auto simp: create_finish_def split: option.splits)
  moreover have "same_identity p (set_outcome e q)" "place (set_outcome e q) = place p"
    using q by (simp_all add: same_identity_def place_def)
  ultimately show ?thesis using own_row_update by blast
qed

lemma own_row_container:
  assumes own: "own_row p w" and run: "create_container sv c us p w = (r, w')"
  shows "own_row p w'"
proof -
  obtain x w1 where cr: "call_rt (\<lambda>b. rt_Create (sv_Runtime sv) b (container_spec_of sv p)) (sv_pl sv) c w = (x, w1)"
    by fastforce
  have own1: "own_row p w1"
    using call_rt_frame [OF cr] own by (auto simp: same_but_rt_def intro: own_row_same)
  show ?thesis
  proof (cases x)
    case (Inl e)
    then show ?thesis using run cr own_row_rollback [OF own1] by (auto simp: create_container_def)
  next
    case (Inr i)
    obtain y w2 where st: "call_rt (\<lambda>b. rt_Start (sv_Runtime sv) b i) (sv_pl sv) c w1 = (y, w2)" by fastforce
    have own2: "own_row p w2"
      using call_rt_frame [OF st] own1 by (auto simp: same_but_rt_def intro: own_row_same)
    show ?thesis
    proof (cases y)
      case None
      then have "create_finish sv c (p\<lparr>px_ContainerID := i\<rparr>) w2 = (r, w')"
        using run cr st Inr by (simp add: create_container_def Let_def)
      from own_row_finish [OF own2 this] show ?thesis by (simp add: same_identity_def place_def)
    next
      case (Some e)
      then have "w' = rollback sv c (us @ [UndoContainer i]) w2"
        using run cr st Inr by (auto simp add: create_container_def Let_def)
      then show ?thesis using own_row_rollback [OF own2] by blast
    qed
  qed
qed

lemma own_row_prepare:
  assumes own: "own_row p w" and run: "create_prepare sv c us p w = (r, w')"
  shows "own_row p w'"
proof -
  obtain x w1 where n: "call_rt (\<lambda>b. rt_EnsureNetwork (sv_Runtime sv) b (cf_Network (sv_Cfg sv))
      (cf_NetworkSubnet (sv_Cfg sv))) (sv_pl sv) c w = (x, w1)" by fastforce
  obtain y w2 where pu: "call_rt (\<lambda>b. rt_Pull (sv_Runtime sv) b (cf_TelemtImage (sv_Cfg sv))) (sv_pl sv) c w1
      = (y, w2)" by fastforce
  have own12: "own_row p w1" "own_row p w2"
    using call_rt_frame [OF n] call_rt_frame [OF pu] own by (auto simp: same_but_rt_def intro: own_row_same)
  consider "w' = rollback sv c us w1" | "w' = rollback sv c us w2"
    | "create_container sv c us p w2 = (r, w')"
    using run n pu by (cases x; cases y) (auto simp: create_prepare_def)
  then show ?thesis
    using own_row_rollback own12 own_row_container by cases blast+
qed

lemma own_row_claim:
  assumes wf: "db_wf (w_db w)" and run: "create_claim sv c p w = (r, w')"
  shows "rows w (px_ID p) = None \<Longrightarrow> own_row p w'"
    and "rows w (px_ID p) \<noteq> None \<Longrightarrow> w_db w' = w_db w"
proof -
  obtain x w1 where cl: "st_CreateProxy (sv_pl sv) c p w = (x, w1)" by fastforce
  have refused: "w_db w' = w_db w" if "x = Some e" for e
    using run cl st_CreateProxy_Some [OF cl [unfolded that]] that by (simp add: create_claim_def)
  show "w_db w' = w_db w" if "rows w (px_ID p) \<noteq> None"
    using refused st_CreateProxy_None(2) [OF wf] cl that by (cases x) auto
  show "own_row p w'" if none: "rows w (px_ID p) = None"
  proof (cases x)
    case (Some e)
    then show ?thesis using refused wf none by (simp add: own_row_def)
  next
    case None
    note c1 = st_CreateProxy_None [OF wf cl [unfolded None]]
    have own1: "own_row p w1" using c1(1,3) by (simp add: own_row_def same_identity_def place_def)
    obtain y w2 where wc: "writeConfig sv p w1 = (y, w2)" by fastforce
    have own2: "own_row p w2"
      using writeConfig_frame [OF wc] own1 by (auto simp: same_but_fs_def intro: own_row_same)
    consider "w' = rollback sv c [UndoRow (px_ID p)] w2"
      | "create_prepare sv c [UndoRow (px_ID p), UndoDir (configDir sv (px_ID p))] p w2 = (r, w')"
      using run cl wc None by (cases y) (auto simp: create_claim_def Let_def)
    then show ?thesis using own_row_rollback [OF own2] own_row_prepare [OF own2] by cases blast+
  qed
qed

section \<open>Every step keeps the invariant\<close>

context container_runtime
begin

lemma Create_undisturbed:
  assumes sv: "sv_Runtime sv = rt" and w: "inv (w_rt w)" "db_wf (w_db w)"
    and plain: "\<forall>t. plain_name (pl_uuid (sv_pl sv) t)" and run: "Create sv c req w = (r, w')"
  shows "\<exists>pid. undisturbed sv ctrs inv pid w w'"
proof (cases rule: Create_cases [OF run, case_names early claim])
  case (early e)
  then show ?thesis using w by (auto simp: undisturbed_def)
next
  case (claim w4 sec tok t t' t1 t2)
  let ?p = "new_proxy req (hex_Encode sec) (hex_Encode tok) (pl_uuid (sv_pl sv) t)"
  have "plain_name (px_ID ?p)" using plain by (simp add: new_proxy_def)
  moreover have "inv (w_rt w4)" "db_wf (w_db w4)" using w claim(2,3) by simp_all
  ultimately have "undisturbed sv ctrs inv (px_ID ?p) w4 w'"
    using create_claim_undisturbed [OF sv _ _ _ claim(1)] by blast
  then have "undisturbed sv ctrs inv (px_ID ?p) w w'"
    using claim(2-4) by (simp add: undisturbed_def)
  then show ?thesis ..
qed

lemma Create_inv:
  assumes sv: "sv_Runtime sv = rt" and rnd: "honest_random (sv_pl sv)"
    and w: "panel_inv sv inv w" and run: "Create sv c req w = (r, w')"
  shows "panel_inv sv inv w'" "rows w k = Some p \<Longrightarrow> rows w' k = Some p"
proof -
  have wf: "inv (w_rt w)" "db_wf (w_db w)" using w by (simp_all add: panel_inv_def)
  have "panel_inv sv inv w' \<and> (rows w k = Some p \<longrightarrow> rows w' k = Some p)"
  proof (cases rule: Create_cases [OF run, case_names early claim])
    case (early e)
    then show ?thesis using w by (simp add: panel_inv_def)
  next
    case (claim w4 sec tok t t' t1 t2)
    let ?p = "new_proxy req (hex_Encode sec) (hex_Encode tok) (pl_uuid (sv_pl sv) t)"
    have plain: "plain_name (px_ID ?p)" using rnd by (simp add: new_proxy_def honest_random_def)
    have w4: "inv (w_rt w4)" "db_wf (w_db w4)" using wf claim(2,3) by simp_all
    have allowed: "port_allowed sv (cr_Port req)"
      using claim(6) by (simp add: CheckPort_None_iff port_allowed_def)
    note u = create_claim_undisturbed [OF sv w4 plain claim(1)]
    note own = own_row_claim [OF w4(2) claim(1)]
    have others: "rows w' k = rows w k" if "k \<noteq> px_ID ?p" for k
      using u that claim(2) by (simp add: undisturbed_def)
    have good: "good_proxy sv q" if "rows w' (px_ID ?p) = Some q" for q
    proof (cases "rows w (px_ID ?p)")
      case None
      then have "same_identity ?p q \<and> place q = place ?p"
        using own(1) that claim(2) by (simp add: own_row_def)
      then show ?thesis
        using good_evolves [of sv ?p q] good_new_proxy [OF rnd _ _ allowed claim(5)] claim(7,8)
        by (simp add: place_def)
    next
      case (Some q')
      then have "w_db w' = w_db w" using own(2) claim(2) by simp
      then show ?thesis using that w by (simp add: panel_inv_def)
    qed
    have "good_proxy sv q" if "rows w' k = Some q" for k q
      using that good others [of k] w by (cases "k = px_ID ?p") (auto simp: panel_inv_def)
    moreover have "inv (w_rt w')" "db_wf (w_db w')" using u by (simp_all add: undisturbed_def)
    moreover have "rows w' k = Some p" if "rows w k = Some p"
    proof (cases "k = px_ID ?p")
      case True
      then have "w_db w' = w_db w" using own(2) claim(2) that by simp
      then show ?thesis using that by simp
    qed (use others that in simp)
    ultimately show ?thesis by (simp add: panel_inv_def)
  qed
  then show "panel_inv sv inv w'" "rows w k = Some p \<Longrightarrow> rows w' k = Some p" by blast+
qed

text \<open>Rows that evolve on their own keep the invariant.\<close>

lemma evolving_inv:
  assumes w: "panel_inv sv inv w" and w': "inv (w_rt w')" "db_wf (w_db w')"
    and others: "\<forall>k. k \<noteq> pid \<longrightarrow> rows w' k = rows w k" and row: "row_evolves sv pid w w'"
  shows "panel_inv sv inv w'"
proof -
  have "good_proxy sv q" if q: "rows w' k = Some q" for k q
  proof (cases "k = pid")
    case True
    with q row obtain p where p: "rows w pid = Some p" unfolding row_evolves_def
      by (metis option.exhaust)
    then obtain q' where "rows w' pid = Some q'" "same_identity p q'"
      "px_Port q' = px_Port p \<or> port_allowed sv (px_Port q')"
      "px_TLSDomain q' = px_TLSDomain p \<or> px_TLSDomain q' \<noteq> ''''"
      using row unfolding row_evolves_def by blast
    moreover have "good_proxy sv p" using w p by (simp add: panel_inv_def)
    ultimately show ?thesis using good_evolves [of sv p q'] q True by simp
  next
    case False
    then show ?thesis using w others q by (simp add: panel_inv_def)
  qed
  with w' show ?thesis by (simp add: panel_inv_def)
qed

lemma row_reconciled_good:
  assumes "row_reconciled cs p (Some q)"
  shows "same_identity p q \<and> place q = place p"
proof (cases "by_proxy_id cs (px_ID p)")
  case (Some ci)
  then have "q = p \<or> same_proxy (p\<lparr>px_ContainerID := ci_ID ci\<rparr>) q"
    using assms by (simp add: row_reconciled_def)
  then show ?thesis
    using same_proxy_identity [of "p\<lparr>px_ContainerID := ci_ID ci\<rparr>" q]
    by (auto simp: same_identity_def place_def)
next
  case None
  then show ?thesis using assms by (auto simp: row_reconciled_def split: if_splits)
qed

lemma Reconcile_rows:
  assumes sv: "sv_Runtime sv = rt" and w: "inv (w_rt w)" "db_wf (w_db w)"
    and run: "Reconcile sv c w = (r, w')"
  shows "inv (w_rt w')" "db_wf (w_db w')" "ctrs (w_rt w) j = Some l \<Longrightarrow> ctrs (w_rt w') j = Some l"
    "rows w' k = Some q \<Longrightarrow> \<exists>p. rows w k = Some p \<and> same_identity p q \<and> place q = place p"
proof -
  have "inv (w_rt w') \<and> db_wf (w_db w') \<and> (ctrs (w_rt w) j = Some l \<longrightarrow> ctrs (w_rt w') j = Some l) \<and>
    (rows w' k = Some q \<longrightarrow> (\<exists>p. rows w k = Some p \<and> same_identity p q \<and> place q = place p))"
  proof (cases r)
    case (Inl e)
    then show ?thesis using Reconcile_failed [OF sv w(1) run [unfolded Inl]] w by auto
  next
    case (Inr rep)
    obtain cs w1 w2 where r: "\<And>k p. rows w k = Some p \<Longrightarrow> row_reconciled cs p (rows w' k)"
      "\<And>k. rows w k = None \<Longrightarrow> rows w' k = None"
      "\<And>j l. ctrs (w_rt w) j = Some l \<Longrightarrow> ctrs (w_rt w') j = Some l" "inv (w_rt w')" "db_wf (w_db w')"
      by (rule Reconcile_effect [OF sv w run [unfolded Inr]]) blast
    show ?thesis
    proof (intro conjI impI)
      assume q: "rows w' k = Some q"
      then obtain p where p: "rows w k = Some p" using r(2) [of k] by (cases "rows w k") auto
      with r(1) [OF p] q show "\<exists>p. rows w k = Some p \<and> same_identity p q \<and> place q = place p"
        using row_reconciled_good [of cs p q] by auto
    qed (use r in blast)+
  qed
  then show "inv (w_rt w')" "db_wf (w_db w')" "ctrs (w_rt w) j = Some l \<Longrightarrow> ctrs (w_rt w') j = Some l"
    "rows w' k = Some q \<Longrightarrow> \<exists>p. rows w k = Some p \<and> same_identity p q \<and> place q = place p"
    by blast+
qed

text \<open>One step: the invariant holds again, and a proxy that is there before and after is the same
  proxy, with the same secret and token.\<close>

lemma panel_step_keeps:
  assumes sv: "sv_Runtime sv = rt" and rnd: "honest_random (sv_pl sv)"
    and w: "panel_inv sv inv w" and step: "panel_step sv w w'"
  shows "panel_inv sv inv w' \<and>
    (\<forall>k p q. rows w k = Some p \<longrightarrow> rows w' k = Some q \<longrightarrow> same_identity p q)"
proof -
  have wf: "inv (w_rt w)" "db_wf (w_db w)" using w by (simp_all add: panel_inv_def)
  have good: "good_proxy sv p" if "rows w k = Some p" for k p using w that by (simp add: panel_inv_def)
  have evolve: ?thesis if "inv (w_rt w')" "db_wf (w_db w')" "\<forall>k. k \<noteq> pid \<longrightarrow> rows w' k = rows w k"
    "row_evolves sv pid w w'" for pid
  proof -
    have "same_identity p q" if q: "rows w k = Some p" "rows w' k = Some q" for k p q
      using q that \<open>\<forall>k. k \<noteq> pid \<longrightarrow> rows w' k = rows w k\<close> \<open>row_evolves sv pid w w'\<close>
      by (cases "k = pid") (auto simp: row_evolves_def)
    with evolving_inv [OF w that] show ?thesis by blast
  qed
  have same: ?thesis if "w_db w' = w_db w" "inv (w_rt w')"
    using evolve [of "''''"] that wf row_evolves_same [of w' w sv] by simp
  show ?thesis
    using step
  proof cases
    case (create c req r)
    then show ?thesis using Create_inv [OF sv rnd w] by fastforce
  next
    case (delete c pid e)
    note facts = Delete_keeps [OF sv wf delete]
    note rest = facts [THEN conjunct2, THEN conjunct2]
    have old: "rows w k = Some q" if "rows w' k = Some q" for k q
      using rest [THEN conjunct1] rest [THEN conjunct2, THEN conjunct1] that
      by (cases "k = pid") simp_all
    then have "\<forall>k p q. rows w k = Some p \<longrightarrow> rows w' k = Some q \<longrightarrow> same_identity p q"
      by fastforce
    moreover have "panel_inv sv inv w'"
      unfolding panel_inv_def
      using facts [THEN conjunct1] facts [THEN conjunct2, THEN conjunct1] old good by blast
    ultimately show ?thesis by blast
  next
    case (limits c pid lp r)
    then show ?thesis using evolve [of pid] UpdateLimits_keeps [OF sv wf limits] by blast
  next
    case (recreate c pid port dn r)
    show ?thesis
    proof (cases "plain_name pid")
      case True
      then show ?thesis using evolve [of pid] Recreate_keeps [OF sv wf True recreate] by blast
    next
      case False
      then have "rows w pid = None"
        using good [of pid] proxies.ids_agree [of "w_db w" pid] by (cases "rows w pid") (auto simp: good_proxy_def)
      then have "w_db w' = w_db w \<and> w_rt w' = w_rt w"
        by (cases rule: Recreate_cases [OF recreate wf(2), case_names early destructive]) auto
      then show ?thesis using same wf by simp
    qed
  next
    case (orphan c cid e)
    then show ?thesis using same RemoveOrphan_effect(1,3) [OF sv wf orphan] by blast
  next
    case (reconcile c rr)
    note k = Reconcile_rows [OF sv wf reconcile]
    have "good_proxy sv q" if "rows w' k = Some q" for k q
      using k(4) [OF that] good good_evolves unfolding place_def by (metis Pair_inject)
    moreover have "same_identity p q" if "rows w k = Some p" "rows w' k = Some q" for k p q
      using k(4) [OF that(2)] that(1) by auto
    ultimately show ?thesis using k(1,2) by (simp add: panel_inv_def)
  next
    case (sessions d)
    have "proxies_of d = rows w" using sessions(2) by (simp add: proxies_of_def fun_eq_iff)
    then show ?thesis using w sessions by (simp add: panel_inv_def)
  next
    case (idle t n)
    then show ?thesis using same wf by simp
  qed
qed

lemma reachable_inv:
  assumes sv: "sv_Runtime sv = rt" and rnd: "honest_random (sv_pl sv)"
    and w: "panel_inv sv inv w0" and reach: "reachable sv w0 w"
  shows "panel_inv sv inv w"
  using reach [unfolded reachable_def] w
  by (induction rule: rtranclp_induct) (use panel_step_keeps [OF sv rnd] in blast)+

end

end
