(* ===== verification/Programs.thy ===== *)
theory Programs imports Threads Panel begin

text \<open>
  The operations of \<open>internal/proxy\<close> as programs whose actions are the calls that the code makes: one
  statement of the store, one system call, one call of the container runtime or of the control API. The
  service holds no lock, so that calls of concurrent operations interleave. Each program mirrors the
  definition of its operation, and run alone it is that operation.
\<close>

section \<open>Files\<close>

definition write_temp_prog :: "platform \<Rightarrow> string \<Rightarrow> string \<Rightarrow> string \<Rightarrow> ('r world, gerror option) prog" where
  "write_temp_prog pl tmp path body =
     bindp (call (file_Write pl tmp body)) (\<lambda>e. case e of
       Some e \<Rightarrow> bindp (call (file_Close pl)) (\<lambda>_. Ret (Some (errorf_wrap ''proxy: write config: '' e)))
     | None \<Rightarrow>
     bindp (call (file_Close pl)) (\<lambda>e. case e of
       Some e \<Rightarrow> Ret (Some (errorf_wrap ''proxy: close config: '' e))
     | None \<Rightarrow>
     bindp (call (os_Chmod pl tmp)) (\<lambda>e. case e of
       Some e \<Rightarrow> Ret (Some (errorf_wrap ''proxy: chmod config: '' e))
     | None \<Rightarrow>
     bindp (call (os_Rename pl tmp path)) (\<lambda>e. case e of
       Some e \<Rightarrow> Ret (Some (errorf_wrap ''proxy: rename config: '' e))
     | None \<Rightarrow> Ret None))))"

definition writeAtomic_prog :: "platform \<Rightarrow> string \<Rightarrow> string \<Rightarrow> ('r world, gerror option) prog" where
  "writeAtomic_prog pl path body =
     bindp (call (os_CreateTemp pl (filepath_Dir path) ''.config-'' ''.toml'')) (\<lambda>t. case t of
       Inl e \<Rightarrow> Ret (Some (errorf_wrap ''proxy: temp config: '' e))
     | Inr tmp \<Rightarrow> bindp (write_temp_prog pl tmp path body) (\<lambda>err.
         bindp (call (os_Remove pl tmp)) (\<lambda>_. Ret err)))"

definition writeConfig_prog :: "'r service \<Rightarrow> proxy \<Rightarrow> ('r world, gerror option) prog" where
  "writeConfig_prog sv p =
     bindp (call (os_MkdirAll (sv_pl sv) (configDir sv (px_ID p)))) (\<lambda>e. case e of
       Some e \<Rightarrow> Ret (Some (errorf_wrap ''proxy: create config dir: '' e))
     | None \<Rightarrow>
         (case Render (config_spec sv p) of
            Inl e \<Rightarrow> Ret (Some e)
          | Inr body \<Rightarrow>
              writeAtomic_prog (sv_pl sv) (filepath_Join [configDir sv (px_ID p), ''config.toml'']) body))"

lemma run_write_temp [simp]: "run (write_temp_prog pl tmp path body) w = write_temp pl tmp path body w"
  by (simp add: write_temp_prog_def write_temp_def Let_def split: prod.split option.split)

lemma run_writeAtomic [simp]: "run (writeAtomic_prog pl path body) w = writeAtomic pl path body w"
  by (simp add: writeAtomic_prog_def writeAtomic_def Let_def split: prod.split sum.split)

lemma run_writeConfig [simp]: "run (writeConfig_prog sv p) w = writeConfig sv p w"
  by (simp add: writeConfig_prog_def writeConfig_def Let_def split: prod.split sum.split option.split)

section \<open>The wait\<close>

text \<open>The clock is read before every round. A round takes at least a second, so that as many rounds as
  the budget has seconds are enough; what is left after them, nothing in a clock that only runs forward,
  is one action.\<close>

definition read_clock :: "'r world \<Rightarrow> instant \<times> 'r world" where
  "read_clock w = (w_clock w, w)"

definition probe_prog :: "'r service \<Rightarrow> ctx \<Rightarrow> proxy \<Rightarrow> gerror option \<Rightarrow> ('r world, bool \<times> gerror option) prog" where
  "probe_prog sv c p lastErr =
     bindp (call (call_rt (\<lambda>b. rt_Inspect (sv_Runtime sv) b (px_ContainerID p)) (sv_pl sv) c)) (\<lambda>r. case r of
       Inl e \<Rightarrow> Ret (False, Some e)
     | Inr info \<Rightarrow>
         if ci_IPAddress info \<noteq> '''' then
           bindp (call (call_api (tc_Health (sv_NewClient sv p (ci_IPAddress info))) (sv_pl sv) c))
             (\<lambda>h. Ret (h = None, h))
         else Ret (False, lastErr))"

fun wait_prog :: "'r service \<Rightarrow> ctx \<Rightarrow> proxy \<Rightarrow> instant \<Rightarrow> gerror option \<Rightarrow> nat \<Rightarrow> ('r world, gerror option) prog" where
  "wait_prog sv c p deadline lastErr 0 = call (wait_loop sv c p deadline lastErr)"
| "wait_prog sv c p deadline lastErr (Suc n) =
     bindp (call read_clock) (\<lambda>now.
       if \<not> now < deadline then
         Ret (Some (errorf (''proxy: control API did not become healthy within '' @
           Duration_String (sv_HealthBudget sv) @ '': '' @ show_error lastErr)))
       else bindp (probe_prog sv c p lastErr) (\<lambda>(ok, lastErr).
         if ok then Ret None
         else bindp (call (select_wait (sv_pl sv) c)) (\<lambda>over.
           if over then Ret (Some ctx_Err) else wait_prog sv c p deadline lastErr n)))"

definition waitHealthy_prog :: "'r service \<Rightarrow> ctx \<Rightarrow> proxy \<Rightarrow> ('r world, gerror option) prog" where
  "waitHealthy_prog sv c p =
     bindp (call read_clock) (\<lambda>now. wait_prog sv c p (now + sv_HealthBudget sv) None
       (nat (sv_HealthBudget sv div Second) + 1))"

lemma run_probe [simp]: "run (probe_prog sv c p l) w = probe sv c p l w"
  by (simp add: probe_prog_def probe_def Let_def split: prod.split sum.split)

lemma run_wait [simp]: "run (wait_prog sv c p dl l n) w = wait_loop sv c p dl l w"
proof (induction n arbitrary: l w)
  case (Suc n)
  show ?case
    by (subst wait_loop.simps) (simp add: Suc read_clock_def split: prod.split bool.split)
qed simp

declare wait_prog.simps [simp del]

lemma run_waitHealthy [simp]: "run (waitHealthy_prog sv c p) w = waitHealthy sv c p w"
  by (simp add: waitHealthy_prog_def waitHealthy_def read_clock_def)

section \<open>Creation\<close>

abbreviation on_runtime :: "'r service \<Rightarrow> ctx \<Rightarrow> ('r runtime \<Rightarrow> bool \<Rightarrow> 'r \<Rightarrow> 'a \<times> 'r) \<Rightarrow> ('r world, 'a) prog" where
  "on_runtime sv c f \<equiv> call (call_rt (\<lambda>b. f (sv_Runtime sv) b) (sv_pl sv) c)"

fun rollback_prog :: "'r service \<Rightarrow> ctx \<Rightarrow> undo list \<Rightarrow> 'a \<Rightarrow> ('r world, 'a) prog" where
  "rollback_prog sv c [] x = Ret x"
| "rollback_prog sv c (u # us) x = bindp (call (\<lambda>w. ((), run_undo sv c u w))) (\<lambda>_. rollback_prog sv c us x)"

definition finish_prog :: "'r service \<Rightarrow> ctx \<Rightarrow> proxy \<Rightarrow> ('r world, proxy res) prog" where
  "finish_prog sv c p =
     bindp (waitHealthy_prog sv c p) (\<lambda>e.
       bindp (call (st_UpdateProxy (sv_pl sv) (WithoutCancel c) (set_outcome e p))) (\<lambda>x. case x of
         Some e' \<Rightarrow> Ret (Inl e') | None \<Rightarrow> Ret (Inr (set_outcome e p))))"

definition create_container_prog :: "'r service \<Rightarrow> ctx \<Rightarrow> undo list \<Rightarrow> proxy \<Rightarrow> ('r world, proxy res) prog" where
  "create_container_prog sv c us p =
     bindp (on_runtime sv c (\<lambda>rt b. rt_Create rt b (container_spec_of sv p))) (\<lambda>r. case r of
       Inl e \<Rightarrow> rollback_prog sv c (rev us) (Inl e)
     | Inr i \<Rightarrow>
         bindp (on_runtime sv c (\<lambda>rt b. rt_Start rt b i)) (\<lambda>e. case e of
           Some e \<Rightarrow> rollback_prog sv c (rev (us @ [UndoContainer i]))
             (Inl (the (wrapPortConflict (px_Port p) (Some e))))
         | None \<Rightarrow> finish_prog sv c (p\<lparr>px_ContainerID := i\<rparr>)))"

definition create_prepare_prog :: "'r service \<Rightarrow> ctx \<Rightarrow> undo list \<Rightarrow> proxy \<Rightarrow> ('r world, proxy res) prog" where
  "create_prepare_prog sv c us p =
     bindp (on_runtime sv c (\<lambda>rt b. rt_EnsureNetwork rt b (cf_Network (sv_Cfg sv)) (cf_NetworkSubnet (sv_Cfg sv))))
       (\<lambda>e. case e of
         Some e \<Rightarrow> rollback_prog sv c (rev us) (Inl e)
       | None \<Rightarrow> bindp (on_runtime sv c (\<lambda>rt b. rt_Pull rt b (cf_TelemtImage (sv_Cfg sv)))) (\<lambda>e. case e of
           Some e \<Rightarrow> rollback_prog sv c (rev us) (Inl e)
         | None \<Rightarrow> create_container_prog sv c us p))"

definition create_claim_prog :: "'r service \<Rightarrow> ctx \<Rightarrow> proxy \<Rightarrow> ('r world, proxy res) prog" where
  "create_claim_prog sv c p =
     bindp (call (st_CreateProxy (sv_pl sv) c p)) (\<lambda>e. case e of
       Some e \<Rightarrow> Ret (Inl e)
     | None \<Rightarrow> bindp (writeConfig_prog sv p) (\<lambda>e. case e of
         Some e \<Rightarrow> rollback_prog sv c [UndoRow (px_ID p)] (Inl e)
       | None \<Rightarrow> create_prepare_prog sv c [UndoRow (px_ID p), UndoDir (configDir sv (px_ID p))] p))"

definition Create_prog :: "'r service \<Rightarrow> ctx \<Rightarrow> create_request \<Rightarrow> ('r world, proxy res) prog" where
  "Create_prog sv c req =
     bindp (call (os_CheckPort (sv_pl sv) (cr_Port req) (cf_ReservedPorts (sv_Cfg sv)))) (\<lambda>e. case e of
       Some e \<Rightarrow> Ret (Inl e)
     | None \<Rightarrow>
         if cr_TLSDomain req = '''' then Ret (Inl (errorf ''proxy: fake domain is required''))
         else bindp (call (randomHex (sv_pl sv) 16)) (\<lambda>secret. case secret of
           Inl e \<Rightarrow> Ret (Inl e)
         | Inr secret \<Rightarrow> bindp (call (randomHex (sv_pl sv) 32)) (\<lambda>token. case token of
             Inl e \<Rightarrow> Ret (Inl e)
           | Inr token \<Rightarrow> bindp (call (uuid_NewString (sv_pl sv)))
               (\<lambda>pid. create_claim_prog sv c (new_proxy req secret token pid)))))"

lemma run_rollback [simp]: "run (rollback_prog sv c us x) w = (x, rollback sv c (rev us) w)"
  by (induction us arbitrary: w) (simp_all add: rollback_def)

lemma run_finish [simp]: "run (finish_prog sv c p) w = create_finish sv c p w"
  by (simp add: finish_prog_def create_finish_def Let_def split: prod.split option.split)

lemma run_create_container [simp]: "run (create_container_prog sv c us p) w = create_container sv c us p w"
  by (simp add: create_container_prog_def create_container_def Let_def split: prod.split sum.split option.split)

lemma run_create_prepare [simp]: "run (create_prepare_prog sv c us p) w = create_prepare sv c us p w"
  by (simp add: create_prepare_prog_def create_prepare_def Let_def split: prod.split option.split)

lemma run_create_claim [simp]: "run (create_claim_prog sv c p) w = create_claim sv c p w"
  by (simp add: create_claim_prog_def create_claim_def Let_def split: prod.split option.split)

lemma run_Create [simp]: "run (Create_prog sv c req) w = Create sv c req w"
  by (simp add: Create_prog_def Create_def Let_def split: prod.split sum.split option.split)

section \<open>Deletion and limits\<close>

text \<open>Removing a recorded container, if there is one.\<close>

definition remove_prog :: "'r service \<Rightarrow> ctx \<Rightarrow> string \<Rightarrow> ('r world, gerror option) prog" where
  "remove_prog sv c i = provided (i \<noteq> '''') (on_runtime sv c (\<lambda>rt b. rt_Remove rt b i))"

definition Delete_prog :: "'r service \<Rightarrow> ctx \<Rightarrow> string \<Rightarrow> ('r world, gerror option) prog" where
  "Delete_prog sv c pid =
     bindp (call (st_GetProxy (sv_pl sv) c pid)) (\<lambda>r. case r of
       Inl e \<Rightarrow> Ret (Some e)
     | Inr p \<Rightarrow> bindp (remove_prog sv c (px_ContainerID p)) (\<lambda>e.
         if removal_failed e then Ret e
         else bindp (call (os_RemoveAll (sv_pl sv) (configDir sv pid))) (\<lambda>e. case e of
           Some e \<Rightarrow> Ret (Some (errorf_wrap ''proxy: remove config dir: '' e))
         | None \<Rightarrow> call (st_DeleteProxy (sv_pl sv) (WithoutCancel c) pid))))"

definition ClientFor_prog :: "'r service \<Rightarrow> ctx \<Rightarrow> proxy \<Rightarrow> ('r world, telemt_client res) prog" where
  "ClientFor_prog sv c p =
     (if px_ContainerID p = '''' then Ret (Inl (errorf (''proxy '' @ px_ID p @ '' has no container'')))
      else bindp (on_runtime sv c (\<lambda>rt b. rt_Inspect rt b (px_ContainerID p))) (\<lambda>r. case r of
        Inl e \<Rightarrow> Ret (Inl e)
      | Inr info \<Rightarrow>
          if ci_IPAddress info = '''' then
            Ret (Inl (errorf (''proxy '' @ px_ID p @ '' has no address on '' @ cf_Network (sv_Cfg sv))))
          else Ret (Inr (sv_NewClient sv p (ci_IPAddress info)))))"

definition live_apply_prog :: "'r service \<Rightarrow> ctx \<Rightarrow> proxy \<Rightarrow> limits_patch \<Rightarrow> ('r world, string) prog" where
  "live_apply_prog sv c p lp =
     bindp (ClientFor_prog sv c (p\<lparr>px_StateMessage := ''''\<rparr>)) (\<lambda>r. case r of
       Inl e \<Rightarrow> Ret (''limits saved; live apply failed: '' @ err_text e)
     | Inr tc \<Rightarrow> bindp (call (send_patch sv c tc (px_ID p) (apiPatch lp))) (\<lambda>r. case r of
         Inl e \<Rightarrow> Ret (''limits saved; live apply failed: '' @ err_text e)
       | Inr _ \<Rightarrow> Ret ''''))"

definition UpdateLimits_prog :: "'r service \<Rightarrow> ctx \<Rightarrow> string \<Rightarrow> limits_patch \<Rightarrow> ('r world, proxy res) prog" where
  "UpdateLimits_prog sv c pid lp =
     bindp (call (st_GetProxy (sv_pl sv) c pid)) (\<lambda>r. case r of
       Inl e \<Rightarrow> Ret (Inl e)
     | Inr p \<Rightarrow> bindp (writeConfig_prog sv (apply_patch lp p)) (\<lambda>e. case e of
         Some e \<Rightarrow> Ret (Inl e)
       | None \<Rightarrow> bindp (live_apply_prog sv c (apply_patch lp p) lp) (\<lambda>msg.
           bindp (call (st_UpdateProxy (sv_pl sv) (WithoutCancel c) ((apply_patch lp p)\<lparr>px_StateMessage := msg\<rparr>)))
             (\<lambda>e. case e of
               Some e \<Rightarrow> Ret (Inl e)
             | None \<Rightarrow> Ret (Inr ((apply_patch lp p)\<lparr>px_StateMessage := msg\<rparr>))))))"

lemma run_remove [simp]:
  "run (remove_prog sv c i) w =
     (if i \<noteq> '''' then call_rt (\<lambda>b. rt_Remove (sv_Runtime sv) b i) (sv_pl sv) c w else (None, w))"
  by (simp add: remove_prog_def)

lemma run_Delete [simp]: "run (Delete_prog sv c pid) w = Delete sv c pid w"
  by (simp add: Delete_prog_def Delete_def Let_def split: prod.split sum.split option.split)

lemma run_ClientFor [simp]: "run (ClientFor_prog sv c p) w = ClientFor sv c p w"
  by (simp add: ClientFor_prog_def ClientFor_def Let_def split: prod.split sum.split)

lemma run_live_apply [simp]: "run (live_apply_prog sv c p lp) w = live_apply sv c p lp w"
  by (simp add: live_apply_prog_def live_apply_def Let_def split: prod.split sum.split)

lemma run_UpdateLimits [simp]: "run (UpdateLimits_prog sv c pid lp) w = UpdateLimits sv c pid lp w"
  by (simp add: UpdateLimits_prog_def UpdateLimits_def Let_def split: prod.split sum.split option.split)

section \<open>Recreation\<close>

definition record_error_prog :: "'r service \<Rightarrow> ctx \<Rightarrow> proxy \<Rightarrow> gerror \<Rightarrow> ('r world, proxy res) prog" where
  "record_error_prog sv c p e =
     bindp (call (st_UpdateProxy (sv_pl sv) (WithoutCancel c)
       (p\<lparr>px_State := StateError, px_StateMessage := err_text e\<rparr>))) (\<lambda>_. Ret (Inl e))"

definition startContainer_prog :: "'r service \<Rightarrow> ctx \<Rightarrow> proxy \<Rightarrow> ('r world, proxy res) prog" where
  "startContainer_prog sv c p =
     bindp (on_runtime sv c (\<lambda>rt b. rt_Create rt b (container_spec_of sv p))) (\<lambda>r. case r of
       Inl e \<Rightarrow> record_error_prog sv c p e
     | Inr i \<Rightarrow>
         bindp (on_runtime sv c (\<lambda>rt b. rt_Start rt b i)) (\<lambda>e. case e of
           Some e \<Rightarrow> record_error_prog sv c (p\<lparr>px_ContainerID := i\<rparr>) (the (wrapPortConflict (px_Port p) (Some e)))
         | None \<Rightarrow> finish_prog sv c (p\<lparr>px_ContainerID := i\<rparr>)))"

definition recreate_container_prog ::
  "'r service \<Rightarrow> ctx \<Rightarrow> proxy \<Rightarrow> int \<Rightarrow> string \<Rightarrow> ('r world, proxy res) prog" where
  "recreate_container_prog sv c p port tlsDomain =
     (let q = p\<lparr>px_Port := port, px_TLSDomain := tlsDomain, px_ContainerID := ''''\<rparr> in
      bindp (remove_prog sv c (px_ContainerID p)) (\<lambda>e.
        if removal_failed e then Ret (Inl (the e))
        else bindp (call (st_UpdateProxy (sv_pl sv) (WithoutCancel c) q)) (\<lambda>e. case e of
          Some e \<Rightarrow> Ret (Inl e)
        | None \<Rightarrow> bindp (writeConfig_prog sv q) (\<lambda>e. case e of
            Some e \<Rightarrow> Ret (Inl e)
          | None \<Rightarrow> startContainer_prog sv c q))))"

definition Recreate_prog :: "'r service \<Rightarrow> ctx \<Rightarrow> string \<Rightarrow> int \<Rightarrow> string \<Rightarrow> ('r world, proxy res) prog" where
  "Recreate_prog sv c pid port tlsDomain =
     bindp (call (st_GetProxy (sv_pl sv) c pid)) (\<lambda>r. case r of
       Inl e \<Rightarrow> Ret (Inl e)
     | Inr p \<Rightarrow>
         bindp (provided (port \<noteq> px_Port p) (call (os_CheckPort (sv_pl sv) port (cf_ReservedPorts (sv_Cfg sv)))))
           (\<lambda>e. case e of
             Some e \<Rightarrow> Ret (Inl e)
           | None \<Rightarrow>
               if tlsDomain = '''' then Ret (Inl (errorf ''proxy: fake domain is required''))
               else bindp (call (st_UpdateProxy (sv_pl sv) c (p\<lparr>px_State := StateRecreating\<rparr>))) (\<lambda>e. case e of
                 Some e \<Rightarrow> Ret (Inl e)
               | None \<Rightarrow> recreate_container_prog sv c (p\<lparr>px_State := StateRecreating\<rparr>) port tlsDomain)))"

lemma run_record_error [simp]: "run (record_error_prog sv c p e) w = (Inl e, record_error sv c p e w)"
  by (simp add: record_error_prog_def record_error_def split: prod.split)

lemma run_startContainer [simp]: "run (startContainer_prog sv c p) w = startContainer sv c p w"
  by (simp add: startContainer_prog_def startContainer_def create_finish_def Let_def
      split: prod.split sum.split option.split)

lemma run_recreate_container [simp]:
  "run (recreate_container_prog sv c p port dn) w = recreate_container sv c p port dn w"
  by (simp add: recreate_container_prog_def recreate_container_def Let_def split: prod.split option.split)

lemma run_Recreate [simp]: "run (Recreate_prog sv c pid port dn) w = Recreate sv c pid port dn w"
  by (simp add: Recreate_prog_def Recreate_def Let_def split: prod.split sum.split option.split)

section \<open>Orphans and reconciliation\<close>

definition Orphans_prog :: "'r service \<Rightarrow> ctx \<Rightarrow> ('r world, container_info list res) prog" where
  "Orphans_prog sv c =
     bindp (call (st_ListProxies (sv_pl sv) c)) (\<lambda>r. case r of
       Inl e \<Rightarrow> Ret (Inl e)
     | Inr ps \<Rightarrow> bindp (on_runtime sv c (\<lambda>rt b. rt_List rt b managed_filter)) (\<lambda>l. case l of
         Inl e \<Rightarrow> Ret (Inl e) | Inr cs \<Rightarrow> Ret (Inr (orphans_of ps cs))))"

definition RemoveOrphan_prog :: "'r service \<Rightarrow> ctx \<Rightarrow> string \<Rightarrow> ('r world, gerror option) prog" where
  "RemoveOrphan_prog sv c cid =
     bindp (Orphans_prog sv c) (\<lambda>r. case r of
       Inl e \<Rightarrow> Ret (Some e)
     | Inr os \<Rightarrow>
         if list_ex (\<lambda>ci. ci_ID ci = cid) os then on_runtime sv c (\<lambda>rt b. rt_Remove rt b cid)
         else Ret (Some (errorf (''proxy: container '' @ cid @ '' is not an orphan''))))"

definition reconcile_row_prog :: "'r service \<Rightarrow> ctx \<Rightarrow> container_info list \<Rightarrow> proxy \<Rightarrow> reconcile_report \<Rightarrow>
    ('r world, reconcile_report) prog" where
  "reconcile_row_prog sv c cs p rep =
     (case by_proxy_id cs (px_ID p) of
        Some ci \<Rightarrow>
          if px_ContainerID p \<noteq> ci_ID ci then
            bindp (call (st_UpdateProxy (sv_pl sv) c (p\<lparr>px_ContainerID := ci_ID ci\<rparr>))) (\<lambda>_. Ret rep)
          else Ret rep
      | None \<Rightarrow>
          if px_State p = StateCreating then
            bindp (call (os_RemoveAll (sv_pl sv) (configDir sv (px_ID p)))) (\<lambda>_.
              bindp (call (st_DeleteProxy (sv_pl sv) (WithoutCancel c) (px_ID p))) (\<lambda>e.
                Ret (if e = None then rep\<lparr>rp_CleanedUp := rp_CleanedUp rep @ [px_ID p]\<rparr> else rep)))
          else
            bindp (startContainer_prog sv c p) (\<lambda>r. case r of
              Inr _ \<Rightarrow> Ret (rep\<lparr>rp_Restarted := rp_Restarted rep @ [px_ID p]\<rparr>) | Inl _ \<Rightarrow> Ret rep))"

fun reconcile_rows_prog :: "'r service \<Rightarrow> ctx \<Rightarrow> container_info list \<Rightarrow> proxy list \<Rightarrow> reconcile_report \<Rightarrow>
    ('r world, reconcile_report) prog" where
  "reconcile_rows_prog sv c cs [] rep = Ret rep"
| "reconcile_rows_prog sv c cs (p # ps) rep =
     bindp (reconcile_row_prog sv c cs p rep) (reconcile_rows_prog sv c cs ps)"

definition Reconcile_prog :: "'r service \<Rightarrow> ctx \<Rightarrow> ('r world, reconcile_report res) prog" where
  "Reconcile_prog sv c =
     bindp (call (st_ListProxies (sv_pl sv) c)) (\<lambda>r. case r of
       Inl e \<Rightarrow> Ret (Inl e)
     | Inr ps \<Rightarrow> bindp (on_runtime sv c (\<lambda>rt b. rt_List rt b managed_filter)) (\<lambda>l. case l of
         Inl e \<Rightarrow> Ret (Inl e)
       | Inr cs \<Rightarrow> bindp (reconcile_rows_prog sv c cs ps
           (empty_report\<lparr>rp_Orphans := map ci_ID (orphans_of ps cs)\<rparr>)) (\<lambda>rep. Ret (Inr rep))))"

lemma run_Orphans [simp]: "run (Orphans_prog sv c) w = Orphans sv c w"
  by (simp add: Orphans_prog_def Orphans_def Let_def split: prod.split sum.split)

lemma run_RemoveOrphan [simp]: "run (RemoveOrphan_prog sv c cid) w = RemoveOrphan sv c cid w"
  by (simp add: RemoveOrphan_prog_def RemoveOrphan_def Let_def split: prod.split sum.split)

lemma run_reconcile_row [simp]: "run (reconcile_row_prog sv c cs p rep) w = reconcile_row sv c cs p (rep, w)"
  by (simp add: reconcile_row_prog_def reconcile_row_def Let_def split: prod.split sum.split option.split)

lemma run_reconcile_rows [simp]:
  "run (reconcile_rows_prog sv c cs ps rep) w = fold (reconcile_row sv c cs) ps (rep, w)"
  by (induction ps arbitrary: rep w) (simp_all split: prod.split)

lemma run_Reconcile [simp]: "run (Reconcile_prog sv c) w = Reconcile sv c w"
  by (simp add: Reconcile_prog_def Reconcile_def Let_def split: prod.split sum.split)

section \<open>Requests\<close>

text \<open>The operations that other goroutines call: handlers, the poller's sweeps aside, and the boot.\<close>

datatype operation =
    OpCreate ctx create_request
  | OpDelete ctx string
  | OpLimits ctx string limits_patch
  | OpRecreate ctx string int string
  | OpRemoveOrphan ctx string
  | OpReconcile ctx

datatype reply = ProxyReply "proxy res" | ErrorReply "gerror option" | ReportReply "reconcile_report res"

fun perform :: "'r service \<Rightarrow> operation \<Rightarrow> 'r world \<Rightarrow> reply \<times> 'r world" where
  "perform sv (OpCreate c req) w = apfst ProxyReply (Create sv c req w)"
| "perform sv (OpDelete c pid) w = apfst ErrorReply (Delete sv c pid w)"
| "perform sv (OpLimits c pid lp) w = apfst ProxyReply (UpdateLimits sv c pid lp w)"
| "perform sv (OpRecreate c pid port dn) w = apfst ProxyReply (Recreate sv c pid port dn w)"
| "perform sv (OpRemoveOrphan c cid) w = apfst ErrorReply (RemoveOrphan sv c cid w)"
| "perform sv (OpReconcile c) w = apfst ReportReply (Reconcile sv c w)"

fun program :: "'r service \<Rightarrow> operation \<Rightarrow> ('r world, reply) prog" where
  "program sv (OpCreate c req) = bindp (Create_prog sv c req) (\<lambda>r. Ret (ProxyReply r))"
| "program sv (OpDelete c pid) = bindp (Delete_prog sv c pid) (\<lambda>r. Ret (ErrorReply r))"
| "program sv (OpLimits c pid lp) = bindp (UpdateLimits_prog sv c pid lp) (\<lambda>r. Ret (ProxyReply r))"
| "program sv (OpRecreate c pid port dn) = bindp (Recreate_prog sv c pid port dn) (\<lambda>r. Ret (ProxyReply r))"
| "program sv (OpRemoveOrphan c cid) = bindp (RemoveOrphan_prog sv c cid) (\<lambda>r. Ret (ErrorReply r))"
| "program sv (OpReconcile c) = bindp (Reconcile_prog sv c) (\<lambda>r. Ret (ReportReply r))"

lemma run_program: "run (program sv op) w = perform sv op w"
  by (cases op) (simp_all add: apfst_def map_prod_def split: prod.split)

end
