(* ===== verification/Interleave.thy ===== *)
theory Interleave imports Programs begin

text \<open>
  Concurrent operations of the service: what every single call of every operation keeps, and so every
  interleaving of any number of them. One proof gives this for any law \<open>L\<close> of rows that the changes of
  the operations respect, and at the same time that an operation cannot tell two container runtimes apart
  that answer alike for the references the panel asks about: the ids it was given by the runtime.
\<close>

section \<open>Laws of rows\<close>

text \<open>How an operation may change the proxy of a row.\<close>

definition evolves :: "'r service \<Rightarrow> (string \<Rightarrow> bool) \<Rightarrow> proxy \<Rightarrow> proxy \<Rightarrow> bool" where
  "evolves sv full p q \<longleftrightarrow> same_identity p q \<and>
     (px_Port q = px_Port p \<or> port_allowed sv (px_Port q)) \<and>
     (px_TLSDomain q = px_TLSDomain p \<or> px_TLSDomain q \<noteq> '''') \<and>
     (px_ContainerID q = px_ContainerID p \<or> px_ContainerID q = '''' \<or> full (px_ContainerID q))"

lemma evolves_fields [simp]:
  "same_identity p (p\<lparr>px_State := s\<rparr>)" "same_identity p (p\<lparr>px_StateMessage := m\<rparr>)"
  "same_identity p (p\<lparr>px_ContainerID := i\<rparr>)" "same_identity p (p\<lparr>px_State := s, px_StateMessage := m\<rparr>)"
  "same_identity p (p\<lparr>px_CreatedAt := a, px_UpdatedAt := b\<rparr>)" "same_identity p (set_outcome e p)"
  "same_identity p (apply_patch lp p)"
  by (simp_all add: same_identity_def set_outcome_def apply_patch_def Let_def split: option.split)

text \<open>A law of rows that new proxies satisfy and that every change respects.\<close>

locale row_law =
  fixes sv :: "'r service" and full :: "string \<Rightarrow> bool" and L :: "proxy \<Rightarrow> bool"
  assumes fresh: "pl_rand (sv_pl sv) t 16 = Inr b \<Longrightarrow> pl_rand (sv_pl sv) t' 32 = Inr b' \<Longrightarrow>
      port_allowed sv (cr_Port req) \<Longrightarrow> cr_TLSDomain req \<noteq> '''' \<Longrightarrow>
      L (new_proxy req (hex_Encode b) (hex_Encode b') (pl_uuid (sv_pl sv) u))"
    and evolve: "L p \<Longrightarrow> evolves sv full p q \<Longrightarrow> L q"
    and ids: "L p \<Longrightarrow> px_ContainerID p \<noteq> '''' \<Longrightarrow> full (px_ContainerID p)"
begin

lemma changes:
  assumes "L p"
  shows "L (p\<lparr>px_State := s\<rparr>)" "L (p\<lparr>px_StateMessage := m\<rparr>)" "L (p\<lparr>px_State := s, px_StateMessage := m\<rparr>)"
    "L (p\<lparr>px_CreatedAt := a, px_UpdatedAt := b\<rparr>)" "L (set_outcome e p)" "L (apply_patch lp p)"
    "full i \<Longrightarrow> L (p\<lparr>px_ContainerID := i\<rparr>)"
    "px_Port p = port \<or> port_allowed sv port \<Longrightarrow> dn \<noteq> '''' \<Longrightarrow>
       L (p\<lparr>px_Port := port, px_TLSDomain := dn, px_ContainerID := ''''\<rparr>)"
  using assms by (auto intro!: evolve [OF assms] simp: evolves_def same_identity_def set_outcome_def apply_patch_def
      Let_def split: option.split)

end

section \<open>Two runtimes that answer alike\<close>

locale interchange = container_runtime +
  fixes rt' :: "'a runtime" and full :: "string \<Rightarrow> bool"
  assumes known: "inv s \<Longrightarrow> ctrs s i \<noteq> None \<Longrightarrow> full i"
    and same_network: "inv s \<Longrightarrow> rt_EnsureNetwork rt' c n sub s = rt_EnsureNetwork rt c n sub s"
    and same_pull: "inv s \<Longrightarrow> rt_Pull rt' c img s = rt_Pull rt c img s"
    and same_create: "inv s \<Longrightarrow> rt_Create rt' c sp s = rt_Create rt c sp s"
    and same_start: "inv s \<Longrightarrow> full i \<Longrightarrow> rt_Start rt' c i s = rt_Start rt c i s"
    and same_remove: "inv s \<Longrightarrow> full i \<Longrightarrow> rt_Remove rt' c i s = rt_Remove rt c i s"
    and same_inspect: "inv s \<Longrightarrow> full i \<Longrightarrow> rt_Inspect rt' c i s = rt_Inspect rt c i s"
    and same_list: "inv s \<Longrightarrow> rt_List rt' c managed_filter s = rt_List rt c managed_filter s"

text \<open>A runtime answers like itself.\<close>

context container_runtime
begin

lemma with_itself: "interchange rt ctrs inv rt (\<lambda>_. True)"
  by unfold_locales simp_all

end

lemma on_other_runtime [simp]:
  "config_spec (sv\<lparr>sv_Runtime := r\<rparr>) = config_spec sv" "configDir (sv\<lparr>sv_Runtime := r\<rparr>) = configDir sv"
  "container_spec_of (sv\<lparr>sv_Runtime := r\<rparr>) = container_spec_of sv"
  by (simp_all add: config_spec_def configDir_def container_spec_of_def hostConfigDir_def fun_eq_iff)

section \<open>Every call keeps the law\<close>

definition rows_inv :: "('r \<Rightarrow> bool) \<Rightarrow> (proxy \<Rightarrow> bool) \<Rightarrow> 'r world \<Rightarrow> bool" where
  "rows_inv good L w \<longleftrightarrow> good (w_rt w) \<and> db_wf (w_db w) \<and> (\<forall>k p. rows w k = Some p \<longrightarrow> L p)"

lemma panel_inv_rows: "panel_inv sv good w \<longleftrightarrow> rows_inv good (good_proxy sv) w"
  by (simp add: panel_inv_def rows_inv_def)

lemma rows_inv_same: "rows_inv good L w \<Longrightarrow> w_db w' = w_db w \<Longrightarrow> good (w_rt w') \<Longrightarrow> rows_inv good L w'"
  by (simp add: rows_inv_def)

text \<open>Results that carry no proxy.\<close>

abbreviation anything :: "'a \<Rightarrow> bool" where
  "anything \<equiv> \<lambda>_. True"

lemma agree_quiet:
  assumes "\<And>w x w'. f w = (x, w') \<Longrightarrow> w_db w' = w_db w \<and> w_rt w' = w_rt w"
  shows "agree (rows_inv good L) anything (call f) (call f)"
  using assms by (intro agree_call) (fastforce simp: rows_inv_def)

lemma quiet_calls:
  "os_MkdirAll pl path w = (e, w') \<Longrightarrow> w_db w' = w_db w \<and> w_rt w' = w_rt w"
  "os_CreateTemp pl dir pre post w = (t, w') \<Longrightarrow> w_db w' = w_db w \<and> w_rt w' = w_rt w"
  "file_Write pl path body w = (e, w') \<Longrightarrow> w_db w' = w_db w \<and> w_rt w' = w_rt w"
  "file_Close pl w = (e, w') \<Longrightarrow> w_db w' = w_db w \<and> w_rt w' = w_rt w"
  "os_Chmod pl path w = (e, w') \<Longrightarrow> w_db w' = w_db w \<and> w_rt w' = w_rt w"
  "os_Rename pl path path' w = (e, w') \<Longrightarrow> w_db w' = w_db w \<and> w_rt w' = w_rt w"
  "os_Remove pl path w = (e, w') \<Longrightarrow> w_db w' = w_db w \<and> w_rt w' = w_rt w"
  "os_RemoveAll pl path w = (e, w') \<Longrightarrow> w_db w' = w_db w \<and> w_rt w' = w_rt w"
  "read_clock w = (n, w') \<Longrightarrow> w_db w' = w_db w \<and> w_rt w' = w_rt w"
  "select_wait pl c w = (b, w') \<Longrightarrow> w_db w' = w_db w \<and> w_rt w' = w_rt w"
  "send_patch sv c tc pid pu w = (r, w') \<Longrightarrow> w_db w' = w_db w \<and> w_rt w' = w_rt w"
  "call_api f pl c w = (y, w') \<Longrightarrow> w_db w' = w_db w \<and> w_rt w' = w_rt w"
  "os_CheckPort pl port rs w = (e, w') \<Longrightarrow> w_db w' = w_db w \<and> w_rt w' = w_rt w"
  "uuid_NewString pl w = (u, w') \<Longrightarrow> w_db w' = w_db w \<and> w_rt w' = w_rt w"
  by (auto simp: read_clock_def select_wait_def send_patch_def call_api_def os_CheckPort_def
      uuid_NewString_def split: if_splits prod.splits dest!: fs_frames [unfolded same_but_fs_def])

lemma agree_calls:
  fixes L :: "proxy \<Rightarrow> bool" and good :: "'r \<Rightarrow> bool"
  defines "I \<equiv> rows_inv good L"
  shows "keeps_inv I anything (call (os_MkdirAll pl path))"
    "keeps_inv I anything (call (os_CreateTemp pl dir pre post))"
    "keeps_inv I anything (call (file_Write pl path body))"
    "keeps_inv I anything (call (file_Close pl))"
    "keeps_inv I anything (call (os_Chmod pl path))"
    "keeps_inv I anything (call (os_Rename pl path path'))"
    "keeps_inv I anything (call (os_Remove pl path))"
    "keeps_inv I anything (call (os_RemoveAll pl path))"
    "keeps_inv I anything (call read_clock)"
    "keeps_inv I anything (call (select_wait pl c))"
    "keeps_inv I anything (call (send_patch sv c tc pid pu))"
    "keeps_inv I anything (call (call_api f pl c))"
  unfolding I_def by (rule agree_quiet, erule quiet_calls)+


lemma send_patch_other [simp]: "send_patch (sv\<lparr>sv_Runtime := r\<rparr>) = send_patch sv"
  by (simp add: send_patch_def fun_eq_iff)

section \<open>Files\<close>

lemma agree_write_temp:
  "agree (rows_inv good L) anything (write_temp_prog pl tmp path body) (write_temp_prog pl tmp path body)"
  unfolding write_temp_prog_def
  by (auto intro!: agree_bind [OF agree_calls(3)] agree_bind [OF agree_calls(4)] agree_bind [OF agree_calls(5)]
      agree_bind [OF agree_calls(6)] agree.ret split: option.split)

lemma agree_writeConfig:
  "agree (rows_inv good L) anything (writeConfig_prog sv p) (writeConfig_prog (sv\<lparr>sv_Runtime := r\<rparr>) p)"
  unfolding writeConfig_prog_def writeAtomic_prog_def
  by (auto intro!: agree_bind [OF agree_calls(1)] agree_bind [OF agree_calls(2)] agree_bind [OF agree_write_temp]
      agree_bind [OF agree_calls(7)] agree.ret split: option.split sum.split)

section \<open>Statements and random values\<close>

text \<open>What a lookup, a listing and the random source return.\<close>

abbreviation found :: "(proxy \<Rightarrow> bool) \<Rightarrow> proxy res \<Rightarrow> bool" where
  "found L \<equiv> \<lambda>r. \<forall>p. r = Inr p \<longrightarrow> L p"

abbreviation all_found :: "(proxy \<Rightarrow> bool) \<Rightarrow> proxy list res \<Rightarrow> bool" where
  "all_found L \<equiv> \<lambda>r. \<forall>ps. r = Inr ps \<longrightarrow> (\<forall>p \<in> set ps. L p)"

lemma agree_get: "agree (rows_inv good L) (found L) (call (st_GetProxy pl c pid)) (call (st_GetProxy pl c pid))"
proof (rule agree_call)
  fix w x w' assume inv: "rows_inv good L w" and run: "st_GetProxy pl c pid w = (x, w')"
  have "rows_inv good L w'"
    using inv st_GetProxy_frame [OF run] by (auto simp: same_but_db_def intro: rows_inv_same simp: rows_inv_def)
  moreover have "found L x" using inv st_GetProxy_Inr [of pl c pid w _ w'] run by (auto simp: rows_inv_def)
  ultimately show "st_GetProxy pl c pid w = (x, w') \<and> rows_inv good L w' \<and> found L x" using run by simp
qed

lemma agree_list: "agree (rows_inv good L) (all_found L) (call (st_ListProxies pl c)) (call (st_ListProxies pl c))"
proof (rule agree_call)
  fix w x w' assume inv: "rows_inv good L w" and run: "st_ListProxies pl c w = (x, w')"
  have "rows_inv good L w'"
    using inv st_ListProxies_frame [OF run] by (auto simp: same_but_db_def intro: rows_inv_same simp: rows_inv_def)
  moreover have "all_found L x"
    using inv st_ListProxies_Inr [of w pl c _ w'] run by (fastforce simp: rows_inv_def ran_def)
  ultimately show "st_ListProxies pl c w = (x, w') \<and> rows_inv good L w' \<and> all_found L x" using run by simp
qed

lemma agree_delete:
  "agree (rows_inv good L) anything (call (st_DeleteProxy pl c pid)) (call (st_DeleteProxy pl c pid))"
proof (rule agree_call)
  fix w x w' assume inv: "rows_inv good L w" and run: "st_DeleteProxy pl c pid w = (x, w')"
  have wf: "db_wf (w_db w)" using inv by (simp add: rows_inv_def)
  have "rows w' k = Some p \<Longrightarrow> rows w k = Some p" for k p
    using others_after(3) [OF wf run, of k] st_DeleteProxy_None(3) [OF wf, of pl c pid w'] run
      st_DeleteProxy_Some [of pl c pid w _ w']
    by (cases x; cases "k = pid") auto
  then show "st_DeleteProxy pl c pid w = (x, w') \<and> rows_inv good L w' \<and> True"
    using inv run wf_after(3) [OF wf run] st_DeleteProxy_frame [OF run]
    by (auto simp: rows_inv_def same_but_db_def)
qed

context row_law
begin

lemma agree_create:
  assumes "L p"
  shows "agree (rows_inv good L) anything (call (st_CreateProxy pl c p)) (call (st_CreateProxy pl c p))"
proof (rule agree_call)
  fix w x w' assume inv: "rows_inv good L w" and run: "st_CreateProxy pl c p w = (x, w')"
  have wf: "db_wf (w_db w)" using inv by (simp add: rows_inv_def)
  have "L q" if "rows w' k = Some q" for k q
  proof (cases x)
    case None
    from st_CreateProxy_None(3) [OF wf run [unfolded None]] show ?thesis
      using that inv changes(4) [OF assms] by (auto simp: rows_inv_def split: if_splits)
  next
    case (Some e)
    then show ?thesis using that inv st_CreateProxy_Some [OF run [unfolded Some]] by (simp add: rows_inv_def)
  qed
  then show "st_CreateProxy pl c p w = (x, w') \<and> rows_inv good L w' \<and> True"
    using inv run wf_after(1) [OF wf run] st_CreateProxy_frame [OF run]
    by (auto simp: rows_inv_def same_but_db_def)
qed

lemma agree_update:
  assumes "L p"
  shows "agree (rows_inv good L) anything (call (st_UpdateProxy pl c p)) (call (st_UpdateProxy pl c p))"
proof (rule agree_call)
  fix w x w' assume inv: "rows_inv good L w" and run: "st_UpdateProxy pl c p w = (x, w')"
  have wf: "db_wf (w_db w)" using inv by (simp add: rows_inv_def)
  have "L q" if "rows w' k = Some q" for k q
  proof (cases x)
    case None
    obtain old :: proxy where "rows w' = (rows w)(px_ID p \<mapsto>
        p\<lparr>px_CreatedAt := px_CreatedAt old, px_UpdatedAt := stored_time (w_clock w)\<rparr>)"
      by (rule st_UpdateProxy_None [OF wf run [unfolded None]])
    then show ?thesis using that inv changes(4) [OF assms] by (auto simp: rows_inv_def split: if_splits)
  next
    case (Some e)
    then show ?thesis using that inv st_UpdateProxy_Some [OF run [unfolded Some]] by (simp add: rows_inv_def)
  qed
  then show "st_UpdateProxy pl c p w = (x, w') \<and> rows_inv good L w' \<and> True"
    using inv run wf_after(2) [OF wf run] st_UpdateProxy_frame [OF run]
    by (auto simp: rows_inv_def same_but_db_def)
qed

end

lemma agree_randomHex:
  "agree (rows_inv good L) (\<lambda>r. \<forall>s. r = Inr s \<longrightarrow> (\<exists>t b. pl_rand pl t n = Inr b \<and> s = hex_Encode b))
     (call (randomHex pl n)) (call (randomHex pl n))"
proof (rule agree_call)
  fix w x w' assume "rows_inv good L w" and run: "randomHex pl n w = (x, w')"
  moreover have "w_db w' = w_db w" "w_rt w' = w_rt w" "\<forall>s. x = Inr s \<longrightarrow> (\<exists>t b. pl_rand pl t n = Inr b \<and> s = hex_Encode b)"
    using run by (auto simp: randomHex_def rand_Read_def split: sum.splits)
  ultimately show "randomHex pl n w = (x, w') \<and> rows_inv good L w' \<and>
      (\<forall>s. x = Inr s \<longrightarrow> (\<exists>t b. pl_rand pl t n = Inr b \<and> s = hex_Encode b))"
    by (simp add: rows_inv_def)
qed

lemma agree_CheckPort:
  "agree (rows_inv good L) (\<lambda>e. e = None \<longrightarrow> port_allowed sv port)
     (call (os_CheckPort pl port (cf_ReservedPorts (sv_Cfg sv)))) (call (os_CheckPort pl port (cf_ReservedPorts (sv_Cfg sv))))"
  by (rule agree_call)
    (auto simp: os_CheckPort_def CheckPort_None_iff port_allowed_def rows_inv_def)

lemma agree_uuid:
  "agree (rows_inv good L) (\<lambda>u. \<exists>t. u = pl_uuid pl t) (call (uuid_NewString pl)) (call (uuid_NewString pl))"
  by (rule agree_call) (auto simp: uuid_NewString_def rows_inv_def)


section \<open>Calls of the runtime\<close>

locale interleaving = interchange rt ctrs inv rt' full + row_law sv full L
  for rt :: "'r runtime" and ctrs inv rt' full sv L +
  assumes sv: "sv_Runtime sv = rt"
begin

abbreviation I :: "'r world \<Rightarrow> bool" where
  "I \<equiv> rows_inv inv L"

abbreviation sv' :: "'r service" where
  "sv' \<equiv> sv\<lparr>sv_Runtime := rt'\<rparr>"

declare sv [simp]

abbreviation calling :: "ctx \<Rightarrow> 'r runtime \<Rightarrow> ('r runtime \<Rightarrow> bool \<Rightarrow> 'r \<Rightarrow> 'a \<times> 'r) \<Rightarrow> ('r world, 'a) prog" where
  "calling c r f \<equiv> call (call_rt (\<lambda>b. f r b) (sv_pl sv) c)"

lemma agree_runtime:
  assumes "\<And>b s x s'. inv s \<Longrightarrow> f rt b s = (x, s') \<Longrightarrow> f rt' b s = (x, s') \<and> inv s' \<and> Q x"
  shows "agree I Q (calling c rt f) (calling c rt' f)"
proof (rule agree_call)
  fix w x w' assume w: "I w" and run: "call_rt (\<lambda>b. f rt b) (sv_pl sv) c w = (x, w')"
  obtain s' where s': "f rt (ctx_done c w) (w_rt w) = (x, s')" "w' = (tick (sv_pl sv) w)\<lparr>w_rt := s'\<rparr>"
    using run by (auto simp: call_rt_def split: prod.splits)
  with assms [OF _ s'(1)] w
  show "call_rt (\<lambda>b. f rt' b) (sv_pl sv) c w = (x, w') \<and> I w' \<and> Q x"
    by (auto simp: call_rt_def rows_inv_def)
qed

lemma agree_network:
  "agree I anything (calling c rt (\<lambda>rt b. rt_EnsureNetwork rt b n sub))
     (calling c rt' (\<lambda>rt b. rt_EnsureNetwork rt b n sub))"
  by (rule agree_runtime) (auto simp: same_network dest: network_keeps)

lemma agree_pull:
  "agree I anything (calling c rt (\<lambda>rt b. rt_Pull rt b img)) (calling c rt' (\<lambda>rt b. rt_Pull rt b img))"
  by (rule agree_runtime) (auto simp: same_pull dest: pull_keeps)

text \<open>The id of a container that was created is a full one.\<close>

lemma agree_container:
  "agree I (\<lambda>r. \<forall>i. r = Inr i \<longrightarrow> full i) (calling c rt (\<lambda>rt b. rt_Create rt b sp))
     (calling c rt' (\<lambda>rt b. rt_Create rt b sp))"
proof (rule agree_runtime)
  fix b s x s' assume s: "inv s" "rt_Create rt b sp s = (x, s')"
  have "inv s'" using create_ok [of s b sp _ s'] create_err [of s b sp _ s'] s by (cases x) auto
  moreover have "full i" if "x = Inr i" for i
    using create_ok [of s b sp i s'] s that known [of s' i] by simp
  ultimately show "rt_Create rt' b sp s = (x, s') \<and> inv s' \<and> (\<forall>i. x = Inr i \<longrightarrow> full i)"
    using same_create [OF s(1)] s(2) by simp
qed

lemma agree_start:
  "full i \<Longrightarrow> agree I anything (calling c rt (\<lambda>rt b. rt_Start rt b i)) (calling c rt' (\<lambda>rt b. rt_Start rt b i))"
  by (rule agree_runtime) (auto simp: same_start dest: start_keeps)

lemma agree_remove_call:
  assumes "full i"
  shows "agree I anything (calling c rt (\<lambda>rt b. rt_Remove rt b i)) (calling c rt' (\<lambda>rt b. rt_Remove rt b i))"
proof (rule agree_runtime)
  fix b s x s' assume s: "inv s" "rt_Remove rt b i s = (x, s')"
  then show "rt_Remove rt' b i s = (x, s') \<and> inv s' \<and> True"
    using remove_ok [of s b i s'] remove_err [of s b i _ s'] same_remove [OF s(1) assms] by (cases x) auto
qed

lemma agree_inspect:
  "full i \<Longrightarrow> agree I anything (calling c rt (\<lambda>rt b. rt_Inspect rt b i)) (calling c rt' (\<lambda>rt b. rt_Inspect rt b i))"
  by (rule agree_runtime) (auto simp: same_inspect dest: inspect_keeps)

text \<open>So are the ids of a listing.\<close>

lemma agree_listing:
  "agree I (\<lambda>r. \<forall>cs. r = Inr cs \<longrightarrow> (\<forall>ci \<in> set cs. full (ci_ID ci)))
     (calling c rt (\<lambda>rt b. rt_List rt b managed_filter)) (calling c rt' (\<lambda>rt b. rt_List rt b managed_filter))"
proof (rule agree_runtime)
  fix b s x s' assume s: "inv s" "rt_List rt b managed_filter s = (x, s')"
  have "full (ci_ID ci)" if "x = Inr cs" "ci \<in> set cs" for cs ci
    using list_sound [OF s(1) s(2) [unfolded that(1)] that(2)] known [OF s(1), of "ci_ID ci"] by simp
  then show "rt_List rt' b managed_filter s = (x, s') \<and> inv s' \<and>
      (\<forall>cs. x = Inr cs \<longrightarrow> (\<forall>ci \<in> set cs. full (ci_ID ci)))"
    using same_list [OF s(1)] s list_keeps [OF s] by simp
qed

section \<open>The wait\<close>

lemma agree_probe:
  "full (px_ContainerID p) \<Longrightarrow> agree I anything (probe_prog sv c p l) (probe_prog sv' c p l)"
  unfolding probe_prog_def
  by (auto intro!: agree_bind [OF agree_inspect] agree_bind [OF agree_calls(12)] agree.ret split: sum.split)

text \<open>The rest of a wait.\<close>

lemma agree_loop:
  assumes "full (px_ContainerID p)"
  shows "agree I anything (call (wait_loop sv c p dl l)) (call (wait_loop sv' c p dl l))"
proof -
  have "wait_loop sv' c p dl l w = (x, w') \<and> I w'" if "I w" "wait_loop sv c p dl l w = (x, w')" for l w x w'
    using that
  proof (induction "nat (dl - w_clock w)" arbitrary: l w rule: less_induct)
    case less
    show ?case
    proof (cases "w_clock w < dl")
      case False
      then show ?thesis using less.prems
        unfolding wait_loop.simps [of sv c p dl l w] wait_loop.simps [of sv' c p dl l w] by simp
    next
      case True
      obtain b l1 w1 where pr: "probe sv c p l w = ((b, l1), w1)" by (metis prod.collapse)
      have pr': "probe sv' c p l w = ((b, l1), w1)" "I w1"
        using agree_run [OF agree_probe [OF assms] less.prems(1)] pr by simp_all
      obtain o' w2 where se: "select_wait (sv_pl sv) c w1 = (o', w2)" by fastforce
      have w2: "I w2" using agree_run [OF agree_calls(10) pr'(2)] se by simp
      show ?thesis
      proof (cases "b \<or> o'")
        case True
        then show ?thesis using less.prems \<open>w_clock w < dl\<close> pr pr' se w2
          unfolding wait_loop.simps [of sv c p dl l w] wait_loop.simps [of sv' c p dl l w]
          by (cases b) auto
      next
        case False
        have "w_clock w + Second \<le> w_clock w2" using round_advances [OF pr] se False by simp
        then have m: "nat (dl - w_clock w2) < nat (dl - w_clock w)" using True by (simp add: Second_def)
        have "wait_loop sv c p dl l1 w2 = (x, w')"
          using less.prems(2) True False pr se by (simp add: wait_loop.simps [of sv c p dl l w])
        from less.hyps [OF m w2 this] show ?thesis
          using True False pr' se by (simp add: wait_loop.simps [of sv' c p dl l w])
      qed
    qed
  qed
  then show ?thesis by (intro agree_call) simp
qed

lemma agree_wait:
  "full (px_ContainerID p) \<Longrightarrow> agree I anything (wait_prog sv c p dl l n) (wait_prog sv' c p dl l n)"
proof (induction n arbitrary: l)
  case 0
  then show ?case by (simp add: wait_prog.simps(1) agree_loop)
next
  case (Suc n)
  then show ?case unfolding wait_prog.simps(2)
    by (auto intro!: agree_bind [OF agree_calls(9)] agree_bind [OF agree_probe]
        agree_bind [OF agree_calls(10)] agree.ret)
qed

lemma agree_waitHealthy:
  "full (px_ContainerID p) \<Longrightarrow> agree I anything (waitHealthy_prog sv c p) (waitHealthy_prog sv' c p)"
  unfolding waitHealthy_prog_def by (simp add: agree_bind [OF agree_calls(9)] agree_wait)

end


section \<open>The operations\<close>

context interleaving
begin

lemma agree_undo:
  assumes "\<And>i. u = UndoContainer i \<Longrightarrow> full i"
  shows "agree I anything (call (\<lambda>w. ((), run_undo sv c u w))) (call (\<lambda>w. ((), run_undo sv' c u w)))"
proof (cases u)
  case (UndoRow pid)
  have "run_undo sv' c u w = run_undo sv c u w \<and> I (run_undo sv c u w)" if "I w" for w
    using agree_run [OF agree_delete that, of "sv_pl sv" "WithoutCancel c" pid]
    by (cases "st_DeleteProxy (sv_pl sv) (WithoutCancel c) pid w") (simp add: UndoRow)
  then show ?thesis by (intro agree_effect) simp
next
  case (UndoDir dir)
  have "run_undo sv' c u w = run_undo sv c u w \<and> I (run_undo sv c u w)" if "I w" for w
    using agree_run [OF agree_calls(8) that, of "sv_pl sv" dir]
    by (cases "os_RemoveAll (sv_pl sv) dir w") (simp add: UndoDir)
  then show ?thesis by (intro agree_effect) simp
next
  case (UndoContainer i)
  have "run_undo sv' c u w = run_undo sv c u w \<and> I (run_undo sv c u w)" if "I w" for w
    using agree_run [OF agree_remove_call [OF assms [OF UndoContainer], of "WithoutCancel c"] that]
    by (cases "call_rt (\<lambda>b. rt_Remove rt b i) (sv_pl sv) (WithoutCancel c) w") (simp add: UndoContainer)
  then show ?thesis by (intro agree_effect) simp
qed

lemma agree_rollback:
  "(\<And>i. UndoContainer i \<in> set us \<Longrightarrow> full i) \<Longrightarrow>
     agree I anything (rollback_prog sv c us x) (rollback_prog sv' c us x)"
  by (induction us) (auto intro!: agree.ret agree_bind [OF agree_undo])

lemma agree_finish:
  assumes "L p" "full (px_ContainerID p)"
  shows "agree I anything (finish_prog sv c p) (finish_prog sv' c p)"
  unfolding finish_prog_def using changes(5) [OF assms(1)]
  by (auto intro!: agree_bind [OF agree_waitHealthy] agree_bind [OF agree_update] agree.ret assms(2)
      split: option.split)

lemma agree_create_container:
  assumes "L p" "\<And>i. UndoContainer i \<in> set us \<Longrightarrow> full i"
  shows "agree I anything (create_container_prog sv c us p) (create_container_prog sv' c us p)"
  unfolding create_container_prog_def using assms changes(7) [OF assms(1)]
  by (auto intro!: agree_bind [OF agree_container] agree_bind [OF agree_start] agree_rollback agree_finish
      simp del: rollback_prog.simps split: option.split sum.split)

lemma agree_create_claim:
  assumes "L p"
  shows "agree I anything (create_claim_prog sv c p) (create_claim_prog sv' c p)"
  unfolding create_claim_prog_def create_prepare_prog_def
  by (auto intro!: agree_bind [OF agree_create] agree_bind [OF agree_writeConfig] agree_bind [OF agree_network]
      agree_bind [OF agree_pull] agree_rollback agree_create_container agree.ret assms
      simp del: rollback_prog.simps split: option.split)

lemma agree_Create: "agree I anything (Create_prog sv c req) (Create_prog sv' c req)"
  unfolding Create_prog_def
  by (auto intro!: agree_bind [OF agree_CheckPort] agree_bind [OF agree_randomHex] agree_bind [OF agree_uuid]
      agree_create_claim agree.ret fresh split: option.split sum.split)

lemma agree_remove: "(i \<noteq> '''' \<Longrightarrow> full i) \<Longrightarrow> agree I anything (remove_prog sv c i) (remove_prog sv' c i)"
  unfolding remove_prog_def by (auto intro!: agree_provided agree_remove_call)

lemma agree_Delete: "agree I anything (Delete_prog sv c pid) (Delete_prog sv' c pid)"
  unfolding Delete_prog_def
  by (auto intro!: agree_bind [OF agree_get] agree_bind [OF agree_remove] agree_bind [OF agree_calls(8)]
      agree_delete agree.ret simp: ids split: option.split sum.split)

lemma agree_ClientFor:
  assumes "L p"
  shows "agree I anything (ClientFor_prog sv c p) (ClientFor_prog sv' c p)"
  unfolding ClientFor_prog_def using ids [OF assms]
  by (auto intro!: agree_bind [OF agree_inspect] agree.ret split: sum.split)

lemma agree_UpdateLimits: "agree I anything (UpdateLimits_prog sv c pid lp) (UpdateLimits_prog sv' c pid lp)"
  unfolding UpdateLimits_prog_def live_apply_prog_def
  by (auto intro!: agree_bind [OF agree_get] agree_bind [OF agree_writeConfig]
      agree_bind [OF agree_bind [OF agree_ClientFor]]
      agree_bind [OF agree_calls(11)] agree_bind [OF agree_update] agree.ret changes(2,6)
      split: option.split sum.split)

lemma agree_startContainer:
  assumes "L p"
  shows "agree I anything (startContainer_prog sv c p) (startContainer_prog sv' c p)"
  unfolding startContainer_prog_def record_error_prog_def
  using changes(3) [OF assms] changes(7) [OF assms] changes(3) [OF changes(7) [OF assms]]
  by (auto intro!: agree_bind [OF agree_container] agree_bind [OF agree_start] agree_bind [OF agree_update]
      agree_finish agree.ret split: option.split sum.split)

lemma agree_Recreate: "agree I anything (Recreate_prog sv c pid port dn) (Recreate_prog sv' c pid port dn)"
proof -
  have moved: "agree I anything (recreate_container_prog sv c p port dn) (recreate_container_prog sv' c p port dn)"
    if "L p" "px_Port p = port \<or> port_allowed sv port" "dn \<noteq> ''''" for p port
    unfolding recreate_container_prog_def Let_def using changes(8) [OF that] ids [OF that(1)]
    by (auto intro!: agree_bind [OF agree_remove] agree_bind [OF agree_update] agree_bind [OF agree_writeConfig]
        agree_startContainer agree.ret split: option.split)
  have check: "agree I (\<lambda>e. e = None \<longrightarrow> px_Port p = port \<or> port_allowed sv port)
      (provided (port \<noteq> px_Port p) (call (os_CheckPort (sv_pl sv) port (cf_ReservedPorts (sv_Cfg sv)))))
      (provided (port \<noteq> px_Port p) (call (os_CheckPort (sv_pl sv) port (cf_ReservedPorts (sv_Cfg sv)))))" for p :: proxy
    by (rule agree_provided) (auto intro: agree_mono [OF agree_CheckPort])
  show ?thesis
    unfolding Recreate_prog_def
    by (auto intro!: agree_bind [OF agree_get] agree_bind [OF check] agree_bind [OF agree_update] moved
        agree.ret changes(1) split: option.split sum.split)
qed

lemma agree_Orphans:
  "agree I (\<lambda>r. \<forall>os. r = Inr os \<longrightarrow> (\<forall>ci \<in> set os. full (ci_ID ci))) (Orphans_prog sv c) (Orphans_prog sv' c)"
  unfolding Orphans_prog_def
  by (auto intro!: agree_bind [OF agree_list] agree_bind [OF agree_listing] agree.ret
      simp: orphans_of_def split: sum.split)

lemma agree_RemoveOrphan: "agree I anything (RemoveOrphan_prog sv c cid) (RemoveOrphan_prog sv' c cid)"
  unfolding RemoveOrphan_prog_def
  by (auto intro!: agree_bind [OF agree_Orphans] agree_remove_call agree.ret simp: list_ex_iff split: sum.split)

lemma agree_reconcile_row:
  assumes "L p" "\<And>ci. ci \<in> set cs \<Longrightarrow> full (ci_ID ci)"
  shows "agree I anything (reconcile_row_prog sv c cs p rep) (reconcile_row_prog sv' c cs p rep)"
  unfolding reconcile_row_prog_def using assms(2) changes(7) [OF assms(1)]
  by (auto intro!: agree_bind [OF agree_update] agree_bind [OF agree_calls(8)] agree_bind [OF agree_delete]
      agree_bind [OF agree_startContainer [OF assms(1)]] agree.ret dest!: by_proxy_id_Some
      split: option.split sum.split)

lemma agree_reconcile_rows:
  "(\<And>p. p \<in> set ps \<Longrightarrow> L p) \<Longrightarrow> (\<And>ci. ci \<in> set cs \<Longrightarrow> full (ci_ID ci)) \<Longrightarrow>
     agree I anything (reconcile_rows_prog sv c cs ps rep) (reconcile_rows_prog sv' c cs ps rep)"
  by (induction ps arbitrary: rep) (auto intro!: agree.ret agree_bind [OF agree_reconcile_row])

lemma agree_Reconcile: "agree I anything (Reconcile_prog sv c) (Reconcile_prog sv' c)"
  unfolding Reconcile_prog_def
  by (auto intro!: agree_bind [OF agree_list] agree_bind [OF agree_listing] agree_bind [OF agree_reconcile_rows]
      agree.ret split: sum.split)

lemma agree_program: "agree I anything (program sv op) (program sv' op)"
  by (cases op)
    (auto intro!: agree_bind [OF agree_Create] agree_bind [OF agree_Delete] agree_bind [OF agree_UpdateLimits]
      agree_bind [OF agree_Recreate] agree_bind [OF agree_RemoveOrphan] agree_bind [OF agree_Reconcile] agree.ret)

end


section \<open>Interleavings\<close>

text \<open>What the rest of the panel and of the machine does in between: statements on other tables, system calls,
  calls that only read, time.\<close>

definition elsewhere :: "('r \<Rightarrow> bool) \<Rightarrow> 'r world \<Rightarrow> 'r world \<Rightarrow> bool" where
  "elsewhere good w w' \<longleftrightarrow> t_proxies (w_db w') = t_proxies (w_db w) \<and> db_wf (w_db w') \<and>
     (good (w_rt w) \<longrightarrow> good (w_rt w'))"

lemma elsewhere_keeps: "rows_inv good L w \<Longrightarrow> elsewhere good w w' \<Longrightarrow> rows_inv good L w'"
  by (simp add: rows_inv_def elsewhere_def proxies_of_def)

context interleaving
begin

lemma interleaved:
  assumes "I w0" "(pool_step (range (program sv)) (elsewhere inv))\<^sup>*\<^sup>* (w0, []) (w, ts)"
  shows "I w"
proof -
  have "pool_inv I anything (w, ts)"
    by (rule pool_reachable_keeps [OF assms(2)])
      (use assms(1) agree_left [OF agree_program] elsewhere_keeps in \<open>auto simp: pool_inv_def\<close>)
  then show ?thesis by (simp add: pool_inv_def)
qed

text \<open>On the other runtime every operation, and every schedule of operations, does the same.\<close>

lemma other_runtime:
  assumes "I w"
  shows "perform sv' op w = perform sv op w" "I (snd (perform sv op w))"
proof -
  obtain x w' where "perform sv op w = (x, w')" by fastforce
  then show "perform sv' op w = perform sv op w" "I (snd (perform sv op w))"
    using agree_run [OF agree_program assms, of op x w'] by (simp_all add: run_program)
qed

lemma other_runtime_schedule:
  assumes "I w0"
  shows "fst (schedule is (w0, map (program sv') ops)) = fst (schedule is (w0, map (program sv) ops))"
    "I (fst (schedule is (w0, map (program sv) ops)))"
proof -
  obtain w ts where s: "schedule is (w0, map (program sv) ops) = (w, ts)" by fastforce
  have "list_all2 (agree I anything) (map (program sv) ops) (map (program sv') ops)"
    by (simp add: list_all2_conv_all_nth agree_program)
  from schedule_agree [OF assms this s] s
  show "fst (schedule is (w0, map (program sv') ops)) = fst (schedule is (w0, map (program sv) ops))"
    "I (fst (schedule is (w0, map (program sv) ops)))" by auto
qed

end

section \<open>The laws of the panel\<close>

lemma good_rows:
  assumes "honest_random (sv_pl sv)"
  shows "row_law sv (\<lambda>_. True) (good_proxy sv)"
proof
  show "good_proxy sv (new_proxy req (hex_Encode b) (hex_Encode b') (pl_uuid (sv_pl sv) u))"
    if "pl_rand (sv_pl sv) t 16 = Inr b" "pl_rand (sv_pl sv) t' 32 = Inr b'" "port_allowed sv (cr_Port req)"
      "cr_TLSDomain req \<noteq> ''''" for t b t' b' req u
    by (rule good_new_proxy [OF assms that])
  show "good_proxy sv q" if "good_proxy sv p" "evolves sv (\<lambda>_. True) p q" for p q
    using good_evolves [OF that(1)] that(2) by (simp add: evolves_def)
qed simp

text \<open>A proxy with an id that is never generated again keeps its identity.\<close>

definition is_still :: "proxy \<Rightarrow> proxy \<Rightarrow> bool" where
  "is_still p q \<longleftrightarrow> (px_ID q = px_ID p \<longrightarrow> same_identity p q)"

lemma identity_rows:
  assumes "\<And>t. pl_uuid (sv_pl sv) t \<noteq> px_ID p"
  shows "row_law sv (\<lambda>_. True) (is_still p)"
proof
  show "is_still p (new_proxy req (hex_Encode b) (hex_Encode b') (pl_uuid (sv_pl sv) u))" for req b b' u
    using assms [of u] by (simp add: is_still_def new_proxy_def)
  show "is_still p r" if "is_still p q" "evolves sv (\<lambda>_. True) q r" for q r
    using that by (auto simp: is_still_def evolves_def same_identity_def)
qed simp

text \<open>Every recorded container id was given by the runtime.\<close>

definition full_id :: "(string \<Rightarrow> bool) \<Rightarrow> proxy \<Rightarrow> bool" where
  "full_id full p \<longleftrightarrow> px_ContainerID p = '''' \<or> full (px_ContainerID p)"

lemma full_rows: "row_law sv full (full_id full)"
  by unfold_locales (auto simp: full_id_def evolves_def new_proxy_def)

lemma both_rows:
  assumes "row_law sv (\<lambda>_. True) L" "row_law sv full M"
  shows "row_law sv full (\<lambda>p. L p \<and> M p)"
proof
  show "L (new_proxy req (hex_Encode b) (hex_Encode b') (pl_uuid (sv_pl sv) u)) \<and>
      M (new_proxy req (hex_Encode b) (hex_Encode b') (pl_uuid (sv_pl sv) u))"
    if "pl_rand (sv_pl sv) t 16 = Inr b" "pl_rand (sv_pl sv) t' 32 = Inr b'" "port_allowed sv (cr_Port req)"
      "cr_TLSDomain req \<noteq> ''''" for t b t' b' req u
    using row_law.fresh [OF assms(1) that] row_law.fresh [OF assms(2) that] by blast
  show "L q \<and> M q" if "L p \<and> M p" "evolves sv full p q" for p q
    using row_law.evolve [OF assms(1), of p q] row_law.evolve [OF assms(2), of p q] that
    by (auto simp: evolves_def)
  show "full (px_ContainerID p)" if "L p \<and> M p" "px_ContainerID p \<noteq> ''''" for p
    using row_law.ids [OF assms(2)] that by blast
qed

lemma interleaved_rows:
  assumes "container_runtime (sv_Runtime sv) ctrs good" "row_law sv (\<lambda>_. True) L" "rows_inv good L w0"
    "(pool_step (range (program sv)) (elsewhere good))\<^sup>*\<^sup>* (w0, []) (w, ts)"
  shows "rows_inv good L w"
  using interleaving.interleaved [OF interleaving.intro, OF container_runtime.with_itself _ _ assms(3,4)] assms(1,2)
  by (simp add: interleaving_axioms_def)

end
