(* ===== verification/DockerPanel.thy ===== *)
theory DockerPanel imports Docker Interleave begin

text \<open>
  The panel on the Docker client. The contract of the runtime holds over a daemon that is asked in full
  ids only (\<open>in_full\<close>). Here: the panel never asks otherwise. Every reference it passes on is empty, an
  id that the daemon returned, or one that it lists, and so its operations, alone or interleaved, do on
  the real client what they do on \<open>in_full\<close>.
\<close>

context docker_daemon
begin

lemma docker_interchange:
  assumes ids: "\<And>s i. inv s \<Longrightarrow> ctrs s i \<noteq> None \<Longrightarrow> full i"
    and only: "\<And>s i j. inv s \<Longrightarrow> full i \<Longrightarrow> resolve s i = Some j \<Longrightarrow> j = i"
  shows "interchange (docker_runtime (in_full full sdk)) ctrs inv (docker_runtime sdk) full"
proof (rule interchange.intro [OF full_references.refines [OF asked_in_full [OF ids only]]])
  show "interchange_axioms (docker_runtime (in_full full sdk)) ctrs inv (docker_runtime sdk) full"
  proof (unfold_locales, goal_cases)
    case (8 s c)
    show ?case using List_in_full [OF 8 ids] by simp
  qed (use ids in \<open>auto simp: in_full_same in_full_others\<close>)
qed

end

text \<open>The service as it would be on a daemon that only takes full ids.\<close>

definition asking_in_full :: "(string \<Rightarrow> bool) \<Rightarrow> 'r docker_sdk \<Rightarrow> 'r service \<Rightarrow> 'r service" where
  "asking_in_full full sdk sv = sv\<lparr>sv_Runtime := docker_runtime (in_full full sdk)\<rparr>"

lemma law_other:
  "sv_pl (sv\<lparr>sv_Runtime := r\<rparr>) = sv_pl sv" "port_allowed (sv\<lparr>sv_Runtime := r\<rparr>) = port_allowed sv" "evolves (sv\<lparr>sv_Runtime := r\<rparr>) = evolves sv"
  by (simp_all add: port_allowed_def evolves_def fun_eq_iff)

lemma docker_interleaving:
  assumes "docker_daemon sdk ctrs resolve good"
    and "\<And>s i. good s \<Longrightarrow> ctrs s i \<noteq> None \<Longrightarrow> full i"
    and "\<And>s i j. good s \<Longrightarrow> full i \<Longrightarrow> resolve s i = Some j \<Longrightarrow> j = i"
    and "row_law sv full L"
  shows "interleaving (docker_runtime (in_full full sdk)) ctrs good (docker_runtime sdk) full
    (asking_in_full full sdk sv) L"
proof (intro interleaving.intro interleaving_axioms.intro)
  show "interchange (docker_runtime (in_full full sdk)) ctrs good (docker_runtime sdk) full"
    by (rule docker_daemon.docker_interchange [OF assms(1-3)])
  show "row_law (asking_in_full full sdk sv) full L"
    using assms(4) unfolding row_law_def asking_in_full_def by (simp only: law_other)
qed (simp add: asking_in_full_def)

end
