(* ===== verification/Crash.thy ===== *)
theory Crash imports Interleave begin

text \<open>
  A panel that stops in the middle of its operations and starts again: the pool of running programs is
  dropped, the database, the containers and the files stay, and the boot reconciles. What a pass achieves
  on a database that answers, from every state that an interleaving can leave behind.
\<close>

section \<open>Rows that agree with the containers\<close>

text \<open>A container of the panel for proxy \<open>k\<close>.\<close>

definition container_for :: "string \<Rightarrow> labels \<Rightarrow> bool" where
  "container_for k l \<longleftrightarrow> label_of l LabelManaged = ''true'' \<and> label_of l LabelProxyID = k"

lemma managed_labels_for [simp]: "container_for k (managed_labels k)"
  by (simp add: container_for_def managed_labels_def label_of_def LabelManaged_def LabelProxyID_def)

lemma listed_for: "labels_match managed_filter (ci_Labels ci) \<Longrightarrow> container_for (container_proxy ci) (ci_Labels ci)"
  by (simp add: container_for_def labels_match_def managed_filter_def container_proxy_def)

lemma container_for_listed: "container_for k l \<Longrightarrow> labels_match managed_filter l"
  by (simp add: container_for_def labels_match_def managed_filter_def)

text \<open>The row of \<open>k\<close>, if there is one, records a container of its own, or shows an error.\<close>

definition settled :: "('r \<Rightarrow> string \<rightharpoonup> labels) \<Rightarrow> 'r world \<Rightarrow> string \<Rightarrow> bool" where
  "settled ctrs w k \<longleftrightarrow> (\<forall>q. rows w k = Some q \<longrightarrow>
     (\<exists>l. ctrs (w_rt w) (px_ContainerID q) = Some l \<and> container_for k l) \<or> px_State q = StateError)"

context container_runtime
begin

lemma startContainer_settles:
  assumes sv: "sv_Runtime sv = rt" and w: "inv (w_rt w)" "db_wf (w_db w)" and rel: "db_reliable (sv_pl sv)"
    and row: "rows w (px_ID p) = Some p" and run: "startContainer sv c p w = (r, w')"
  shows "settled ctrs w' (px_ID p)"
    "ctrs (w_rt w') i = Some l \<Longrightarrow> ctrs (w_rt w) i = Some l \<or> l = managed_labels (px_ID p)"
proof -
  have "settled ctrs w' (px_ID p) \<and>
    (\<forall>i l. ctrs (w_rt w') i = Some l \<longrightarrow> ctrs (w_rt w) i = Some l \<or> l = managed_labels (px_ID p))"
  proof (cases r)
    case (Inr q)
    from startContainer_ok [OF sv w row refl run [unfolded Inr]] show ?thesis
      by (auto simp: settled_def same_proxy_fields split: if_splits)
  next
    case (Inl e)
    note st = run [unfolded Inl]
    obtain q' where "rows w' (px_ID p) = Some q'" "px_State q' = StateError"
      using startContainer_err [OF sv w row refl st rel] by blast
    then have "settled ctrs w' (px_ID p)" by (simp add: settled_def)
    moreover have "\<forall>i l. ctrs (w_rt w') i = Some l \<longrightarrow> ctrs (w_rt w) i = Some l \<or> l = managed_labels (px_ID p)"
    proof (cases rule: startContainer_steps [OF sv w(1) st, case_names refused dead started])
      case (refused e' w1)
      have "db_wf (w_db w1)" "rows w1 (px_ID p) = Some p" using w row refused(3) by (simp_all add: same_but_rt_def)
      from record_error_effect(1) [OF this refl] refused show ?thesis by (auto simp: same_but_db_def)
    next
      case (dead e' i w1)
      have "db_wf (w_db w1)" "rows w1 (px_ID (p\<lparr>px_ContainerID := i\<rparr>)) = Some p"
        using w row dead(3) by (simp_all add: same_but_rt_def)
      from record_error_effect(1) [OF this] dead show ?thesis by (auto simp: same_but_db_def split: if_splits)
    next
      case (started i w1)
      have "db_wf (w_db w1)" "rows w1 (px_ID (p\<lparr>px_ContainerID := i\<rparr>)) = Some p"
        using w row started(2) by (simp_all add: same_but_rt_def)
      from create_finish_effect(4) [OF started(1) this] rel show ?thesis by simp
    qed
    ultimately show ?thesis ..
  qed
  then show "settled ctrs w' (px_ID p)"
    "ctrs (w_rt w') i = Some l \<Longrightarrow> ctrs (w_rt w) i = Some l \<or> l = managed_labels (px_ID p)" by blast+
qed

text \<open>One row. What the listing says of the containers is still true when its row comes up, since a pass
  takes no container away.\<close>

lemma reconcile_row_settles:
  assumes sv: "sv_Runtime sv = rt" and w: "inv (w_rt w)" "db_wf (w_db w)"
    and rel: "db_reliable (sv_pl sv)" "cx_cancel_at c = None"
    and row: "rows w (px_ID p) = Some p"
    and cs: "\<And>ci. ci \<in> set cs \<Longrightarrow> ctrs (w_rt w) (ci_ID ci) = Some (ci_Labels ci) \<and>
      container_for (container_proxy ci) (ci_Labels ci)"
    and run: "reconcile_row sv c cs p (rep, w) = (rep', w')"
  shows "settled ctrs w' (px_ID p)"
    "ctrs (w_rt w') i = Some l \<Longrightarrow> ctrs (w_rt w) i = Some l \<or> (l = managed_labels (px_ID p) \<and> rows w' (px_ID p) \<noteq> None)"
proof -
  have live: "\<not> ctx_done c w" using rel(2) by (simp add: ctx_done_def)
  have "settled ctrs w' (px_ID p) \<and> (\<forall>i l. ctrs (w_rt w') i = Some l \<longrightarrow>
    ctrs (w_rt w) i = Some l \<or> (l = managed_labels (px_ID p) \<and> rows w' (px_ID p) \<noteq> None))"
  proof (cases "by_proxy_id cs (px_ID p)")
    case (Some ci)
    have ci: "ctrs (w_rt w) (ci_ID ci) = Some (ci_Labels ci)" "container_for (px_ID p) (ci_Labels ci)"
      using by_proxy_id_Some [OF Some] cs [of ci] by auto
    let ?p = "p\<lparr>px_ContainerID := ci_ID ci\<rparr>"
    obtain e w1 where up: "st_UpdateProxy (sv_pl sv) c ?p w = (e, w1)" by fastforce
    have "rows w (px_ID ?p) = Some p" using row by simp
    from st_UpdateProxy_works [OF rel(1) live w(2) this] have e: "e = None" using up by simp
    obtain old :: proxy where "rows w1 = (rows w)(px_ID ?p \<mapsto>
        ?p\<lparr>px_CreatedAt := px_CreatedAt old, px_UpdatedAt := stored_time (w_clock w)\<rparr>)"
      by (rule st_UpdateProxy_None [OF w(2) up [unfolded e]])
    moreover have "w_rt w1 = w_rt w" using st_UpdateProxy_frame [OF up] by (simp add: same_but_db_def)
    moreover have "w' = (if px_ContainerID p \<noteq> ci_ID ci then w1 else w)"
      using run Some up by (simp add: reconcile_row_def split: if_splits)
    ultimately show ?thesis using ci row by (auto simp: settled_def)
  next
    case none: None
    show ?thesis
    proof (cases "px_State p = StateCreating")
      case True
      obtain x w1 where ra: "os_RemoveAll (sv_pl sv) (configDir sv (px_ID p)) w = (x, w1)" by fastforce
      obtain e w2 where de: "st_DeleteProxy (sv_pl sv) (WithoutCancel c) (px_ID p) w1 = (e, w2)" by fastforce
      have eq: "w' = w2" using run none True ra de by (auto simp: reconcile_row_def)
      have f1: "w_db w1 = w_db w" "w_rt w1 = w_rt w" using fs_frames(8) [OF ra] by (simp_all add: same_but_fs_def)
      have e: "e = None" using st_DeleteProxy_works [OF rel(1), of "WithoutCancel c" w1 "px_ID p"] de f1 row by simp
      have "rows w2 (px_ID p) = None" using st_DeleteProxy_None(3) [OF _ de [unfolded e]] w f1 by simp
      moreover have "w_rt w2 = w_rt w" using st_DeleteProxy_frame [OF de] f1 by (simp add: same_but_db_def)
      ultimately show ?thesis by (simp add: eq settled_def)
    next
      case False
      obtain r w1 where st: "startContainer sv c p w = (r, w1)" by fastforce
      have eq: "w' = w1" using run none False st by (auto simp: reconcile_row_def split: sum.splits)
      obtain q where "rows w1 (px_ID p) = Some q" by (rule startContainer_row [OF sv w row st])
      then show ?thesis using startContainer_settles [OF sv w rel(1) row st] eq by auto
    qed
  qed
  then show "settled ctrs w' (px_ID p)" "ctrs (w_rt w') i = Some l \<Longrightarrow>
      ctrs (w_rt w) i = Some l \<or> (l = managed_labels (px_ID p) \<and> rows w' (px_ID p) \<noteq> None)" by blast+
qed

text \<open>No configuration is written: the directory of an abandoned creation goes, and that is all.\<close>

lemma startContainer_files:
  assumes sv: "sv_Runtime sv = rt" and w: "inv (w_rt w)" "db_wf (w_db w)"
    and row: "rows w (px_ID p) = Some p" and run: "startContainer sv c p w = (r, w')"
  shows "w_fs w' = w_fs w"
proof (cases rule: startContainer_steps [OF sv w(1) run, case_names refused dead started])
  case (refused e w1)
  have "db_wf (w_db w1)" "rows w1 (px_ID p) = Some p" using w row refused(3) by (simp_all add: same_but_rt_def)
  from record_error_effect(1) [OF this refl] refused show ?thesis by (auto simp: same_but_db_def same_but_rt_def)
next
  case (dead e i w1)
  have "db_wf (w_db w1)" "rows w1 (px_ID (p\<lparr>px_ContainerID := i\<rparr>)) = Some p"
    using w row dead(3) by (simp_all add: same_but_rt_def)
  from record_error_effect(1) [OF this] dead show ?thesis by (auto simp: same_but_db_def same_but_rt_def)
next
  case (started i w1)
  have "db_wf (w_db w1)" "rows w1 (px_ID (p\<lparr>px_ContainerID := i\<rparr>)) = Some p"
    using w row started(2) by (simp_all add: same_but_rt_def)
  from create_finish_effect(2) [OF started(1) this] started(2) show ?thesis by (simp add: same_but_rt_def)
qed

lemma reconcile_row_files:
  assumes sv: "sv_Runtime sv = rt" and w: "inv (w_rt w)" "db_wf (w_db w)"
    and row: "rows w (px_ID p) = Some p"
    and run: "reconcile_row sv c cs p (rep, w) = (rep', w')"
    and q: "rows w' (px_ID p) \<noteq> None \<and> db_reliable (sv_pl sv) \<or> \<not> below (configDir sv (px_ID p)) q"
  shows "w_fs w' q = w_fs w q"
proof (cases "by_proxy_id cs (px_ID p)")
  case (Some ci)
  then show ?thesis using run
    by (auto simp: reconcile_row_def same_but_db_def split: if_splits prod.splits dest!: st_UpdateProxy_frame)
next
  case none: None
  show ?thesis
  proof (cases "px_State p = StateCreating")
    case True
    obtain x w1 where ra: "os_RemoveAll (sv_pl sv) (configDir sv (px_ID p)) w = (x, w1)" by fastforce
    obtain e w2 where de: "st_DeleteProxy (sv_pl sv) (WithoutCancel c) (px_ID p) w1 = (e, w2)" by fastforce
    have eq: "w' = w2" using run none True ra de by (auto simp: reconcile_row_def)
    have f1: "w_db w1 = w_db w" using fs_frames(8) [OF ra] by (simp add: same_but_fs_def)
    have "rows w2 (px_ID p) = None" if "db_reliable (sv_pl sv)"
    proof -
      have "e = None" using st_DeleteProxy_works [OF that, of "WithoutCancel c" w1 "px_ID p"] de f1 row by simp
      then show ?thesis using st_DeleteProxy_None(3) [of w1 "sv_pl sv" "WithoutCancel c" "px_ID p" w2] de w f1 by simp
    qed
    then have "\<not> below (configDir sv (px_ID p)) q" using q eq by auto
    then show ?thesis using RemoveAll_outside [OF ra] st_DeleteProxy_frame [OF de] by (simp add: eq same_but_db_def)
  next
    case False
    obtain r w1 where st: "startContainer sv c p w = (r, w1)" by fastforce
    have "w' = w1" using run none False st by (auto simp: reconcile_row_def split: sum.splits)
    then show ?thesis using startContainer_files [OF sv w row st] by simp
  qed
qed

lemma other_config:
  assumes "plain_name j" "plain_name k" "j \<noteq> k"
  shows "\<not> below (configDir sv j) (configPath sv k)"
proof -
  let ?B = "filepath_Join [cf_DataDir (sv_Cfg sv), ''proxies''] @ ''/''"
  have n: "CHR ''/'' \<notin> set j" "CHR ''/'' \<notin> set k" using assms by (auto simp: plain_name_def)
  have dirs: "configDir sv j = ?B @ j" "configDir sv k = ?B @ k"
    using Join_proxies assms(1,2) by (simp_all add: configDir_def)
  have cut: "takeWhile (\<lambda>c. c \<noteq> CHR ''/'') (x @ CHR ''/'' # y) = x" if "CHR ''/'' \<notin> set x" for x y
    using that by (subst takeWhile_append2) auto
  have "j \<noteq> k @ CHR ''/'' # y" for y using n(1) by auto
  moreover have "j @ CHR ''/'' # x \<noteq> k @ CHR ''/'' # y" for x y using cut n assms(3) by metis
  moreover have "configPath sv k = ?B @ k @ CHR ''/'' # ''config.toml''"
    using configPath_eq(1) [OF assms(2), of sv] dirs(2) by simp
  ultimately show ?thesis
    unfolding below_def dirs(1) prefix_def by (auto dest: sym [of "k @ _"])
qed

text \<open>All rows. What a later row does leaves an earlier one settled, since no container goes.\<close>

lemma settled_undisturbed:
  assumes "undisturbed sv ctrs inv k w w'" "j \<noteq> k" "settled ctrs w j"
  shows "settled ctrs w' j"
  using assms unfolding undisturbed_def settled_def by metis

lemma reconcile_rows_settle:
  assumes sv: "sv_Runtime sv = rt" and w: "inv (w_rt w)" "db_wf (w_db w)"
    and rel: "db_reliable (sv_pl sv)" "cx_cancel_at c = None"
    and ps: "distinct (map px_ID ps)" "\<And>p. p \<in> set ps \<Longrightarrow> rows w (px_ID p) = Some p"
    and cs: "\<And>ci. ci \<in> set cs \<Longrightarrow> ctrs (w_rt w) (ci_ID ci) = Some (ci_Labels ci) \<and>
      container_for (container_proxy ci) (ci_Labels ci)"
    and run: "fold (reconcile_row sv c cs) ps (rep, w) = (rep', w')"
  shows "(\<forall>p \<in> set ps. settled ctrs w' (px_ID p)) \<and>
    (\<forall>j. j \<notin> px_ID ` set ps \<longrightarrow> settled ctrs w j \<longrightarrow> settled ctrs w' j) \<and>
    (\<forall>j. j \<notin> px_ID ` set ps \<longrightarrow> rows w' j = rows w j) \<and>
    (\<forall>i l. ctrs (w_rt w') i = Some l \<longrightarrow>
       ctrs (w_rt w) i = Some l \<or> (\<exists>k. l = managed_labels k \<and> rows w' k \<noteq> None))"
  using w ps cs run
proof (induction ps arbitrary: rep w)
  case Nil
  then show ?case by simp
next
  case (Cons p ps)
  obtain rep1 w1 where step: "reconcile_row sv c cs p (rep, w) = (rep1, w1)" by fastforce
  have row: "rows w (px_ID p) = Some p" using Cons.prems(4) by simp
  note u = reconcile_row_effect(1) [OF sv Cons.prems(1,2) row step]
  note e = reconcile_row_settles [OF sv Cons.prems(1,2) rel row Cons.prems(5) step]
  have w1: "inv (w_rt w1)" "db_wf (w_db w1)" "\<And>k. k \<noteq> px_ID p \<Longrightarrow> rows w1 k = rows w k"
    "\<And>j l. ctrs (w_rt w) j = Some l \<Longrightarrow> ctrs (w_rt w1) j = Some l"
    using u by (simp_all add: undisturbed_def)
  have ne: "px_ID q \<noteq> px_ID p" if "q \<in> set ps" for q using Cons.prems(3) that by (auto simp: image_iff)
  have rows1: "\<And>q. q \<in> set ps \<Longrightarrow> rows w1 (px_ID q) = Some q"
    using Cons.prems(4) w1(3) ne by simp
  have run1: "fold (reconcile_row sv c cs) ps (rep1, w1) = (rep', w')" using Cons.prems(6) step by simp
  have dist: "distinct (map px_ID ps)" "px_ID p \<notin> px_ID ` set ps" using Cons.prems(3) by simp_all
  have cs1: "ctrs (w_rt w1) (ci_ID ci) = Some (ci_Labels ci) \<and> container_for (container_proxy ci) (ci_Labels ci)"
    if "ci \<in> set cs" for ci using Cons.prems(5) [OF that] w1(4) by blast
  note ih = Cons.IH [OF w1(1,2) dist(1) rows1 cs1 run1]
  have "settled ctrs w' (px_ID p)" using ih dist(2) e(1) by blast
  moreover have "\<forall>j. j \<noteq> px_ID p \<longrightarrow> settled ctrs w j \<longrightarrow> settled ctrs w1 j"
    using settled_undisturbed [OF u] by blast
  moreover have "rows w' (px_ID p) = rows w1 (px_ID p)" using ih dist(2) by blast
  ultimately show ?case using ih e(2) w1(3) by (auto, metis+)
qed

end

section \<open>A whole pass\<close>

context container_runtime
begin

lemma reconcile_rows_files:
  assumes sv: "sv_Runtime sv = rt" and w: "inv (w_rt w)" "db_wf (w_db w)" and rel: "db_reliable (sv_pl sv)"
    and ps: "distinct (map px_ID ps)" "\<And>p. p \<in> set ps \<Longrightarrow> rows w (px_ID p) = Some p \<and> plain_name (px_ID p)"
    and run: "fold (reconcile_row sv c cs) ps (rep, w) = (rep', w')"
  shows "(\<forall>k. k \<notin> px_ID ` set ps \<longrightarrow> rows w' k = rows w k) \<and>
    (\<forall>k. plain_name k \<longrightarrow> rows w' k \<noteq> None \<longrightarrow> w_fs w' (configPath sv k) = w_fs w (configPath sv k))"
  using w ps run
proof (induction ps arbitrary: rep w)
  case Nil
  then show ?case by simp
next
  case (Cons p ps)
  obtain rep1 w1 where step: "reconcile_row sv c cs p (rep, w) = (rep1, w1)" by fastforce
  have row: "rows w (px_ID p) = Some p" "plain_name (px_ID p)" using Cons.prems(4) by simp_all
  note u = reconcile_row_effect(1) [OF sv Cons.prems(1,2) row(1) step]
  have w1: "inv (w_rt w1)" "db_wf (w_db w1)" "\<And>k. k \<noteq> px_ID p \<Longrightarrow> rows w1 k = rows w k"
    using u by (simp_all add: undisturbed_def)
  have dist: "distinct (map px_ID ps)" "px_ID p \<notin> px_ID ` set ps" using Cons.prems(3) by simp_all
  have rows1: "rows w1 (px_ID q) = Some q \<and> plain_name (px_ID q)" if "q \<in> set ps" for q
    using Cons.prems(4) [of q] w1(3) [of "px_ID q"] dist(2) that by (auto simp: image_iff)
  have run1: "fold (reconcile_row sv c cs) ps (rep1, w1) = (rep', w')" using Cons.prems(5) step by simp
  note ih = Cons.IH [OF w1(1,2) dist(1) rows1 run1]
  have "w_fs w1 (configPath sv k) = w_fs w (configPath sv k)" if k: "plain_name k" "rows w' k \<noteq> None" for k
  proof (rule reconcile_row_files [OF sv Cons.prems(1,2) row(1) step])
    have "rows w1 (px_ID p) \<noteq> None" if "k = px_ID p" using ih dist(2) k(2) that by simp
    then show "rows w1 (px_ID p) \<noteq> None \<and> db_reliable (sv_pl sv) \<or> \<not> below (configDir sv (px_ID p)) (configPath sv k)"
      using other_config [OF row(2) k(1)] rel by blast
  qed
  then show ?case using ih w1(3) by auto
qed

end

context container_runtime
begin

text \<open>The parts of a pass: the rows, the listing, and the state in which the rows are gone through.\<close>

lemma Reconcile_parts:
  assumes sv: "sv_Runtime sv = rt" and w: "inv (w_rt w)" "db_wf (w_db w)"
    and run: "Reconcile sv c w = (Inr rep, w')"
  obtains ps cs w1 w2 where
    "fold (reconcile_row sv c cs) ps (empty_report\<lparr>rp_Orphans := map ci_ID (orphans_of ps cs)\<rparr>, w2) = (rep, w')"
    "\<forall>k. k \<in> px_ID ` set ps \<longleftrightarrow> rows w k \<noteq> None" "distinct (map px_ID ps)"
    "\<forall>p\<in>set ps. rows w2 (px_ID p) = Some p"
    "call_rt (\<lambda>b. rt_List rt b managed_filter) (sv_pl sv) c w1 = (Inr cs, w2)" "w_rt w1 = w_rt w"
    "w_db w2 = w_db w" "w_fs w2 = w_fs w" "ctrs (w_rt w2) = ctrs (w_rt w)" "inv (w_rt w2)"
    "\<forall>ci\<in>set cs. ctrs (w_rt w2) (ci_ID ci) = Some (ci_Labels ci) \<and>
       container_for (container_proxy ci) (ci_Labels ci)"
proof -
  obtain ps w1 cs w2 where l: "st_ListProxies (sv_pl sv) c w = (Inr ps, w1)"
    "call_rt (\<lambda>b. rt_List rt b managed_filter) (sv_pl sv) c w1 = (Inr cs, w2)"
    and fold: "fold (reconcile_row sv c cs) ps (empty_report\<lparr>rp_Orphans := map ci_ID (orphans_of ps cs)\<rparr>, w2)
      = (rep, w')"
    using run unfolding Reconcile_def sv Let_def by (auto split: prod.splits sum.splits)
  note f1 = ListProxies_frames [OF l(1)] and ids = listed_ids [OF w(2) l(1)]
  have i1: "inv (w_rt w1)" using f1 w by simp
  have f2: "w_db w2 = w_db w" "w_fs w2 = w_fs w" "ctrs (w_rt w2) = ctrs (w_rt w)" "inv (w_rt w2)"
    using call_rt_frame [OF l(2)] call_keeps(8) [OF i1 l(2)] f1 by (simp_all add: same_but_rt_def)
  have cs: "ctrs (w_rt w2) (ci_ID ci) = Some (ci_Labels ci) \<and> container_for (container_proxy ci) (ci_Labels ci)"
    if "ci \<in> set cs" for ci
    using call_list [OF i1 l(2) that] f1 f2(3) by (simp add: listed_for)
  show thesis
    by (rule that [OF fold _ ids(3) _ l(2) _ f2]) (use ids(1,2) f1 f2(1) cs in auto)
qed

lemma Reconcile_settled:
  assumes sv: "sv_Runtime sv = rt" and w: "inv (w_rt w)" "db_wf (w_db w)"
    and rel: "db_reliable (sv_pl sv)" "cx_cancel_at c = None"
    and run: "Reconcile sv c w = (Inr rep, w')"
  shows "settled ctrs w' k"
    "ctrs (w_rt w') i = Some l \<Longrightarrow> ctrs (w_rt w) i = Some l \<or> (\<exists>k. l = managed_labels k \<and> rows w' k \<noteq> None)"
proof -
  obtain ps cs w1 w2 where p:
    "fold (reconcile_row sv c cs) ps (empty_report\<lparr>rp_Orphans := map ci_ID (orphans_of ps cs)\<rparr>, w2) = (rep, w')"
    "\<forall>k. k \<in> px_ID ` set ps \<longleftrightarrow> rows w k \<noteq> None" "distinct (map px_ID ps)"
    "\<forall>p\<in>set ps. rows w2 (px_ID p) = Some p"
    "call_rt (\<lambda>b. rt_List rt b managed_filter) (sv_pl sv) c w1 = (Inr cs, w2)" "w_rt w1 = w_rt w"
    "w_db w2 = w_db w" "w_fs w2 = w_fs w" "ctrs (w_rt w2) = ctrs (w_rt w)" "inv (w_rt w2)"
    "\<forall>ci\<in>set cs. ctrs (w_rt w2) (ci_ID ci) = Some (ci_Labels ci) \<and>
       container_for (container_proxy ci) (ci_Labels ci)"
    by (rule Reconcile_parts [OF sv w run]) (rule that; assumption)
  have wf2: "db_wf (w_db w2)" using w(2) p(7) by simp
  note all = reconcile_rows_settle [OF sv p(10) wf2 rel p(3) p(4) [rule_format] p(11) [rule_format] p(1)]
  show "settled ctrs w' k"
  proof (cases "rows w k")
    case None
    then show ?thesis using all p(2,7) by (metis settled_def option.distinct(1))
  next
    case (Some q)
    then have "k \<in> px_ID ` set ps" using p(2) by simp
    then show ?thesis using all by blast
  qed
  show "ctrs (w_rt w') i = Some l \<Longrightarrow> ctrs (w_rt w) i = Some l \<or> (\<exists>k. l = managed_labels k \<and> rows w' k \<noteq> None)"
    using all p(9) by metis
qed

lemma Reconcile_files:
  assumes sv: "sv_Runtime sv = rt" and w: "inv (w_rt w)" "db_wf (w_db w)" and rel: "db_reliable (sv_pl sv)"
    and plain: "\<And>j p. rows w j = Some p \<Longrightarrow> plain_name (px_ID p)"
    and run: "Reconcile sv c w = (Inr rep, w')" and k: "rows w' k \<noteq> None"
  shows "w_fs w' (configPath sv k) = w_fs w (configPath sv k)"
proof -
  obtain ps cs w1 w2 where p:
    "fold (reconcile_row sv c cs) ps (empty_report\<lparr>rp_Orphans := map ci_ID (orphans_of ps cs)\<rparr>, w2) = (rep, w')"
    "\<forall>k. k \<in> px_ID ` set ps \<longleftrightarrow> rows w k \<noteq> None" "distinct (map px_ID ps)"
    "\<forall>p\<in>set ps. rows w2 (px_ID p) = Some p"
    "call_rt (\<lambda>b. rt_List rt b managed_filter) (sv_pl sv) c w1 = (Inr cs, w2)" "w_rt w1 = w_rt w"
    "w_db w2 = w_db w" "w_fs w2 = w_fs w" "ctrs (w_rt w2) = ctrs (w_rt w)" "inv (w_rt w2)"
    "\<forall>ci\<in>set cs. ctrs (w_rt w2) (ci_ID ci) = Some (ci_Labels ci) \<and>
       container_for (container_proxy ci) (ci_Labels ci)"
    by (rule Reconcile_parts [OF sv w run]) (rule that; assumption)
  have wf2: "db_wf (w_db w2)" using w(2) p(7) by simp
  have rows2: "rows w2 (px_ID q) = Some q \<and> plain_name (px_ID q)" if "q \<in> set ps" for q
    using bspec [OF p(4) that] plain p(7) by auto
  note files = reconcile_rows_files [OF sv p(10) wf2 rel p(3) rows2 p(1)]
  obtain q where "rows w k = Some q" using files k spec [OF p(2), of k] p(7) by fastforce
  then have "plain_name k" using plain proxies.ids_agree by blast
  then show ?thesis using files k p(8) by simp
qed

end

context complete_listing
begin

lemma Reconcile_owners:
  assumes sv: "sv_Runtime sv = rt" and w: "inv (w_rt w)" "db_wf (w_db w)"
    and rel: "db_reliable (sv_pl sv)" "cx_cancel_at c = None"
    and run: "Reconcile sv c w = (Inr rep, w')" and i: "ctrs (w_rt w') i = Some l" "container_for k l"
  shows "rows w' k \<noteq> None \<or> i \<in> set (rp_Orphans rep)"
proof (cases "ctrs (w_rt w) i = Some l")
  case False
  then obtain k' where k': "l = managed_labels k'" "rows w' k' \<noteq> None"
    using Reconcile_settled(2) [OF sv w rel run i(1)] by blast
  then have "k' = k" using i(2) managed_labels_for [of k'] by (simp add: container_for_def)
  then show ?thesis using k' by simp
next
  case True
  obtain cs w1 w2 where list: "call_rt (\<lambda>b. rt_List rt b managed_filter) (sv_pl sv) c w1 = (Inr cs, w2)"
    "w_rt w1 = w_rt w" and orph: "rp_Orphans rep = map ci_ID (filter (\<lambda>ci. rows w (container_proxy ci) = None) cs)"
    by (rule Reconcile_effect [OF sv w run]) blast
  have i1: "inv (w_rt w1)" "ctrs (w_rt w1) i = Some l" using w list(2) True by simp_all
  obtain ci where ci: "ci \<in> set cs" "ci_ID ci = i"
    using list_complete [OF i1(1) call_rt_D [OF list(1)] i1(2) container_for_listed [OF i(2)]] by blast
  have "ci_Labels ci = l" using call_list(1) [OF i1(1) list(1) ci(1)] i1(2) ci(2) by simp
  then have "container_proxy ci = k" using i(2) by (simp add: container_proxy_def container_for_def)
  then have "rows w k = None \<Longrightarrow> i \<in> set (rp_Orphans rep)" using ci orph by auto
  moreover have "rows w' k \<noteq> None" if "rows w k = Some p" for p
    using Reconcile_owned [OF sv w run that True] i(2) by (auto simp: container_for_def)
  ultimately show ?thesis by blast
qed

end

end
