(* ===== verification/GoURL.thy ===== *)
theory GoURL imports Link begin

text \<open>
  \<open>net/url.Parse\<close> of Go 1.25.0, as far as the panel looks at the result: whether the text parses, and
  its raw query; \<open>url.Values.Get\<close> on that query; and \<open>net.SplitHostPort\<close>.
\<close>

section \<open>Escapes\<close>

fun escapes_ok :: "string \<Rightarrow> bool" where
  "escapes_ok [] = True"
| "escapes_ok (c # s) =
     (if c = CHR ''%'' then (case s of a # b # t \<Rightarrow> is_hex a \<and> is_hex b \<and> escapes_ok t | _ \<Rightarrow> False)
      else escapes_ok s)"

definition alnum :: "char \<Rightarrow> bool" where
  "alnum c \<longleftrightarrow> is_digit c \<or> (65 \<le> code_of c \<and> code_of c \<le> 90) \<or> (97 \<le> code_of c \<and> code_of c \<le> 122)"

text \<open>\<open>shouldEscape\<close> in the modes for hosts and zones, negated.\<close>

definition host_char :: "char \<Rightarrow> bool" where
  "host_char c \<longleftrightarrow> alnum c \<or> c \<in> set (c_dq # CHR 0x27 # ''!$&()*+,;=:[]<>-_.~'')"

text \<open>\<open>unescape\<close> in the modes for hosts (\<open>zone = False\<close>) and zones: does it succeed?\<close>

fun host_ok :: "bool \<Rightarrow> string \<Rightarrow> bool" where
  "host_ok zone [] = True"
| "host_ok zone (c # s) =
     (if c = CHR ''%'' then
        (case s of
           a # b # t \<Rightarrow>
             (case (hex_val a, hex_val b) of
                (Some m, Some n) \<Rightarrow>
                  (if [a, b] = ''25'' then True
                   else if zone then m * 16 + n = 32 \<or> host_char (chr_of (m * 16 + n))
                   else 8 \<le> m) \<and> host_ok zone t
              | _ \<Rightarrow> False)
         | _ \<Rightarrow> False)
      else (128 \<le> code_of c \<or> host_char c) \<and> host_ok zone s)"

section \<open>Cutting\<close>

definition before_last :: "char \<Rightarrow> string \<Rightarrow> (string \<times> string) option" where
  "before_last d s =
     (if d \<in> set s then Some (rev (tl (dropWhile (\<lambda>c. c \<noteq> d) (rev s))), rev (takeWhile (\<lambda>c. c \<noteq> d) (rev s)))
      else None)"

text \<open>\<open>strings.Index(s, "%25")\<close>.\<close>

fun zone_index :: "string \<Rightarrow> nat option" where
  "zone_index [] = None"
| "zone_index (c # s) = (if prefix ''%25'' (c # s) then Some 0 else map_option Suc (zone_index s))"

definition validOptionalPort :: "string \<Rightarrow> bool" where
  "validOptionalPort s \<longleftrightarrow> (case s of [] \<Rightarrow> True | c # t \<Rightarrow> c = CHR '':'' \<and> list_all is_digit t)"

definition parseHost_ok :: "string \<Rightarrow> bool" where
  "parseHost_ok h =
     (if prefix ''['' h then
        (case before_last CHR '']'' h of
           None \<Rightarrow> False
         | Some (inside, port) \<Rightarrow>
             validOptionalPort port \<and>
             (case zone_index inside of
                Some z \<Rightarrow> host_ok False (take z h) \<and> host_ok True (drop z inside) \<and> host_ok False ('']'' @ port)
              | None \<Rightarrow> host_ok False h))
      else
        (case before_last CHR '':'' h of
           Some (_, port) \<Rightarrow> validOptionalPort ('':'' @ port)
         | None \<Rightarrow> True) \<and> host_ok False h)"

definition validUserinfo :: "string \<Rightarrow> bool" where
  "validUserinfo s \<longleftrightarrow> list_all (\<lambda>c. alnum c \<or> c \<in> set (CHR 0x27 # ''-._:~!$&()*+,;=%@'')) s"

definition parseAuthority_ok :: "string \<Rightarrow> bool" where
  "parseAuthority_ok a =
     (case before_last CHR ''@'' a of
        None \<Rightarrow> parseHost_ok a
      | Some (info, h) \<Rightarrow>
          parseHost_ok h \<and> validUserinfo info \<and>
          (if CHR '':'' \<in> set info
           then escapes_ok (fst (cut CHR '':'' info)) \<and> escapes_ok (snd (cut CHR '':'' info))
           else escapes_ok info))"

text \<open>\<open>getScheme\<close>: \<open>None\<close> is an error.\<close>

definition getScheme :: "string \<Rightarrow> (string \<times> string) option" where
  "getScheme s =
     (let word = takeWhile (\<lambda>c. alnum c \<or> c \<in> set ''+-.'') s;
          rest = drop (length word) s
      in if word \<noteq> [] \<and> (is_digit (hd word) \<or> hd word \<in> set ''+-.'') then Some ('''', s)
         else case rest of
                c # t \<Rightarrow> if c = CHR '':'' then (if word = [] then None else Some (word, t)) else Some ('''', s)
              | [] \<Rightarrow> Some ('''', s))"

definition cut_query :: "string \<Rightarrow> string \<times> string" where
  "cut_query rest =
     (if strings_HasSuffix rest ''?'' \<and> count_list rest CHR ''?'' = 1 then (butlast rest, '''')
      else cut CHR ''?'' rest)"

text \<open>Scheme and rest are known, the query is cut off: is the rest well formed?\<close>

definition rest_ok :: "string \<Rightarrow> string \<Rightarrow> bool" where
  "rest_ok scheme rest =
     (if \<not> prefix ''/'' rest \<and> scheme \<noteq> '''' then True
      else if \<not> prefix ''/'' rest \<and> CHR '':'' \<in> set (fst (cut CHR ''/'' rest)) then False
      else if (scheme \<noteq> '''' \<or> \<not> prefix ''///'' rest) \<and> prefix ''//'' rest then
        (let authority = takeWhile (\<lambda>c. c \<noteq> CHR ''/'') (drop 2 rest);
             path = dropWhile (\<lambda>c. c \<noteq> CHR ''/'') (drop 2 rest)
         in parseAuthority_ok authority \<and> escapes_ok path)
      else escapes_ok rest)"

definition url_parse :: "string \<Rightarrow> string option" where
  "url_parse s =
     (if list_ex (\<lambda>c. code_of c < 32 \<or> code_of c = 127) s then None
      else if s = ''*'' then Some ''''
      else case getScheme s of None \<Rightarrow> None
      | Some (scheme, rest) \<Rightarrow>
          (let (rest, query) = cut_query rest in if rest_ok scheme rest then Some query else None))"

text \<open>The raw query of a text that parses.\<close>

definition url_Parse :: "string \<Rightarrow> string option" where
  "url_Parse s =
     (let (u, frag) = cut CHR ''#'' s in
      case url_parse u of None \<Rightarrow> None | Some q \<Rightarrow> if escapes_ok frag then Some q else None)"

text \<open>\<open>Query().Get(key)\<close>: malformed pairs are left out, the first value counts, none is empty.\<close>

definition query_values :: "string \<Rightarrow> string \<Rightarrow> string list" where
  "query_values q key =
     List.map_filter (\<lambda>kv.
       if kv = '''' \<or> CHR '';'' \<in> set kv then None
       else let (k, v) = cut CHR ''='' kv
            in case QueryUnescape k of None \<Rightarrow> None
               | Some k \<Rightarrow> (case QueryUnescape v of None \<Rightarrow> None | Some v \<Rightarrow> if k = key then Some v else None))
       (split_on CHR ''&'' q)"

definition query_Get :: "string \<Rightarrow> string \<Rightarrow> string" where
  "query_Get q key = (case query_values q key of [] \<Rightarrow> '''' | v # _ \<Rightarrow> v)"

section \<open>The link of a proxy parses back\<close>

lemma build_parses:
  assumes "FakeTLS host port secret domain = Inr l"
  shows "url_Parse l = Some (''server='' @ QueryEscape host @ ''&port='' @ Itoa port @
      ''&secret=ee'' @ strings_ToLower secret @ hex_Encode domain)"
proof -
  let ?q = "''server='' @ QueryEscape host @ ''&port='' @ Itoa port @ ''&secret=ee'' @ strings_ToLower secret @ hex_Encode domain"
  have l: "l = ''tg://proxy?'' @ ?q" and hex: "\<forall>c \<in> set secret. is_hex c"
    using assms by (simp_all add: FakeTLS_def build_Inr_iff)
  have plain: "32 \<le> code_of c \<and> code_of c \<noteq> 127 \<and> c \<noteq> CHR ''#'' \<and> c \<noteq> CHR ''?''" if "c \<in> set ?q" for c
  proof -
    have u: "unreserved c \<Longrightarrow> 32 \<le> code_of c \<and> code_of c \<noteq> 127 \<and> c \<noteq> CHR ''#'' \<and> c \<noteq> CHR ''?''" for c
      by (auto simp: unreserved_def is_digit_def)
    have h: "is_lower_hex c \<Longrightarrow> 32 \<le> code_of c \<and> code_of c \<noteq> 127 \<and> c \<noteq> CHR ''#'' \<and> c \<noteq> CHR ''?''" for c
      by (auto simp: is_lower_hex_def is_digit_def)
    have i: "c \<in> set (Itoa port) \<Longrightarrow> 32 \<le> code_of c \<and> code_of c \<noteq> 127 \<and> c \<noteq> CHR ''#'' \<and> c \<noteq> CHR ''?''"
      using Itoa_chars [of c port] by (auto simp: is_digit_def)
    show ?thesis
      using that QueryEscape_chars [of c host] ToLower_hex [OF hex, of c] hex_Encode_lower [of c domain] u [of c] h [of c] i
      by auto
  qed
  have frag: "cut CHR ''#'' l = (l, '''')"
  proof -
    have "\<forall>c \<in> set l. c \<noteq> CHR ''#''" using plain unfolding l by (auto simp del: append.append_Cons)
    then show ?thesis by (simp add: cut_def takeWhile_eq_all_conv dropWhile_eq_Nil_conv [THEN iffD2])
  qed
  have ctl: "\<not> list_ex (\<lambda>c. code_of c < 32 \<or> code_of c = 127) l"
    using plain unfolding l by (fastforce simp: list_ex_iff)
  have scheme: "getScheme l = Some (''tg'', ''//proxy?'' @ ?q)"
    by (simp add: l getScheme_def alnum_def is_digit_def Let_def)
  have "last (''//proxy?'' @ ?q) \<noteq> CHR ''?''"
  proof -
    have "last (''//proxy?'' @ ?q) = last ?q" by simp
    moreover have "last ?q \<in> set ?q" by (rule last_in_set) simp
    ultimately show ?thesis using plain by metis
  qed
  then have "\<not> strings_HasSuffix (''//proxy?'' @ ?q) ''?''"
    by (metis strings_HasSuffix_def suffix_def last_snoc)
  then have query: "cut_query (''//proxy?'' @ ?q) = (''//proxy'', ?q)"
    using cut_append [of "CHR ''?''" "''//proxy''" ?q] by (simp add: cut_query_def)
  have rest: "rest_ok ''tg'' ''//proxy''"
    by (simp add: rest_ok_def parseAuthority_ok_def parseHost_ok_def before_last_def host_char_def alnum_def is_digit_def)
  have "l \<noteq> ''*''" by (simp add: l)
  then have "url_parse l = Some ?q" using ctl scheme query rest by (simp add: url_parse_def)
  then show ?thesis using frag by (simp add: url_Parse_def)
qed

text \<open>What \<open>Query().Get("server")\<close> finds in it.\<close>

lemma map_filter_Cons_Some: "f x = Some y \<Longrightarrow> List.map_filter f (x # xs) = y # List.map_filter f xs"
  by (simp add: map_filter_simps)

lemma build_server:
  assumes hex: "\<forall>c \<in> set secret. is_hex c"
  shows "query_Get (''server='' @ QueryEscape host @ ''&port='' @ Itoa port @
      ''&secret=ee'' @ strings_ToLower secret @ hex_Encode domain) ''server'' = host"
proof -
  let ?kv = "''server='' @ QueryEscape host"
  have amp: "CHR ''&'' \<notin> set ?kv" and semi: "CHR '';'' \<notin> set ?kv"
    using QueryEscape_no_delim(1,4) [of host] by auto
  have "cut CHR ''='' ?kv = (''server'', QueryEscape host)" by (simp add: cut_def)
  moreover have "QueryUnescape ''server'' = Some ''server''" by simp
  ultimately have one: "query_values (?kv @ CHR ''&'' # rest) ''server'' = host # query_values rest ''server''" for rest
    using semi split_on_append [OF amp, of rest]
    by (simp add: query_values_def map_filter_Cons_Some)
  show ?thesis using one [of "''port='' @ Itoa port @ ''&secret=ee'' @ strings_ToLower secret @ hex_Encode domain"]
    by (simp add: query_Get_def)
qed

section \<open>net.SplitHostPort\<close>

text \<open>The host, if the address splits.\<close>

definition SplitHost :: "string \<Rightarrow> string option" where
  "SplitHost s =
     (case before_last CHR '':'' s of
        None \<Rightarrow> None
      | Some (h, port) \<Rightarrow>
          if prefix ''['' s then
            (let inside = takeWhile (\<lambda>c. c \<noteq> CHR '']'') s; close = length inside in
             if CHR '']'' \<notin> set s then None
             else if close + 1 \<noteq> length h then None
             else if CHR ''['' \<in> set (drop 1 s) \<or> CHR '']'' \<in> set (drop (close + 1) s) then None
             else Some (drop 1 inside))
          else if CHR '':'' \<in> set h then None
          else if CHR ''['' \<in> set s \<or> CHR '']'' \<in> set s then None
          else Some h)"

lemma before_last_append: "d \<notin> set t \<Longrightarrow> before_last d (s @ d # t) = Some (s, t)"
  by (auto simp: before_last_def takeWhile_append dropWhile_append takeWhile_eq_all_conv)

lemma SplitHost_name:
  assumes "CHR '':'' \<notin> set h" "CHR ''['' \<notin> set h" "CHR '']'' \<notin> set h" "\<forall>c \<in> set port. is_digit c"
  shows "SplitHost (h @ CHR '':'' # port) = Some h"
proof -
  have p: "CHR '':'' \<notin> set port" "CHR ''['' \<notin> set port" "CHR '']'' \<notin> set port"
    using assms(4) by (auto simp: is_digit_def)
  have "\<not> prefix ''['' (h @ CHR '':'' # port)" using assms(2) by (cases h) auto
  then show ?thesis using assms p by (simp add: SplitHost_def before_last_append)
qed

lemma SplitHost_bracketed:
  assumes "CHR ''['' \<notin> set h" "CHR '']'' \<notin> set h" "\<forall>c \<in> set port. is_digit c"
  shows "SplitHost (''['' @ h @ '']:'' @ port) = Some h"
proof -
  have p: "CHR '':'' \<notin> set port" "CHR ''['' \<notin> set port" "CHR '']'' \<notin> set port"
    using assms(3) by (auto simp: is_digit_def)
  have "before_last CHR '':'' (''['' @ h @ '']:'' @ port) = Some (''['' @ h @ '']'', port)"
    using before_last_append [OF p(1), of "''['' @ h @ '']''"] by simp
  moreover have "takeWhile (\<lambda>c. c \<noteq> CHR '']'') (h @ '']:'' @ port) = h"
    using assms(2) by (auto simp: takeWhile_append takeWhile_eq_all_conv)
  ultimately show ?thesis using assms p by (simp add: SplitHost_def)
qed

end
