(* ===== verification/WebFormat.thy ===== *)
theory WebFormat imports GoURL GoTime begin

text \<open>
  The pure helpers of \<open>internal/web\<close>: sizes for people, the optional fields of the limits form, SSE
  frames, short container ids.
\<close>

section \<open>humanBytes\<close>

text \<open>The loop over units: \<open>v\<close> has been divided once more than \<open>exp\<close> says. Words, as in Go.\<close>

function units :: "64 word \<Rightarrow> 64 word \<Rightarrow> nat \<Rightarrow> 64 word \<times> nat" where
  "units v div' exp' = (if v \<ge> 1024 then units (v div 1024) (div' * 1024) (exp' + 1) else (div', exp'))"
  by pat_completeness auto
termination
  by (relation "measure (\<lambda>(v, _, _). unat v)") (auto simp: unat_div word_le_nat_alt)

declare units.simps [simp del]

definition round_half_even :: "nat \<Rightarrow> nat \<Rightarrow> nat" where
  "round_half_even a b =
     (let q = a div b; r = a mod b in
      if 2 * r < b then q else if b < 2 * r then q + 1 else if even q then q else q + 1)"

text \<open>How many low bits a \<open>float64\<close> cannot hold, and the conversion of a natural number.\<close>

fun lost_bits :: "nat \<Rightarrow> nat" where
  "lost_bits n = (if n < 2 ^ 53 then 0 else lost_bits (n div 2) + 1)"

declare lost_bits.simps [simp del]

definition float64 :: "nat \<Rightarrow> nat" where
  "float64 n = round_half_even n (2 ^ lost_bits n) * 2 ^ lost_bits n"

text \<open>\<open>%.1f\<close> of a quotient by a power of two, which \<open>float64\<close> division gives exactly.\<close>

definition format_tenths :: "nat \<Rightarrow> nat \<Rightarrow> string" where
  "format_tenths a b = (let q = round_half_even (10 * a) b in format_nat (q div 10) @ ''.'' @ format_nat (q mod 10))"

definition humanBytes :: "64 word \<Rightarrow> string" where
  "humanBytes n =
     (if n < 1024 then format_nat (unat n) @ '' B''
      else let (d, e) = units (n div 1024) 1024 0
           in format_tenths (float64 (unat n)) (unat d) @ '' '' @ [''KMGTPE'' ! e] @ ''B'')"

definition formatTraffic :: "64 word \<Rightarrow> 64 word option \<Rightarrow> string" where
  "formatTraffic used quota =
     (case quota of
        Some q \<Rightarrow> if q > 0 then humanBytes used @ '' / '' @ humanBytes q else humanBytes used
      | None \<Rightarrow> humanBytes used)"

lemma units_result:
  assumes "unat v < 1024 ^ k" "unat d = 1024 ^ (e + 1)" "e + 1 + k \<le> 7" "0 < k"
  shows "\<exists>j. units v d e = (of_nat (1024 ^ (e + j + 1)), e + j) \<and> j < k \<and> 1024 ^ j \<le> max 1 (unat v) \<and> unat v < 1024 ^ (j + 1)"
  using assms
proof (induction k arbitrary: v d e)
  case (Suc k)
  show ?case
  proof (cases "v \<ge> 1024")
    case False
    then have "unat v < 1024" by (simp add: word_le_nat_alt not_le)
    moreover have "d = of_nat (1024 ^ (e + 1))" by (simp only: Suc.prems(2) [symmetric] of_nat_unat ucast_id)
    ultimately show ?thesis using False by (subst units.simps) (auto intro: exI [of _ 0])
  next
    case True
    then have v: "1024 \<le> unat v" by (simp add: word_le_nat_alt)
    have k: "0 < k" using Suc.prems(1) v by (cases k) auto
    have dv: "unat (v div 1024) = unat v div 1024" by (simp add: unat_div)
    have small: "unat (v div 1024) < 1024 ^ k"
      using Suc.prems(1) by (simp add: dv less_mult_imp_div_less mult.commute)
    have "(1024::nat) ^ (e + 2) \<le> 1024 ^ 6" using Suc.prems(3) k by (intro power_increasing) auto
    then have "unat d * 1024 < 2 ^ 64" by (simp add: Suc.prems(2))
    then have d: "unat (d * 1024) = 1024 ^ (e + 1 + 1)"
      using Suc.prems(2) by (simp add: unat_mult_lem [THEN iffD1])
    obtain j where j: "units (v div 1024) (d * 1024) (e + 1) = (of_nat (1024 ^ (e + 1 + j + 1)), e + 1 + j)"
      "j < k" "1024 ^ j \<le> max 1 (unat (v div 1024))" "unat (v div 1024) < 1024 ^ (j + 1)"
      using Suc.IH [OF small d _ k] Suc.prems(3) by auto
    have "units v d e = (of_nat (1024 ^ (e + Suc j + 1)), e + Suc j)"
      using True j(1) by (subst units.simps) simp
    moreover have "(1024::nat) ^ Suc j \<le> max 1 (unat v)"
    proof -
      have "1024 ^ j \<le> unat v div 1024" using j(3) v by (simp add: dv max_def split: if_splits)
      then have "1024 ^ j * 1024 \<le> unat v div 1024 * 1024" by (rule mult_le_mono1)
      also have "\<dots> \<le> unat v" by simp
      finally show ?thesis by (simp add: mult.commute)
    qed
    moreover have "unat v < 1024 ^ (Suc j + 1)"
      using j(4) by (simp add: dv div_less_iff_less_mult mult.commute)
    ultimately show ?thesis using j(2) by (intro exI [of _ "Suc j"]) auto
  qed
qed simp

lemma round_half_even_error: "0 < b \<Longrightarrow> \<bar>2 * (int a - int (round_half_even a b) * int b)\<bar> \<le> int b"
proof -
  assume b: "0 < b"
  have a: "int a = int (a div b) * int b + int (a mod b)"
    by (simp flip: of_nat_mult of_nat_add)
  have "a mod b < b" using b by simp
  then show ?thesis by (auto simp: round_half_even_def Let_def a algebra_simps)
qed

lemma float64_exact: "n < 2 ^ 53 \<Longrightarrow> float64 n = n"
  by (subst float64_def, subst lost_bits.simps, subst lost_bits.simps) (simp add: round_half_even_def)

text \<open>A size of at least a kilobyte is shown in the unit that fits, with the index into the units in
  range, and below 2^53 bytes the tenths are the nearest.\<close>

lemma humanBytes_large:
  assumes "1024 \<le> unat n"
  shows "\<exists>e q. e < 6 \<and> 1024 ^ (e + 1) \<le> unat n \<and> unat n < 1024 ^ (e + 2) \<and>
    humanBytes n = format_nat (q div 10) @ ''.'' @ format_nat (q mod 10) @ '' '' @ [''KMGTPE'' ! e] @ ''B'' \<and>
    (unat n < 2 ^ 53 \<longrightarrow> \<bar>2 * (10 * int (unat n) - int q * 1024 ^ (e + 1))\<bar> \<le> 1024 ^ (e + 1))"
proof -
  have n: "unat n < 2 ^ 64" using unsigned_less [of n, where ?'a = nat] by simp
  have dv: "unat (n div 1024) = unat n div 1024" by (simp add: unat_div)
  have "unat (n div 1024) < 1024 ^ 6" using n by (simp add: dv)
  then obtain e where e: "units (n div 1024) 1024 0 = (of_nat (1024 ^ (e + 1)), e)" "e < 6"
    "1024 ^ e \<le> max 1 (unat (n div 1024))" "unat (n div 1024) < 1024 ^ (e + 1)"
    using units_result [of "n div 1024" 6 1024 0] by auto
  have "1 \<le> unat n div 1024" using assms by simp
  then have "1024 ^ e \<le> unat n div 1024" using e(3) by (simp add: dv)
  then have lo: "1024 ^ (e + 1) \<le> unat n"
    by (metis Suc_eq_plus1 div_times_less_eq_dividend dual_order.trans mult.commute mult_le_mono1 power_Suc)
  have hi: "unat n < 1024 ^ (e + 2)"
    using e(4) by (simp add: dv div_less_iff_less_mult mult.commute)
  have "(1024::nat) ^ (e + 1) \<le> 1024 ^ 6" using e(2) by (intro power_increasing) auto
  then have d: "unat (of_nat (1024 ^ (e + 1)) :: 64 word) = 1024 ^ (e + 1)"
    by (simp add: unsigned_of_nat take_bit_nat_eq_self del: of_nat_power of_nat_mult)
  have big: "\<not> n < 1024" using assms by (simp add: word_less_nat_alt)
  let ?q = "round_half_even (10 * float64 (unat n)) (1024 ^ (e + 1))"
  have "humanBytes n = format_nat (?q div 10) @ ''.'' @ format_nat (?q mod 10) @ '' '' @ [''KMGTPE'' ! e] @ ''B''"
    using big e(1) d by (simp add: humanBytes_def format_tenths_def Let_def del: of_nat_power power_Suc)
  moreover have "\<bar>2 * (10 * int (unat n) - int ?q * 1024 ^ (e + 1))\<bar> \<le> 1024 ^ (e + 1)" if "unat n < 2 ^ 53"
    using round_half_even_error [of "1024 ^ (e + 1)" "10 * unat n"] that by (simp add: float64_exact del: power_Suc)
  ultimately show ?thesis using e(2) lo hi by blast
qed

section \<open>The limits form\<close>

text \<open>A blank field is \<open>None\<close>: no limit. The product wraps at 64 bits.\<close>

definition gib :: "64 word" where
  "gib = 1024 * 1024 * 1024"

definition optionalGB :: "string \<Rightarrow> 64 word option res" where
  "optionalGB v =
     (if strings_TrimSpace v = '''' then Inr None
      else case ParseUint64 v of Inl e \<Rightarrow> Inl e | Inr gb \<Rightarrow> Inr (Some (gb * gib)))"

definition optionalInt :: "string \<Rightarrow> int option res" where
  "optionalInt v =
     (if strings_TrimSpace v = '''' then Inr None
      else case Atoi v of Inl e \<Rightarrow> Inl e | Inr n \<Rightarrow> Inr (Some n))"

text \<open>\<open>None\<close> is an error of \<^verbatim>\<open>time.Parse\<close>; nobody reads its text.\<close>

definition optionalDate :: "string \<Rightarrow> string option option" where
  "optionalDate v =
     (if strings_TrimSpace v = '''' then Some None
      else map_option (\<lambda>t. Some (Format_RFC3339 t)) (Parse_date v))"

text \<open>What the detail page puts into the fields.\<close>

definition show_quota :: "64 word option \<Rightarrow> string" where
  "show_quota q = (case q of None \<Rightarrow> '''' | Some b \<Rightarrow> FormatUint64 (b div gib))"

text \<open>\<open>time.Parse\<close> keeps the offset of the text, so the date shown is the one written in it.\<close>

definition show_date :: "string option \<Rightarrow> string" where
  "show_date x = (case x of None \<Rightarrow> '''' | Some s \<Rightarrow> if Parse_RFC3339 s = None then '''' else slice 0 10 s)"

definition show_int :: "int option \<Rightarrow> string" where
  "show_int x = (case x of None \<Rightarrow> '''' | Some n \<Rightarrow> Itoa n)"

subsection \<open>A form shown and sent back\<close>

text \<open>Text that starts and ends with a printing ASCII character is not trimmed.\<close>

definition graphic :: "char \<Rightarrow> bool" where
  "graphic c \<longleftrightarrow> 33 \<le> code_of c \<and> code_of c \<le> 126"

lemma space_runes_ends: "p \<in> set space_runes \<Longrightarrow> p \<noteq> [] \<and> \<not> graphic (hd p) \<and> \<not> graphic (last p)"
  by (auto simp: space_runes_def graphic_def)

lemma TrimSpace_graphic:
  assumes "s \<noteq> []" "graphic (hd s)" "graphic (last s)"
  shows "strings_TrimSpace s = s"
proof -
  have "\<not> prefix p s" "\<not> suffix p s" if "p \<in> set space_runes" for p
    using space_runes_ends [OF that] assms by (auto simp: prefix_def suffix_def)
  then have "find (\<lambda>p. prefix p s) space_runes = None" "find (\<lambda>p. suffix p s) space_runes = None"
    by (simp_all add: find_None_iff)
  then have "trim_left s = s" "trim_right s = s"
    by (simp_all add: trim_left.simps [of s] trim_right.simps [of s])
  then show ?thesis by (simp add: strings_TrimSpace_def)
qed

lemma TrimSpace_Nil [simp]: "strings_TrimSpace '''' = ''''"
  by (simp add: strings_TrimSpace_def trim_left.simps trim_right.simps space_runes_def)

lemma digit_graphic: "is_digit c \<Longrightarrow> graphic c"
  by (auto simp: is_digit_def graphic_def)

lemma ends_graphic:
  assumes "\<forall>c \<in> set s. is_digit c" "s \<noteq> []"
  shows "graphic (hd s)" "graphic (last s)"
  using assms by (simp_all add: digit_graphic)

lemmas nat_graphic = ends_graphic [OF format_nat_digits format_nat_nonempty]

lemma TrimSpace_format_nat [simp]: "strings_TrimSpace (format_nat n) = format_nat n"
  by (rule TrimSpace_graphic) (simp_all add: nat_graphic)

lemma TrimSpace_Itoa [simp]: "strings_TrimSpace (Itoa i) = Itoa i"
proof (rule TrimSpace_graphic)
  have sign: "graphic CHR ''-''" by (simp add: graphic_def)
  show "Itoa i \<noteq> []" by (simp add: Itoa_def)
  show "graphic (hd (Itoa i))" "graphic (last (Itoa i))"
    using sign by (simp_all add: Itoa_def nat_graphic)
qed

lemma fixed_nonempty: "0 < k \<Longrightarrow> fixed k n \<noteq> []"
  using length_fixed [of k n] by (metis length_greater_0_conv)

lemma TrimSpace_Format_date: "strings_TrimSpace (Format_date t) = Format_date t"
proof (rule TrimSpace_graphic)
  show "Format_date t \<noteq> []" by (simp add: Format_date_def)
  show "graphic (hd (Format_date t))" "graphic (last (Format_date t))"
    using ends_graphic [OF fixed_digits fixed_nonempty] by (simp_all add: Format_date_def fixed_nonempty)
qed

lemma optionalInt_show:
  assumes "\<And>n. x = Some n \<Longrightarrow> int64_ok n"
  shows "optionalInt (show_int x) = Inr x"
proof (cases x)
  case (Some n)
  moreover have "Itoa n \<noteq> []" by (simp add: Itoa_def)
  ultimately show ?thesis using assms by (simp add: optionalInt_def show_int_def Atoi_Itoa)
qed (simp add: optionalInt_def show_int_def)

lemma unat_gib: "unat gib = 2 ^ 30"
  by (simp add: gib_def)

lemma gib_multiple: "2 ^ 30 dvd unat (x * gib)"
proof -
  have "unat (x * gib) = unat x * 2 ^ 30 mod 2 ^ 64" by (simp add: unat_word_ariths unat_gib)
  then show ?thesis by (simp add: dvd_mod)
qed

lemma gib_div_mult:
  assumes "2 ^ 30 dvd unat b"
  shows "b div gib * gib = b"
proof -
  have "unat (b div gib) * unat gib = unat b" using assms by (simp add: unat_div unat_gib)
  then show ?thesis by (metis of_nat_mult of_nat_unat ucast_id)
qed

lemma optionalGB_show:
  assumes "\<And>b. q = Some b \<Longrightarrow> 2 ^ 30 dvd unat b"
  shows "optionalGB (show_quota q) = Inr q"
proof (cases q)
  case (Some b)
  have "strings_TrimSpace (FormatUint64 (b div gib)) \<noteq> ''''" by (simp add: FormatUint64_def)
  then show ?thesis
    using Some gib_div_mult [of b] assms [OF Some]
    by (simp add: optionalGB_def show_quota_def ParseUint64_FormatUint64)
qed (simp add: optionalGB_def show_quota_def)

lemma midnight_fields:
  assumes "0 \<le> y" "y \<le> 9999" "valid_date y m d"
  shows "day_of (instant_of y m d 0 0 0 0) = days_of_civil y m d" "sod_of (instant_of y m d 0 0 0 0) = 0"
    "four_digit_year (instant_of y m d 0 0 0 0)"
proof -
  let ?z = "days_of_civil y m d"
  show d: "day_of (instant_of y m d 0 0 0 0) = ?z" by (simp add: day_of_def instant_of_def)
  show "sod_of (instant_of y m d 0 0 0 0) = 0" by (simp add: sod_of_def instant_of_def)
  have "year_of ?z = y" using civil_of_days(1) assms by auto
  then have "year_start y \<le> ?z" "?z < year_start (y + 1)" using year_of_bounds [of ?z] by auto
  moreover have "year_start 0 \<le> year_start y" "year_start (y + 1) \<le> year_start 10000"
    using assms by (simp_all add: year_start_mono)
  moreover have "0 \<le> year_start 0" by code_simp
  ultimately show "four_digit_year (instant_of y m d 0 0 0 0)" unfolding four_digit_year_def d by linarith
qed

lemma Parse_date_Some:
  assumes "Parse_date v = Some t"
  shows "four_digit_year t \<and> sod_of t = 0 \<and> t mod nsec = 0"
proof -
  obtain y m d where p: "parse_date v = Some (y, m, d)" and t: "t = instant_of (int y) (int m) (int d) 0 0 0 0"
    using assms by (auto simp: Parse_date_def split: if_splits)
  have "y \<le> 9999" "valid_date (int y) (int m) (int d)"
    using p by (auto simp: parse_date_def parse_uint_def valid_date_def split: option.splits if_splits)
  then show ?thesis using midnight_fields [of "int y" "int m" "int d"] by (simp add: t) (simp add: instant_of_def)
qed

lemma date_readback:
  assumes "Parse_date v = Some t"
  shows "show_date (Some (Format_RFC3339 t)) = Format_date t" "Parse_date (Format_date t) = Some t"
proof -
  note t = Parse_date_Some [OF assms]
  show "show_date (Some (Format_RFC3339 t)) = Format_date t"
    using t Parse_Format_RFC3339 [of t] by (simp add: show_date_def) (simp add: Format_RFC3339_def slice_def)
  have "instant_of (year_of (day_of t)) (mon_of (day_of t)) (mday_of (day_of t)) 0 0 0 0 = t"
    using instant_of_fields(2) [of t] t by simp
  then show "Parse_date (Format_date t) = Some t"
    using t parse_date_Format_date [of t] four_digit_year_range(1) [of t] mon_of_range(1) [of "day_of t"]
      mday_of_range(1) [of "day_of t"]
    by (simp add: Parse_date_def)
qed

lemma optionalDate_show:
  assumes "x = None \<or> (\<exists>v t. Parse_date v = Some t \<and> x = Some (Format_RFC3339 t))"
  shows "optionalDate (show_date x) = Some x"
proof (cases x)
  case (Some s)
  then obtain v t where v: "Parse_date v = Some t" "x = Some (Format_RFC3339 t)" using assms by blast
  have "Format_date t \<noteq> []" by (simp add: Format_date_def)
  then show ?thesis
    using date_readback [OF v(1)] by (simp add: optionalDate_def v(2) TrimSpace_Format_date)
qed (simp add: optionalDate_def show_date_def)

section \<open>Server-sent events\<close>

definition sseFrame :: "string \<Rightarrow> string \<Rightarrow> string" where
  "sseFrame event payload =
     ''event: '' @ event @ [c_nl] @ concat (map (\<lambda>line. ''data: '' @ line @ [c_nl]) (split_on c_nl payload)) @ [c_nl]"

definition keepalive :: string where
  "keepalive = '': keepalive'' @ [c_nl, c_nl]"

text \<open>How a browser reads an event stream (the algorithm of the HTML standard): CR, LF and CR LF end a
  line; a blank line dispatches the event if there was data.\<close>

fun line_breaks :: "string \<Rightarrow> string" where
  "line_breaks [] = []"
| "line_breaks [c] = [if c = CHR 0x0D then c_nl else c]"
| "line_breaks (c # d # s) =
     (if c = CHR 0x0D then c_nl # (if d = c_nl then line_breaks s else line_breaks (d # s))
      else c # line_breaks (d # s))"

definition field_of :: "string \<Rightarrow> string \<times> string" where
  "field_of line =
     (let (k, v) = cut CHR '':'' line in (k, if prefix '' '' v then tl v else v))"

fun sse_events :: "string list \<Rightarrow> string \<Rightarrow> string list \<Rightarrow> (string \<times> string) list" where
  "sse_events [] ev ds = []"
| "sse_events (line # ls) ev ds =
     (if line = '''' then (if ds = [] then sse_events ls '''' [] else (ev, strings_Join ds [c_nl]) # sse_events ls '''' [])
      else let (k, v) = field_of line in
        if k = ''event'' then sse_events ls v ds
        else if k = ''data'' then sse_events ls ev (ds @ [v])
        else sse_events ls ev ds)"

definition sse_read :: "string \<Rightarrow> (string \<times> string) list" where
  "sse_read s = sse_events (butlast (split_on c_nl (line_breaks s))) '''' []"

lemma split_on_subset: "p \<in> set (split_on d s) \<Longrightarrow> set p \<subseteq> set s"
proof (induction s arbitrary: p)
  case (Cons c s)
  obtain q qs where q: "split_on d s = q # qs" by (cases "split_on d s") auto
  then have "set q \<subseteq> set s" "\<And>p. p \<in> set qs \<Longrightarrow> set p \<subseteq> set s" using Cons.IH by auto
  then show ?case using Cons.prems q by (fastforce split: if_splits)
qed simp

lemma line_breaks_append: "CHR 0x0D \<notin> set s \<Longrightarrow> line_breaks (s @ t) = s @ line_breaks t"
proof (induction s)
  case (Cons c s)
  then show ?case by (cases "s @ t") (auto simp: append_eq_Cons_conv)
qed simp

lemma split_on_lines:
  "(\<And>l. l \<in> set ls \<Longrightarrow> c_nl \<notin> set l) \<Longrightarrow>
    split_on c_nl (concat (map (\<lambda>l. l @ [c_nl]) ls) @ t) = ls @ split_on c_nl t"
  by (induction ls) (auto simp: split_on_append)

lemma sse_read_lines:
  assumes "\<And>l. l \<in> set ls \<Longrightarrow> c_nl \<notin> set l \<and> CHR 0x0D \<notin> set l"
  shows "sse_read (concat (map (\<lambda>l. l @ [c_nl]) ls) @ t) =
    sse_events (ls @ butlast (split_on c_nl (line_breaks t))) '''' []"
proof -
  have "CHR 0x0D \<notin> set (concat (map (\<lambda>l. l @ [c_nl]) ls))" using assms by auto
  then show ?thesis using assms by (simp add: sse_read_def line_breaks_append split_on_lines butlast_append)
qed

lemma sse_events_data:
  "sse_events (map (\<lambda>l. ''data: '' @ l) ls @ rest) ev ds = sse_events rest ev (ds @ ls)"
  by (induction ls arbitrary: ds) (auto simp: field_of_def cut_def)

lemma sse_read_frame:
  assumes "c_nl \<notin> set event" "CHR 0x0D \<notin> set event" "CHR 0x0D \<notin> set payload"
  shows "sse_read (sseFrame event payload @ t) = (event, payload) # sse_read t"
proof -
  let ?ls = "[''event: '' @ event] @ map (\<lambda>l. ''data: '' @ l) (split_on c_nl payload) @ ['''']"
  have f: "sseFrame event payload = concat (map (\<lambda>l. l @ [c_nl]) ?ls)"
    by (simp add: sseFrame_def comp_def)
  have "c_nl \<notin> set l \<and> CHR 0x0D \<notin> set l" if l: "l \<in> set ?ls" for l
  proof -
    have "CHR 0x0D \<notin> set p" if "p \<in> set (split_on c_nl payload)" for p
      using split_on_subset [OF that] assms(3) by blast
    then show ?thesis using l assms split_on_pieces by fastforce
  qed
  then show ?thesis
    unfolding f by (subst sse_read_lines) (auto simp: sse_read_def field_of_def cut_def sse_events_data join_split_on)
qed

lemma sse_read_keepalive: "sse_read (keepalive @ t) = sse_read t"
proof -
  have "keepalive = concat (map (\<lambda>l. l @ [c_nl]) ['': keepalive'', ''''])" by (simp add: keepalive_def)
  moreover have "sse_read (concat (map (\<lambda>l. l @ [c_nl]) ['': keepalive'', '''']) @ t) = sse_read t"
    by (subst sse_read_lines) (auto simp: sse_read_def field_of_def cut_def)
  ultimately show ?thesis by (simp only:)
qed

definition shortID :: "string \<Rightarrow> string" where
  "shortID i = (if length i > 12 then take 12 i else i)"

end
