(* ===== verification/Poller.thy ===== *)
theory Poller imports Reconcile "HOL-Library.Multiset" begin

text \<open>
  \<open>internal/poller/poller.go\<close>: the cache of live statistics. One sweep lists the proxies, leaves out
  those in backoff, polls the others concurrently, records the results, drops entries of proxies that
  are gone, and wakes the subscribers. The goroutines of a sweep share nothing but the channel of
  results, so a sweep is modelled with its polls one after another in any order.
\<close>

definition failuresBeforeBackoff :: nat where
  "failuresBeforeBackoff = 3"

definition backoffEvery :: nat where
  "backoffEvery = 6"

record snapshot =
  sn_ProxyID :: string
  sn_OK :: bool
  sn_Err :: string
  sn_UniqueIPs :: int
  sn_IPs :: "string list"
  sn_Connections :: "64 word"
  sn_TotalOctets :: "64 word"
  sn_Links :: "string list"
  sn_At :: instant

text \<open>Go's maps: a counter that is absent reads as zero.\<close>

record poller =
  po_snapshots :: "string \<rightharpoonup> snapshot"
  po_failures :: "string \<rightharpoonup> nat"
  po_skips :: "string \<rightharpoonup> nat"

definition poller_New :: poller where
  "poller_New = \<lparr>po_snapshots = (\<lambda>_. None), po_failures = (\<lambda>_. None), po_skips = (\<lambda>_. None)\<rparr>"

definition count_of :: "(string \<rightharpoonup> nat) \<Rightarrow> string \<Rightarrow> nat" where
  "count_of m k = (case m k of Some n \<Rightarrow> n | None \<Rightarrow> 0)"

section \<open>One proxy\<close>

definition no_users :: string where
  "no_users = ''telemt reported no users for this proxy (expected exactly one) '' @ em_dash @
     '' check for config drift or lost state''"

definition blank_snapshot :: "string \<Rightarrow> instant \<Rightarrow> snapshot" where
  "blank_snapshot pid now = \<lparr>sn_ProxyID = pid, sn_OK = False, sn_Err = '''', sn_UniqueIPs = 0, sn_IPs = [],
     sn_Connections = 0, sn_TotalOctets = 0, sn_Links = [], sn_At = now\<rparr>"

definition pollProxy :: "'r service \<Rightarrow> ctx \<Rightarrow> proxy \<Rightarrow> 'r world \<Rightarrow> snapshot \<times> 'r world" where
  "pollProxy sv c pr w =
     (let snap = blank_snapshot (px_ID pr) (w_clock w);
          (r, w) = ClientFor sv c pr w in
      case r of
        Inl e \<Rightarrow> (snap\<lparr>sn_Err := err_text e\<rparr>, w)
      | Inr tc \<Rightarrow>
          (let (us, w) = call_api (tc_Users tc) (sv_pl sv) c w in
           case us of
             Inl e \<Rightarrow> (snap\<lparr>sn_Err := err_text e\<rparr>, w)
           | Inr [] \<Rightarrow> (snap\<lparr>sn_OK := True, sn_Err := no_users\<rparr>, w)
           | Inr (u # _) \<Rightarrow>
               (snap\<lparr>sn_OK := True, sn_UniqueIPs := ui_ActiveUniqueIPs u,
                     sn_IPs := ui_ActiveUniqueIPsList u, sn_Connections := ui_CurrentConnections u,
                     sn_TotalOctets := ui_TotalOctets u, sn_Links := ul_TLS (ui_Links u)\<rparr>, w)))"

section \<open>One sweep\<close>

definition backing_off :: "poller \<Rightarrow> string \<Rightarrow> bool" where
  "backing_off po pid \<longleftrightarrow>
     failuresBeforeBackoff \<le> count_of (po_failures po) pid \<and> count_of (po_skips po) pid < backoffEvery - 1"

text \<open>The decision, per proxy, whether this sweep skips it.\<close>

definition decide_skip :: "proxy \<Rightarrow> poller \<times> string list \<Rightarrow> poller \<times> string list" where
  "decide_skip pr = (\<lambda>(po, skip).
     if backing_off po (px_ID pr)
     then (po\<lparr>po_skips := (po_skips po)(px_ID pr \<mapsto> count_of (po_skips po) (px_ID pr) + 1)\<rparr>, px_ID pr # skip)
     else (po, skip))"

definition decide_skips :: "proxy list \<Rightarrow> poller \<Rightarrow> poller \<times> string list" where
  "decide_skips ps po = fold decide_skip ps (po, [])"

fun poll_all :: "'r service \<Rightarrow> ctx \<Rightarrow> proxy list \<Rightarrow> 'r world \<Rightarrow> snapshot list \<times> 'r world" where
  "poll_all sv c [] w = ([], w)"
| "poll_all sv c (pr # ps) w =
     (let (s, w) = pollProxy sv c pr w;
          (ss, w) = poll_all sv c ps w
      in (s # ss, w))"

definition record_snapshot :: "snapshot \<Rightarrow> poller \<Rightarrow> poller" where
  "record_snapshot s po =
     (let pid = sn_ProxyID s in
      po\<lparr>po_snapshots := (po_snapshots po)(pid \<mapsto> s),
         po_skips := (po_skips po)(pid \<mapsto> 0),
         po_failures := (if sn_OK s then (po_failures po)(pid := None)
           else (po_failures po)(pid \<mapsto> count_of (po_failures po) pid + 1))\<rparr>)"

definition evict :: "proxy list \<Rightarrow> poller \<Rightarrow> poller" where
  "evict ps po =
     (let gone = (\<lambda>k. po_snapshots po k \<noteq> None \<and> \<not> list_ex (\<lambda>p. px_ID p = k) ps) in
      \<lparr>po_snapshots = (\<lambda>k. if gone k then None else po_snapshots po k),
       po_failures = (\<lambda>k. if gone k then None else po_failures po k),
       po_skips = (\<lambda>k. if gone k then None else po_skips po k)\<rparr>)"

text \<open>The sweep; \<open>perm\<close> is the order in which the goroutines get their turn.\<close>

definition PollOnce :: "'r service \<Rightarrow> ctx \<Rightarrow> (proxy list \<Rightarrow> proxy list) \<Rightarrow> poller \<Rightarrow> 'r world \<Rightarrow> (poller \<times> bool) \<times> 'r world" where
  "PollOnce sv c perm po w =
     (let (r, w) = Lifecycle.List sv c w in
      case r of
        Inl _ \<Rightarrow> ((po, False), w)
      | Inr ps \<Rightarrow>
          (let (po, skip) = decide_skips ps po;
               (snaps, w) = poll_all sv c (perm (filter (\<lambda>p. px_ID p \<notin> set skip) ps)) w;
               po = evict ps (fold record_snapshot snaps po)
           in ((po, True), w)))"

definition poller_Get :: "poller \<Rightarrow> string \<Rightarrow> snapshot option" where
  "poller_Get po pid = po_snapshots po pid"

definition poller_All :: "poller \<Rightarrow> string \<rightharpoonup> snapshot" where
  "poller_All po = po_snapshots po"

text \<open>The loop: a sweep at once, then one per tick of the ticker until the context ends. Each element
  of \<open>gaps\<close> is what the rest of the program did to the world up to the next tick.\<close>

fun poll_ticks :: "'r service \<Rightarrow> ctx \<Rightarrow> (proxy list \<Rightarrow> proxy list) \<Rightarrow> ('r world \<Rightarrow> 'r world) list \<Rightarrow> poller \<Rightarrow>
    'r world \<Rightarrow> poller \<times> 'r world" where
  "poll_ticks sv c perm [] po w = (po, w)"
| "poll_ticks sv c perm (gap # gaps) po w =
     (let w = gap w in
      if ctx_done c w then (po, w)
      else (let ((po, _), w) = PollOnce sv c perm po w in poll_ticks sv c perm gaps po w))"

definition poller_Run :: "'r service \<Rightarrow> ctx \<Rightarrow> (proxy list \<Rightarrow> proxy list) \<Rightarrow> ('r world \<Rightarrow> 'r world) list \<Rightarrow> poller \<Rightarrow>
    'r world \<Rightarrow> poller \<times> 'r world" where
  "poller_Run sv c perm gaps po w =
     (let ((po, _), w) = PollOnce sv c perm po w in poll_ticks sv c perm gaps po w)"

section \<open>What a sweep does\<close>

lemma count_simps [simp]:
  "count_of (m(k \<mapsto> n)) j = (if j = k then n else count_of m j)"
  "count_of (m(k := None)) j = (if j = k then 0 else count_of m j)"
  by (simp_all add: count_of_def)

lemma count_nonzero: "0 < count_of m k \<Longrightarrow> m k \<noteq> None"
  by (auto simp: count_of_def split: option.splits)

lemma decide_fold:
  assumes "distinct (map px_ID ps)" "set acc \<inter> px_ID ` set ps = {}"
    and "fold decide_skip ps (po, acc) = (po', skip)"
  shows "po_snapshots po' = po_snapshots po \<and> po_failures po' = po_failures po \<and>
    set skip = set acc \<union> {k \<in> px_ID ` set ps. backing_off po k} \<and>
    (\<forall>k. po_skips po' k = (if k \<in> px_ID ` set ps \<and> backing_off po k then Some (count_of (po_skips po) k + 1)
       else po_skips po k))"
  using assms
proof (induction ps arbitrary: po acc)
  case Nil
  then show ?case by simp
next
  case (Cons p ps)
  obtain po1 acc1 where s: "decide_skip p (po, acc) = (po1, acc1)" by fastforce
  have same: "backing_off po1 k = backing_off po k" "po_skips po1 k = po_skips po k" if "k \<noteq> px_ID p" for k
    using s that by (auto simp: decide_skip_def backing_off_def split: if_splits)
  have fr: "po_snapshots po1 = po_snapshots po" "po_failures po1 = po_failures po"
    "set acc1 = (if backing_off po (px_ID p) then insert (px_ID p) (set acc) else set acc)"
    "po_skips po1 (px_ID p) = (if backing_off po (px_ID p) then Some (count_of (po_skips po) (px_ID p) + 1)
       else po_skips po (px_ID p))"
    using s by (auto simp: decide_skip_def split: if_splits)
  have notin: "px_ID p \<notin> px_ID ` set ps" using Cons.prems(1) by auto
  have disj: "set acc1 \<inter> px_ID ` set ps = {}" using Cons.prems(2) notin fr(3) by auto
  have run: "fold decide_skip ps (po1, acc1) = (po', skip)" using Cons.prems(3) s by simp
  have ih': "po_snapshots po' = po_snapshots po1" "po_failures po' = po_failures po1"
    "set skip = set acc1 \<union> {k \<in> px_ID ` set ps. backing_off po1 k}"
    "\<And>k. po_skips po' k = (if k \<in> px_ID ` set ps \<and> backing_off po1 k then Some (count_of (po_skips po1) k + 1)
       else po_skips po1 k)"
    using Cons.IH [OF _ disj run] Cons.prems(1) by auto
  have ne: "k \<noteq> px_ID p" if "k \<in> px_ID ` set ps" for k using that notin by (auto simp: image_iff)
  have cnt: "count_of (po_skips po1) k = count_of (po_skips po) k" if "k \<noteq> px_ID p" for k
    using same(2) [OF that] by (simp add: count_of_def)
  have "set skip = set acc \<union> {k \<in> px_ID ` set (p # ps). backing_off po k}"
    unfolding ih'(3) fr(3) using same(1) ne by auto
  moreover have "po_skips po' k = (if k \<in> px_ID ` set (p # ps) \<and> backing_off po k
      then Some (count_of (po_skips po) k + 1) else po_skips po k)" for k
  proof (cases "k = px_ID p")
    case True
    then show ?thesis using ih'(4) [of k] notin fr(4) by simp
  next
    case False
    then show ?thesis using ih'(4) [of k] same [OF False] cnt [OF False] by simp
  qed
  ultimately show ?case using ih'(1,2) fr(1,2) by simp
qed

lemma pollProxy_ID: "pollProxy sv c pr w = (s, w') \<Longrightarrow> sn_ProxyID s = px_ID pr"
  by (auto simp: pollProxy_def Let_def blank_snapshot_def split: prod.splits sum.splits list.splits)

lemma poll_all_IDs: "poll_all sv c ps w = (ss, w') \<Longrightarrow> map sn_ProxyID ss = map px_ID ps"
  by (induction ps arbitrary: w ss w') (auto split: prod.splits dest: pollProxy_ID)

lemma pollProxy_frame: "pollProxy sv c pr w = (s, w') \<Longrightarrow> same_but_rt w w'"
  by (auto simp: pollProxy_def Let_def split: prod.splits sum.splits list.splits
      dest!: ClientFor_frame call_api_frame intro: same_but_rt_trans)

lemma poll_all_frame: "poll_all sv c ps w = (ss, w') \<Longrightarrow> same_but_rt w w'"
proof (induction ps arbitrary: w ss)
  case (Cons p ps)
  obtain s w1 ss1 where "pollProxy sv c p w = (s, w1)" "poll_all sv c ps w1 = (ss1, w')"
    using Cons.prems by (auto split: prod.splits)
  then show ?case using pollProxy_frame Cons.IH same_but_rt_trans by blast
qed (simp add: same_but_rt_def)

lemma poll_all_elem:
  "poll_all sv c ps w = (ss, w') \<Longrightarrow> s \<in> set ss \<Longrightarrow>
    \<exists>pr \<in> set ps. \<exists>u u'. pollProxy sv c pr u = (s, u') \<and> same_but_rt w u"
proof (induction ps arbitrary: w ss)
  case (Cons p ps)
  obtain s1 w1 ss1 where p: "pollProxy sv c p w = (s1, w1)" "poll_all sv c ps w1 = (ss1, w')" "ss = s1 # ss1"
    using Cons.prems(1) by (auto split: prod.splits)
  show ?case
  proof (cases "s = s1")
    case True
    then have "pollProxy sv c p w = (s, w1) \<and> same_but_rt w w" using p(1) by simp
    then show ?thesis by (meson list.set_intros(1))
  next
    case False
    then have "s \<in> set ss1" using Cons.prems(2) p(3) by simp
    then show ?thesis using Cons.IH [OF p(2)] pollProxy_frame [OF p(1)] same_but_rt_trans by (meson list.set_intros(2))
  qed
qed simp

lemma record_fold:
  assumes "distinct (map sn_ProxyID ss)"
  shows "po_snapshots (fold record_snapshot ss po) k =
      (case find (\<lambda>s. sn_ProxyID s = k) ss of Some s \<Rightarrow> Some s | None \<Rightarrow> po_snapshots po k) \<and>
    po_skips (fold record_snapshot ss po) k =
      (case find (\<lambda>s. sn_ProxyID s = k) ss of Some s \<Rightarrow> Some 0 | None \<Rightarrow> po_skips po k) \<and>
    po_failures (fold record_snapshot ss po) k =
      (case find (\<lambda>s. sn_ProxyID s = k) ss of
         Some s \<Rightarrow> if sn_OK s then None else Some (count_of (po_failures po) k + 1)
       | None \<Rightarrow> po_failures po k)"
  using assms
proof (induction ss arbitrary: po)
  case (Cons s ss)
  have none: "find (\<lambda>t. sn_ProxyID t = k) ss = None" if "sn_ProxyID s = k"
    using Cons.prems that by (auto simp: find_None_iff image_iff)
  have d: "distinct (map sn_ProxyID ss)" using Cons.prems by simp
  show ?case
    using Cons.IH [OF d, of "record_snapshot s po"] none
    by (auto simp: record_snapshot_def Let_def count_of_def split: option.split)
qed simp

section \<open>The cache follows the table, and backoff is bounded\<close>

definition poller_inv :: "poller \<Rightarrow> bool" where
  "poller_inv po \<longleftrightarrow>
     dom (po_failures po) \<subseteq> dom (po_snapshots po) \<and> dom (po_skips po) \<subseteq> dom (po_snapshots po) \<and>
     (\<forall>k s. po_snapshots po k = Some s \<longrightarrow> sn_ProxyID s = k) \<and>
     (\<forall>k. count_of (po_skips po) k \<le> backoffEvery - 1)"

lemma poller_inv_New: "poller_inv poller_New"
  by (simp add: poller_inv_def poller_New_def count_of_def)

lemma distinct_perm:
  assumes "mset ys = mset xs" "distinct (map f xs)"
  shows "distinct (map f ys)"
  using assms by (metis mset_map mset_eq_imp_distinct_iff)

text \<open>What one sweep does to the entry of one key, given the polled snapshots.\<close>

definition entry_after :: "poller \<Rightarrow> poller \<Rightarrow> string \<Rightarrow> bool" where
  "entry_after po po' k \<longleftrightarrow>
     (if backing_off po k
      then po_snapshots po' k = po_snapshots po k \<and>
        count_of (po_failures po') k = count_of (po_failures po) k \<and>
        count_of (po_skips po') k = count_of (po_skips po) k + 1
      else \<exists>s. po_snapshots po' k = Some s \<and> sn_ProxyID s = k \<and> count_of (po_skips po') k = 0 \<and>
        count_of (po_failures po') k = (if sn_OK s then 0 else count_of (po_failures po) k + 1))"

lemma sweep_entries:
  assumes d: "distinct (map px_ID ps)" and dec: "decide_skips ps po = (po1, skip)"
    and ss: "distinct (map sn_ProxyID ss)"
      "set (map sn_ProxyID ss) = {k \<in> px_ID ` set ps. k \<notin> set skip}"
    and inv: "poller_inv po" and po': "po' = evict ps (fold record_snapshot ss po1)"
  shows "k \<notin> px_ID ` set ps \<Longrightarrow> po_snapshots po' k = None \<and> po_failures po' k = None \<and> po_skips po' k = None"
    and "k \<in> px_ID ` set ps \<Longrightarrow> entry_after po po' k \<and> po_snapshots po' k \<noteq> None \<and>
      (\<not> backing_off po k \<longrightarrow> (\<exists>s \<in> set ss. sn_ProxyID s = k \<and> po_snapshots po' k = Some s))"
proof -
  have dk: "po_snapshots po1 = po_snapshots po" "po_failures po1 = po_failures po"
    "set skip = {k \<in> px_ID ` set ps. backing_off po k}"
    "\<And>k. po_skips po1 k = (if k \<in> px_ID ` set ps \<and> backing_off po k then Some (count_of (po_skips po) k + 1)
       else po_skips po k)"
    using decide_fold [OF d, of "[]" po po1 skip] dec by (auto simp: decide_skips_def)
  note rf = record_fold [OF ss(1), of po1]
  have ev: "list_ex (\<lambda>p. px_ID p = j) ps \<longleftrightarrow> j \<in> px_ID ` set ps" for j
    by (auto simp: list_ex_iff image_iff)
  have none: "find (\<lambda>s. sn_ProxyID s = j) ss = None \<longleftrightarrow> \<not> (j \<in> px_ID ` set ps \<and> \<not> backing_off po j)" for j
  proof -
    have "find (\<lambda>s. sn_ProxyID s = j) ss = None \<longleftrightarrow> j \<notin> set (map sn_ProxyID ss)"
      by (auto simp: find_None_iff)
    then show ?thesis unfolding ss(2) dk(3) by blast
  qed
  show "po_snapshots po' k = None \<and> po_failures po' k = None \<and> po_skips po' k = None"
    if k: "k \<notin> px_ID ` set ps"
  proof -
    have "find (\<lambda>s. sn_ProxyID s = k) ss = None" using none k by blast
    then have at: "po_snapshots (fold record_snapshot ss po1) k = po_snapshots po k"
      "po_failures (fold record_snapshot ss po1) k = po_failures po k"
      "po_skips (fold record_snapshot ss po1) k = po_skips po k"
      using rf [of k] dk(1,2) dk(4) [of k] k by auto
    have "po_snapshots po k = None \<Longrightarrow> po_failures po k = None \<and> po_skips po k = None"
      using inv by (auto simp: poller_inv_def)
    then show ?thesis using k at by (auto simp: po' evict_def Let_def ev)
  qed
  show "entry_after po po' k \<and> po_snapshots po' k \<noteq> None \<and>
      (\<not> backing_off po k \<longrightarrow> (\<exists>s \<in> set ss. sn_ProxyID s = k \<and> po_snapshots po' k = Some s))"
    if k: "k \<in> px_ID ` set ps"
  proof -
    have keep: "po_snapshots po' k = po_snapshots (fold record_snapshot ss po1) k"
      "po_failures po' k = po_failures (fold record_snapshot ss po1) k"
      "po_skips po' k = po_skips (fold record_snapshot ss po1) k"
      using k by (simp_all add: po' evict_def Let_def ev)
    show ?thesis
    proof (cases "backing_off po k")
      case True
      then have "0 < count_of (po_failures po) k" by (simp add: backing_off_def failuresBeforeBackoff_def)
      then have "po_failures po k \<noteq> None" by (rule count_nonzero)
      then have "po_snapshots po k \<noteq> None" using inv unfolding poller_inv_def by blast
      moreover have "find (\<lambda>s. sn_ProxyID s = k) ss = None" using none True by blast
      ultimately show ?thesis
        using True k rf [of k] dk(1,2) dk(4) [of k] keep by (auto simp: entry_after_def count_of_def)
    next
      case False
      then obtain s where s: "find (\<lambda>s. sn_ProxyID s = k) ss = Some s" using none k by blast
      then have "sn_ProxyID s = k" "s \<in> set ss" by (auto simp: find_Some_iff)
      moreover have "entry_after po po' k" "po_snapshots po' k = Some s"
        using False rf [of k] dk(2) keep s calculation(1) by (auto simp: entry_after_def count_of_def)
      ultimately show ?thesis by auto
    qed
  qed
qed

lemma sweep_inv:
  assumes inv: "poller_inv po" and ids: "\<And>k. k \<notin> ids \<Longrightarrow> po_snapshots po' k = None \<and> po_failures po' k = None \<and> po_skips po' k = None"
    and entries: "\<And>k. k \<in> ids \<Longrightarrow> entry_after po po' k \<and> po_snapshots po' k \<noteq> None"
  shows "poller_inv po' \<and> dom (po_snapshots po') = ids"
proof -
  have "po_snapshots po' k \<noteq> None \<longleftrightarrow> k \<in> ids" for k
    using ids [of k] entries [of k] by (cases "k \<in> ids") simp_all
  then have dom: "dom (po_snapshots po') = ids" by (simp add: dom_def)
  have keys: "sn_ProxyID s = k" if s: "po_snapshots po' k = Some s" for k s
  proof -
    have "k \<in> ids" using dom s by blast
    then have e: "entry_after po po' k" using entries by blast
    show ?thesis
    proof (cases "backing_off po k")
      case True
      then have "po_snapshots po k = Some s" using e s by (simp add: entry_after_def)
      then show ?thesis using inv by (simp add: poller_inv_def)
    next
      case False
      then show ?thesis using e s by (auto simp: entry_after_def)
    qed
  qed
  have skips: "count_of (po_skips po') k \<le> backoffEvery - 1" for k
  proof (cases "k \<in> ids")
    case True
    then have e: "entry_after po po' k" using entries by blast
    then show ?thesis by (cases "backing_off po k") (auto simp: entry_after_def backing_off_def)
  next
    case False
    then show ?thesis using ids [OF False] by (simp add: count_of_def)
  qed
  have "dom (po_failures po') \<subseteq> ids" "dom (po_skips po') \<subseteq> ids"
    using ids by (auto simp: dom_def) (metis option.distinct(1))+
  then show ?thesis using dom keys skips by (simp add: poller_inv_def)
qed

lemma PollOnce_effect:
  assumes wf: "db_wf (w_db w)" and perm: "\<And>xs. mset (perm xs) = mset xs" and inv: "poller_inv po"
    and run: "PollOnce sv c perm po w = ((po', True), w')"
  shows "poller_inv po'" "dom (po_snapshots po') = dom (rows w)"
    "rows w k \<noteq> None \<Longrightarrow> entry_after po po' k"
    "rows w k = Some pr \<Longrightarrow> \<not> backing_off po k \<Longrightarrow> \<exists>s u u'. po_snapshots po' k = Some s \<and>
      pollProxy sv c pr u = (s, u') \<and> w_db u = w_db w \<and> w_clock w \<le> w_clock u"
proof -
  obtain r w1 where l: "st_ListProxies (sv_pl sv) c w = (r, w1)" by fastforce
  then obtain ps where r: "r = Inr ps"
    using run by (cases r) (auto simp: PollOnce_def List_def)
  note ids = listed_ids [OF wf l [unfolded r]]
  obtain po1 skip where dec: "decide_skips ps po = (po1, skip)" by fastforce
  let ?todo = "filter (\<lambda>p. px_ID p \<notin> set skip) ps"
  obtain ss w2 where pa: "poll_all sv c (perm ?todo) w1 = (ss, w2)" by fastforce
  have po': "po' = evict ps (fold record_snapshot ss po1)"
    using run l r dec pa by (simp add: PollOnce_def List_def Let_def)
  have map: "map sn_ProxyID ss = map px_ID (perm ?todo)" by (rule poll_all_IDs [OF pa])
  have "distinct (map px_ID ?todo)" using ids(3) by (rule distinct_map_filter)
  then have ds: "distinct (map sn_ProxyID ss)" unfolding map by (rule distinct_perm [OF perm])
  have "set (perm ?todo) = set ?todo" using perm by (metis set_mset_mset)
  then have set: "set (map sn_ProxyID ss) = {k \<in> px_ID ` set ps. k \<notin> set skip}"
    unfolding map by auto
  note entries = sweep_entries [OF ids(3) dec ds set inv po']
  have dom: "px_ID ` set ps = dom (rows w)" using ids(1) by (auto simp: dom_def)
  have upd: "\<And>k. k \<in> px_ID ` set ps \<Longrightarrow> entry_after po po' k \<and> po_snapshots po' k \<noteq> None"
    using entries(2) by blast
  note both = sweep_inv [OF inv, of "px_ID ` set ps" po', OF entries(1) upd]
  then show "poller_inv po'" "dom (po_snapshots po') = dom (rows w)" using dom by simp_all
  show "rows w k \<noteq> None \<Longrightarrow> entry_after po po' k" using entries(2) dom by blast
  show "\<exists>s u u'. po_snapshots po' k = Some s \<and> pollProxy sv c pr u = (s, u') \<and> w_db u = w_db w \<and> w_clock w \<le> w_clock u"
    if k: "rows w k = Some pr" "\<not> backing_off po k"
  proof -
    have "k \<in> px_ID ` set ps" using dom k(1) by blast
    then obtain s where s: "s \<in> set ss" "sn_ProxyID s = k" "po_snapshots po' k = Some s"
      using entries(2) k(2) by blast
    obtain q u u' where q: "q \<in> set (perm ?todo)" "pollProxy sv c q u = (s, u')" "same_but_rt w1 u"
      using poll_all_elem [OF pa s(1)] by blast
    have "q \<in> set ps" using q(1) \<open>set (perm ?todo) = set ?todo\<close> by auto
    moreover have "px_ID q = k" using pollProxy_ID [OF q(2)] s(2) by simp
    ultimately have "q = pr" using ids(2) [of q] k(1) by auto
    moreover have "w_db w1 = w_db w" "w_clock w \<le> w_clock w1"
      using l by (auto simp: st_ListProxies_def db_query_def)
    ultimately show ?thesis using s(3) q(2,3) by (auto simp: same_but_rt_def)
  qed
qed

lemma PollOnce_failed:
  "PollOnce sv c perm po w = ((po', False), w') \<Longrightarrow> po' = po"
  by (auto simp: PollOnce_def Let_def split: prod.splits sum.splits)

lemma PollOnce_frame: "PollOnce sv c perm po w = (r, w') \<Longrightarrow> w_db w' = w_db w \<and> w_fs w' = w_fs w"
  by (auto simp: PollOnce_def List_def Let_def same_but_db_def same_but_rt_def split: prod.splits sum.splits
      dest!: st_ListProxies_frame poll_all_frame)

text \<open>A chain of sweeps that all leave out a proxy they list. Anything may happen to the world in
  between.\<close>

inductive skipped_for :: "'r service \<Rightarrow> string \<Rightarrow> nat \<Rightarrow> poller \<Rightarrow> poller \<Rightarrow> bool" for sv pid where
  none: "skipped_for sv pid 0 po po"
| sweep: "skipped_for sv pid n po po1 \<Longrightarrow> db_wf (w_db w) \<Longrightarrow> rows w pid \<noteq> None \<Longrightarrow>
    (\<And>xs. mset (perm xs) = mset xs) \<Longrightarrow> PollOnce sv c perm po1 w = ((po2, True), w') \<Longrightarrow>
    backing_off po1 pid \<Longrightarrow> skipped_for sv pid (Suc n) po po2"

lemma skipped_for_bound:
  assumes "skipped_for sv pid n po po'" "poller_inv po"
  shows "poller_inv po' \<and> count_of (po_skips po') pid = count_of (po_skips po) pid + n"
  using assms
proof induction
  case (sweep n po po1 w perm c po2 w')
  then have inv: "poller_inv po1" by simp
  note e = PollOnce_effect [OF sweep.hyps(2,4) inv sweep.hyps(5)]
  have "entry_after po1 po2 pid" using e(3) sweep.hyps(3) by blast
  then have "count_of (po_skips po2) pid = count_of (po_skips po1) pid + 1"
    using sweep.hyps(6) by (simp add: entry_after_def)
  then show ?case using e(1) sweep by simp
qed simp

lemma skipped_at_most:
  assumes "skipped_for sv pid n po po'" "poller_inv po"
  shows "n \<le> backoffEvery - 1"
proof -
  have "count_of (po_skips po') pid \<le> backoffEvery - 1"
    using skipped_for_bound [OF assms] unfolding poller_inv_def by blast
  then show ?thesis using skipped_for_bound [OF assms] by simp
qed

section \<open>Subscribers\<close>

text \<open>
  A subscription is a channel with room for one token. \<open>cancel\<close> runs once: it takes the channel out of
  the map under the lock and closes it afterwards, so that other steps may come in between. Sending on
  a closed channel would panic: \<open>notify\<close> is then \<open>None\<close>.
\<close>

datatype phase = Subscribed | Removed | Closed

text \<open>The life of a channel, in order.\<close>

fun phase_rank :: "phase \<Rightarrow> nat" where
  "phase_rank Subscribed = 0"
| "phase_rank Removed = 1"
| "phase_rank Closed = 2"

instantiation phase :: linorder
begin

definition less_eq_phase :: "phase \<Rightarrow> phase \<Rightarrow> bool" where
  "less_eq_phase p q \<longleftrightarrow> phase_rank p \<le> phase_rank q"

definition less_phase :: "phase \<Rightarrow> phase \<Rightarrow> bool" where
  "less_phase p q \<longleftrightarrow> phase_rank p < phase_rank q"

instance
proof
  fix p q r :: phase
  show "p < q \<longleftrightarrow> p \<le> q \<and> \<not> q \<le> p" by (auto simp: less_eq_phase_def less_phase_def)
  show "p \<le> p" by (simp add: less_eq_phase_def)
  show "p \<le> q \<Longrightarrow> q \<le> r \<Longrightarrow> p \<le> r" by (simp add: less_eq_phase_def)
  show "p \<le> q \<Longrightarrow> q \<le> p \<Longrightarrow> p = q" by (cases p; cases q) (simp_all add: less_eq_phase_def)
  show "p \<le> q \<or> q \<le> p" by (auto simp: less_eq_phase_def)
qed

end

lemma phase_order [simp]: "Subscribed \<le> p" "p \<le> Closed"
  by (cases p; simp add: less_eq_phase_def)+

record hub =
  hb_next :: nat
  hb_subs :: "nat list"
  hb_phase :: "nat \<Rightarrow> phase"
  hb_token :: "nat \<Rightarrow> bool"
  hb_sweeps :: nat
  hb_seen :: "nat \<Rightarrow> nat"

definition hub_New :: hub where
  "hub_New = \<lparr>hb_next = 0, hb_subs = [], hb_phase = (\<lambda>_. Closed), hb_token = (\<lambda>_. False), hb_sweeps = 0,
     hb_seen = (\<lambda>_. 0)\<rparr>"

definition Subscribe :: "hub \<Rightarrow> nat \<times> hub" where
  "Subscribe h =
     (hb_next h, h\<lparr>hb_next := hb_next h + 1, hb_subs := hb_next h # hb_subs h,
        hb_phase := (hb_phase h)(hb_next h := Subscribed), hb_token := (hb_token h)(hb_next h := False),
        hb_seen := (hb_seen h)(hb_next h := hb_sweeps h)\<rparr>)"

definition cancel_remove :: "nat \<Rightarrow> hub \<Rightarrow> hub" where
  "cancel_remove ch h =
     (if hb_phase h ch = Subscribed
      then h\<lparr>hb_subs := removeAll ch (hb_subs h), hb_phase := (hb_phase h)(ch := Removed)\<rparr> else h)"

definition cancel_close :: "nat \<Rightarrow> hub \<Rightarrow> hub" where
  "cancel_close ch h =
     (if hb_phase h ch = Removed then h\<lparr>hb_phase := (hb_phase h)(ch := Closed)\<rparr> else h)"

definition notify :: "hub \<Rightarrow> hub option" where
  "notify h =
     (if list_ex (\<lambda>ch. hb_phase h ch = Closed) (hb_subs h) then None
      else Some (h\<lparr>hb_token := (\<lambda>ch. ch \<in> set (hb_subs h) \<or> hb_token h ch), hb_sweeps := hb_sweeps h + 1\<rparr>))"

text \<open>A receive: it takes the token if there is one; on a closed channel it returns at once.\<close>

definition receive :: "nat \<Rightarrow> hub \<Rightarrow> bool \<times> hub" where
  "receive ch h =
     (if hb_token h ch then (True, h\<lparr>hb_token := (hb_token h)(ch := False), hb_seen := (hb_seen h)(ch := hb_sweeps h)\<rparr>)
      else (hb_phase h ch = Closed, h))"

inductive hub_step :: "hub \<Rightarrow> hub \<Rightarrow> bool" where
  subscribe: "Subscribe h = (ch, h') \<Longrightarrow> hub_step h h'"
| remove: "hub_step h (cancel_remove ch h)"
| close: "hub_step h (cancel_close ch h)"
| notified: "notify h = Some h' \<Longrightarrow> hub_step h h'"
| received: "receive ch h = (b, h') \<Longrightarrow> hub_step h h'"

definition hub_inv :: "hub \<Rightarrow> bool" where
  "hub_inv h \<longleftrightarrow>
     (\<forall>ch. ch \<in> set (hb_subs h) \<longleftrightarrow> hb_phase h ch = Subscribed) \<and>
     (\<forall>ch. hb_next h \<le> ch \<longrightarrow> hb_phase h ch = Closed) \<and>
     (\<forall>ch \<in> set (hb_subs h). hb_seen h ch \<le> hb_sweeps h \<and> (hb_seen h ch < hb_sweeps h \<longrightarrow> hb_token h ch))"

lemma hub_inv_New: "hub_inv hub_New"
  by (simp add: hub_inv_def hub_New_def)

lemma hub_step_inv:
  assumes "hub_step h h'" "hub_inv h"
  shows "hub_inv h'"
  using assms
proof cases
  case (subscribe ch)
  then show ?thesis using assms(2) by (auto simp: Subscribe_def hub_inv_def split: if_splits)
next
  case (remove ch)
  then show ?thesis using assms(2) by (auto simp: cancel_remove_def hub_inv_def)
next
  case (close ch)
  then show ?thesis using assms(2) by (auto simp: cancel_close_def hub_inv_def)
next
  case notified
  then show ?thesis using assms(2) by (auto simp: notify_def hub_inv_def le_Suc_eq split: if_splits)
next
  case (received ch b)
  then show ?thesis using assms(2) by (auto simp: receive_def hub_inv_def split: if_splits)
qed

lemma hub_reachable_inv: "hub_step\<^sup>*\<^sup>* hub_New h \<Longrightarrow> hub_inv h"
  by (induction rule: rtranclp_induct) (auto simp: hub_inv_New intro: hub_step_inv)

lemma hub_no_panic: "hub_inv h \<Longrightarrow> notify h \<noteq> None"
  by (auto simp: notify_def hub_inv_def list_ex_iff)


text \<open>A channel that was handed out only moves forward: what was cancelled is never subscribed again.\<close>

lemma hub_step_forward:
  assumes "hub_step h h'" "ch < hb_next h"
  shows "ch < hb_next h' \<and> hb_phase h ch \<le> hb_phase h' ch"
  using assms
proof cases
  case (subscribe ch')
  then show ?thesis using assms(2) by (auto simp: Subscribe_def)
next
  case (remove ch')
  then show ?thesis using assms(2) by (auto simp: cancel_remove_def)
next
  case (close ch')
  then show ?thesis using assms(2) by (auto simp: cancel_close_def)
next
  case notified
  then show ?thesis using assms(2) by (auto simp: notify_def split: if_splits)
next
  case (received ch' b)
  then show ?thesis using assms(2) by (auto simp: receive_def split: if_splits)
qed

lemma hub_forward:
  "hub_step\<^sup>*\<^sup>* h h' \<Longrightarrow> ch < hb_next h \<Longrightarrow> ch < hb_next h' \<and> hb_phase h ch \<le> hb_phase h' ch"
proof (induction rule: rtranclp_induct)
  case (step h1 h2)
  then show ?case using hub_step_forward [of h1 h2 ch] order_trans by blast
qed simp

end
