(* ===== verification/GoEncoding.thy ===== *)
theory GoEncoding imports GoStrings begin

text \<open>
  \<open>encoding/base64\<close> without padding, in the standard and the URL alphabet, and the reading of decimal
  numbers by \<open>fmt.Sscanf\<close>. Decoding skips line breaks and does not check the unused bits of the last
  character, as Go does.
\<close>

section \<open>base64\<close>

definition b64_char :: "bool \<Rightarrow> nat \<Rightarrow> char" where
  "b64_char url n =
     (if n < 26 then chr_of (65 + n) else if n < 52 then chr_of (71 + n)
      else if n < 62 then chr_of (n - 4)
      else if n = 62 then (if url then CHR ''-'' else CHR ''+'')
      else (if url then CHR ''_'' else CHR ''/''))"

definition b64_val :: "bool \<Rightarrow> char \<Rightarrow> nat option" where
  "b64_val url c =
     (let k = code_of c in
      if 65 \<le> k \<and> k \<le> 90 then Some (k - 65) else if 97 \<le> k \<and> k \<le> 122 then Some (k - 71)
      else if 48 \<le> k \<and> k \<le> 57 then Some (k + 4)
      else if k = (if url then 45 else 43) then Some 62
      else if k = (if url then 95 else 47) then Some 63 else None)"

fun b64_digits :: "nat list \<Rightarrow> nat list" where
  "b64_digits [] = []"
| "b64_digits [a] = [a div 4, a mod 4 * 16]"
| "b64_digits [a, b] = [a div 4, a mod 4 * 16 + b div 16, b mod 16 * 4]"
| "b64_digits (a # b # c # s) =
     [a div 4, a mod 4 * 16 + b div 16, b mod 16 * 4 + c div 64, c mod 64] @ b64_digits s"

fun b64_bytes :: "nat list \<Rightarrow> nat list option" where
  "b64_bytes [] = Some []"
| "b64_bytes [x] = None"
| "b64_bytes [x, y] = Some [x * 4 + y div 16]"
| "b64_bytes [x, y, z] = Some [x * 4 + y div 16, y mod 16 * 16 + z div 4]"
| "b64_bytes (x # y # z # u # s) =
     map_option (\<lambda>r. [x * 4 + y div 16, y mod 16 * 16 + z div 4, z mod 4 * 64 + u] @ r) (b64_bytes s)"

definition Raw_Encode :: "bool \<Rightarrow> string \<Rightarrow> string" where
  "Raw_Encode url s = map (b64_char url) (b64_digits (map code_of s))"

definition Raw_Decode :: "bool \<Rightarrow> string \<Rightarrow> string option" where
  "Raw_Decode url s =
     (let vs = map (b64_val url) (filter (\<lambda>c. c \<noteq> c_nl \<and> c \<noteq> CHR 0x0D) s) in
      if None \<in> set vs then None else map_option (map chr_of) (b64_bytes (map the vs)))"

lemma b64_code:
  "n < 64 \<Longrightarrow> code_of (b64_char url n) =
     (if n < 26 then 65 + n else if n < 52 then 71 + n else if n < 62 then n - 4
      else if n = 62 then (if url then 45 else 43) else (if url then 95 else 47))"
  by (simp add: b64_char_def)

lemma b64_val_char: "n < 64 \<Longrightarrow> b64_val url (b64_char url n) = Some n"
  by (simp add: b64_val_def b64_code Let_def) presburger

lemma b64_char_plain:
  assumes "n < 64"
  shows "b64_char url n \<noteq> c_nl \<and> b64_char url n \<noteq> CHR 0x0D \<and> b64_char url n \<noteq> CHR ''$''"
proof -
  have "code_of (b64_char url n) \<notin> {10, 13, 36}" using assms by (simp add: b64_code) presburger
  then show ?thesis by auto
qed

lemma b64_digits_less: "\<forall>a \<in> set s. a < 256 \<Longrightarrow> \<forall>d \<in> set (b64_digits s). d < 64"
  by (induction s rule: b64_digits.induct) auto

lemma b64_bytes_digits: "\<forall>a \<in> set s. a < 256 \<Longrightarrow> b64_bytes (b64_digits s) = Some s"
  by (induction s rule: b64_digits.induct) (auto simp: div_mult2_eq [symmetric])

lemma Raw_Decode_Encode: "Raw_Decode url (Raw_Encode url s) = Some s"
proof -
  let ?ds = "b64_digits (map code_of s)"
  have less: "\<forall>a \<in> set (map code_of s). a < 256" using code_of_less by auto
  note ds = b64_digits_less [OF less]
  have "filter (\<lambda>c. c \<noteq> c_nl \<and> c \<noteq> CHR 0x0D) (Raw_Encode url s) = Raw_Encode url s"
    using ds b64_char_plain by (auto simp: Raw_Encode_def filter_id_conv)
  moreover have "map (b64_val url) (Raw_Encode url s) = map Some ?ds"
    using ds b64_val_char by (auto simp: Raw_Encode_def)
  moreover have "None \<notin> set (map Some ?ds)" by auto
  moreover have "map the (map Some ?ds) = ?ds" by (simp add: comp_def)
  ultimately show ?thesis
    using b64_bytes_digits [OF less] by (simp add: Raw_Decode_def Let_def del: map_map) (simp add: comp_def)
qed

lemma length_Raw_Encode: "length (Raw_Encode url s) = (length s * 4 + 2) div 3"
proof -
  have "length (b64_digits xs) = (length xs * 4 + 2) div 3" for xs
    by (induction xs rule: b64_digits.induct) auto
  then show ?thesis by (simp add: Raw_Encode_def)
qed

lemma Raw_Encode_no_dollar: "CHR ''$'' \<notin> set (Raw_Encode url s)"
proof
  have "\<forall>d \<in> set (b64_digits (map code_of s)). d < 64"
    by (rule b64_digits_less) (use code_of_less in auto)
  moreover assume "CHR ''$'' \<in> set (Raw_Encode url s)"
  ultimately show False using b64_char_plain by (fastforce simp: Raw_Encode_def)
qed

section \<open>fmt.Sscanf\<close>

text \<open>A literal of the format, and the verb \<open>%d\<close>: white space is skipped except a line break, which is
  an error; then a sign where the operand is signed, and at least one digit. Text after the last verb is
  not looked at.\<close>

definition scan_literal :: "string \<Rightarrow> string \<Rightarrow> string option" where
  "scan_literal lit s = (if prefix lit s then Some (drop (length lit) s) else None)"

definition skip_space :: "string \<Rightarrow> string option" where
  "skip_space s =
     (let t = trim_left s in
      if c_nl \<in> set (take (length s - length t) s) then None else Some t)"

definition scan_digits :: "string \<Rightarrow> (nat \<times> string) option" where
  "scan_digits s =
     (let ds = takeWhile is_digit s in
      if ds = [] then None else Some (dec_value 0 ds, dropWhile is_digit s))"

definition scan_uint :: "nat \<Rightarrow> string \<Rightarrow> (nat \<times> string) option" where
  "scan_uint bits s =
     (case skip_space s of
        None \<Rightarrow> None
      | Some s \<Rightarrow> (case scan_digits s of None \<Rightarrow> None
          | Some (n, rest) \<Rightarrow> if n < 2 ^ bits then Some (n, rest) else None))"

definition scan_int :: "string \<Rightarrow> (int \<times> string) option" where
  "scan_int s =
     (case skip_space s of
        None \<Rightarrow> None
      | Some s \<Rightarrow>
          (let neg = (s \<noteq> [] \<and> hd s = CHR ''-'');
               ds = (if s \<noteq> [] \<and> (hd s = CHR ''-'' \<or> hd s = CHR ''+'') then tl s else s)
           in case scan_digits ds of None \<Rightarrow> None
              | Some (n, rest) \<Rightarrow>
                  (let v = (if neg then - int n else int n) in if int64_ok v then Some (v, rest) else None)))"

end
