(* ===== verification/Auth.thy ===== *)
theory Auth imports Panel GoEncoding begin

text \<open>
  \<open>internal/web/auth.go\<close>: argon2id password hashes in PHC form, sessions of which only a digest is
  stored, and the limiter of failed logins per address. The two cryptographic functions are
  arguments (\<open>crypto\<close>): \<open>golang.org/x/crypto/argon2\<close> and SHA-256.
\<close>

record crypto =
  cr_IDKey :: "string \<Rightarrow> string \<Rightarrow> nat \<Rightarrow> nat \<Rightarrow> nat \<Rightarrow> nat \<Rightarrow> string"
  cr_Sum256 :: "string \<Rightarrow> string"

text \<open>The documented length of a derived key.\<close>

definition key_length_ok :: "crypto \<Rightarrow> bool" where
  "key_length_ok cr \<longleftrightarrow> (\<forall>pw salt t m p n. length (cr_IDKey cr pw salt t m p n) = n)"

definition ErrBadCredentials_err :: gerror where
  "ErrBadCredentials_err = GErr ''auth: invalid username or password'' [ErrBadCredentials]"

definition ErrRateLimited_err :: gerror where
  "ErrRateLimited_err = GErr ''auth: too many failed attempts, try again later'' [ErrRateLimited]"

definition SessionTTL :: duration where "SessionTTL = 7 * 24 * 3600 * Second"
definition MinPasswordLen :: nat where "MinPasswordLen = 10"
definition maxAttempts :: int where "maxAttempts = 5"
definition attemptWindow :: duration where "attemptWindow = 15 * 60 * Second"
definition sweepScan :: nat where "sweepScan = 8"
definition maxTrackedIPs :: nat where "maxTrackedIPs = 100000"

definition argonTime :: nat where "argonTime = 1"
definition argonMemory :: nat where "argonMemory = 65536"
definition argonThreads :: nat where "argonThreads = 4"
definition argonKeyLen :: nat where "argonKeyLen = 32"
definition argonSaltLen :: nat where "argonSaltLen = 16"
definition argonVersion :: nat where "argonVersion = 19"

definition maxArgonMemoryKiB :: nat where "maxArgonMemoryKiB = 2097152"
definition maxArgonTimeCost :: nat where "maxArgonTimeCost = 100"
definition maxArgonThreads :: nat where "maxArgonThreads = 64"
definition maxArgonKeyLen :: nat where "maxArgonKeyLen = 1024"
definition maxEncodedLen :: nat where "maxEncodedLen = 1024"

lemmas argon_defs = argonTime_def argonMemory_def argonThreads_def argonKeyLen_def argonSaltLen_def
  argonVersion_def maxArgonMemoryKiB_def maxArgonTimeCost_def maxArgonThreads_def maxArgonKeyLen_def
  maxEncodedLen_def

section \<open>Passwords\<close>

definition phc :: "string \<Rightarrow> string \<Rightarrow> string" where
  "phc salt key = ''$argon2id$v='' @ format_nat argonVersion @ ''$m='' @ format_nat argonMemory @
     '',t='' @ format_nat argonTime @ '',p='' @ format_nat argonThreads @ ''$'' @ Raw_Encode False salt @
     ''$'' @ Raw_Encode False key"

definition HashPassword :: "crypto \<Rightarrow> platform \<Rightarrow> string \<Rightarrow> 'r world \<Rightarrow> string res \<times> 'r world" where
  "HashPassword cr pl plain w =
     (let (r, w) = rand_Read pl argonSaltLen w in
      case r of
        Inl e \<Rightarrow> (Inl (errorf_wrap ''auth: generate salt: '' e), w)
      | Inr salt \<Rightarrow>
          (Inr (phc salt (cr_IDKey cr plain salt argonTime argonMemory argonThreads argonKeyLen)), w))"

text \<open>\<open>argon2.IDKey\<close> panics when a cost is zero.\<close>

definition IDKey :: "crypto \<Rightarrow> string \<Rightarrow> string \<Rightarrow> nat \<Rightarrow> nat \<Rightarrow> nat \<Rightarrow> nat \<Rightarrow> string option" where
  "IDKey cr pw salt t m p n = (if t < 1 \<or> p < 1 then None else Some (cr_IDKey cr pw salt t m p n))"

definition scan_version :: "string \<Rightarrow> int option" where
  "scan_version s =
     (case scan_literal ''v='' s of None \<Rightarrow> None | Some s \<Rightarrow> map_option fst (scan_int s))"

definition scan_costs :: "string \<Rightarrow> (nat \<times> nat \<times> nat) option" where
  "scan_costs s =
     (case scan_literal ''m='' s of None \<Rightarrow> None | Some s \<Rightarrow>
     (case scan_uint 32 s of None \<Rightarrow> None | Some (m, s) \<Rightarrow>
     (case scan_literal '',t='' s of None \<Rightarrow> None | Some s \<Rightarrow>
     (case scan_uint 32 s of None \<Rightarrow> None | Some (t, s) \<Rightarrow>
     (case scan_literal '',p='' s of None \<Rightarrow> None | Some s \<Rightarrow>
     (case scan_uint 8 s of None \<Rightarrow> None | Some (p, s) \<Rightarrow> Some (m, t, p)))))))"

text \<open>The last step, with everything parsed; a panic of the library is recovered as a mismatch.\<close>

definition verify_key :: "crypto \<Rightarrow> string \<Rightarrow> string \<Rightarrow> string \<Rightarrow> nat \<times> nat \<times> nat \<Rightarrow> bool" where
  "verify_key cr plain salt64 want64 = (\<lambda>(memory, timeCost, threads).
     if timeCost < 1 \<or> timeCost > maxArgonTimeCost then False
     else if threads < 1 \<or> threads > maxArgonThreads then False
     else if memory = 0 \<or> memory > maxArgonMemoryKiB then False
     else case Raw_Decode False salt64 of None \<Rightarrow> False | Some salt \<Rightarrow>
       (case Raw_Decode False want64 of None \<Rightarrow> False | Some want \<Rightarrow>
          if length want = 0 \<or> length want > maxArgonKeyLen then False
          else IDKey cr plain salt timeCost memory threads (length want) = Some want))"

definition VerifyPassword :: "crypto \<Rightarrow> string \<Rightarrow> string \<Rightarrow> bool" where
  "VerifyPassword cr encoded plain =
     (if length encoded = 0 \<or> length encoded > maxEncodedLen then False
      else case split_on CHR ''$'' encoded of
        [_, kind, ver, costs, salt64, want64] \<Rightarrow>
          if kind \<noteq> ''argon2id'' then False
          else if scan_version ver \<noteq> Some (int argonVersion) then False
          else (case scan_costs costs of None \<Rightarrow> False
              | Some k \<Rightarrow> verify_key cr plain salt64 want64 k)
      | _ \<Rightarrow> False)"

definition dummyHash :: string where
  "dummyHash = phc (replicate argonSaltLen (chr_of 0)) (replicate argonKeyLen (chr_of 0))"

section \<open>The limiter\<close>

text \<open>The map from addresses to failures, in some order; \<open>pick\<close> is the order in which a \<^verbatim>\<open>range\<close> over the map gives them.\<close>

record attempt =
  at_count :: int
  at_first :: instant

type_synonym attempts = "(string \<times> attempt) list"

definition NewAuth :: attempts where
  "NewAuth = []"

definition forget :: "string \<Rightarrow> attempts \<Rightarrow> attempts" where
  "forget ip a = filter (\<lambda>(k, _). k \<noteq> ip) a"

definition limited :: "string \<Rightarrow> instant \<Rightarrow> attempts \<Rightarrow> bool \<times> attempts" where
  "limited ip now a =
     (case map_of a ip of
        None \<Rightarrow> (False, a)
      | Some r \<Rightarrow>
          if now - at_first r > attemptWindow then (False, forget ip a)
          else (at_count r \<ge> maxAttempts, a))"

definition evictExpired :: "(attempts \<Rightarrow> attempts) \<Rightarrow> instant \<Rightarrow> attempts \<Rightarrow> attempts" where
  "evictExpired pick now a =
     (let seen = map fst (take sweepScan (pick a)) in
      filter (\<lambda>(k, r). \<not> (k \<in> set seen \<and> now - at_first r > attemptWindow)) a)"

definition bump :: "instant \<Rightarrow> attempt \<Rightarrow> attempt" where
  "bump now r =
     (if now - at_first r > attemptWindow then \<lparr>at_count = 1, at_first = now\<rparr>
      else r\<lparr>at_count := at_count r + 1\<rparr>)"

definition recordFailure :: "(attempts \<Rightarrow> attempts) \<Rightarrow> instant \<Rightarrow> string \<Rightarrow> attempts \<Rightarrow> attempts" where
  "recordFailure pick now ip a =
     (let a = evictExpired pick now a in
      case map_of a ip of
        Some _ \<Rightarrow> map (\<lambda>(k, r). (k, if k = ip then bump now r else r)) a
      | None \<Rightarrow>
          if length a \<ge> maxTrackedIPs then a
          else a @ [(ip, \<lparr>at_count = 1, at_first = now\<rparr>)])"

definition clearFailures :: "string \<Rightarrow> attempts \<Rightarrow> attempts" where
  "clearFailures ip a = forget ip a"

section \<open>Sessions\<close>

definition newToken :: "platform \<Rightarrow> 'r world \<Rightarrow> string res \<times> 'r world" where
  "newToken pl w =
     (let (r, w) = rand_Read pl 32 w in
      case r of
        Inl e \<Rightarrow> (Inl (errorf_wrap ''auth: generate token: '' e), w)
      | Inr b \<Rightarrow> (Inr (hex_Encode b), w))"

definition hashToken :: "crypto \<Rightarrow> string \<Rightarrow> string" where
  "hashToken cr token = hex_Encode (cr_Sum256 cr token)"

definition st_AdminCount :: "platform \<Rightarrow> ctx \<Rightarrow> 'r world \<Rightarrow> nat res \<times> 'r world" where
  "st_AdminCount pl c = db_query AdminCount pl c"

definition st_CreateAdmin :: "platform \<Rightarrow> ctx \<Rightarrow> string \<Rightarrow> string \<Rightarrow> 'r world \<Rightarrow> admin res \<times> 'r world" where
  "st_CreateAdmin pl c u h = db_exec (\<lambda>f now. CreateAdmin (pl_driver pl) f u h) pl c"

definition st_AdminByUsername :: "platform \<Rightarrow> ctx \<Rightarrow> string \<Rightarrow> 'r world \<Rightarrow> admin res \<times> 'r world" where
  "st_AdminByUsername pl c u = db_query (\<lambda>f. AdminByUsername f u) pl c"

definition st_SetAdminPassword :: "platform \<Rightarrow> ctx \<Rightarrow> int \<Rightarrow> string \<Rightarrow> 'r world \<Rightarrow> gerror option \<times> 'r world" where
  "st_SetAdminPassword pl c i h = db_exec (\<lambda>f now. SetAdminPassword f i h) pl c"

definition st_CreateSession :: "platform \<Rightarrow> ctx \<Rightarrow> string \<Rightarrow> int \<Rightarrow> instant \<Rightarrow> 'r world \<Rightarrow> gerror option \<times> 'r world" where
  "st_CreateSession pl c h i x = db_exec (\<lambda>f now. CreateSession (pl_driver pl) f h i x) pl c"

definition st_SessionAdmin :: "platform \<Rightarrow> ctx \<Rightarrow> string \<Rightarrow> 'r world \<Rightarrow> admin res \<times> 'r world" where
  "st_SessionAdmin pl c h w = db_query (\<lambda>f. SessionAdmin f (w_clock w) h) pl c w"

definition st_DeleteSession :: "platform \<Rightarrow> ctx \<Rightarrow> string \<Rightarrow> 'r world \<Rightarrow> gerror option \<times> 'r world" where
  "st_DeleteSession pl c h = db_exec (\<lambda>f now. DeleteSession f h) pl c"

lemmas admin_calls = st_AdminCount_def st_CreateAdmin_def st_AdminByUsername_def st_SetAdminPassword_def
  st_CreateSession_def st_SessionAdmin_def st_DeleteSession_def db_query_def db_exec_def

definition Bootstrap :: "crypto \<Rightarrow> platform \<Rightarrow> ctx \<Rightarrow> 'r world \<Rightarrow> string res \<times> 'r world" where
  "Bootstrap cr pl c w =
     (let (n, w) = st_AdminCount pl c w in
      case n of
        Inl e \<Rightarrow> (Inl e, w)
      | Inr n \<Rightarrow>
          if n > 0 then (Inr '''', w)
          else
            (let (raw, w) = rand_Read pl 12 w in
             case raw of
               Inl e \<Rightarrow> (Inl (errorf_wrap ''auth: generate password: '' e), w)
             | Inr raw \<Rightarrow>
                 (let pw = Raw_Encode True raw;
                      (h, w) = HashPassword cr pl pw w
                  in case h of
                       Inl e \<Rightarrow> (Inl e, w)
                     | Inr h \<Rightarrow>
                         (let (a, w) = st_CreateAdmin pl c ''admin'' h w
                          in case a of Inl e \<Rightarrow> (Inl e, w) | Inr _ \<Rightarrow> (Inr pw, w)))))"

text \<open>The second half of \<open>Login\<close>: the credentials are good.\<close>

definition open_session :: "crypto \<Rightarrow> platform \<Rightarrow> ctx \<Rightarrow> string \<Rightarrow> admin \<Rightarrow> attempts \<Rightarrow> 'r world \<Rightarrow>
    (string \<times> admin) res \<times> attempts \<times> 'r world" where
  "open_session cr pl c ip adm a w =
     (let (t, w) = newToken pl w in
      case t of
        Inl e \<Rightarrow> (Inl e, a, w)
      | Inr token \<Rightarrow>
          (let (e, w) = st_CreateSession pl c (hashToken cr token) (ad_ID adm) (w_clock w + SessionTTL) w
           in case e of
                Some e \<Rightarrow> (Inl e, a, w)
              | None \<Rightarrow> (Inr (token, adm), clearFailures ip a, w)))"

definition Login :: "crypto \<Rightarrow> platform \<Rightarrow> (attempts \<Rightarrow> attempts) \<Rightarrow> ctx \<Rightarrow> string \<Rightarrow> string \<Rightarrow> string \<Rightarrow> attempts \<Rightarrow>
    'r world \<Rightarrow> (string \<times> admin) res \<times> attempts \<times> 'r world" where
  "Login cr pl pick c ip username plain a w =
     (let (lim, a) = limited ip (w_clock w) a in
      if lim then (Inl ErrRateLimited_err, a, w)
      else
        (let (adm, w) = st_AdminByUsername pl c username w in
         case adm of
           Inl _ \<Rightarrow> (Inl ErrBadCredentials_err, recordFailure pick (w_clock w) ip a, w)
         | Inr adm \<Rightarrow>
             if \<not> VerifyPassword cr (ad_PasswordHash adm) plain
             then (Inl ErrBadCredentials_err, recordFailure pick (w_clock w) ip a, w)
             else open_session cr pl c ip adm a w))"

definition Logout :: "crypto \<Rightarrow> platform \<Rightarrow> ctx \<Rightarrow> string \<Rightarrow> 'r world \<Rightarrow> gerror option \<times> 'r world" where
  "Logout cr pl c token = st_DeleteSession pl c (hashToken cr token)"

definition Session :: "crypto \<Rightarrow> platform \<Rightarrow> ctx \<Rightarrow> string \<Rightarrow> 'r world \<Rightarrow> admin res \<times> 'r world" where
  "Session cr pl c token = st_SessionAdmin pl c (hashToken cr token)"

definition ChangePassword :: "crypto \<Rightarrow> platform \<Rightarrow> ctx \<Rightarrow> int \<Rightarrow> string \<Rightarrow> 'r world \<Rightarrow> gerror option \<times> 'r world" where
  "ChangePassword cr pl c aid plain w =
     (if length plain < MinPasswordLen then
        (Some (errorf (''auth: password must be at least '' @ Itoa (int MinPasswordLen) @ '' characters'')), w)
      else
        (let (h, w) = HashPassword cr pl plain w in
         case h of Inl e \<Rightarrow> (Some e, w) | Inr h \<Rightarrow> st_SetAdminPassword pl c aid h w))"

section \<open>Passwords: lemmas\<close>

lemma trim_left_id: "find (\<lambda>p. prefix p s) space_runes = None \<Longrightarrow> trim_left s = s"
  by (subst trim_left.simps) simp

lemma space_not_digit: "p \<in> set space_runes \<Longrightarrow> is_digit c \<Longrightarrow> \<not> prefix p (c # s)"
  by (auto simp: space_runes_def is_digit_def)

lemma skip_space_digit: "is_digit c \<Longrightarrow> skip_space (c # s) = Some (c # s)"
  by (simp add: skip_space_def trim_left_id find_None_iff space_not_digit)

lemma scan_digits_format:
  assumes "rest = [] \<or> \<not> is_digit (hd rest)"
  shows "scan_digits (format_nat n @ rest) = Some (n, rest)"
proof -
  have "takeWhile is_digit rest = []" "dropWhile is_digit rest = rest"
    using assms by (cases rest; auto)+
  then show ?thesis
    using format_nat_digits [of n]
    by (simp add: scan_digits_def Let_def takeWhile_append2 dropWhile_append2 dec_value_format_nat)
qed

lemma scan_uint_format:
  assumes "rest = [] \<or> \<not> is_digit (hd rest)" "n < 2 ^ bits"
  shows "scan_uint bits (format_nat n @ rest) = Some (n, rest)"
proof -
  obtain c s where f: "format_nat n = c # s" by (cases "format_nat n") auto
  then have "is_digit c" using format_nat_digits [of n] by auto
  then have "skip_space (format_nat n @ rest) = Some (format_nat n @ rest)" by (simp add: f skip_space_digit)
  then show ?thesis using scan_digits_format [OF assms(1), of n] assms(2) by (simp add: scan_uint_def)
qed

lemma scan_int_format:
  assumes "int64_ok (int n)"
  shows "scan_int (format_nat n) = Some (int n, [])"
proof -
  obtain c s where f: "format_nat n = c # s" by (cases "format_nat n") auto
  then have d: "is_digit c" using format_nat_digits [of n] by auto
  then have "skip_space (format_nat n) = Some (format_nat n)" by (simp add: f skip_space_digit)
  moreover have "c \<noteq> CHR ''-'' \<and> c \<noteq> CHR ''+''" by (rule digit_not_sign [OF d])
  ultimately show ?thesis
    using scan_digits_format [of "[]" n] assms f by (simp add: scan_int_def Let_def)
qed

lemma scan_costs_format:
  assumes "m < 2 ^ 32" "t < 2 ^ 32" "p < 2 ^ 8"
  shows "scan_costs (''m='' @ format_nat m @ '',t='' @ format_nat t @ '',p='' @ format_nat p) = Some (m, t, p)"
  using assms scan_uint_format [of "[]" p 8]
  by (simp add: scan_costs_def scan_literal_def scan_uint_format is_digit_def)

lemma split_phc:
  "split_on CHR ''$'' (phc salt key) =
     ['''', ''argon2id'', ''v='' @ format_nat argonVersion,
      ''m='' @ format_nat argonMemory @ '',t='' @ format_nat argonTime @ '',p='' @ format_nat argonThreads,
      Raw_Encode False salt, Raw_Encode False key]"
proof -
  let ?ps = "['''', ''argon2id'', ''v='' @ format_nat argonVersion,
      ''m='' @ format_nat argonMemory @ '',t='' @ format_nat argonTime @ '',p='' @ format_nat argonThreads,
      Raw_Encode False salt, Raw_Encode False key]"
  have "CHR ''$'' \<notin> set (format_nat n)" for n
    using format_nat_digits [of n] by (auto simp: is_digit_def)
  then have "\<forall>s \<in> set ?ps. CHR ''$'' \<notin> set s" using Raw_Encode_no_dollar by auto
  then have "split_on CHR ''$'' (strings_Join ?ps ''$'') = ?ps" by (intro split_on_join) simp_all
  then show ?thesis by (simp add: phc_def)
qed

lemma length_format_nat: "n < 10 ^ k \<Longrightarrow> 0 < k \<Longrightarrow> length (format_nat n) \<le> k"
proof (induction k arbitrary: n)
  case (Suc k)
  show ?case
  proof (cases "n < 10")
    case True
    then show ?thesis by (subst format_nat.simps) simp
  next
    case False
    then have "0 < k" using Suc.prems by (cases k) auto
    moreover have "n div 10 < 10 ^ k" using Suc.prems by (simp add: less_mult_imp_div_less mult.commute)
    ultimately have "length (format_nat (n div 10)) \<le> k" by (rule Suc.IH [rotated])
    then show ?thesis using False by (subst format_nat.simps) simp
  qed
qed simp

lemma length_phc:
  assumes "length salt = argonSaltLen" "length key = argonKeyLen"
  shows "length (phc salt key) \<le> maxEncodedLen"
proof -
  have "length (format_nat argonVersion) \<le> 10" "length (format_nat argonMemory) \<le> 10"
    "length (format_nat argonTime) \<le> 10" "length (format_nat argonThreads) \<le> 10"
    by (rule length_format_nat; simp add: argon_defs)+
  then show ?thesis using assms by (simp add: phc_def length_Raw_Encode argon_defs)
qed

text \<open>A stored hash is matched exactly by the passwords with the stored key.\<close>

lemma VerifyPassword_phc:
  assumes "length salt = argonSaltLen" "length key = argonKeyLen"
  shows "VerifyPassword cr (phc salt key) plain \<longleftrightarrow>
    cr_IDKey cr plain salt argonTime argonMemory argonThreads argonKeyLen = key"
proof -
  have "scan_version (''v='' @ format_nat argonVersion) = Some (int argonVersion)"
    by (simp add: scan_version_def scan_literal_def scan_int_format int64_ok_def argonVersion_def)
  moreover have "scan_costs (''m='' @ format_nat argonMemory @ '',t='' @ format_nat argonTime @ '',p='' @
      format_nat argonThreads) = Some (argonMemory, argonTime, argonThreads)"
    by (rule scan_costs_format) (simp_all add: argon_defs)
  moreover have "phc salt key \<noteq> []" by (simp add: phc_def)
  moreover have "length key \<noteq> 0" "\<not> maxArgonKeyLen < length key" using assms(2) by (simp_all add: argon_defs)
  ultimately show ?thesis
    using length_phc [OF assms] assms(2)
    unfolding VerifyPassword_def split_phc
    by (simp add: verify_key_def Raw_Decode_Encode IDKey_def not_less)
      (simp add: argon_defs)
qed

text \<open>Whatever the stored string says, the key derivation is asked only for parameters within the
  bounds: two libraries that agree there cannot be told apart.\<close>

definition agree_in_bounds :: "crypto \<Rightarrow> crypto \<Rightarrow> bool" where
  "agree_in_bounds cr cr' \<longleftrightarrow>
     (\<forall>pw salt t m p n. 1 \<le> t \<longrightarrow> t \<le> maxArgonTimeCost \<longrightarrow> 1 \<le> m \<longrightarrow> m \<le> maxArgonMemoryKiB \<longrightarrow>
        1 \<le> p \<longrightarrow> p \<le> maxArgonThreads \<longrightarrow> 1 \<le> n \<longrightarrow> n \<le> maxArgonKeyLen \<longrightarrow>
        cr_IDKey cr pw salt t m p n = cr_IDKey cr' pw salt t m p n)"

lemma verify_key_bounded:
  assumes "agree_in_bounds cr cr'"
  shows "verify_key cr plain s w k = verify_key cr' plain s w k"
proof -
  obtain m t p where k: "k = (m, t, p)" by (cases k) auto
  have "IDKey cr plain salt t m p n = IDKey cr' plain salt t m p n"
    if "\<not> (t < 1 \<or> t > maxArgonTimeCost)" "\<not> (p < 1 \<or> p > maxArgonThreads)"
      "\<not> (m = 0 \<or> m > maxArgonMemoryKiB)" "\<not> (n = 0 \<or> n > maxArgonKeyLen)" for salt n
    using assms that by (simp add: IDKey_def agree_in_bounds_def not_less)
  then show ?thesis by (auto simp: verify_key_def k split: option.split)
qed

lemma VerifyPassword_bounded:
  assumes "agree_in_bounds cr cr'"
  shows "VerifyPassword cr encoded plain = VerifyPassword cr' encoded plain"
  unfolding VerifyPassword_def
  by (simp add: verify_key_bounded [OF assms] split: list.split option.split)


lemma HashPassword_verifies:
  assumes run: "HashPassword cr pl plain w = (Inr h, w')" and rnd: "honest_random pl" and len: "key_length_ok cr"
  shows "VerifyPassword cr h plain" "w_db w' = w_db w"
proof -
  obtain salt where s: "pl_rand pl (w_tick w) argonSaltLen = Inr salt"
    "h = phc salt (cr_IDKey cr plain salt argonTime argonMemory argonThreads argonKeyLen)" "w' = tick pl w"
    using run by (auto simp: HashPassword_def rand_Read_def split: sum.splits)
  then have "length salt = argonSaltLen" using rnd unfolding honest_random_def by blast
  then show "VerifyPassword cr h plain"
    using len by (simp add: s VerifyPassword_phc key_length_ok_def)
  show "w_db w' = w_db w" using s by simp
qed

section \<open>The limiter: lemmas\<close>

definition attempts_inv :: "attempts \<Rightarrow> bool" where
  "attempts_inv a \<longleftrightarrow> distinct (map fst a) \<and> length a \<le> maxTrackedIPs"

lemma map_of_filter_inv:
  "distinct (map fst a) \<Longrightarrow> map_of (filter P a) k = (case map_of a k of Some r \<Rightarrow> if P (k, r) then Some r else None | None \<Rightarrow> None)"
proof (induction a)
  case (Cons x a)
  obtain j r where x: "x = (j, r)" by fastforce
  have "map_of a j = None" using Cons.prems by (auto simp: x map_of_eq_None_iff)
  with Cons show ?case by (auto simp: x)
qed simp

lemma attempts_inv_filter: "attempts_inv a \<Longrightarrow> attempts_inv (filter P a)"
  using le_trans [OF length_filter_le] by (auto simp: attempts_inv_def distinct_map_filter)

lemma map_of_bump:
  "map_of (map (\<lambda>(k, r). (k, if k = ip then f r else r)) a) j = map_option (if j = ip then f else id) (map_of a j)"
  by (induction a) auto

lemma map_fst_bump: "map fst (map (\<lambda>(k, r). (k, if k = ip then f r else r)) a) = map fst a"
  by (induction a) auto

definition live :: "instant \<Rightarrow> attempt \<Rightarrow> bool" where
  "live now r \<longleftrightarrow> now - at_first r \<le> attemptWindow"

lemma evict_inv: "attempts_inv a \<Longrightarrow> attempts_inv (evictExpired pick now a)"
  by (simp add: evictExpired_def Let_def attempts_inv_filter)

lemma evict_keeps_live:
  "attempts_inv a \<Longrightarrow> map_of a k = Some r \<Longrightarrow> live now r \<Longrightarrow> map_of (evictExpired pick now a) k = Some r"
  by (auto simp: evictExpired_def Let_def map_of_filter_inv attempts_inv_def live_def)

lemma evict_new:
  "attempts_inv a \<Longrightarrow> map_of (evictExpired pick now a) k = Some r \<Longrightarrow> map_of a k = Some r"
  by (auto simp: evictExpired_def Let_def map_of_filter_inv attempts_inv_def split: option.splits if_splits)

lemma recordFailure_inv:
  assumes "attempts_inv a"
  shows "attempts_inv (recordFailure pick now ip a)"
proof -
  let ?e = "evictExpired pick now a"
  have e: "attempts_inv ?e" by (rule evict_inv [OF assms])
  show ?thesis
  proof (cases "map_of ?e ip")
    case None
    then have "ip \<notin> set (map fst ?e)" by (simp add: map_of_eq_None_iff)
    then show ?thesis using e None by (simp add: recordFailure_def Let_def attempts_inv_def)
  next
    case (Some r)
    then show ?thesis using e by (simp add: recordFailure_def Let_def attempts_inv_def map_fst_bump del: map_map)
  qed
qed

lemma recordFailure_live:
  assumes inv: "attempts_inv a" and r: "map_of a k = Some r" "live now r"
  shows "map_of (recordFailure pick now ip a) k = Some (if k = ip then r\<lparr>at_count := at_count r + 1\<rparr> else r)"
proof -
  let ?e = "evictExpired pick now a"
  have e: "map_of ?e k = Some r" by (rule evict_keeps_live [OF inv r])
  show ?thesis
  proof (cases "map_of ?e ip")
    case None
    then have "k \<noteq> ip" using e by auto
    then show ?thesis using e None by (simp add: recordFailure_def Let_def map_add_Some_iff)
  next
    case (Some q)
    have "bump now r = r\<lparr>at_count := at_count r + 1\<rparr>" using r(2) by (simp add: bump_def live_def)
    then show ?thesis using e Some by (simp add: recordFailure_def Let_def map_of_bump)
  qed
qed

lemma forget_inv: "attempts_inv a \<Longrightarrow> attempts_inv (forget ip a)"
  by (simp add: forget_def attempts_inv_filter)

lemma forget_other: "attempts_inv a \<Longrightarrow> map_of (forget ip a) k = (if k = ip then None else map_of a k)"
  by (auto simp: forget_def map_of_filter_inv attempts_inv_def split: option.split)

text \<open>What happens to the table between two looks at it: checks, failures and successes of any
  addresses, interleaved in any order.\<close>

datatype auth_event =
    Checked string instant
  | Failed "attempts \<Rightarrow> attempts" string instant
  | Cleared string

fun run_event :: "auth_event \<Rightarrow> attempts \<Rightarrow> attempts" where
  "run_event (Checked ip now) a = snd (limited ip now a)"
| "run_event (Failed pick ip now) a = recordFailure pick now ip a"
| "run_event (Cleared ip) a = clearFailures ip a"

fun event_time :: "auth_event \<Rightarrow> instant option" where
  "event_time (Checked _ now) = Some now"
| "event_time (Failed _ _ now) = Some now"
| "event_time (Cleared _) = None"

definition failures_of :: "string \<Rightarrow> auth_event list \<Rightarrow> int" where
  "failures_of ip es = int (length (filter (\<lambda>e. \<exists>pick now. e = Failed pick ip now) es))"

lemma run_event_inv: "attempts_inv a \<Longrightarrow> attempts_inv (run_event e a)"
  by (cases e) (auto simp: limited_def clearFailures_def recordFailure_inv forget_inv split: option.split)

lemma run_event_live:
  assumes inv: "attempts_inv a" and r: "map_of a ip = Some r"
    and time: "\<And>now. event_time e = Some now \<Longrightarrow> live now r" and own: "e \<noteq> Cleared ip"
  shows "map_of (run_event e a) ip = Some (r\<lparr>at_count := at_count r + failures_of ip [e]\<rparr>)"
proof (cases e)
  case (Checked j now)
  then have "live now r" using time by simp
  then show ?thesis
    using inv r Checked by (auto simp: limited_def live_def forget_other failures_of_def split: option.split)
next
  case (Failed pick j now)
  then have "live now r" using time by simp
  then show ?thesis using recordFailure_live [OF inv r] Failed by (auto simp: failures_of_def)
next
  case (Cleared j)
  then show ?thesis using inv r own by (auto simp: clearFailures_def forget_other failures_of_def)
qed

lemma failures_of_Cons: "failures_of ip (e # es) = failures_of ip [e] + failures_of ip es"
  by (simp add: failures_of_def)

lemma run_events_live:
  assumes "attempts_inv a" "map_of a ip = Some r"
    and "\<And>e now. e \<in> set es \<Longrightarrow> event_time e = Some now \<Longrightarrow> live now r" and "Cleared ip \<notin> set es"
  shows "attempts_inv (fold run_event es a) \<and>
    map_of (fold run_event es a) ip = Some (r\<lparr>at_count := at_count r + failures_of ip es\<rparr>)"
  using assms
proof (induction es arbitrary: a r)
  case Nil
  then show ?case by (simp add: failures_of_def)
next
  case (Cons e es)
  let ?r = "r\<lparr>at_count := at_count r + failures_of ip [e]\<rparr>"
  have "map_of (run_event e a) ip = Some ?r"
    by (rule run_event_live [OF Cons.prems(1,2)]) (use Cons.prems in auto)
  moreover have "live now ?r" if "e' \<in> set es" "event_time e' = Some now" for e' now
    using Cons.prems(3) [of e' now] that by (simp add: live_def)
  moreover have "Cleared ip \<notin> set es" using Cons.prems(4) by simp
  ultimately show ?case
    using Cons.IH [OF run_event_inv [OF Cons.prems(1)], of e ?r]
    by (simp add: failures_of_Cons [of ip e es] algebra_simps)
qed

lemma limited_live:
  "map_of a ip = Some r \<Longrightarrow> live now r \<Longrightarrow> fst (limited ip now a) \<longleftrightarrow> maxAttempts \<le> at_count r"
  by (simp add: limited_def live_def)

section \<open>Sessions: lemmas\<close>

text \<open>After \<open>Login\<close>: the token is good for its admin until the lifetime is over, and only a digest of it
  is in the database.\<close>

lemma session_of_new:
  assumes wf: "db_wf d" and new: "CreateSession dv fault h aid expires d = (None, d')"
    and adm: "r \<in> set (t_admins d)" "a_id r = aid"
    and y: "four_digit_year now" "four_digit_year expires" and early: "now div nsec < expires div nsec"
  shows "SessionAdmin None now h d' = Inr (scanAdmin r)"
proof -
  obtain a where a: "SessionAdmin None now h d' = Inr (scanAdmin a)" "a_id a = aid"
    using session_expiry(1) [OF wf new y early] by blast
  have wf': "db_wf d'" using wf new by (rule db_wf_CreateSession)
  have admins: "t_admins d' = t_admins d" using new by (simp add: CreateSession_None_iff)
  obtain s b where b: "b \<in> set (t_admins d)" "a_id b = s_admin_id s" "s \<in> set (t_sessions d')" "s_token_hash s = h"
    "scanAdmin a = scanAdmin b"
    using SessionAdmin_Inr [OF a(1)] by (auto simp: admins)
  have "a_id b = aid" using b(5) a(2) by (simp add: scanAdmin_def)
  then have "b = r" using wf adm b(1) distinct_map_inj [of a_id "t_admins d" b r] by (simp add: db_wf_def)
  then show ?thesis using a(1) b(5) by simp
qed

lemma AdminByUsername_Inr:
  "AdminByUsername fault u d = Inr adm \<Longrightarrow> \<exists>r \<in> set (t_admins d). adm = scanAdmin r \<and> a_username r = u"
  by (auto simp: AdminByUsername_def split: option.splits dest: find_Some_key)

lemma Login_ok:
  assumes wf: "db_wf (w_db w)" and run: "Login cr pl pick c ip user plain a w = (Inr (token, adm), a', w')"
  obtains r t where "r \<in> set (t_admins (w_db w))" "adm = scanAdmin r" "a_username r = user"
    "VerifyPassword cr (ad_PasswordHash adm) plain" "\<not> fst (limited ip (w_clock w) a)"
    "CreateSession (pl_driver pl) None (hashToken cr token) (ad_ID adm) (t + SessionTTL) (w_db w) = (None, w_db w')"
    "w_clock w \<le> t" "t \<le> w_clock w'" "map_of a' ip = None"
proof -
  obtain lim a1 where l: "limited ip (w_clock w) a = (lim, a1)" by fastforce
  obtain x w1 where x: "st_AdminByUsername pl c user w = (x, w1)" by fastforce
  have lim: "\<not> lim" using run l by (auto simp: Login_def)
  obtain adm' where x': "x = Inr adm'" using run l lim x by (cases x) (auto simp: Login_def)
  have v: "VerifyPassword cr (ad_PasswordHash adm') plain"
    using run l lim x x' by (auto simp: Login_def split: if_splits)
  have os: "open_session cr pl c ip adm' a1 w1 = (Inr (token, adm), a', w')"
    using run l lim x x' v by (simp add: Login_def)
  have w1: "w_db w1 = w_db w" "w_clock w \<le> w_clock w1" using x by (auto simp: admin_calls)
  obtain b w2 where t: "newToken pl w1 = (b, w2)" by fastforce
  have b: "b = Inr token" and adm: "adm' = adm"
    using os t by (auto simp: open_session_def Let_def split: sum.splits prod.splits option.splits)
  have w2: "w_db w2 = w_db w" "w_clock w \<le> w_clock w2"
    using t w1 by (auto simp: newToken_def rand_Read_def split: sum.splits)
  obtain e w3 where cs: "st_CreateSession pl c (hashToken cr token) (ad_ID adm) (w_clock w2 + SessionTTL) w2 = (e, w3)"
    by fastforce
  have e: "e = None" and w': "w' = w3" "a' = clearFailures ip a1"
    using os t b adm cs by (auto simp: open_session_def Let_def split: option.splits)
  have fault: "db_fault pl c w2 = None"
    and run3: "CreateSession (pl_driver pl) None (hashToken cr token) (ad_ID adm) (w_clock w2 + SessionTTL) (w_db w) = (None, w_db w')"
    using cs e w' w2 by (auto simp: admin_calls CreateSession_None_iff split: prod.splits)
  obtain r where r: "r \<in> set (t_admins (w_db w))" "adm' = scanAdmin r" "a_username r = user"
    using x x' AdminByUsername_Inr by (fastforce simp: admin_calls)
  have "w_clock w2 \<le> w_clock w'" using cs w' by (auto simp: admin_calls split: prod.splits)
  moreover have "map_of a' ip = None" using w' by (auto simp: clearFailures_def forget_def map_of_eq_None_iff)
  ultimately show thesis
    using that [OF r(1) _ r(3) _ _ run3 w2(2)] r(2) adm v lim l by simp
qed

lemma Login_no_session:
  assumes "Login cr pl pick c ip user plain a w = (Inl e, a', w')"
  shows "w_db w' = w_db w"
proof -
  have os: "w_db u' = w_db u" if "open_session cr pl c ip adm b u = (Inl e, b', u')" for adm b b' u u'
    using that by (auto simp: open_session_def newToken_def rand_Read_def admin_calls CreateSession_def
        insert_session_def Let_def split: sum.splits option.splits if_splits prod.splits)
  show ?thesis using assms
    by (auto simp: Login_def admin_calls Let_def split: prod.splits sum.splits if_splits dest!: os)
qed

lemma Logout_ok:
  assumes "Logout cr pl c token w = (None, w')"
  shows "\<exists>e. SessionAdmin None now (hashToken cr token) (w_db w') = Inl e \<and> errors_Is e ErrNotFound"
proof -
  have "db_fault pl c w = None" "DeleteSession None (hashToken cr token) (w_db w) = (None, w_db w')"
    using assms by (auto simp: Logout_def admin_calls DeleteSession_def split: prod.splits option.splits)
  then show ?thesis by (intro session_deleted)
qed

lemma Bootstrap_first:
  assumes run: "Bootstrap cr pl c w = (Inr pw, w')" and none: "t_admins (w_db w) = []"
    and rnd: "honest_random pl" and len: "key_length_ok cr"
  shows "\<exists>r. t_admins (w_db w') = [r] \<and> a_username r = ''admin'' \<and> a_must_change_password r = 1 \<and>
    VerifyPassword cr (a_password_hash r) pw \<and> length pw = 16"
proof -
  obtain n w1 where n: "st_AdminCount pl c w = (n, w1)" by fastforce
  have n0: "n = Inr 0" "w_db w1 = w_db w"
    using n run none by (auto simp: Bootstrap_def admin_calls AdminCount_def split: option.splits)
  obtain raw w2 where raw: "rand_Read pl 12 w1 = (Inr raw, w2)"
    using run n n0 by (auto simp: Bootstrap_def split: prod.splits sum.splits)
  obtain h w3 where h: "HashPassword cr pl (Raw_Encode True raw) w2 = (Inr h, w3)"
    using run n n0 raw by (auto simp: Bootstrap_def Let_def split: prod.splits sum.splits)
  obtain a where a: "st_CreateAdmin pl c ''admin'' h w3 = (Inr a, w')" and pw: "pw = Raw_Encode True raw"
    using run n n0 raw h by (auto simp: Bootstrap_def Let_def split: prod.splits sum.splits)
  note hv = HashPassword_verifies [OF h rnd len]
  have "w_db w3 = w_db w" using hv(2) raw n0(2) by (auto simp: rand_Read_def)
  then have "t_admins (w_db w') = [\<lparr>a_id = t_admin_seq (w_db w) + 1, a_username = ''admin'', a_password_hash = h,
      a_must_change_password = 1\<rparr>]"
    using a none by (auto simp: admin_calls CreateAdmin_def insert_admin_def Let_def split: prod.splits option.splits)
  moreover have "length raw = 12"
    using raw rnd unfolding honest_random_def rand_Read_def by auto
  ultimately show ?thesis using hv(1) by (simp add: pw length_Raw_Encode)
qed

lemma Bootstrap_again:
  assumes "Bootstrap cr pl c w = (Inr pw, w')" "t_admins (w_db w) \<noteq> []"
  shows "pw = '''' \<and> w_db w' = w_db w"
  using assms by (auto simp: Bootstrap_def admin_calls AdminCount_def Let_def split: option.splits)

lemma ChangePassword_ok:
  assumes run: "ChangePassword cr pl c aid plain w = (None, w')"
    and rnd: "honest_random pl" and len: "key_length_ok cr"
  shows "MinPasswordLen \<le> length plain \<and> (\<exists>h. VerifyPassword cr h plain \<and> t_admins (w_db w') =
    map (\<lambda>r. if a_id r = aid then r\<lparr>a_password_hash := h, a_must_change_password := 0\<rparr> else r) (t_admins (w_db w)))"
proof -
  obtain h w1 where h: "HashPassword cr pl plain w = (Inr h, w1)"
    using run by (auto simp: ChangePassword_def split: prod.splits sum.splits if_splits)
  have m: "MinPasswordLen \<le> length plain" and s: "st_SetAdminPassword pl c aid h w1 = (None, w')"
    using run h by (auto simp: ChangePassword_def split: if_splits)
  note hv = HashPassword_verifies [OF h rnd len]
  have "t_admins (w_db w') =
      map (\<lambda>r. if a_id r = aid then r\<lparr>a_password_hash := h, a_must_change_password := 0\<rparr> else r) (t_admins (w_db w))"
    using s hv(2) by (auto simp: admin_calls SetAdminPassword_def split: prod.splits option.splits)
  then show ?thesis using hv(1) m by blast
qed

end
