(* ===== verification/Web.thy ===== *)
theory Web imports WebFormat Poller Auth begin

text \<open>
  \<open>internal/web\<close>: the router with its two guards, and the handlers. A handler takes the request and the
  state of the site (the world, the limiter, the poller's cache and its subscribers) and returns a
  response. Templates, the QR encoder and whether the connection can be flushed are arguments
  (\<open>web_deps\<close>); a response names the template and carries the page it is given.
\<close>

section \<open>Requests, pages and responses\<close>

text \<open>\<open>rq_path\<close> holds the segments of the cleaned path, a trailing slash as a last empty one;
  \<open>rq_form\<close> is \<open>None\<close> when \<^verbatim>\<open>ParseForm\<close> fails.\<close>

record request =
  rq_method :: string
  rq_path :: "string list"
  rq_cookie :: "string option"
  rq_form :: "(string \<times> string) list option"
  rq_remote :: string
  rq_ctx :: ctx

definition PostFormValue :: "(string \<times> string) list \<Rightarrow> string \<Rightarrow> string" where
  "PostFormValue f k = (case map_of f k of Some v \<Rightarrow> v | None \<Rightarrow> '''')"

record web_row =
  ro_Proxy :: proxy
  ro_Stats :: snapshot
  ro_Link :: string
  ro_LinkOK :: bool
  ro_Host :: string
  ro_Traffic :: string

record page =
  pg_Title :: string
  pg_Admin :: "admin option"
  pg_Error :: string
  pg_Host :: string
  pg_Rows :: "web_row list"
  pg_Proxy :: "proxy option"
  pg_Stats :: snapshot
  pg_Link :: string
  pg_LinkOK :: bool
  pg_QR :: string
  pg_Logs :: string
  pg_QuotaGB :: string
  pg_ExpiresDate :: string
  pg_MaxConns :: string
  pg_MaxIPs :: string
  pg_DockerOK :: bool
  pg_Orphans :: "container_info list"

text \<open>Go's zero values.\<close>

definition zero_snapshot :: snapshot where
  "zero_snapshot = blank_snapshot '''' zero_time"

definition blank_page :: "string \<Rightarrow> page" where
  "blank_page title = \<lparr>pg_Title = title, pg_Admin = None, pg_Error = '''', pg_Host = '''', pg_Rows = [],
     pg_Proxy = None, pg_Stats = zero_snapshot, pg_Link = '''', pg_LinkOK = False, pg_QR = '''', pg_Logs = '''',
     pg_QuotaGB = '''', pg_ExpiresDate = '''', pg_MaxConns = '''', pg_MaxIPs = '''', pg_DockerOK = False,
     pg_Orphans = []\<rparr>"

datatype body = Rendered string page | Plain string | PlainNosniff string | EventStream string | NoBody

text \<open>The cookie is the value and \<^verbatim>\<open>MaxAge\<close>; path, \<^verbatim>\<open>HttpOnly\<close>, \<^verbatim>\<open>Secure\<close> and \<^verbatim>\<open>SameSite\<close> are the same for all.\<close>

record response =
  rs_status :: nat
  rs_location :: string
  rs_cookie :: "(string \<times> int) option"
  rs_body :: body

definition render :: "nat \<Rightarrow> string \<Rightarrow> page \<Rightarrow> response" where
  "render status name p = \<lparr>rs_status = status, rs_location = '''', rs_cookie = None, rs_body = Rendered name p\<rparr>"

definition http_Error :: "string \<Rightarrow> nat \<Rightarrow> response" where
  "http_Error msg status = \<lparr>rs_status = status, rs_location = '''', rs_cookie = None, rs_body = PlainNosniff (msg @ [c_nl])\<rparr>"

definition http_NotFound :: response where
  "http_NotFound = http_Error ''404 page not found'' 404"

definition http_Redirect :: "string \<Rightarrow> response" where
  "http_Redirect loc = \<lparr>rs_status = 303, rs_location = loc, rs_cookie = None, rs_body = NoBody\<rparr>"

definition redirectLogin :: response where
  "redirectLogin = http_Redirect ''/login''"

section \<open>State and dependencies\<close>

record 'r site =
  si_world :: "'r world"
  si_attempts :: attempts
  si_poller :: poller
  si_hub :: hub

record 'r web_deps =
  wd_Proxy :: "'r service"
  wd_crypto :: crypto
  wd_pick :: "attempts \<Rightarrow> attempts"
  wd_qr :: "string \<Rightarrow> string res"
  wd_rows :: "page \<Rightarrow> string res"
  wd_flusher :: bool

abbreviation wd_Cfg :: "'r web_deps \<Rightarrow> config" where
  "wd_Cfg d \<equiv> sv_Cfg (wd_Proxy d)"

abbreviation wd_pl :: "'r web_deps \<Rightarrow> platform" where
  "wd_pl d \<equiv> sv_pl (wd_Proxy d)"

type_synonym 'r handler = "'r web_deps \<Rightarrow> request \<Rightarrow> 'r site \<Rightarrow> response \<times> 'r site"

text \<open>A handler that knows its admin.\<close>

type_synonym 'r admin_handler = "'r web_deps \<Rightarrow> request \<Rightarrow> admin \<Rightarrow> 'r site \<Rightarrow> response \<times> 'r site"

text \<open>Running an operation of a component on the world of the site.\<close>

definition on_world :: "('r world \<Rightarrow> 'a \<times> 'r world) \<Rightarrow> 'r site \<Rightarrow> 'a \<times> 'r site" where
  "on_world f s = (let (x, w) = f (si_world s) in (x, s\<lparr>si_world := w\<rparr>))"

definition clientIP :: "request \<Rightarrow> string" where
  "clientIP rq = (case SplitHost (rq_remote rq) of None \<Rightarrow> rq_remote rq | Some h \<Rightarrow> h)"

section \<open>Login and passwords (\<open>handlers_auth.go\<close>)\<close>

definition getLogin :: "'r handler" where
  "getLogin d rq s = (render 200 ''login.html'' (blank_page ''Sign in''), s)"

definition postLogin :: "'r handler" where
  "postLogin d rq s =
     (case rq_form rq of
        None \<Rightarrow> (render 400 ''login.html'' ((blank_page ''Sign in'')\<lparr>pg_Error := ''Malformed form.''\<rparr>), s)
      | Some f \<Rightarrow>
          (let (r, a, w) = Login (wd_crypto d) (wd_pl d) (wd_pick d) (rq_ctx rq) (clientIP rq)
                 (PostFormValue f ''username'') (PostFormValue f ''password'') (si_attempts s) (si_world s);
               s = s\<lparr>si_attempts := a, si_world := w\<rparr>
           in case r of
                Inl e \<Rightarrow>
                  (let msg = (if errors_Is e ErrRateLimited
                              then ''Too many failed attempts. Wait 15 minutes and try again.''
                              else ''Invalid username or password.'')
                   in (render 401 ''login.html'' ((blank_page ''Sign in'')\<lparr>pg_Error := msg\<rparr>), s))
              | Inr (token, _) \<Rightarrow>
                  ((http_Redirect ''/'')\<lparr>rs_cookie := Some (token, SessionTTL div Second)\<rparr>, s)))"

definition postLogout :: "'r handler" where
  "postLogout d rq s =
     (let s = (case rq_cookie rq of
                 None \<Rightarrow> s
               | Some c \<Rightarrow> snd (on_world (Logout (wd_crypto d) (wd_pl d) (rq_ctx rq) c) s))
      in (redirectLogin\<lparr>rs_cookie := Some ('''', -1)\<rparr>, s))"

definition password_page :: "admin \<Rightarrow> page" where
  "password_page adm = (blank_page ''Change password'')\<lparr>pg_Admin := Some adm\<rparr>"

definition getPassword :: "'r admin_handler" where
  "getPassword d rq adm s = (render 200 ''change_password.html'' (password_page adm), s)"

definition postPassword :: "'r admin_handler" where
  "postPassword d rq adm s =
     (case rq_form rq of
        None \<Rightarrow> (render 400 ''change_password.html'' ((password_page adm)\<lparr>pg_Error := ''Malformed form.''\<rparr>), s)
      | Some f \<Rightarrow>
          (let (e, s) = on_world (ChangePassword (wd_crypto d) (wd_pl d) (rq_ctx rq) (ad_ID adm)
                 (PostFormValue f ''password'')) s
           in case e of
                Some e \<Rightarrow> (render 400 ''change_password.html'' ((password_page adm)\<lparr>pg_Error := err_text e\<rparr>), s)
              | None \<Rightarrow> (http_Redirect ''/'', s)))"

section \<open>The list of proxies (\<open>handlers_proxy.go\<close>)\<close>

definition server_host :: "config \<Rightarrow> string" where
  "server_host cfg = (if cf_PublicHost cfg \<noteq> '''' then cf_PublicHost cfg else ''SERVER-IP'')"

definition displayHost :: "config \<Rightarrow> string \<Rightarrow> bool \<Rightarrow> string" where
  "displayHost cfg link linkOK =
     (let h = (if linkOK then (case url_Parse link of Some q \<Rightarrow> query_Get q ''server'' | None \<Rightarrow> '''') else '''')
      in if h \<noteq> '''' then h else server_host cfg)"

definition linkFor :: "'r service \<Rightarrow> proxy \<Rightarrow> snapshot \<Rightarrow> string \<times> bool" where
  "linkFor sv p snap =
     (let publicHostSet = (cf_PublicHost (sv_Cfg sv) \<noteq> '''');
          loc = (if publicHostSet then service_Link sv p else '''');
          (l, fromTelemt) = ReconcileLink loc publicHostSet (sn_Links snap)
      in (l, fromTelemt \<or> l \<noteq> ''''))"

definition build_row :: "'r service \<Rightarrow> poller \<Rightarrow> proxy \<Rightarrow> web_row" where
  "build_row sv po p =
     (let snap = (case poller_All po (px_ID p) of Some sn \<Rightarrow> sn | None \<Rightarrow> zero_snapshot);
          (link, ok) = linkFor sv p snap
      in \<lparr>ro_Proxy = p, ro_Stats = snap, ro_Link = link, ro_LinkOK = ok,
          ro_Host = displayHost (sv_Cfg sv) link ok,
          ro_Traffic = formatTraffic (sn_TotalOctets snap) (px_DataQuotaBytes p)\<rparr>)"

definition buildRows :: "'r web_deps \<Rightarrow> request \<Rightarrow> 'r site \<Rightarrow> web_row list res \<times> 'r site" where
  "buildRows d rq s =
     (let (r, s) = on_world (Lifecycle.List (wd_Proxy d) (rq_ctx rq)) s in
      case r of
        Inl e \<Rightarrow> (Inl e, s)
      | Inr ps \<Rightarrow> (Inr (map (build_row (wd_Proxy d) (si_poller s)) ps), s))"

definition list_page :: "'r web_deps \<Rightarrow> admin \<Rightarrow> page" where
  "list_page d adm = (blank_page ''Proxies'')\<lparr>pg_Admin := Some adm, pg_Host := server_host (wd_Cfg d)\<rparr>"

definition getIndex :: "'r admin_handler" where
  "getIndex d rq adm s =
     (let (r, s) = buildRows d rq s in
      case r of
        Inl e \<Rightarrow> (render 500 ''proxies.html'' ((list_page d adm)\<lparr>pg_Error := err_text e\<rparr>), s)
      | Inr rs \<Rightarrow>
          (let pg = (list_page d adm)\<lparr>pg_Rows := rs\<rparr>;
               (ok, s) = on_world (DockerOK (wd_Proxy d) (rq_ctx rq)) s
           in if ok then
                (let (r, s) = on_world (Orphans (wd_Proxy d) (rq_ctx rq)) s
                 in (render 200 ''proxies.html'' (pg\<lparr>pg_DockerOK := True,
                       pg_Orphans := (case r of Inl _ \<Rightarrow> [] | Inr os \<Rightarrow> os)\<rparr>), s))
              else (render 200 ''proxies.html'' pg, s)))"

definition createError :: "'r web_deps \<Rightarrow> request \<Rightarrow> admin \<Rightarrow> string \<Rightarrow> 'r site \<Rightarrow> response \<times> 'r site" where
  "createError d rq adm msg s =
     (let (r, s) = buildRows d rq s
      in (render 400 ''proxies.html'' ((list_page d adm)\<lparr>pg_Error := msg,
            pg_Rows := (case r of Inl _ \<Rightarrow> [] | Inr rs \<Rightarrow> rs)\<rparr>), s))"

text \<open>The parsing half of \<open>postCreate\<close>: a message for the page, or the request. Unlike the limits form, a
  field counts as absent only when it is empty.\<close>

definition create_quota :: "string \<Rightarrow> 64 word option res" where
  "create_quota v = (if v = '''' then Inr None
     else case ParseUint64 v of Inl e \<Rightarrow> Inl e | Inr gb \<Rightarrow> Inr (Some (gb * gib)))"

definition create_date :: "string \<Rightarrow> string option option" where
  "create_date v = (if v = '''' then Some None else map_option (\<lambda>t. Some (Format_RFC3339 t)) (Parse_date v))"

definition create_int :: "string \<Rightarrow> int option res" where
  "create_int v = (if v = '''' then Inr None else case Atoi v of Inl e \<Rightarrow> Inl e | Inr n \<Rightarrow> Inr (Some n))"

definition parse_create :: "(string \<times> string) list \<Rightarrow> string + create_request" where
  "parse_create f =
     (case Atoi (PostFormValue f ''port'') of Inl _ \<Rightarrow> Inl ''Port must be a number.''
      | Inr port \<Rightarrow>
     (case create_quota (PostFormValue f ''quota_gb'') of Inl _ \<Rightarrow> Inl ''Data quota must be a whole number of GB.''
      | Inr quota \<Rightarrow>
     (case create_date (PostFormValue f ''expires'') of None \<Rightarrow> Inl ''Expiry date is not valid.''
      | Some expires \<Rightarrow>
     (case create_int (PostFormValue f ''max_conns'') of Inl _ \<Rightarrow> Inl ''Max connections must be a number.''
      | Inr conns \<Rightarrow>
     (case create_int (PostFormValue f ''max_ips'') of Inl _ \<Rightarrow> Inl ''Max unique IPs must be a number.''
      | Inr ips \<Rightarrow>
          Inr \<lparr>cr_Name = strings_TrimSpace (PostFormValue f ''name''), cr_Port = port,
               cr_TLSDomain = strings_TrimSpace (PostFormValue f ''tls_domain''),
               cr_AdTag = strings_TrimSpace (PostFormValue f ''ad_tag''), cr_DataQuotaBytes = quota,
               cr_ExpirationRFC3339 = expires, cr_MaxTCPConns = conns, cr_MaxUniqueIPs = ips\<rparr>)))))"

definition create_message :: "int \<Rightarrow> gerror \<Rightarrow> string" where
  "create_message port e =
     (if errors_Is e ErrPortReserved then
        ''Port '' @ Itoa port @ '' is reserved by the panel'' @ [CHR 0x27] @ ''s web server. Pick another.''
      else if errors_Is e ErrPortTaken then ''Port '' @ Itoa port @ '' is already used by another proxy.''
      else if errors_Is e ErrPortConflict then
        ''Port '' @ Itoa port @ '' is already in use by something else on this host (outside the panel'' @ [CHR 0x27] @
        ''s tracking) '' @ em_dash @ '' Docker rejected it. Pick another port or free that one.''
      else err_text e)"

definition postCreate :: "'r admin_handler" where
  "postCreate d rq adm s =
     (case rq_form rq of
        None \<Rightarrow> createError d rq adm ''Malformed form.'' s
      | Some f \<Rightarrow>
          (case parse_create f of
             Inl msg \<Rightarrow> createError d rq adm msg s
           | Inr req \<Rightarrow>
               (let (r, s) = on_world (Create (wd_Proxy d) (rq_ctx rq) req) s in
                case r of
                  Inl e \<Rightarrow> createError d rq adm (create_message (cr_Port req) e) s
                | Inr _ \<Rightarrow> (http_Redirect ''/'', s))))"

definition postDelete :: "string \<Rightarrow> 'r admin_handler" where
  "postDelete pid d rq adm s =
     (let (e, s) = on_world (Delete (wd_Proxy d) (rq_ctx rq) pid) s in
      case e of
        Some e \<Rightarrow> (http_Error (err_text e) 500, s)
      | None \<Rightarrow> (http_Redirect ''/'', s))"

section \<open>One proxy (\<open>handlers_detail.go\<close>)\<close>

definition Std_Encode :: "string \<Rightarrow> string" where
  "Std_Encode s = Raw_Encode False s @ replicate ((3 - length s mod 3) mod 3) CHR ''=''"

definition qrDataURI :: "'r web_deps \<Rightarrow> string \<Rightarrow> string res" where
  "qrDataURI d link =
     (case wd_qr d link of
        Inl e \<Rightarrow> Inl (errorf_wrap ''web: encode qr: '' e)
      | Inr png \<Rightarrow> Inr (''data:image/png;base64,'' @ Std_Encode png))"

definition detailPage :: "admin \<Rightarrow> proxy \<Rightarrow> snapshot \<Rightarrow> string \<Rightarrow> bool \<Rightarrow> string \<Rightarrow> string \<Rightarrow> string \<Rightarrow> page" where
  "detailPage adm p snap link linkOK qr logs h =
     (blank_page (px_Name p))\<lparr>pg_Admin := Some adm, pg_Host := h, pg_Proxy := Some p, pg_Stats := snap,
        pg_Link := link, pg_LinkOK := linkOK, pg_QR := qr, pg_Logs := logs,
        pg_QuotaGB := show_quota (px_DataQuotaBytes p), pg_ExpiresDate := show_date (px_ExpirationRFC3339 p),
        pg_MaxConns := show_int (px_MaxTCPConns p), pg_MaxIPs := show_int (px_MaxUniqueIPs p)\<rparr>"

definition getProxy :: "string \<Rightarrow> 'r admin_handler" where
  "getProxy pid d rq adm s =
     (let (r, s) = on_world (Lifecycle.Get (wd_Proxy d) (rq_ctx rq) pid) s in
      case r of
        Inl e \<Rightarrow> (if errors_Is e ErrNotFound then http_NotFound else http_Error (err_text e) 500, s)
      | Inr p \<Rightarrow>
          (let snap = (case poller_Get (si_poller s) (px_ID p) of Some sn \<Rightarrow> sn | None \<Rightarrow> zero_snapshot);
               (link, linkOK) = linkFor (wd_Proxy d) p snap;
               qr = (if linkOK then (case qrDataURI d link of Inl _ \<Rightarrow> '''' | Inr q \<Rightarrow> q) else '''');
               (logs, s) = on_world (Lifecycle.Logs (wd_Proxy d) (rq_ctx rq) (px_ID p)) s
           in (render 200 ''proxy.html'' (detailPage adm p snap link linkOK qr
                 (case logs of Inl _ \<Rightarrow> '''' | Inr l \<Rightarrow> l) (displayHost (wd_Cfg d) link linkOK)), s)))"

text \<open>The parsing half of \<open>postLimits\<close>: the message of the error, or the patch. Every field is set.\<close>

definition parse_limits :: "(string \<times> string) list \<Rightarrow> string + limits_patch" where
  "parse_limits f =
     (let tag = strings_TrimSpace (PostFormValue f ''ad_tag'') in
      case optionalGB (PostFormValue f ''quota_gb'') of Inl _ \<Rightarrow> Inl ''data quota must be a whole number of GB''
      | Inr quota \<Rightarrow>
     (case optionalDate (PostFormValue f ''expires'') of None \<Rightarrow> Inl ''expiry date is not valid''
      | Some expires \<Rightarrow>
     (case optionalInt (PostFormValue f ''max_conns'') of Inl _ \<Rightarrow> Inl ''max connections must be a number''
      | Inr conns \<Rightarrow>
     (case optionalInt (PostFormValue f ''max_ips'') of Inl _ \<Rightarrow> Inl ''max unique IPs must be a number''
      | Inr ips \<Rightarrow>
          Inr \<lparr>lp_AdTag = Some tag, lp_DataQuotaBytes = Some quota, lp_ExpirationRFC3339 = Some expires,
               lp_MaxTCPConns = Some conns, lp_MaxUniqueIPs = Some ips\<rparr>))))"

definition postLimits :: "string \<Rightarrow> 'r admin_handler" where
  "postLimits pid d rq adm s =
     (case rq_form rq of
        None \<Rightarrow> (http_Error ''malformed form'' 400, s)
      | Some f \<Rightarrow>
          (case parse_limits f of
             Inl msg \<Rightarrow> (http_Error msg 400, s)
           | Inr patch \<Rightarrow>
               (let (r, s) = on_world (UpdateLimits (wd_Proxy d) (rq_ctx rq) pid patch) s in
                case r of
                  Inl e \<Rightarrow> (if errors_Is e ErrNotFound then http_NotFound else http_Error (err_text e) 500, s)
                | Inr _ \<Rightarrow> (http_Redirect (''/proxies/'' @ pid), s))))"

definition recreate_error :: "int \<Rightarrow> gerror \<Rightarrow> response" where
  "recreate_error port e =
     (if errors_Is e ErrNotFound then http_NotFound
      else if errors_Is e ErrPortReserved then
        http_Error (''port '' @ Itoa port @ '' is reserved by the panel'') 400
      else if errors_Is e ErrPortTaken then
        http_Error (''port '' @ Itoa port @ '' is already used by another proxy'') 400
      else if errors_Is e ErrPortConflict then
        http_Error (''port '' @ Itoa port @ '' is already in use by something else on this host (outside the panel'' @
          [CHR 0x27] @ ''s tracking) '' @ em_dash @ '' Docker rejected it'') 400
      else http_Error (err_text e) 500)"

definition postRecreate :: "string \<Rightarrow> 'r admin_handler" where
  "postRecreate pid d rq adm s =
     (case rq_form rq of
        None \<Rightarrow> (http_Error ''malformed form'' 400, s)
      | Some f \<Rightarrow>
          (case Atoi (PostFormValue f ''port'') of
             Inl _ \<Rightarrow> (http_Error ''port must be a number'' 400, s)
           | Inr port \<Rightarrow>
               (let (r, s) = on_world (Recreate (wd_Proxy d) (rq_ctx rq) pid port
                      (strings_TrimSpace (PostFormValue f ''tls_domain''))) s
                in case r of
                     Inl e \<Rightarrow> (recreate_error port e, s)
                   | Inr _ \<Rightarrow> (http_Redirect (''/proxies/'' @ pid), s))))"

definition getLogs :: "string \<Rightarrow> 'r admin_handler" where
  "getLogs pid d rq adm s =
     (let (r, s) = on_world (Lifecycle.Get (wd_Proxy d) (rq_ctx rq) pid) s in
      case r of
        Inl e \<Rightarrow> (if errors_Is e ErrNotFound then http_NotFound else http_Error (err_text e) 500, s)
      | Inr _ \<Rightarrow>
          (let (l, s) = on_world (Lifecycle.Logs (wd_Proxy d) (rq_ctx rq) pid) s in
           case l of
             Inl e \<Rightarrow> (http_Error (err_text e) 500, s)
           | Inr logs \<Rightarrow>
               (\<lparr>rs_status = 200, rs_location = '''', rs_cookie = None, rs_body = PlainNosniff logs\<rparr>, s)))"

text \<open>\<open>handlers_orphans.go\<close>.\<close>

definition postRemoveOrphan :: "string \<Rightarrow> 'r admin_handler" where
  "postRemoveOrphan cid d rq adm s =
     (let (e, s) = on_world (RemoveOrphan (wd_Proxy d) (rq_ctx rq) cid) s in
      case e of
        Some e \<Rightarrow> (http_Error (err_text e) 400, s)
      | None \<Rightarrow> (http_Redirect ''/'', s))"

section \<open>The event stream (\<open>sse.go\<close>)\<close>

text \<open>What wakes the loop. Before each wake-up the rest of the program may have changed the site
  (\<open>ev_meanwhile\<close>); \<open>ev_written\<close> says whether the connection takes what is written.\<close>

datatype wakeup = ContextDone | Updates | KeepaliveTick

record 'r event =
  ev_wakeup :: wakeup
  ev_meanwhile :: "'r site \<Rightarrow> 'r site"
  ev_written :: bool

text \<open>\<open>send\<close>: what it writes, and whether the stream goes on.\<close>

definition send_rows :: "'r web_deps \<Rightarrow> request \<Rightarrow> bool \<Rightarrow> 'r site \<Rightarrow> (string \<times> bool) \<times> 'r site" where
  "send_rows d rq written s =
     (let (r, s) = buildRows d rq s in
      case r of
        Inl _ \<Rightarrow> (('''', True), s)
      | Inr rs \<Rightarrow>
          (case wd_rows d ((blank_page '''')\<lparr>pg_Rows := rs, pg_Host := server_host (wd_Cfg d)\<rparr>) of
             Inl _ \<Rightarrow> (('''', True), s)
           | Inr html \<Rightarrow> if written then ((sseFrame ''rows'' html, True), s) else (('''', False), s)))"

text \<open>The \<^verbatim>\<open>select\<close> loop. A wake-up by a channel that has nothing to give does not happen.\<close>

fun event_loop :: "'r web_deps \<Rightarrow> request \<Rightarrow> nat \<Rightarrow> 'r event list \<Rightarrow> 'r site \<Rightarrow> string \<times> 'r site" where
  "event_loop d rq ch [] s = ('''', s)"
| "event_loop d rq ch (e # es) s =
     (let s = ev_meanwhile e s in
      case ev_wakeup e of
        ContextDone \<Rightarrow> ('''', s)
      | KeepaliveTick \<Rightarrow>
          if ev_written e then (let (out, s) = event_loop d rq ch es s in (keepalive @ out, s)) else ('''', s)
      | Updates \<Rightarrow>
          (let token = hb_token (si_hub s) ch;
               (ready, h) = receive ch (si_hub s); s = s\<lparr>si_hub := h\<rparr>
           in if \<not> ready then event_loop d rq ch es s
              else if \<not> token then ('''', s)
              else (let ((out, more), s) = send_rows d rq (ev_written e) s in
                    if more then (let (out', s) = event_loop d rq ch es s in (out @ out', s)) else (out, s))))"

definition cancel :: "nat \<Rightarrow> hub \<Rightarrow> hub" where
  "cancel ch h = cancel_close ch (cancel_remove ch h)"

definition getEvents :: "bool \<Rightarrow> 'r event list \<Rightarrow> 'r admin_handler" where
  "getEvents written es d rq adm s =
     (if \<not> wd_flusher d then (http_Error ''streaming unsupported'' 500, s)
      else
        (let (ch, h) = Subscribe (si_hub s);
             ((out, more), s) = send_rows d rq written (s\<lparr>si_hub := h\<rparr>);
             (out', s) = (if more then event_loop d rq ch es s else ('''', s))
         in (\<lparr>rs_status = 200, rs_location = '''', rs_cookie = None, rs_body = EventStream (out @ out')\<rparr>,
             s\<lparr>si_hub := cancel ch (si_hub s)\<rparr>)))"

section \<open>The router (\<open>server.go\<close>)\<close>

datatype endpoint =
    Static | Healthz | GetLogin | PostLogin | PostLogout | GetPassword | PostPassword
  | Index | PostCreate | GetProxyPage string | PostLimits string | PostRecreate string | PostDelete string
  | GetLogsOf string | Events | PostRemoveOrphan string

text \<open>The patterns of the mux. \<^verbatim>\<open>GET\<close> also serves \<^verbatim>\<open>HEAD\<close>, and a wildcard takes one segment that is not empty.\<close>

datatype pattern = Lit string | Wild | End | Rest

fun match_path :: "pattern list \<Rightarrow> string list \<Rightarrow> string list option" where
  "match_path [] [] = Some []"
| "match_path [Rest] ps = (if ps = [] then None else Some [])"
| "match_path [End] ps = (if ps = [''''] then Some [] else None)"
| "match_path (Lit s # pats) (p # ps) = (if p = s then match_path pats ps else None)"
| "match_path (Wild # pats) (p # ps) = (if p = '''' then None else map_option ((#) p) (match_path pats ps))"
| "match_path _ _ = None"

definition routes :: "(string \<times> pattern list \<times> (string list \<Rightarrow> endpoint)) list" where
  "routes =
     [(''GET'', [Lit ''static'', Rest], \<lambda>_. Static),
      (''GET'', [Lit ''healthz''], \<lambda>_. Healthz),
      (''GET'', [Lit ''login''], \<lambda>_. GetLogin),
      (''POST'', [Lit ''login''], \<lambda>_. PostLogin),
      (''POST'', [Lit ''logout''], \<lambda>_. PostLogout),
      (''GET'', [Lit ''password''], \<lambda>_. GetPassword),
      (''POST'', [Lit ''password''], \<lambda>_. PostPassword),
      (''GET'', [End], \<lambda>_. Index),
      (''POST'', [Lit ''proxies''], \<lambda>_. PostCreate),
      (''GET'', [Lit ''proxies'', Wild], \<lambda>v. GetProxyPage (hd v)),
      (''POST'', [Lit ''proxies'', Wild, Lit ''limits''], \<lambda>v. PostLimits (hd v)),
      (''POST'', [Lit ''proxies'', Wild, Lit ''recreate''], \<lambda>v. PostRecreate (hd v)),
      (''POST'', [Lit ''proxies'', Wild, Lit ''delete''], \<lambda>v. PostDelete (hd v)),
      (''GET'', [Lit ''proxies'', Wild, Lit ''logs''], \<lambda>v. GetLogsOf (hd v)),
      (''GET'', [Lit ''events''], \<lambda>_. Events),
      (''POST'', [Lit ''orphans'', Wild, Lit ''delete''], \<lambda>v. PostRemoveOrphan (hd v))]"

definition method_ok :: "string \<Rightarrow> string \<Rightarrow> bool" where
  "method_ok pat m \<longleftrightarrow> pat = m \<or> (pat = ''GET'' \<and> m = ''HEAD'')"

definition route :: "string \<Rightarrow> string list \<Rightarrow> nat + endpoint" where
  "route m ps =
     (case find (\<lambda>(pm, pat, _). method_ok pm m \<and> match_path pat ps \<noteq> None) routes of
        Some (_, pat, mk) \<Rightarrow> Inr (mk (the (match_path pat ps)))
      | None \<Rightarrow> if list_ex (\<lambda>(_, pat, _). match_path pat ps \<noteq> None) routes then Inl 405 else Inl 404)"

text \<open>The two guards.\<close>

definition authed :: "'r admin_handler \<Rightarrow> 'r handler" where
  "authed next d rq s =
     (case rq_cookie rq of
        None \<Rightarrow> (redirectLogin, s)
      | Some c \<Rightarrow>
          (let (r, s) = on_world (Session (wd_crypto d) (wd_pl d) (rq_ctx rq) c) s in
           case r of
             Inl _ \<Rightarrow> (redirectLogin, s)
           | Inr adm \<Rightarrow> next d rq adm s))"

definition requirePassword :: "'r admin_handler \<Rightarrow> 'r admin_handler" where
  "requirePassword next d rq adm s =
     (if ad_MustChangePassword adm then (http_Redirect ''/password'', s) else next d rq adm s)"

text \<open>One request. \<open>file\<close> is what the file server answers; \<open>written\<close> and \<open>es\<close> are for the event stream.\<close>

fun handler_of :: "(request \<Rightarrow> response) \<Rightarrow> bool \<Rightarrow> 'r event list \<Rightarrow> endpoint \<Rightarrow> 'r handler" where
  "handler_of file written es Static = (\<lambda>d rq s. (file rq, s))"
| "handler_of file written es Healthz =
     (\<lambda>d rq s. (\<lparr>rs_status = 200, rs_location = '''', rs_cookie = None, rs_body = Plain ''ok''\<rparr>, s))"
| "handler_of file written es GetLogin = getLogin"
| "handler_of file written es PostLogin = postLogin"
| "handler_of file written es PostLogout = postLogout"
| "handler_of file written es GetPassword = authed getPassword"
| "handler_of file written es PostPassword = authed postPassword"
| "handler_of file written es Index = authed (requirePassword getIndex)"
| "handler_of file written es PostCreate = authed (requirePassword postCreate)"
| "handler_of file written es (GetProxyPage i) = authed (requirePassword (getProxy i))"
| "handler_of file written es (PostLimits i) = authed (requirePassword (postLimits i))"
| "handler_of file written es (PostRecreate i) = authed (requirePassword (postRecreate i))"
| "handler_of file written es (PostDelete i) = authed (requirePassword (postDelete i))"
| "handler_of file written es (GetLogsOf i) = authed (requirePassword (getLogs i))"
| "handler_of file written es Events = authed (requirePassword (getEvents written es))"
| "handler_of file written es (PostRemoveOrphan i) = authed (requirePassword (postRemoveOrphan i))"

definition serve :: "(request \<Rightarrow> response) \<Rightarrow> bool \<Rightarrow> 'r event list \<Rightarrow> 'r handler" where
  "serve file written es d rq s =
     (case route (rq_method rq) (rq_path rq) of
        Inl status \<Rightarrow> (if status = 404 then http_NotFound else http_Error ''Method Not Allowed'' status, s)
      | Inr e \<Rightarrow> handler_of file written es e d rq s)"

end
