(* ===== verification/WebGuard.thy ===== *)
theory WebGuard imports Web begin

text \<open>
  What the guards of the router promise: nothing but the login pages is reachable without a session, and
  nothing but the password page before the first password is changed.
\<close>

section \<open>Frames\<close>

text \<open>Nothing of the site has changed but its clock.\<close>

definition same_data :: "'r site \<Rightarrow> 'r site \<Rightarrow> bool" where
  "same_data s s' \<longleftrightarrow> w_db (si_world s') = w_db (si_world s) \<and> w_fs (si_world s') = w_fs (si_world s) \<and>
     w_rt (si_world s') = w_rt (si_world s) \<and> si_attempts s' = si_attempts s \<and>
     si_poller s' = si_poller s \<and> si_hub s' = si_hub s"

lemma same_data_refl [simp]: "same_data s s"
  by (simp add: same_data_def)

text \<open>At most accounts and sessions have changed, and the tables are as sound as before.\<close>

definition accounts_only :: "'r world \<Rightarrow> 'r world \<Rightarrow> bool" where
  "accounts_only w w' \<longleftrightarrow> w_fs w' = w_fs w \<and> w_rt w' = w_rt w \<and> t_proxies (w_db w') = t_proxies (w_db w) \<and>
     (db_wf (w_db w) \<longrightarrow> db_wf (w_db w'))"

lemma accounts_refl [simp]: "accounts_only w w" "accounts_only w (tick pl w)"
  by (simp_all add: accounts_only_def)

lemma accounts_trans: "accounts_only u v \<Longrightarrow> accounts_only v w \<Longrightarrow> accounts_only u w"
  by (simp add: accounts_only_def)

lemma db_exec_accounts:
  assumes "db_exec x pl c w = (r, w')"
    and "\<And>f now d r d'. x f now d = (r, d') \<Longrightarrow> t_proxies d' = t_proxies d \<and> (db_wf d \<longrightarrow> db_wf d')"
  shows "accounts_only w w'"
  using assms(1) assms(2) [of "db_fault pl c w" "w_clock w" "w_db w"]
  by (auto simp: db_exec_def accounts_only_def split: prod.splits)

lemma account_tables:
  "SetAdminPassword f i h d = (r1, d') \<Longrightarrow> t_proxies d' = t_proxies d"
  "CreateSession dv f h i x d = (r1, d') \<Longrightarrow> t_proxies d' = t_proxies d"
  "DeleteSession f h d = (r1, d') \<Longrightarrow> t_proxies d' = t_proxies d"
  "CreateAdmin dv f u h d = (r2, d') \<Longrightarrow> t_proxies d' = t_proxies d"
  by (auto simp: SetAdminPassword_def CreateSession_def insert_session_def DeleteSession_def CreateAdmin_def
      insert_admin_def Let_def split: option.splits if_splits sum.splits prod.splits)

lemma admin_call_frames:
  "st_AdminByUsername pl c u w = (r1, w') \<Longrightarrow> accounts_only w w'"
  "st_SetAdminPassword pl c i h w = (r2, w') \<Longrightarrow> accounts_only w w'"
  "st_CreateSession pl c h i x w = (r3, w') \<Longrightarrow> accounts_only w w'"
  "st_SessionAdmin pl c h w = (r4, w') \<Longrightarrow> accounts_only w w'"
  "st_DeleteSession pl c h w = (r5, w') \<Longrightarrow> accounts_only w w'"
  "rand_Read pl n w = (r6, w') \<Longrightarrow> accounts_only w w'"
  "st_CreateAdmin pl c u h w = (r7, w') \<Longrightarrow> accounts_only w w'"
  "st_AdminCount pl c w = (r8, w') \<Longrightarrow> accounts_only w w'"
proof -
  show "st_SetAdminPassword pl c i h w = (r2, w') \<Longrightarrow> accounts_only w w'" unfolding st_SetAdminPassword_def
    by (erule db_exec_accounts) (auto dest: account_tables db_wf_SetAdminPassword)
  show "st_CreateSession pl c h i x w = (r3, w') \<Longrightarrow> accounts_only w w'" unfolding st_CreateSession_def
    by (erule db_exec_accounts) (auto dest: account_tables db_wf_CreateSession)
  show "st_DeleteSession pl c h w = (r5, w') \<Longrightarrow> accounts_only w w'" unfolding st_DeleteSession_def
    by (erule db_exec_accounts) (auto dest: account_tables db_wf_DeleteSession)
  show "st_CreateAdmin pl c u h w = (r7, w') \<Longrightarrow> accounts_only w w'" unfolding st_CreateAdmin_def
    by (erule db_exec_accounts) (auto dest: account_tables db_wf_CreateAdmin)
qed (auto simp: st_AdminByUsername_def st_SessionAdmin_def st_AdminCount_def db_query_def rand_Read_def)

lemma newToken_frame: "newToken pl w = (r, w') \<Longrightarrow> accounts_only w w'"
  by (auto simp: newToken_def rand_Read_def split: sum.splits)

lemma HashPassword_frame: "HashPassword cr pl p w = (r, w') \<Longrightarrow> accounts_only w w'"
  by (auto simp: HashPassword_def rand_Read_def split: sum.splits)

lemma open_session_frame: "open_session cr pl c ip adm a w = (r, a', w') \<Longrightarrow> accounts_only w w'"
  by (auto simp: open_session_def Let_def split: prod.splits sum.splits option.splits
      dest!: newToken_frame admin_call_frames intro: accounts_trans)

lemma Login_frame: "Login cr pl pick c ip u p a w = (r, a', w') \<Longrightarrow> accounts_only w w'"
  by (auto simp: Login_def Let_def split: prod.splits sum.splits if_splits
      dest!: open_session_frame admin_call_frames intro: accounts_trans)

lemma ChangePassword_frame: "ChangePassword cr pl c i p w = (r, w') \<Longrightarrow> accounts_only w w'"
  by (auto simp: ChangePassword_def split: prod.splits sum.splits if_splits
      dest!: HashPassword_frame admin_call_frames intro: accounts_trans)

lemma Bootstrap_frame: "Bootstrap cr pl c w = (r, w') \<Longrightarrow> accounts_only w w'"
  by (auto simp: Bootstrap_def Let_def split: prod.splits sum.splits if_splits
      dest!: HashPassword_frame admin_call_frames intro: accounts_trans)

lemma Logout_frame: "Logout cr pl c t w = (r, w') \<Longrightarrow> accounts_only w w'"
  by (simp add: Logout_def admin_call_frames)

lemma Session_frame: "snd (Session cr pl c t w) = tick pl w"
  by (simp add: Session_def admin_calls)

section \<open>The guards\<close>

definition session_admin :: "'r web_deps \<Rightarrow> request \<Rightarrow> 'r site \<Rightarrow> admin option" where
  "session_admin d rq s =
     (case rq_cookie rq of
        None \<Rightarrow> None
      | Some c \<Rightarrow>
          (case fst (Session (wd_crypto d) (wd_pl d) (rq_ctx rq) c (si_world s)) of
             Inl _ \<Rightarrow> None
           | Inr adm \<Rightarrow> Some adm))"

fun public :: "endpoint \<Rightarrow> bool" where
  "public Static = True"
| "public Healthz = True"
| "public GetLogin = True"
| "public PostLogin = True"
| "public PostLogout = True"
| "public _ = False"

definition only_password :: "endpoint \<Rightarrow> bool" where
  "only_password e \<longleftrightarrow> e = GetPassword \<or> e = PostPassword"

lemma authed_eq:
  "\<exists>s1. same_data s s1 \<and> authed next d rq s =
     (case session_admin d rq s of None \<Rightarrow> (redirectLogin, s1) | Some adm \<Rightarrow> next d rq adm s1)"
proof (cases "rq_cookie rq")
  case None
  then show ?thesis by (auto simp: authed_def session_admin_def)
next
  case (Some c)
  let ?s = "s\<lparr>si_world := tick (wd_pl d) (si_world s)\<rparr>"
  obtain r where r: "Session (wd_crypto d) (wd_pl d) (rq_ctx rq) c (si_world s) = (r, tick (wd_pl d) (si_world s))"
    using Session_frame by (metis prod.collapse)
  then have "authed next d rq s =
     (case session_admin d rq s of None \<Rightarrow> (redirectLogin, ?s) | Some adm \<Rightarrow> next d rq adm ?s)"
    using Some by (simp add: authed_def session_admin_def on_world_def split: sum.split)
  moreover have "same_data s ?s" by (simp add: same_data_def)
  ultimately show ?thesis by blast
qed

text \<open>Every endpoint that is not public is behind \<open>authed\<close>, and behind \<open>requirePassword\<close> too unless it is
  the password page.\<close>

lemma handler_guarded:
  assumes "\<not> public e"
  obtains next' where "handler_of file written es e = authed (if only_password e then next' else requirePassword next')"
proof -
  have "\<exists>next'. handler_of file written es e = authed (if only_password e then next' else requirePassword next')"
    using assms by (cases e) (simp_all add: only_password_def, blast+)
  then show thesis using that by blast
qed

lemma no_session_redirect:
  assumes "\<not> public e" "session_admin d rq s = None"
  shows "\<exists>s'. handler_of file written es e d rq s = (redirectLogin, s') \<and> same_data s s'"
proof -
  obtain next' where h: "handler_of file written es e = authed (if only_password e then next' else requirePassword next')"
    by (rule handler_guarded [OF assms(1)])
  show ?thesis unfolding h
    using authed_eq [of s "if only_password e then next' else requirePassword next'" d rq] assms(2) by auto
qed

lemma must_change_redirect:
  assumes "\<not> public e" "\<not> only_password e" "session_admin d rq s = Some adm" "ad_MustChangePassword adm"
  shows "\<exists>s'. handler_of file written es e d rq s = (http_Redirect ''/password'', s') \<and> same_data s s'"
proof -
  obtain next' where h: "handler_of file written es e = authed (if only_password e then next' else requirePassword next')"
    by (rule handler_guarded [OF assms(1)])
  obtain s1 where s1: "same_data s s1" "authed (requirePassword next') d rq s =
      (case session_admin d rq s of None \<Rightarrow> (redirectLogin, s1) | Some adm \<Rightarrow> requirePassword next' d rq adm s1)"
    using authed_eq [of s "requirePassword next'" d rq] by blast
  then show ?thesis unfolding h using assms(2-4) by (auto simp: requirePassword_def)
qed

lemma same_data_accounts: "same_data s s' \<Longrightarrow> accounts_only (si_world s) (si_world s')"
  by (simp add: same_data_def accounts_only_def)

lemma public_accounts_only:
  assumes "public e" "handler_of file written es e d rq s = (r, s')"
  shows "accounts_only (si_world s) (si_world s')"
proof (cases e)
  case PostLogin
  then show ?thesis using assms(2)
    by (auto simp: postLogin_def Let_def split: option.splits prod.splits sum.splits dest!: Login_frame)
next
  case PostLogout
  then show ?thesis using assms(2)
    by (auto simp: postLogout_def on_world_def Let_def split: option.splits prod.splits dest!: Logout_frame)
qed (use assms in \<open>auto simp: getLogin_def\<close>)

lemma password_accounts_only:
  assumes "only_password e" "handler_of file written es e d rq s = (r, s')"
  shows "accounts_only (si_world s) (si_world s')"
proof -
  have inner: "accounts_only (si_world s1) (si_world s2)"
    if "getPassword d rq adm s1 = (r, s2) \<or> postPassword d rq adm s1 = (r, s2)" for adm s1 s2
    using that by (auto simp: getPassword_def postPassword_def on_world_def Let_def
        split: option.splits prod.splits dest!: ChangePassword_frame)
  consider "e = GetPassword" | "e = PostPassword" using assms(1) by (auto simp: only_password_def)
  then show ?thesis
  proof cases
    case 1
    obtain s1 where "same_data s s1" "authed getPassword d rq s =
        (case session_admin d rq s of None \<Rightarrow> (redirectLogin, s1) | Some adm \<Rightarrow> getPassword d rq adm s1)"
      using authed_eq [of s getPassword d rq] by blast
    then show ?thesis using assms(2) 1 inner same_data_accounts accounts_trans
      by (fastforce split: option.splits)
  next
    case 2
    obtain s1 where "same_data s s1" "authed postPassword d rq s =
        (case session_admin d rq s of None \<Rightarrow> (redirectLogin, s1) | Some adm \<Rightarrow> postPassword d rq adm s1)"
      using authed_eq [of s postPassword d rq] by blast
    then show ?thesis using assms(2) 2 inner same_data_accounts accounts_trans
      by (fastforce split: option.splits)
  qed
qed

text \<open>So whoever changes a proxy, a file or a container has a session and has set a password.\<close>

lemma serve_needs_session:
  assumes run: "serve file written es d rq s = (r, s')" and change: "\<not> accounts_only (si_world s) (si_world s')"
  shows "\<exists>adm. session_admin d rq s = Some adm \<and> \<not> ad_MustChangePassword adm"
proof -
  obtain e where h: "handler_of file written es e d rq s = (r, s')"
    using assms by (auto simp: serve_def split: sum.splits if_splits)
  have np: "\<not> public e" "\<not> only_password e"
    using public_accounts_only password_accounts_only h change by blast+
  show ?thesis
  proof (cases "session_admin d rq s")
    case None
    obtain s2 where "handler_of file written es e d rq s = (redirectLogin, s2)" "same_data s s2"
      using no_session_redirect [OF np(1) None] by blast
    then show ?thesis using h change same_data_accounts by auto
  next
    case (Some adm)
    have "\<not> ad_MustChangePassword adm"
    proof
      assume "ad_MustChangePassword adm"
      then obtain s2 where "handler_of file written es e d rq s = (http_Redirect ''/password'', s2)" "same_data s s2"
        using must_change_redirect [OF np Some] by blast
      then show False using h change same_data_accounts by auto
    qed
    then show ?thesis using Some by blast
  qed
qed

end
