(* ===== verification/WebForms.thy ===== *)
theory WebForms imports Web begin

text \<open>
  What the operator sees and sends back: the limits form, the address next to a link, and the event
  stream as a browser reads it.
\<close>

section \<open>Trimming\<close>

lemma trim_left_fixed: "find (\<lambda>p. prefix p (trim_left s)) space_runes = None"
proof (induction s rule: trim_left.induct)
  case (1 s)
  show ?case
  proof (cases "find (\<lambda>p. prefix p s) space_runes")
    case None
    then show ?thesis by (subst trim_left.simps) simp
  next
    case (Some p)
    then have "trim_left s = trim_left (drop (length p) s)" by (subst trim_left.simps) simp
    then show ?thesis using 1 Some by simp
  qed
qed

lemma trim_right_fixed: "find (\<lambda>p. suffix p (trim_right s)) space_runes = None"
proof (induction s rule: trim_right.induct)
  case (1 s)
  show ?case
  proof (cases "find (\<lambda>p. suffix p s) space_runes")
    case None
    then show ?thesis by (subst trim_right.simps) simp
  next
    case (Some p)
    then have "trim_right s = trim_right (take (length s - length p) s)" by (subst trim_right.simps) simp
    then show ?thesis using 1 Some by simp
  qed
qed

lemma trim_right_prefix: "prefix (trim_right s) s"
proof (induction s rule: trim_right.induct)
  case (1 s)
  show ?case
  proof (cases "find (\<lambda>p. suffix p s) space_runes")
    case None
    then show ?thesis by (subst trim_right.simps) simp
  next
    case (Some p)
    have "prefix (trim_right (take (length s - length p) s)) (take (length s - length p) s)" using 1 Some by simp
    then have "prefix (trim_right (take (length s - length p) s)) s"
      using take_is_prefix prefix_order.trans by blast
    then show ?thesis using Some by (subst trim_right.simps) simp
  qed
qed

lemma TrimSpace_idem [simp]: "strings_TrimSpace (strings_TrimSpace s) = strings_TrimSpace s"
proof -
  let ?t = "trim_right (trim_left s)"
  have "\<not> prefix p ?t" if "p \<in> set space_runes" for p
    using that trim_left_fixed [of s] trim_right_prefix [of "trim_left s"] prefix_order.trans
    by (auto simp: find_None_iff)
  then have "find (\<lambda>p. prefix p ?t) space_runes = None" by (simp add: find_None_iff)
  then have "trim_left ?t = ?t" by (subst trim_left.simps) simp
  moreover have "trim_right ?t = ?t" using trim_right_fixed [of "trim_left s"] by (subst trim_right.simps) simp
  ultimately show ?thesis by (simp add: strings_TrimSpace_def)
qed

section \<open>Saving a form that nobody touched\<close>

text \<open>A proxy whose limits were entered in the panel.\<close>

definition form_made :: "proxy \<Rightarrow> bool" where
  "form_made p \<longleftrightarrow>
     strings_TrimSpace (px_AdTag p) = px_AdTag p \<and>
     (\<forall>b. px_DataQuotaBytes p = Some b \<longrightarrow> 2 ^ 30 dvd unat b) \<and>
     (px_ExpirationRFC3339 p = None \<or>
        (\<exists>v t. Parse_date v = Some t \<and> px_ExpirationRFC3339 p = Some (Format_RFC3339 t))) \<and>
     (\<forall>n. px_MaxTCPConns p = Some n \<longrightarrow> int64_ok n) \<and> (\<forall>n. px_MaxUniqueIPs p = Some n \<longrightarrow> int64_ok n)"

text \<open>What a browser sends when the form of the detail page is submitted as it was shown.\<close>

definition untouched_form :: "page \<Rightarrow> (string \<times> string) list" where
  "untouched_form pg =
     [(''ad_tag'', case pg_Proxy pg of Some p \<Rightarrow> px_AdTag p | None \<Rightarrow> ''''), (''quota_gb'', pg_QuotaGB pg),
      (''expires'', pg_ExpiresDate pg), (''max_conns'', pg_MaxConns pg), (''max_ips'', pg_MaxIPs pg)]"

lemma untouched_form_patch:
  assumes "form_made p"
  shows "parse_limits (untouched_form (detailPage adm p snap l ok qr logs h)) =
    Inr \<lparr>lp_AdTag = Some (px_AdTag p), lp_DataQuotaBytes = Some (px_DataQuotaBytes p),
      lp_ExpirationRFC3339 = Some (px_ExpirationRFC3339 p), lp_MaxTCPConns = Some (px_MaxTCPConns p),
      lp_MaxUniqueIPs = Some (px_MaxUniqueIPs p)\<rparr>"
proof -
  have "optionalGB (show_quota (px_DataQuotaBytes p)) = Inr (px_DataQuotaBytes p)"
    by (rule optionalGB_show) (use assms in \<open>auto simp: form_made_def\<close>)
  moreover have "optionalDate (show_date (px_ExpirationRFC3339 p)) = Some (px_ExpirationRFC3339 p)"
    by (rule optionalDate_show) (use assms in \<open>auto simp: form_made_def\<close>)
  moreover have "optionalInt (show_int (px_MaxTCPConns p)) = Inr (px_MaxTCPConns p)"
    "optionalInt (show_int (px_MaxUniqueIPs p)) = Inr (px_MaxUniqueIPs p)"
    by (rule optionalInt_show; use assms in \<open>auto simp: form_made_def\<close>)+
  moreover have "strings_TrimSpace (px_AdTag p) = px_AdTag p" using assms by (simp add: form_made_def)
  ultimately show ?thesis
    by (simp add: parse_limits_def untouched_form_def detailPage_def PostFormValue_def)
qed

lemma untouched_form_identity:
  assumes "form_made p"
  shows "\<exists>lp. parse_limits (untouched_form (detailPage adm p snap l ok qr logs h)) = Inr lp \<and> apply_patch lp p = p"
  unfolding untouched_form_patch [OF assms] by (simp add: apply_patch_def)

text \<open>The fields one by one.\<close>

lemma quota_made:
  "optionalGB v = Inr q \<Longrightarrow> \<forall>b. q = Some b \<longrightarrow> 2 ^ 30 dvd unat b"
  "create_quota v = Inr q \<Longrightarrow> \<forall>b. q = Some b \<longrightarrow> 2 ^ 30 dvd unat b"
  using gib_multiple by (auto simp: optionalGB_def create_quota_def split: if_splits sum.splits)

lemma int_made:
  "optionalInt v = Inr x \<Longrightarrow> \<forall>n. x = Some n \<longrightarrow> int64_ok n"
  "create_int v = Inr x \<Longrightarrow> \<forall>n. x = Some n \<longrightarrow> int64_ok n"
  by (auto simp: optionalInt_def create_int_def dest: Atoi_range split: if_splits sum.splits)

lemma date_made:
  assumes "optionalDate v = Some x \<or> create_date v = Some x"
  shows "x = None \<or> (\<exists>v t. Parse_date v = Some t \<and> x = Some (Format_RFC3339 t))"
  using assms by (auto simp: optionalDate_def create_date_def split: if_splits)

lemma parse_create_Inr:
  assumes "parse_create f = Inr req"
  shows "create_quota (PostFormValue f ''quota_gb'') = Inr (cr_DataQuotaBytes req)"
    "create_date (PostFormValue f ''expires'') = Some (cr_ExpirationRFC3339 req)"
    "create_int (PostFormValue f ''max_conns'') = Inr (cr_MaxTCPConns req)"
    "create_int (PostFormValue f ''max_ips'') = Inr (cr_MaxUniqueIPs req)"
    "cr_AdTag req = strings_TrimSpace (PostFormValue f ''ad_tag'')"
  using assms unfolding parse_create_def by (auto split: sum.splits option.splits)

lemma parse_limits_Inr:
  assumes "parse_limits f = Inr lp"
  obtains quota expires conns ips where
    "optionalGB (PostFormValue f ''quota_gb'') = Inr quota" "optionalDate (PostFormValue f ''expires'') = Some expires"
    "optionalInt (PostFormValue f ''max_conns'') = Inr conns" "optionalInt (PostFormValue f ''max_ips'') = Inr ips"
    "lp = \<lparr>lp_AdTag = Some (strings_TrimSpace (PostFormValue f ''ad_tag'')), lp_DataQuotaBytes = Some quota,
       lp_ExpirationRFC3339 = Some expires, lp_MaxTCPConns = Some conns, lp_MaxUniqueIPs = Some ips\<rparr>"
  using assms unfolding parse_limits_def Let_def by (auto split: sum.splits option.splits)

lemma parse_create_made:
  assumes "parse_create f = Inr req"
  shows "form_made (new_proxy req sec tok pid)"
proof -
  note p = parse_create_Inr [OF assms]
  have "cr_ExpirationRFC3339 req = None \<or>
      (\<exists>v t. Parse_date v = Some t \<and> cr_ExpirationRFC3339 req = Some (Format_RFC3339 t))"
    by (rule date_made) (use p(2) in blast)
  then show ?thesis
    using p(5) quota_made(2) [OF p(1)] int_made(2) [OF p(3)] int_made(2) [OF p(4)]
    by (simp add: form_made_def new_proxy_def)
qed

lemma parse_limits_made:
  assumes "parse_limits f = Inr lp"
  shows "form_made (apply_patch lp p)"
proof -
  obtain quota expires conns ips where p: "optionalGB (PostFormValue f ''quota_gb'') = Inr quota"
    "optionalDate (PostFormValue f ''expires'') = Some expires" "optionalInt (PostFormValue f ''max_conns'') = Inr conns"
    "optionalInt (PostFormValue f ''max_ips'') = Inr ips"
    "lp = \<lparr>lp_AdTag = Some (strings_TrimSpace (PostFormValue f ''ad_tag'')), lp_DataQuotaBytes = Some quota,
       lp_ExpirationRFC3339 = Some expires, lp_MaxTCPConns = Some conns, lp_MaxUniqueIPs = Some ips\<rparr>"
    by (rule parse_limits_Inr [OF assms])
  have "expires = None \<or> (\<exists>v t. Parse_date v = Some t \<and> expires = Some (Format_RFC3339 t))"
    by (rule date_made) (use p(2) in blast)
  then show ?thesis
    using p(5) quota_made(1) [OF p(1)] int_made(1) [OF p(3)] int_made(1) [OF p(4)]
    by (simp add: form_made_def apply_patch_def)
qed

section \<open>The address next to the link\<close>

lemma displayHost_link: "FakeTLS h port secret domain = Inr l \<Longrightarrow> displayHost cfg l True = h"
  using build_parses [of h port secret domain l] build_server [of secret h port domain]
  by (simp add: displayHost_def FakeTLS_def build_Inr_iff)

lemma linkFor_eq:
  "linkFor sv p snap =
     (if cf_PublicHost (sv_Cfg sv) \<noteq> '''' then (service_Link sv p, service_Link sv p \<noteq> '''')
      else if sn_Links snap \<noteq> [] \<and> hd (sn_Links snap) \<noteq> '''' then (hd (sn_Links snap), True) else ('''', False))"
  by (simp add: linkFor_def ReconcileLink_def)

section \<open>The event stream\<close>

text \<open>Every event of a stream is a rendering of the rows, whole, whatever else is interleaved.\<close>

definition rows_events :: "'r web_deps \<Rightarrow> (string \<times> string) list \<Rightarrow> bool" where
  "rows_events d evs \<longleftrightarrow> (\<forall>(ev, html) \<in> set evs. ev = ''rows'' \<and> (\<exists>pg. wd_rows d pg = Inr html))"

definition renders_lines :: "'r web_deps \<Rightarrow> bool" where
  "renders_lines d \<longleftrightarrow> (\<forall>pg html. wd_rows d pg = Inr html \<longrightarrow> CHR 0x0D \<notin> set html)"

lemma sse_read_Nil [simp]: "sse_read '''' = []"
  by (simp add: sse_read_def)

lemma send_rows_events:
  assumes "send_rows d rq written s = ((out, goes), s')" "renders_lines d"
  shows "\<exists>evs. (\<forall>t. sse_read (out @ t) = evs @ sse_read t) \<and> rows_events d evs"
proof (cases "out = ''''")
  case True
  then show ?thesis by (intro exI [of _ "[]"]) (simp add: rows_events_def)
next
  case False
  then obtain pg html where h: "wd_rows d pg = Inr html" "out = sseFrame ''rows'' html"
    using assms(1) by (auto simp: send_rows_def Let_def split: prod.splits sum.splits if_splits)
  then have "CHR 0x0D \<notin> set html" using assms(2) unfolding renders_lines_def by blast
  then have "\<forall>t. sse_read (out @ t) = [(''rows'', html)] @ sse_read t" by (simp add: h sse_read_frame)
  moreover have "rows_events d [(''rows'', html)]" using h by (auto simp: rows_events_def)
  ultimately show ?thesis by blast
qed

lemma rows_events_append: "rows_events d (a @ b) \<longleftrightarrow> rows_events d a \<and> rows_events d b"
  by (auto simp: rows_events_def)

lemma event_loop_events:
  assumes "renders_lines d"
  shows "event_loop d rq ch es s = (out, s') \<Longrightarrow> rows_events d (sse_read out)"
proof (induction es arbitrary: s out s')
  case (Cons e es)
  let ?s = "ev_meanwhile e s"
  obtain ready h where rc: "receive ch (si_hub ?s) = (ready, h)" by fastforce
  let ?s2 = "?s\<lparr>si_hub := h\<rparr>"
  show ?case
  proof (cases "ev_wakeup e")
    case KeepaliveTick
    obtain o2 s2 where el: "event_loop d rq ch es ?s = (o2, s2)" by fastforce
    have "rows_events d (sse_read o2)" by (rule Cons.IH [OF el])
    moreover have "out = (if ev_written e then keepalive @ o2 else '''')"
      using Cons.prems KeepaliveTick el by (auto simp: Let_def split: if_splits)
    ultimately show ?thesis by (auto simp: sse_read_keepalive rows_events_def)
  next
    case Updates
    show ?thesis
    proof (cases "ready \<and> hb_token (si_hub ?s) ch")
      case False
      then show ?thesis using Cons Updates rc by (auto simp: Let_def rows_events_def split: if_splits)
    next
      case True
      obtain o1 goes s3 where sr: "send_rows d rq (ev_written e) ?s2 = ((o1, goes), s3)" by (metis prod.collapse)
      then obtain evs where evs: "\<And>t. sse_read (o1 @ t) = evs @ sse_read t" "rows_events d evs"
        using send_rows_events [OF sr assms] by blast
      obtain o2 s4 where el: "event_loop d rq ch es s3 = (o2, s4)" by fastforce
      have "rows_events d (sse_read o2)" by (rule Cons.IH [OF el])
      moreover have "out = (if goes then o1 @ o2 else o1)"
        using Cons.prems Updates rc True sr el by (auto simp: Let_def split: if_splits)
      ultimately show ?thesis using evs evs(1) [of "''''"] by (auto simp: rows_events_append)
    qed
  qed (use Cons in \<open>auto simp: rows_events_def\<close>)
qed (simp add: rows_events_def)

lemma getEvents_stream:
  assumes run: "getEvents written es d rq adm s = (r, s')" and lines: "renders_lines d"
    and body: "rs_body r = EventStream out"
  shows "rows_events d (sse_read out)"
proof -
  obtain ch h where sub: "Subscribe (si_hub s) = (ch, h)" by fastforce
  obtain o1 goes s1 where sr: "send_rows d rq written (s\<lparr>si_hub := h\<rparr>) = ((o1, goes), s1)" by (metis prod.collapse)
  obtain evs where evs: "\<And>t. sse_read (o1 @ t) = evs @ sse_read t" "rows_events d evs"
    using send_rows_events [OF sr lines] by blast
  obtain o2 s2 where el: "(if goes then event_loop d rq ch es s1 else ('''', s1)) = (o2, s2)" by fastforce
  then have "rows_events d (sse_read o2)"
    using event_loop_events [OF lines] by (cases goes) (auto simp: rows_events_def)
  moreover have "out = o1 @ o2"
    using run body sub sr el by (auto simp: getEvents_def Let_def http_Error_def split: if_splits)
  ultimately show ?thesis using evs by (simp add: rows_events_append)
qed

text \<open>A stream that ends leaves no subscription behind.\<close>

lemma hub_inv_cancel: "hub_inv h \<Longrightarrow> hub_inv (cancel ch h) \<and> ch \<notin> set (hb_subs (cancel ch h))"
  unfolding cancel_def
  using hub_step_inv [OF hub_step.remove, of h ch] hub_step_inv [OF hub_step.close, of "cancel_remove ch h" ch]
  by (auto simp: hub_inv_def cancel_close_def cancel_remove_def)

end
