(* ===== verification/Site.thy ===== *)
theory Site imports WebGuard WebForms begin

text \<open>
  The whole site over time: HTTP requests, sweeps of the poller, event streams and the background work of
  the panel in any interleaving, and the invariant they keep together.
\<close>

section \<open>Steps of the site\<close>

text \<open>A request of an event stream lasts; it takes part with its own steps: changes of its
  subscription, and the rendering of rows.\<close>

inductive site_step :: "'r web_deps \<Rightarrow> 'r site \<Rightarrow> 'r site \<Rightarrow> bool" for d where
  request: "route (rq_method rq) (rq_path rq) \<noteq> Inr Events \<Longrightarrow> serve file written es d rq s = (r, s') \<Longrightarrow> site_step d s s'"
| stream: "hub_step (si_hub s) h \<Longrightarrow> site_step d s (s\<lparr>si_hub := h\<rparr>)"
| send: "send_rows d rq written s = (x, s') \<Longrightarrow> site_step d s s'"
| sweep: "(\<And>xs. mset (perm xs) = mset xs) \<Longrightarrow> PollOnce (wd_Proxy d) c perm (si_poller s) (si_world s) = ((po, b), w) \<Longrightarrow>
    site_step d s (s\<lparr>si_poller := po, si_world := w\<rparr>)"
| background: "panel_step (wd_Proxy d) (si_world s) w \<Longrightarrow> site_step d s (s\<lparr>si_world := w\<rparr>)"

definition site_inv :: "'r web_deps \<Rightarrow> ('r \<Rightarrow> bool) \<Rightarrow> 'r site \<Rightarrow> bool" where
  "site_inv d good s \<longleftrightarrow>
     panel_inv (wd_Proxy d) good (si_world s) \<and> poller_inv (si_poller s) \<and> hub_inv (si_hub s) \<and> attempts_inv (si_attempts s)"

text \<open>What a request other than an event stream does to the invariant.\<close>

definition keeps :: "'r web_deps \<Rightarrow> ('r \<Rightarrow> bool) \<Rightarrow> 'r site \<Rightarrow> 'r site \<Rightarrow> bool" where
  "keeps d good s s' \<longleftrightarrow>
     (panel_inv (wd_Proxy d) good (si_world s) \<longrightarrow> panel_inv (wd_Proxy d) good (si_world s')) \<and>
     (attempts_inv (si_attempts s) \<longrightarrow> attempts_inv (si_attempts s')) \<and>
     si_poller s' = si_poller s \<and> si_hub s' = si_hub s"

lemma keeps_refl [simp]: "keeps d good s s"
  by (simp add: keeps_def)

lemma keeps_trans: "keeps d good s t \<Longrightarrow> keeps d good t u \<Longrightarrow> keeps d good s u"
  by (simp add: keeps_def)

lemma keeps_world:
  assumes "on_world f s = (x, s')"
    and "\<And>y w. f (si_world s) = (y, w) \<Longrightarrow> panel_inv (wd_Proxy d) good (si_world s) \<Longrightarrow> panel_inv (wd_Proxy d) good w"
  shows "keeps d good s s'"
  using assms by (auto simp: on_world_def keeps_def split: prod.splits)

lemma panel_inv_accounts: "accounts_only w w' \<Longrightarrow> panel_inv sv good w \<Longrightarrow> panel_inv sv good w'"
  by (simp add: accounts_only_def panel_inv_def proxies_of_def)

lemma panel_inv_quiet:
  "w_db w' = w_db w \<Longrightarrow> good (w_rt w) \<longrightarrow> good (w_rt w') \<Longrightarrow> panel_inv sv good w \<Longrightarrow> panel_inv sv good w'"
  by (simp add: panel_inv_def)

section \<open>The accounts\<close>

lemma limited_inv: "attempts_inv a \<Longrightarrow> attempts_inv (snd (limited ip now a))"
  using run_event_inv [of a "Checked ip now"] by simp

lemma open_session_attempts:
  "open_session cr pl c ip adm a w = (r, a', w') \<Longrightarrow> attempts_inv a \<Longrightarrow> attempts_inv a'"
  by (auto simp: open_session_def Let_def clearFailures_def forget_inv split: prod.splits sum.splits option.splits)

lemma Login_attempts:
  assumes "Login cr pl pick c ip u p a w = (r, a', w')" "attempts_inv a"
  shows "attempts_inv a'"
proof -
  obtain lim a1 where l: "limited ip (w_clock w) a = (lim, a1)" by fastforce
  then have "attempts_inv a1" using limited_inv [OF assms(2), of ip "w_clock w"] by simp
  then show ?thesis using assms(1) l
    by (auto simp: Login_def Let_def recordFailure_inv split: if_splits prod.splits sum.splits
        dest: open_session_attempts)
qed

lemma postLogin_keeps:
  assumes "postLogin d rq s = (r, s')"
  shows "keeps d good s s'"
proof (cases "rq_form rq")
  case None
  then show ?thesis using assms by (simp add: postLogin_def)
next
  case (Some f)
  obtain x a w where l: "Login (wd_crypto d) (wd_pl d) (wd_pick d) (rq_ctx rq) (clientIP rq)
      (PostFormValue f ''username'') (PostFormValue f ''password'') (si_attempts s) (si_world s) = (x, a, w)"
    by (metis prod.collapse)
  then have "s' = s\<lparr>si_attempts := a, si_world := w\<rparr>"
    using assms Some by (auto simp: postLogin_def Let_def split: sum.splits)
  then show ?thesis
    using panel_inv_accounts [OF Login_frame [OF l]] Login_attempts [OF l] by (simp add: keeps_def)
qed

lemma keeps_accounts:
  assumes "on_world f s = (x, s')" "\<And>y w. f (si_world s) = (y, w) \<Longrightarrow> accounts_only (si_world s) w"
  shows "keeps d good s s'"
  by (rule keeps_world [OF assms(1)]) (blast intro: panel_inv_accounts assms(2))

lemma account_world_keeps:
  "on_world (Logout cr pl c t) s = (x, s') \<Longrightarrow> keeps d good s s'"
  "on_world (ChangePassword cr pl c i p) s = (x, s') \<Longrightarrow> keeps d good s s'"
  "on_world (Session cr pl c t) s = (y, s') \<Longrightarrow> keeps d good s s'"
proof -
  show "on_world (Logout cr pl c t) s = (x, s') \<Longrightarrow> keeps d good s s'"
    by (erule keeps_accounts) (rule Logout_frame)
  show "on_world (ChangePassword cr pl c i p) s = (x, s') \<Longrightarrow> keeps d good s s'"
    by (erule keeps_accounts) (rule ChangePassword_frame)
  show "on_world (Session cr pl c t) s = (y, s') \<Longrightarrow> keeps d good s s'"
    by (erule keeps_accounts) (auto simp: Session_def dest: admin_call_frames)
qed

lemma postLogout_keeps: "postLogout d rq s = (r, s') \<Longrightarrow> keeps d good s s'"
  by (auto simp: postLogout_def split: option.splits)
    (metis account_world_keeps(1) prod.collapse)

lemma password_keeps:
  "getPassword d rq adm s = (r, s') \<Longrightarrow> keeps d good s s'"
  "postPassword d rq adm s = (r, s') \<Longrightarrow> keeps d good s s'"
  by (auto simp: getPassword_def postPassword_def Let_def split: option.splits prod.splits
      dest: account_world_keeps)

section \<open>The handlers\<close>

text \<open>Reading: the tables stay, and the runtime keeps its invariant.\<close>

context container_runtime
begin

lemma List_quiet: "Lifecycle.List sv c w = (r, w') \<Longrightarrow> w_db w' = w_db w \<and> w_rt w' = w_rt w"
  unfolding List_def by (drule st_ListProxies_frame) (simp add: same_but_db_def)

lemma Get_quiet: "Lifecycle.Get sv c pid w = (r, w') \<Longrightarrow> w_db w' = w_db w \<and> w_rt w' = w_rt w"
  by (auto simp: Get_def same_but_db_def dest: st_GetProxy_frame)

lemma DockerOK_quiet:
  assumes "sv_Runtime sv = rt" "DockerOK sv c w = (r, w')"
  shows "w_db w' = w_db w \<and> (inv (w_rt w) \<longrightarrow> inv (w_rt w'))"
proof -
  obtain e where e: "call_rt (\<lambda>b. rt_Ping rt b) (sv_pl sv) c w = (e, w')"
    using assms by (auto simp: DockerOK_def split: prod.splits)
  show ?thesis using call_keeps(3) [OF _ e] call_rt_frame [OF e] by (auto simp: same_but_rt_def)
qed

lemma Logs_quiet:
  assumes "sv_Runtime sv = rt" "Lifecycle.Logs sv c pid w = (r, w')"
  shows "w_db w' = w_db w \<and> (inv (w_rt w) \<longrightarrow> inv (w_rt w'))"
proof -
  obtain x w1 where g: "st_GetProxy (sv_pl sv) c pid w = (x, w1)" by fastforce
  have f1: "w_db w1 = w_db w" "w_rt w1 = w_rt w" using st_GetProxy_frame [OF g] by (simp_all add: same_but_db_def)
  show ?thesis
  proof (cases "\<exists>p. x = Inr p \<and> px_ContainerID p \<noteq> ''''")
    case True
    then obtain p where x: "x = Inr p" "px_ContainerID p \<noteq> ''''" by blast
    then have p: "call_rt (\<lambda>b. rt_Logs rt b (px_ContainerID p) 200) (sv_pl sv) c w1 = (r, w')"
      using assms(2) g unfolding Logs_def assms(1) by simp
    show ?thesis using call_keeps(6) [OF _ p] call_rt_frame [OF p] f1 by (auto simp: same_but_rt_def)
  next
    case False
    then have "w' = w1" using assms g by (auto simp: Logs_def split: sum.splits if_splits)
    then show ?thesis using f1 by simp
  qed
qed

lemma read_keeps:
  assumes sv: "sv_Runtime (wd_Proxy d) = rt"
  shows "on_world (Lifecycle.List (wd_Proxy d) c) s = (x1, s') \<Longrightarrow> keeps d inv s s'"
    "on_world (Lifecycle.Get (wd_Proxy d) c pid) s = (x2, s') \<Longrightarrow> keeps d inv s s'"
    "on_world (Lifecycle.Logs (wd_Proxy d) c pid) s = (x3, s') \<Longrightarrow> keeps d inv s s'"
    "on_world (DockerOK (wd_Proxy d) c) s = (x4, s') \<Longrightarrow> keeps d inv s s'"
    "on_world (Orphans (wd_Proxy d) c) s = (x5, s') \<Longrightarrow> keeps d inv s s'"
proof -
  show "on_world (Lifecycle.List (wd_Proxy d) c) s = (x1, s') \<Longrightarrow> keeps d inv s s'"
    by (erule keeps_world) (use List_quiet panel_inv_quiet in metis)
  show "on_world (Lifecycle.Get (wd_Proxy d) c pid) s = (x2, s') \<Longrightarrow> keeps d inv s s'"
    by (erule keeps_world) (use Get_quiet panel_inv_quiet in metis)
  show "on_world (Lifecycle.Logs (wd_Proxy d) c pid) s = (x3, s') \<Longrightarrow> keeps d inv s s'"
    by (erule keeps_world) (use Logs_quiet [OF sv] panel_inv_quiet in metis)
  show "on_world (DockerOK (wd_Proxy d) c) s = (x4, s') \<Longrightarrow> keeps d inv s s'"
    by (erule keeps_world) (use DockerOK_quiet [OF sv] panel_inv_quiet in metis)
  show "on_world (Orphans (wd_Proxy d) c) s = (x5, s') \<Longrightarrow> keeps d inv s s'"
    by (erule keeps_world) (use Orphans_keeps [OF sv] panel_inv_quiet panel_inv_def in metis)
qed

text \<open>Writing: the steps of the panel.\<close>

lemma write_keeps:
  assumes sv: "sv_Runtime (wd_Proxy d) = rt" and rnd: "honest_random (wd_pl d)"
  shows "on_world (Create (wd_Proxy d) c req) s = (x1, s') \<Longrightarrow> keeps d inv s s'"
    "on_world (Delete (wd_Proxy d) c pid) s = (x2, s') \<Longrightarrow> keeps d inv s s'"
    "on_world (UpdateLimits (wd_Proxy d) c pid lp) s = (x3, s') \<Longrightarrow> keeps d inv s s'"
    "on_world (Recreate (wd_Proxy d) c pid port dn) s = (x4, s') \<Longrightarrow> keeps d inv s s'"
    "on_world (RemoveOrphan (wd_Proxy d) c cid) s = (x5, s') \<Longrightarrow> keeps d inv s s'"
proof -
  note step = panel_step_keeps [OF sv rnd, THEN conjunct1]
  show "on_world (Create (wd_Proxy d) c req) s = (x1, s') \<Longrightarrow> keeps d inv s s'"
    by (erule keeps_world) (rule step [OF _ panel_step.create])
  show "on_world (Delete (wd_Proxy d) c pid) s = (x2, s') \<Longrightarrow> keeps d inv s s'"
    by (erule keeps_world) (rule step [OF _ panel_step.delete])
  show "on_world (UpdateLimits (wd_Proxy d) c pid lp) s = (x3, s') \<Longrightarrow> keeps d inv s s'"
    by (erule keeps_world) (rule step [OF _ panel_step.limits])
  show "on_world (Recreate (wd_Proxy d) c pid port dn) s = (x4, s') \<Longrightarrow> keeps d inv s s'"
    by (erule keeps_world) (rule step [OF _ panel_step.recreate])
  show "on_world (RemoveOrphan (wd_Proxy d) c cid) s = (x5, s') \<Longrightarrow> keeps d inv s s'"
    by (erule keeps_world) (rule step [OF _ panel_step.orphan])
qed

lemma buildRows_keeps:
  assumes "sv_Runtime (wd_Proxy d) = rt" "buildRows d rq s = (r, s')"
  shows "keeps d inv s s'"
  using assms(2) read_keeps(1) [OF assms(1)]
  by (auto simp: buildRows_def Let_def split: prod.splits sum.splits)

lemma send_rows_keeps:
  assumes "sv_Runtime (wd_Proxy d) = rt" "send_rows d rq written s = (x, s')"
  shows "keeps d inv s s'"
  using assms(2) buildRows_keeps [OF assms(1)]
  by (auto simp: send_rows_def Let_def split: prod.splits sum.splits if_splits)

lemma handler_reads:
  assumes sv: "sv_Runtime (wd_Proxy d) = rt"
  shows "getIndex d rq adm s = (r, s') \<Longrightarrow> keeps d inv s s'"
    "createError d rq adm msg s = (r, s') \<Longrightarrow> keeps d inv s s'"
    "getProxy pid d rq adm s = (r, s') \<Longrightarrow> keeps d inv s s'"
    "getLogs pid d rq adm s = (r, s') \<Longrightarrow> keeps d inv s s'"
proof -
  note [dest!] = read_keeps [OF sv] buildRows_keeps [OF sv] and [intro] = keeps_trans
  show "getIndex d rq adm s = (r, s') \<Longrightarrow> keeps d inv s s'"
    by (auto simp: getIndex_def Let_def split: prod.splits sum.splits if_splits)
  show "createError d rq adm msg s = (r, s') \<Longrightarrow> keeps d inv s s'"
    by (auto simp: createError_def split: prod.splits)
  show "getProxy pid d rq adm s = (r, s') \<Longrightarrow> keeps d inv s s'"
    by (auto simp: getProxy_def Let_def split: prod.splits sum.splits)
  show "getLogs pid d rq adm s = (r, s') \<Longrightarrow> keeps d inv s s'"
    by (auto simp: getLogs_def Let_def split: prod.splits sum.splits)
qed

lemma handler_writes:
  assumes sv: "sv_Runtime (wd_Proxy d) = rt" and rnd: "honest_random (wd_pl d)"
  shows "postCreate d rq adm s = (r, s') \<Longrightarrow> keeps d inv s s'"
    "postDelete pid d rq adm s = (r, s') \<Longrightarrow> keeps d inv s s'"
    "postLimits pid d rq adm s = (r, s') \<Longrightarrow> keeps d inv s s'"
    "postRecreate pid d rq adm s = (r, s') \<Longrightarrow> keeps d inv s s'"
    "postRemoveOrphan pid d rq adm s = (r, s') \<Longrightarrow> keeps d inv s s'"
proof -
  note [dest!] = write_keeps [OF sv rnd] handler_reads(2) [OF sv] and [intro] = keeps_trans
  show "postCreate d rq adm s = (r, s') \<Longrightarrow> keeps d inv s s'"
    by (auto simp: postCreate_def Let_def split: prod.splits sum.splits option.splits)
  show "postDelete pid d rq adm s = (r, s') \<Longrightarrow> keeps d inv s s'"
    by (auto simp: postDelete_def split: prod.splits option.splits)
  show "postLimits pid d rq adm s = (r, s') \<Longrightarrow> keeps d inv s s'"
    by (auto simp: postLimits_def Let_def split: prod.splits sum.splits option.splits)
  show "postRecreate pid d rq adm s = (r, s') \<Longrightarrow> keeps d inv s s'"
    by (auto simp: postRecreate_def Let_def split: prod.splits sum.splits option.splits)
  show "postRemoveOrphan pid d rq adm s = (r, s') \<Longrightarrow> keeps d inv s s'"
    by (auto simp: postRemoveOrphan_def split: prod.splits option.splits)
qed

lemma guards_keep:
  assumes next': "\<And>adm s r s'. next' d rq adm s = (r, s') \<Longrightarrow> keeps d inv s s'"
  shows "authed next' d rq s = (r, s') \<Longrightarrow> keeps d inv s s'"
    "requirePassword next' d rq adm s = (r, s') \<Longrightarrow> keeps d inv s s'"
proof -
  show "authed next' d rq s = (r, s') \<Longrightarrow> keeps d inv s s'"
    by (auto simp: authed_def split: option.splits prod.splits sum.splits
        dest!: next' account_world_keeps(3) [where good = inv and d = d] intro: keeps_trans)
  show "requirePassword next' d rq adm s = (r, s') \<Longrightarrow> keeps d inv s s'"
    by (auto simp: requirePassword_def split: if_splits dest: next')
qed

lemma serve_keeps:
  assumes sv: "sv_Runtime (wd_Proxy d) = rt" and rnd: "honest_random (wd_pl d)"
    and ep: "route (rq_method rq) (rq_path rq) \<noteq> Inr Events" and run: "serve file written es d rq s = (r, s')"
  shows "keeps d inv s s'"
proof (cases "route (rq_method rq) (rq_path rq)")
  case (Inl n)
  then show ?thesis using run by (auto simp: serve_def split: if_splits)
next
  case (Inr e)
  then have run': "handler_of file written es e d rq s = (r, s')" and ne: "e \<noteq> Events"
    using run ep by (simp_all add: serve_def)
  note guarded = guards_keep(1) [OF guards_keep(2)]
  show ?thesis
  proof (cases e)
    case PostLogin
    then show ?thesis using run' postLogin_keeps by auto
  next
    case PostLogout
    then show ?thesis using run' postLogout_keeps by auto
  next
    case GetPassword
    then show ?thesis using run' guards_keep(1) [OF password_keeps(1)] by auto
  next
    case PostPassword
    then show ?thesis using run' guards_keep(1) [OF password_keeps(2)] by auto
  next
    case Index
    then show ?thesis using run' guarded [OF handler_reads(1) [OF sv]] by auto
  next
    case PostCreate
    then show ?thesis using run' guarded [OF handler_writes(1) [OF sv rnd]] by auto
  next
    case (GetProxyPage i)
    then show ?thesis using run' guarded [OF handler_reads(3) [OF sv]] by auto
  next
    case (PostLimits i)
    then show ?thesis using run' guarded [OF handler_writes(3) [OF sv rnd]] by auto
  next
    case (PostRecreate i)
    then show ?thesis using run' guarded [OF handler_writes(4) [OF sv rnd]] by auto
  next
    case (PostDelete i)
    then show ?thesis using run' guarded [OF handler_writes(2) [OF sv rnd]] by auto
  next
    case (GetLogsOf i)
    then show ?thesis using run' guarded [OF handler_reads(4) [OF sv]] by auto
  next
    case (PostRemoveOrphan i)
    then show ?thesis using run' guarded [OF handler_writes(5) [OF sv rnd]] by auto
  qed (use run' ne in \<open>auto simp: getLogin_def\<close>)
qed

section \<open>The invariant of the site\<close>

lemma poll_quiet:
  assumes sv: "sv_Runtime sv = rt"
  shows "pollProxy sv c pr w = (s, w') \<Longrightarrow> inv (w_rt w) \<Longrightarrow> inv (w_rt w')"
    and "poll_all sv c ps w = (ss, w') \<Longrightarrow> inv (w_rt w) \<Longrightarrow> inv (w_rt w')"
proof -
  show one: "inv (w_rt w')" if "pollProxy sv c pr w = (s, w')" "inv (w_rt w)" for pr w s w'
  proof -
    obtain x w1 where cl: "ClientFor sv c pr w = (x, w1)" by fastforce
    have "inv (w_rt w1)" using ClientFor_keeps [OF sv that(2) cl] by simp
    then show ?thesis using that(1) cl
      by (auto simp: pollProxy_def call_api_def Let_def split: sum.splits prod.splits list.splits)
  qed
  show "poll_all sv c ps w = (ss, w') \<Longrightarrow> inv (w_rt w) \<Longrightarrow> inv (w_rt w')"
    by (induction ps arbitrary: w ss) (auto split: prod.splits dest: one)
qed

lemma PollOnce_quiet:
  assumes sv: "sv_Runtime sv = rt" and run: "PollOnce sv c perm po w = (r, w')"
  shows "w_db w' = w_db w \<and> (inv (w_rt w) \<longrightarrow> inv (w_rt w'))"
proof -
  obtain x w1 where l: "Lifecycle.List sv c w = (x, w1)" by fastforce
  have "inv (w_rt w) \<longrightarrow> inv (w_rt w')"
    using run l List_quiet [OF l]
    by (auto simp: PollOnce_def Let_def split: sum.splits prod.splits dest: poll_quiet(2) [OF sv])
  then show ?thesis using PollOnce_frame [OF run] by simp
qed

lemma site_step_inv:
  assumes sv: "sv_Runtime (wd_Proxy d) = rt" and rnd: "honest_random (wd_pl d)"
    and step: "site_step d s s'" and inv0: "site_inv d inv s"
  shows "site_inv d inv s'"
  using step
proof cases
  case (request rq srv written es r)
  then show ?thesis using serve_keeps [OF sv rnd request] inv0 by (simp add: site_inv_def keeps_def)
next
  case (stream h)
  then show ?thesis using hub_step_inv inv0 by (auto simp: site_inv_def)
next
  case (send rq written x)
  then show ?thesis using send_rows_keeps [OF sv send] inv0 by (simp add: site_inv_def keeps_def)
next
  case (sweep perm c po b w)
  have "db_wf (w_db (si_world s))" using inv0 by (simp add: site_inv_def panel_inv_def)
  moreover have pi: "poller_inv (si_poller s)" using inv0 by (simp add: site_inv_def)
  ultimately have "poller_inv po"
    using PollOnce_effect(1) [OF _ sweep(2)] PollOnce_failed sweep(3) by (cases b) fastforce+
  moreover have "panel_inv (wd_Proxy d) inv w"
    using PollOnce_quiet [OF sv sweep(3)] inv0 by (auto simp: site_inv_def intro: panel_inv_quiet)
  ultimately show ?thesis using sweep(1) inv0 by (simp add: site_inv_def)
next
  case (background w)
  then show ?thesis using panel_step_keeps [OF sv rnd _ background(2)] inv0 by (auto simp: site_inv_def)
qed

lemma site_reachable_inv:
  assumes "sv_Runtime (wd_Proxy d) = rt" "honest_random (wd_pl d)" "site_inv d inv s" "(site_step d)\<^sup>*\<^sup>* s s'"
  shows "site_inv d inv s'"
  using assms(4,3) by (induction rule: rtranclp_induct) (auto intro: site_step_inv [OF assms(1,2)])

end

end
