(* ===== verification/JsonDecode.thy ===== *)
theory JsonDecode imports GoJson begin

text \<open>
  Storing a parsed JSON value into a Go value, as \<open>json.Unmarshal\<close> does by reflection. A mismatch of
  types does not stop it: the place keeps its old value, the first error is remembered and the rest
  is still stored. \<open>conforms\<close> says, without reference to the old value, when there is no error.
  (Elements that a slice had beyond its present length read as zero values here; Go would show what
  an earlier repetition of the same member left there.)
\<close>

section \<open>Go types and values\<close>

datatype gtype = TyBool | TyInt | TyUint64 | TyString | TyRaw
  | TyPtr gtype | TySlice gtype | TyStruct "(string \<times> gtype) list"

datatype gval = GBool bool | GInt int | GUint "64 word" | GString string | GRaw "jval option"
  | GPtr "gval option" | GSlice "gval list" | GStruct "gval list"

fun zero_val :: "gtype \<Rightarrow> gval" where
  "zero_val TyBool = GBool False"
| "zero_val TyInt = GInt 0"
| "zero_val TyUint64 = GUint 0"
| "zero_val TyString = GString ''''"
| "zero_val TyRaw = GRaw None"
| "zero_val (TyPtr t) = GPtr None"
| "zero_val (TySlice t) = GSlice []"
| "zero_val (TyStruct fs) = GStruct (map (zero_val \<circ> snd) fs)"

text \<open>Field names match exactly, else up to Unicode case folding; folding to an ASCII name, the
  letters that are not ASCII are the long s and the Kelvin sign.\<close>

fun fold_name :: "string \<Rightarrow> string" where
  "fold_name [] = []"
| "fold_name (c # s) =
     (if prefix [CHR 0xC5, CHR 0xBF] (c # s) then CHR ''s'' # fold_name (tl s)
      else if prefix [CHR 0xE2, CHR 0x84, CHR 0xAA] (c # s) then CHR ''k'' # fold_name (tl (tl s))
      else lower_char c # fold_name s)"

fun index_of :: "('a \<Rightarrow> bool) \<Rightarrow> 'a list \<Rightarrow> nat option" where
  "index_of P [] = None"
| "index_of P (x # xs) = (if P x then Some 0 else map_option Suc (index_of P xs))"

definition field_index :: "(string \<times> gtype) list \<Rightarrow> string \<Rightarrow> nat option" where
  "field_index fs key =
     (case index_of (\<lambda>(n, _). n = key) fs of
        Some i \<Rightarrow> Some i
      | None \<Rightarrow> index_of (\<lambda>(n, _). fold_name n = fold_name key) fs)"

text \<open>A number stores into an integer only if its text is an integer in range: no fraction, no
  exponent.\<close>

definition int_text :: "string \<Rightarrow> int option" where
  "int_text n = (case Atoi n of Inr i \<Rightarrow> Some i | Inl _ \<Rightarrow> None)"

definition uint_text :: "string \<Rightarrow> 64 word option" where
  "uint_text n = (case ParseUint64 n of Inr w \<Rightarrow> Some w | Inl _ \<Rightarrow> None)"

section \<open>Decoding\<close>

fun slice_of :: "gval \<Rightarrow> gval list" where
  "slice_of (GSlice xs) = xs"
| "slice_of (GStruct xs) = xs"
| "slice_of _ = []"

fun pointee :: "gtype \<Rightarrow> gval \<Rightarrow> gval" where
  "pointee t (GPtr (Some x)) = x"
| "pointee t _ = zero_val t"

fun decode_null :: "gtype \<Rightarrow> gval \<Rightarrow> gval" where
  "decode_null (TyPtr t) old = GPtr None"
| "decode_null (TySlice t) old = GSlice []"
| "decode_null TyRaw old = GRaw (Some VNull)"
| "decode_null _ old = old"

function decode :: "gtype \<Rightarrow> gval \<Rightarrow> jval \<Rightarrow> gval \<times> bool"
  and decode_elems :: "gtype \<Rightarrow> gval list \<Rightarrow> jval list \<Rightarrow> gval list \<times> bool"
  and decode_members :: "(string \<times> gtype) list \<Rightarrow> gval list \<Rightarrow> (string \<times> jval) list \<Rightarrow> gval list \<times> bool"
where
  "decode ty old v =
     (if v = VNull then (decode_null ty old, True)
      else case ty of
        TyRaw \<Rightarrow> (GRaw (Some v), True)
      | TyPtr t \<Rightarrow> apfst (GPtr \<circ> Some) (decode t (pointee t old) v)
      | TyBool \<Rightarrow> (case v of VBool b \<Rightarrow> (GBool b, True) | _ \<Rightarrow> (old, False))
      | TyString \<Rightarrow> (case v of VStr s \<Rightarrow> (GString s, True) | _ \<Rightarrow> (old, False))
      | TyInt \<Rightarrow>
          (case v of
             VNum n \<Rightarrow> (case int_text n of Some i \<Rightarrow> (GInt i, True) | None \<Rightarrow> (old, False))
           | _ \<Rightarrow> (old, False))
      | TyUint64 \<Rightarrow>
          (case v of
             VNum n \<Rightarrow> (case uint_text n of Some w \<Rightarrow> (GUint w, True) | None \<Rightarrow> (old, False))
           | _ \<Rightarrow> (old, False))
      | TySlice t \<Rightarrow>
          (case v of VArr vs \<Rightarrow> apfst GSlice (decode_elems t (slice_of old) vs) | _ \<Rightarrow> (old, False))
      | TyStruct fs \<Rightarrow>
          (case v of VObj ms \<Rightarrow> apfst GStruct (decode_members fs (slice_of old) ms) | _ \<Rightarrow> (old, False)))"
| "decode_elems t os [] = ([], True)"
| "decode_elems t os (v # vs) =
     (let (x, ok) = decode t (case os of o' # _ \<Rightarrow> o' | [] \<Rightarrow> zero_val t) v;
          (xs, ok') = decode_elems t (tl os) vs
      in (x # xs, ok \<and> ok'))"
| "decode_members fs os [] = (os, True)"
| "decode_members fs os ((k, v) # ms) =
     (case field_index fs k of
        None \<Rightarrow> decode_members fs os ms
      | Some i \<Rightarrow>
          (let (x, ok) = decode (snd (fs ! i)) (os ! i) v;
               (xs, ok') = decode_members fs (os[i := x]) ms
           in (xs, ok \<and> ok')))"
  by pat_completeness auto
termination
  by (relation "measures
    [\<lambda>p. case p of Inl (ty, old, v) \<Rightarrow> size v
       | Inr (Inl (t, os, vs)) \<Rightarrow> size_list size vs
       | Inr (Inr (fs, os, ms)) \<Rightarrow> size_list (size_prod (\<lambda>_. 0) size) ms,
     \<lambda>p. case p of Inl (ty, old, v) \<Rightarrow> size ty | _ \<Rightarrow> 0]") auto

declare decode.simps [simp del]

definition Unmarshal :: "gtype \<Rightarrow> jval \<Rightarrow> gval option" where
  "Unmarshal ty v = (case decode ty (zero_val ty) v of (x, ok) \<Rightarrow> if ok then Some x else None)"

section \<open>Types\<close>

fun typed :: "gtype \<Rightarrow> gval \<Rightarrow> bool" where
  "typed TyBool (GBool b) = True"
| "typed TyInt (GInt i) = int64_ok i"
| "typed TyUint64 (GUint w) = True"
| "typed TyString (GString s) = True"
| "typed TyRaw (GRaw r) = True"
| "typed (TyPtr t) (GPtr None) = True"
| "typed (TyPtr t) (GPtr (Some x)) = typed t x"
| "typed (TySlice t) (GSlice xs) = list_all (typed t) xs"
| "typed (TyStruct []) (GStruct []) = True"
| "typed (TyStruct ((n, t) # fs)) (GStruct (x # xs)) \<longleftrightarrow> typed t x \<and> typed (TyStruct fs) (GStruct xs)"
| "typed _ _ = False"

inductive conforms :: "jval \<Rightarrow> gtype \<Rightarrow> bool" where
  null: "conforms VNull t"
| raw: "conforms v TyRaw"
| ptr: "conforms v t \<Longrightarrow> conforms v (TyPtr t)"
| bool: "conforms (VBool b) TyBool"
| string: "conforms (VStr s) TyString"
| int: "int_text n = Some i \<Longrightarrow> conforms (VNum n) TyInt"
| uint: "uint_text n = Some w \<Longrightarrow> conforms (VNum n) TyUint64"
| slice: "(\<And>v. v \<in> set vs \<Longrightarrow> conforms v t) \<Longrightarrow> conforms (VArr vs) (TySlice t)"
| struct: "(\<And>k v i. (k, v) \<in> set ms \<Longrightarrow> field_index fs k = Some i \<Longrightarrow> conforms v (snd (fs ! i))) \<Longrightarrow>
    conforms (VObj ms) (TyStruct fs)"

inductive_simps conforms_simps:
  "conforms VNull t" "conforms v TyRaw" "conforms v TyBool" "conforms v TyString" "conforms v TyInt"
  "conforms v TyUint64" "conforms v (TyPtr t)" "conforms v (TySlice t)" "conforms v (TyStruct fs)"

lemma typed_struct:
  "typed (TyStruct fs) (GStruct xs) \<longleftrightarrow> list_all2 (\<lambda>f x. typed (snd f) x) fs xs"
proof (induction fs arbitrary: xs)
  case Nil
  then show ?case by (cases xs) simp_all
next
  case (Cons f fs)
  then show ?case by (cases f; cases xs) simp_all
qed

lemma typed_zero: "typed t (zero_val t)"
proof (induction t)
  case (TyStruct fs)
  then have "\<forall>f \<in> set fs. typed (snd f) (zero_val (snd f))"
    by (metis prod.collapse prod_set_simps(2) singletonI)
  then show ?case by (simp add: typed_struct list_all2_conv_all_nth)
qed (simp_all add: int64_ok_def)

lemma typed_forms:
  "typed (TyPtr t) x \<longleftrightarrow> (\<exists>p. x = GPtr p \<and> (\<forall>y. p = Some y \<longrightarrow> typed t y))"
  "typed (TySlice t) x \<longleftrightarrow> (\<exists>xs. x = GSlice xs \<and> list_all (typed t) xs)"
  "typed (TyStruct fs) x \<longleftrightarrow> (\<exists>xs. x = GStruct xs \<and> list_all2 (\<lambda>f x. typed (snd f) x) fs xs)"
  "typed TyInt x \<longleftrightarrow> (\<exists>i. x = GInt i \<and> int64_ok i)"
  "typed TyBool x \<longleftrightarrow> (\<exists>b. x = GBool b)"
  "typed TyString x \<longleftrightarrow> (\<exists>s. x = GString s)"
  "typed TyUint64 x \<longleftrightarrow> (\<exists>w. x = GUint w)"
  "typed TyRaw x \<longleftrightarrow> (\<exists>r. x = GRaw r)"
proof -
  show "typed (TyStruct fs) x \<longleftrightarrow> (\<exists>xs. x = GStruct xs \<and> list_all2 (\<lambda>f x. typed (snd f) x) fs xs)"
    by (cases x; cases fs) (auto simp: typed_struct simp del: typed.simps(9,10))
  show "typed (TyPtr t) x \<longleftrightarrow> (\<exists>p. x = GPtr p \<and> (\<forall>y. p = Some y \<longrightarrow> typed t y))"
    by (cases x; cases "case x of GPtr p \<Rightarrow> p | _ \<Rightarrow> None") auto
qed (cases x; simp)+

lemma index_of_less: "index_of P xs = Some i \<Longrightarrow> i < length xs"
  by (induction xs arbitrary: i) (auto split: if_splits)

lemma field_index_less: "field_index fs k = Some i \<Longrightarrow> i < length fs"
  by (auto simp: field_index_def dest: index_of_less split: option.splits)

lemma int_text_ok: "int_text n = Some i \<Longrightarrow> int64_ok i"
  by (auto simp: int_text_def dest: Atoi_range split: sum.splits)

section \<open>Decoding keeps the type\<close>

lemma pointee_typed: "typed (TyPtr t) old \<Longrightarrow> typed t (pointee t old)"
proof -
  assume "typed (TyPtr t) old"
  then obtain p where "old = GPtr p" "\<forall>y. p = Some y \<longrightarrow> typed t y" by (auto simp: typed_forms)
  then show ?thesis by (cases p) (simp_all add: typed_zero)
qed

lemma decode_null_typed: "typed t old \<Longrightarrow> typed t (decode_null t old)"
  by (cases t) (auto simp: typed_forms)

lemma decode_typed:
  "typed ty old \<Longrightarrow> typed ty (fst (decode ty old v))"
  "list_all (typed t) os \<Longrightarrow> list_all (typed t) (fst (decode_elems t os vs))"
  "list_all2 (\<lambda>f x. typed (snd f) x) fs os \<Longrightarrow>
     list_all2 (\<lambda>f x. typed (snd f) x) fs (fst (decode_members fs os ms))"
proof (induction ty old v and t os vs and fs os ms rule: decode_decode_elems_decode_members.induct)
  case (1 ty old v)
  show ?case
  proof (cases "v = VNull")
    case True
    then show ?thesis using 1(4) by (simp add: decode.simps decode_null_typed)
  next
    case False
    note ih = 1(1-3) [OF False]
    show ?thesis
    proof (cases ty)
      case (TyPtr t)
      then show ?thesis using ih(1) [OF TyPtr] pointee_typed 1(4) False
        by (simp add: decode.simps)
    next
      case (TySlice t)
      then show ?thesis using ih(2) [OF TySlice] 1(4) False
        by (auto simp: decode.simps typed_forms split: jval.splits)
    next
      case (TyStruct fs)
      then show ?thesis using ih(3) [OF TyStruct] 1(4) False
        by (auto simp: decode.simps typed_forms split: jval.splits)
    qed (use 1(4) False int_text_ok in \<open>auto simp: decode.simps split: jval.splits option.splits\<close>)
  qed
next
  case (3 t os v vs)
  have "typed t (case os of o' # _ \<Rightarrow> o' | [] \<Rightarrow> zero_val t)" "list_all (typed t) (tl os)"
    using 3(3) typed_zero by (cases os; simp)+
  then show ?case using 3(1,2) by (auto split: prod.splits)
next
  case (5 fs os k v ms)
  show ?case
  proof (cases "field_index fs k")
    case None
    then show ?thesis using 5(1,4) by simp
  next
    case (Some i)
    obtain x ok where x: "decode (snd (fs ! i)) (os ! i) v = (x, ok)" by fastforce
    have i: "i < length fs" "length os = length fs"
      using field_index_less [OF Some] 5(4) by (simp_all add: list_all2_lengthD)
    then have "typed (snd (fs ! i)) x"
      using 5(2) [OF Some] x list_all2_nthD2 [OF 5(4)] by auto
    then have "list_all2 (\<lambda>f x. typed (snd f) x) fs (os[i := x])"
      using 5(4) i by (simp add: list_all2_conv_all_nth nth_list_update)
    then show ?thesis using 5(3) [OF Some x [symmetric]] Some x by (auto split: prod.splits)
  qed
qed simp_all

text \<open>There is a type error exactly where the value does not conform.\<close>

lemma decode_ok:
  "snd (decode ty old v) \<longleftrightarrow> conforms v ty"
  "snd (decode_elems t os vs) \<longleftrightarrow> (\<forall>v \<in> set vs. conforms v t)"
  "snd (decode_members fs os ms) \<longleftrightarrow>
     (\<forall>(k, v) \<in> set ms. \<forall>i. field_index fs k = Some i \<longrightarrow> conforms v (snd (fs ! i)))"
proof (induction ty old v and t os vs and fs os ms rule: decode_decode_elems_decode_members.induct)
  case (1 ty old v)
  show ?case
  proof (cases "v = VNull")
    case True
    then show ?thesis by (simp add: decode.simps conforms_simps)
  next
    case False
    note ih = 1 [OF False]
    show ?thesis
    proof (cases ty)
      case (TyPtr t)
      then show ?thesis using ih(1) [OF TyPtr] False by (simp add: decode.simps conforms_simps)
    next
      case (TySlice t)
      then show ?thesis using ih(2) [OF TySlice] False
        by (auto simp: decode.simps conforms_simps split: jval.splits)
    next
      case (TyStruct fs)
      then show ?thesis using ih(3) [OF TyStruct] False
        by (auto simp: decode.simps conforms_simps split: jval.splits)
    qed (use False in \<open>auto simp: decode.simps conforms_simps split: jval.splits option.splits\<close>)
  qed
next
  case (3 t os v vs)
  then show ?case by (auto split: prod.splits)
next
  case (5 fs os k v ms)
  show ?case
  proof (cases "field_index fs k")
    case None
    then show ?thesis using 5(1) by simp
  next
    case (Some i)
    obtain x ok where x: "decode (snd (fs ! i)) (os ! i) v = (x, ok)" by fastforce
    then show ?thesis using 5(2) [OF Some] 5(3) [OF Some x [symmetric]] Some by (auto split: prod.splits)
  qed
qed simp_all

lemma Unmarshal_typed: "Unmarshal ty v = Some x \<Longrightarrow> typed ty x"
  using decode_typed(1) [OF typed_zero, of ty v] by (auto simp: Unmarshal_def split: prod.splits if_splits)

lemma Unmarshal_Some_iff: "(\<exists>x. Unmarshal ty v = Some x) \<longleftrightarrow> conforms v ty"
  using decode_ok(1) [of ty "zero_val ty" v] by (auto simp: Unmarshal_def split: prod.splits)


lemma Unmarshal_None_iff: "Unmarshal ty v = None \<longleftrightarrow> \<not> conforms v ty"
  using Unmarshal_Some_iff [of ty v] by (metis not_None_eq)

end
