(* ===== verification/TelemtAPI.thy ===== *)
theory TelemtAPI imports TelemtClient JsonDecode GoURL begin

text \<open>
  \<open>internal/telemt/client/client.go\<close>: the exchange with telemt's Control API. \<open>client_do\<close> sends a
  request and reads the envelope of the reply; \<open>Health\<close>, \<open>Users\<close> and \<open>PatchUser\<close> are the calls the
  panel makes, and \<open>api_client\<close> is the client as the service and the poller see it. What
  \<open>http.Client.Do\<close> does with a request is an argument, and so are the texts of the errors of
  \<open>net/url\<close> and \<open>encoding/json\<close>. A \<open>json.RawMessage\<close> is held parsed.
\<close>

record http_request =
  hr_Method :: string
  hr_URL :: string
  hr_Header :: "(string \<times> string) list"
  hr_Body :: "string option"

text \<open>A response: its status and the bytes of its body up to its end, or up to an error.\<close>

record http_response =
  hs_StatusCode :: int
  hs_Body :: string
  hs_ReadError :: "gerror option"

record transport =
  tr_Do :: "bool \<Rightarrow> nat \<Rightarrow> http_request \<Rightarrow> gerror + http_response"
  tr_ParseError :: "string \<Rightarrow> gerror"
  tr_TypeError :: "gtype \<Rightarrow> jval \<Rightarrow> gerror"

definition unexpected_end :: gerror where
  "unexpected_end = errorf ''unexpected end of JSON input''"

section \<open>Types of the replies\<close>

definition envelope_type :: gtype where
  "envelope_type = TyStruct
     [(''ok'', TyBool), (''data'', TyRaw),
      (''error'', TyPtr (TyStruct [(''code'', TyString), (''message'', TyString)]))]"

definition links_type :: gtype where
  "links_type = TyStruct
     [(''classic'', TySlice TyString), (''secure'', TySlice TyString), (''tls'', TySlice TyString),
      (''tls_domains'', TySlice (TyStruct [(''domain'', TyString), (''link'', TyString)]))]"

definition user_type :: gtype where
  "user_type = TyStruct
     [(''username'', TyString), (''enabled'', TyBool), (''in_runtime'', TyBool),
      (''user_ad_tag'', TyPtr TyString), (''current_connections'', TyUint64),
      (''active_unique_ips'', TyInt), (''active_unique_ips_list'', TySlice TyString),
      (''total_octets'', TyUint64), (''data_quota_bytes'', TyPtr TyUint64),
      (''expiration_rfc3339'', TyPtr TyString), (''max_tcp_conns'', TyPtr TyInt),
      (''max_unique_ips'', TyPtr TyInt), (''links'', links_type)]"

record envelope =
  en_OK :: bool
  en_Data :: "jval option"
  en_Error :: "(string \<times> string) option"

fun the_string :: "gval \<Rightarrow> string" where
  "the_string (GString s) = s"
| "the_string _ = ''''"

fun the_int :: "gval \<Rightarrow> int" where
  "the_int (GInt i) = i"
| "the_int _ = 0"

fun the_uint :: "gval \<Rightarrow> 64 word" where
  "the_uint (GUint w) = w"
| "the_uint _ = 0"

fun the_bool :: "gval \<Rightarrow> bool" where
  "the_bool (GBool b) = b"
| "the_bool _ = False"

fun the_raw :: "gval \<Rightarrow> jval option" where
  "the_raw (GRaw r) = r"
| "the_raw _ = None"

fun the_ptr :: "gval \<Rightarrow> gval option" where
  "the_ptr (GPtr p) = p"
| "the_ptr _ = None"

definition envelope_of :: "gval \<Rightarrow> envelope" where
  "envelope_of x =
     (let f = (!) (slice_of x) in
      \<lparr>en_OK = the_bool (f 0), en_Data = the_raw (f 1),
       en_Error = map_option (\<lambda>e. (the_string (slice_of e ! 0), the_string (slice_of e ! 1))) (the_ptr (f 2))\<rparr>)"

definition links_of :: "gval \<Rightarrow> user_links" where
  "links_of x =
     (let f = (!) (slice_of x) in
      \<lparr>ul_Classic = map the_string (slice_of (f 0)), ul_Secure = map the_string (slice_of (f 1)),
       ul_TLS = map the_string (slice_of (f 2)),
       ul_TLSDomains = map (\<lambda>d. (the_string (slice_of d ! 0), the_string (slice_of d ! 1))) (slice_of (f 3))\<rparr>)"

definition user_of :: "gval \<Rightarrow> user_info" where
  "user_of x =
     (let f = (!) (slice_of x) in
      \<lparr>ui_Username = the_string (f 0), ui_Enabled = the_bool (f 1), ui_InRuntime = the_bool (f 2),
       ui_UserAdTag = map_option the_string (the_ptr (f 3)), ui_CurrentConnections = the_uint (f 4),
       ui_ActiveUniqueIPs = the_int (f 5), ui_ActiveUniqueIPsList = map the_string (slice_of (f 6)),
       ui_TotalOctets = the_uint (f 7), ui_DataQuotaBytes = map_option the_uint (the_ptr (f 8)),
       ui_ExpirationRFC3339 = map_option the_string (the_ptr (f 9)),
       ui_MaxTCPConns = map_option the_int (the_ptr (f 10)),
       ui_MaxUniqueIPs = map_option the_int (the_ptr (f 11)), ui_Links = links_of (f 12)\<rparr>)"

section \<open>One exchange\<close>

datatype api_failure = CallFailed gerror | Refused api_error

fun failure_error :: "api_failure \<Rightarrow> gerror" where
  "failure_error (CallFailed e) = e"
| "failure_error (Refused e) = errorf (APIError_Error e)"

definition body_limit :: nat where
  "body_limit = 4 * 1048576"

text \<open>\<open>io.ReadAll(io.LimitReader(resp.Body, 4<<20))\<close>: an error after the limit is never seen.\<close>

definition read_body :: "http_response \<Rightarrow> string res" where
  "read_body resp =
     (case hs_ReadError resp of
        Some e \<Rightarrow> if length (hs_Body resp) < body_limit then Inl e else Inr (take body_limit (hs_Body resp))
      | None \<Rightarrow> Inr (take body_limit (hs_Body resp)))"

definition read_envelope :: "string \<Rightarrow> envelope option" where
  "read_envelope raw =
     (case json_parse raw of
        None \<Rightarrow> None
      | Some v \<Rightarrow> map_option envelope_of (Unmarshal envelope_type v))"

definition not_an_envelope :: "int \<Rightarrow> api_error" where
  "not_an_envelope status =
     \<lparr>ae_Status = status, ae_Code = ''invalid_response'',
      ae_Message = ''response was not a telemt JSON envelope''\<rparr>"

definition refusal :: "int \<Rightarrow> envelope \<Rightarrow> api_error" where
  "refusal status env =
     (case en_Error env of
        Some (code, message) \<Rightarrow> \<lparr>ae_Status = status, ae_Code = code, ae_Message = message\<rparr>
      | None \<Rightarrow> \<lparr>ae_Status = status, ae_Code = '''', ae_Message = ''''\<rparr>)"

definition request_of :: "client \<Rightarrow> string \<Rightarrow> string \<Rightarrow> string option \<Rightarrow> http_request" where
  "request_of cl meth path body =
     \<lparr>hr_Method = meth, hr_URL = cl_baseURL cl @ path,
      hr_Header = (if cl_token cl \<noteq> '''' then [(''Authorization'', cl_token cl)] else []) @
        (if body \<noteq> None then [(''Content-Type'', ''application/json'')] else []),
      hr_Body = body\<rparr>"

definition client_do :: "transport \<Rightarrow> client \<Rightarrow> bool \<Rightarrow> nat \<Rightarrow> string \<Rightarrow> string \<Rightarrow> string option \<Rightarrow>
    api_failure + jval option" where
  "client_do tr cl c n meth path body =
     (if url_Parse (cl_baseURL cl @ path) = None then
        Inl (CallFailed (errorf_wrap ''telemt api: build request: '' (tr_ParseError tr (cl_baseURL cl @ path))))
      else case tr_Do tr c n (request_of cl meth path body) of
        Inl e \<Rightarrow> Inl (CallFailed (errorf_wrap (''telemt api: '' @ meth @ '' '' @ path @ '': '') e))
      | Inr resp \<Rightarrow>
          (case read_body resp of
             Inl e \<Rightarrow> Inl (CallFailed (errorf_wrap ''telemt api: read body: '' e))
           | Inr raw \<Rightarrow>
               (case read_envelope raw of
                  None \<Rightarrow> Inl (Refused (not_an_envelope (hs_StatusCode resp)))
                | Some env \<Rightarrow>
                    if \<not> en_OK env \<or> 400 \<le> hs_StatusCode resp
                    then Inl (Refused (refusal (hs_StatusCode resp) env))
                    else Inr (en_Data env))))"

section \<open>The calls\<close>

text \<open>\<open>json.Unmarshal\<close> of a raw message that was absent fails on its empty text.\<close>

definition unmarshal_raw :: "transport \<Rightarrow> gtype \<Rightarrow> jval option \<Rightarrow> gval res" where
  "unmarshal_raw tr ty raw =
     (case raw of
        None \<Rightarrow> Inl unexpected_end
      | Some v \<Rightarrow> (case Unmarshal ty v of Some x \<Rightarrow> Inr x | None \<Rightarrow> Inl (tr_TypeError tr ty v)))"

definition client_Health :: "transport \<Rightarrow> client \<Rightarrow> bool \<Rightarrow> nat \<Rightarrow> gerror option" where
  "client_Health tr cl c n =
     (case client_do tr cl c n ''GET'' ''/v1/health'' None of
        Inl f \<Rightarrow> Some (failure_error f)
      | Inr _ \<Rightarrow> None)"

definition client_Users :: "transport \<Rightarrow> client \<Rightarrow> bool \<Rightarrow> nat \<Rightarrow> user_info list res" where
  "client_Users tr cl c n =
     (case client_do tr cl c n ''GET'' ''/v1/users'' None of
        Inl f \<Rightarrow> Inl (failure_error f)
      | Inr raw \<Rightarrow>
          (case unmarshal_raw tr (TySlice user_type) raw of
             Inl e \<Rightarrow> Inl (errorf_wrap ''telemt api: decode users: '' e)
           | Inr x \<Rightarrow> Inr (map user_of (slice_of x))))"

text \<open>\<open>url.PathEscape\<close>.\<close>

definition path_char :: "char \<Rightarrow> bool" where
  "path_char c \<longleftrightarrow> unreserved c \<or> c \<in> set ''$&+:=@''"

definition PathEscape :: "string \<Rightarrow> string" where
  "PathEscape s = concat (map (\<lambda>c. if path_char c then [c]
     else [CHR ''%'', upper_hex_digit (code_of c div 16), upper_hex_digit (code_of c mod 16)]) s)"

definition client_PatchUser :: "transport \<Rightarrow> client \<Rightarrow> bool \<Rightarrow> nat \<Rightarrow> string \<Rightarrow> patch_user \<Rightarrow> user_info res" where
  "client_PatchUser tr cl c n username p =
     (case client_do tr cl c n ''PATCH'' (''/v1/users/'' @ PathEscape username) (Some (MarshalJSON p)) of
        Inl f \<Rightarrow> Inl (failure_error f)
      | Inr raw \<Rightarrow>
          (case unmarshal_raw tr user_type raw of
             Inl e \<Rightarrow> Inl (errorf_wrap ''telemt api: decode user: '' e)
           | Inr x \<Rightarrow> Inr (user_of x)))"

definition api_client :: "transport \<Rightarrow> client \<Rightarrow> telemt_client" where
  "api_client tr cl =
     \<lparr>tc_Health = client_Health tr cl, tc_Users = client_Users tr cl,
      tc_PatchUser = client_PatchUser tr cl\<rparr>"


section \<open>Every outcome of an exchange\<close>

lemma read_envelope_None:
  "read_envelope raw = None \<longleftrightarrow> (\<forall>v. json_parse raw = Some v \<longrightarrow> \<not> conforms v envelope_type)"
  by (auto simp: read_envelope_def Unmarshal_None_iff split: option.splits)

lemma client_do_Inr:
  "client_do tr cl c n meth path body = Inr d \<longleftrightarrow>
     url_Parse (cl_baseURL cl @ path) \<noteq> None \<and>
     (\<exists>resp raw env. tr_Do tr c n (request_of cl meth path body) = Inr resp \<and> read_body resp = Inr raw \<and>
        read_envelope raw = Some env \<and> en_OK env \<and> hs_StatusCode resp < 400 \<and> d = en_Data env)"
  by (auto simp: client_do_def not_le split: sum.splits option.splits)

lemma client_do_Refused:
  "client_do tr cl c n meth path body = Inl (Refused e) \<longleftrightarrow>
     url_Parse (cl_baseURL cl @ path) \<noteq> None \<and>
     (\<exists>resp raw. tr_Do tr c n (request_of cl meth path body) = Inr resp \<and> read_body resp = Inr raw \<and>
        (read_envelope raw = None \<and> e = not_an_envelope (hs_StatusCode resp) \<or>
         (\<exists>env. read_envelope raw = Some env \<and> (\<not> en_OK env \<or> 400 \<le> hs_StatusCode resp) \<and>
            e = refusal (hs_StatusCode resp) env)))"
  by (auto simp: client_do_def split: sum.splits option.splits)

lemma refusal_status [simp]:
  "ae_Status (refusal st env) = st" "ae_Status (not_an_envelope st) = st"
  by (auto simp: refusal_def not_an_envelope_def split: option.splits)

text \<open>Of any body the client holds at most the limit.\<close>

lemma read_body_limit: "read_body resp = Inr raw \<Longrightarrow> length raw \<le> body_limit"
  by (auto simp: read_body_def split: option.splits if_splits)

section \<open>The decoded replies\<close>

definition user_in_range :: "user_info \<Rightarrow> bool" where
  "user_in_range u \<longleftrightarrow> int64_ok (ui_ActiveUniqueIPs u) \<and> pred_option int64_ok (ui_MaxTCPConns u) \<and>
     pred_option int64_ok (ui_MaxUniqueIPs u)"

lemma user_of_typed:
  assumes "typed user_type x"
  shows "user_in_range (user_of x)"
proof -
  obtain xs where xs: "x = GStruct xs" and t: "typed user_type (GStruct xs)"
    using assms by (auto simp: user_type_def typed_forms(3))
  have len: "length xs = 13" using t by (auto simp: user_type_def typed_struct dest: list_all2_lengthD)
  have f: "typed TyInt (xs ! 5)" "typed (TyPtr TyInt) (xs ! 10)" "typed (TyPtr TyInt) (xs ! 11)"
    using t list_all2_nthD [of _ _ xs 5] list_all2_nthD [of _ _ xs 10] list_all2_nthD [of _ _ xs 11]
    unfolding user_type_def typed_struct by fastforce+
  have p: "pred_option int64_ok (map_option the_int (the_ptr y))" if "typed (TyPtr TyInt) y" for y
    using that by (auto simp: typed_forms pred_option_def)
  have "int64_ok (the_int (xs ! 5))" using f(1) by (auto simp: typed_forms)
  then show ?thesis using p [OF f(2)] p [OF f(3)] by (simp add: user_in_range_def user_of_def xs Let_def)
qed

lemma unmarshal_raw_Inr:
  "(\<exists>x. unmarshal_raw tr ty raw = Inr x) \<longleftrightarrow> (\<exists>v. raw = Some v \<and> conforms v ty)"
  using Unmarshal_Some_iff [of ty] Unmarshal_None_iff [of ty]
  by (auto simp: unmarshal_raw_def split: option.splits)

lemma unmarshal_raw_typed: "unmarshal_raw tr ty raw = Inr x \<Longrightarrow> typed ty x"
  by (auto simp: unmarshal_raw_def dest: Unmarshal_typed split: option.splits)

lemma client_Users_Inr:
  assumes "client_do tr cl c n ''GET'' ''/v1/users'' None = Inr raw"
  shows "(\<exists>us. client_Users tr cl c n = Inr us) \<longleftrightarrow> (\<exists>v. raw = Some v \<and> conforms v (TySlice user_type))"
  unfolding unmarshal_raw_Inr [of tr, symmetric] by (auto simp: client_Users_def assms split: sum.splits)

lemma client_Users_typed:
  assumes "client_Users tr cl c n = Inr us" "u \<in> set us"
  shows "user_in_range u"
proof -
  obtain raw x where x: "unmarshal_raw tr (TySlice user_type) raw = Inr x" "us = map user_of (slice_of x)"
    using assms(1) by (auto simp: client_Users_def split: sum.splits)
  obtain xs where "x = GSlice xs" "list_all (typed user_type) xs"
    using unmarshal_raw_typed [OF x(1)] by (auto simp: typed_forms)
  then show ?thesis using x(2) assms(2) user_of_typed by (auto simp: list_all_iff)
qed

lemma client_PatchUser_typed:
  assumes "client_PatchUser tr cl c n username p = Inr u"
  shows "user_in_range u"
proof -
  obtain raw x where x: "unmarshal_raw tr user_type raw = Inr x" "u = user_of x"
    using assms by (auto simp: client_PatchUser_def split: sum.splits)
  then show ?thesis using user_of_typed unmarshal_raw_typed by simp
qed

section \<open>Running the parser\<close>

lemma json_value_numeral [simp]:
  "json_value (numeral k) s = value_with (Some (json_value (pred_numeral k))) s"
  by (simp add: numeral_eq_Suc)

lemma elements_numeral [simp]:
  "elements p (numeral k) s =
     (case p s of
        None \<Rightarrow> None
      | Some (v, s1) \<Rightarrow>
          (case skip_ws s1 of
             [] \<Rightarrow> None
           | c # t \<Rightarrow> if c = CHR '']'' then Some ([v], t)
                     else if c = CHR '','' then map_option (apfst (Cons v)) (elements p (pred_numeral k) t)
                     else None))"
  by (simp add: numeral_eq_Suc)

lemma members_numeral [simp]:
  "members p (numeral k) s =
     (case member p s of
        None \<Rightarrow> None
      | Some (m, s1) \<Rightarrow>
          (case skip_ws s1 of
             [] \<Rightarrow> None
           | c # t \<Rightarrow> if c = CHR ''}'' then Some ([m], t)
                     else if c = CHR '','' then map_option (apfst (Cons m)) (members p (pred_numeral k) t)
                     else None))"
  by (simp add: numeral_eq_Suc)

end
