(* ===== verification/PanelMain.thy ===== *)
theory PanelMain imports Site Docker TelemtAPI begin

text \<open>
  \<open>cmd/panel/main.go\<close>, with \<open>web.NewServer\<close> and \<open>store.Open\<close>: the boot sequence of the panel, from
  the environment to the listening server. A \<open>log.Fatalf\<close> ends it with a message; everything else it
  logs is part of the result. The background pull of the image, the poller's goroutine and the shutdown
  run beside the server and are separate definitions. What the boot hands over to the server satisfies
  the invariant of the whole site.
\<close>

section \<open>Opening the store\<close>

text \<open>\<open>sql.Open\<close> and the execution of the schema, which creates only what is missing: the tables of
  the world's database are those of the file.\<close>

record sqlite =
  sq_Open :: "string \<Rightarrow> gerror option"
  sq_Schema :: "gerror option"

definition store_Open :: "sqlite \<Rightarrow> string \<Rightarrow> gerror option" where
  "store_Open sq path =
     (case sq_Open sq (path @ ''?_pragma=busy_timeout(5000)&_pragma=foreign_keys(1)'') of
        Some e \<Rightarrow> Some (errorf_wrap (''store: open '' @ path @ '': '') e)
      | None \<Rightarrow>
          (case sq_Schema sq of
             Some e \<Rightarrow> Some (errorf_wrap ''store: migrate: '' e)
           | None \<Rightarrow> None))"

section \<open>The server\<close>

definition page_names :: "string list" where
  "page_names = [''login.html'', ''change_password.html'', ''proxies.html'', ''proxy.html'']"

fun parse_pages :: "(string list \<Rightarrow> gerror option) \<Rightarrow> string list \<Rightarrow> gerror option" where
  "parse_pages ParseFS [] = None"
| "parse_pages ParseFS (name # names) =
     (case ParseFS [''templates/layout.html'', ''templates/_rows.html'', ''templates/'' @ name] of
        Some e \<Rightarrow> Some (errorf_wrap (''web: parse '' @ name @ '': '') e)
      | None \<Rightarrow> parse_pages ParseFS names)"

text \<open>What \<open>NewServer\<close> can fail with; the routes it sets up are \<open>route\<close>.\<close>

definition NewServer :: "(string list \<Rightarrow> gerror option) \<Rightarrow> gerror option \<Rightarrow> gerror option" where
  "NewServer ParseFS static =
     (case parse_pages ParseFS page_names of
        Some e \<Rightarrow> Some e
      | None \<Rightarrow> map_option (errorf_wrap ''web: static assets: '') static)"

section \<open>The machine\<close>

text \<open>What surrounds the program: the environment variables, the operating system, SQLite, the Docker
  client, HTTP towards telemt, the random and hash functions, the embedded assets, and what the
  handlers take from libraries.\<close>

record 'r machine =
  ma_getenv :: "string \<Rightarrow> string"
  ma_platform :: platform
  ma_sqlite :: sqlite
  ma_docker :: "gerror + 'r docker_sdk"
  ma_transport :: transport
  ma_crypto :: crypto
  ma_ParseFS :: "string list \<Rightarrow> gerror option"
  ma_static :: "gerror option"
  ma_pick :: "attempts \<Rightarrow> attempts"
  ma_qr :: "string \<Rightarrow> string res"
  ma_rows :: "page \<Rightarrow> string res"
  ma_flusher :: bool

definition host_data_dir :: "(string \<Rightarrow> string) \<Rightarrow> config \<Rightarrow> string" where
  "host_data_dir getenv cfg =
     (let h = getenv ''PANEL_HOST_DATA_DIR'' in if h = '''' then cf_DataDir cfg else h)"

definition host_dir_warning :: "(string \<Rightarrow> string) \<Rightarrow> config \<Rightarrow> string list" where
  "host_dir_warning getenv cfg =
     (let warn = ValidateHostDataDir (host_data_dir getenv cfg) (cf_DataDir cfg)
      in if warn \<noteq> '''' then [''warning: '' @ warn] else [])"

definition boot_service :: "'r machine \<Rightarrow> 'r runtime \<Rightarrow> config \<Rightarrow> 'r service" where
  "boot_service m rt cfg =
     New (ma_platform m) (api_client (ma_transport m))
       \<lparr>dp_Runtime = rt, dp_Cfg = cfg, dp_HostDataDir = host_data_dir (ma_getenv m) cfg,
        dp_NewClient = None, dp_HealthBudget = 0\<rparr>"

definition boot_deps :: "'r machine \<Rightarrow> 'r service \<Rightarrow> 'r web_deps" where
  "boot_deps m sv =
     \<lparr>wd_Proxy = sv, wd_crypto = ma_crypto m, wd_pick = ma_pick m, wd_qr = ma_qr m, wd_rows = ma_rows m,
      wd_flusher = ma_flusher m\<rparr>"

definition password_log :: "string \<Rightarrow> string list" where
  "password_log pw =
     (if pw = '''' then []
      else [''====================================================='',
            ''  first-boot admin password: '' @ pw,
            ''  username: admin '' @ em_dash @ '' you will be asked to change this'',
            ''====================================================='']) "

definition network_log :: "gerror option \<Rightarrow> string list" where
  "network_log e = (case e of Some e \<Rightarrow> [''warning: ensure network: '' @ err_text e] | None \<Rightarrow> [])"

definition reconcile_log :: "reconcile_report res \<Rightarrow> string list" where
  "reconcile_log r =
     (case r of
        Inl e \<Rightarrow> [''warning: reconcile: '' @ err_text e]
      | Inr rep \<Rightarrow>
          [''reconcile: '' @ Itoa (int (length (rp_Restarted rep))) @ '' restarted, '' @
           Itoa (int (length (rp_CleanedUp rep))) @ '' cleaned up, '' @
           Itoa (int (length (rp_Orphans rep))) @ '' orphans''])"

section \<open>Booting\<close>

datatype 'r outcome = Fatal string | Serving "'r web_deps" "'r site"

text \<open>From the first boot password on: everything that runs with the service in place.\<close>

definition boot_started :: "'r machine \<Rightarrow> ctx \<Rightarrow> 'r service \<Rightarrow> string list \<Rightarrow> 'r world \<Rightarrow>
    string list \<times> 'r outcome \<times> 'r world" where
  "boot_started m c sv lines w =
     (let (pw, w) = Bootstrap (ma_crypto m) (sv_pl sv) c w in
      case pw of
        Inl e \<Rightarrow> (lines, Fatal (''bootstrap: '' @ err_text e), w)
      | Inr pw \<Rightarrow>
          (let (ne, w) = call_rt (\<lambda>b. rt_EnsureNetwork (sv_Runtime sv) b (cf_Network (sv_Cfg sv))
                 (cf_NetworkSubnet (sv_Cfg sv))) (sv_pl sv) c w;
               (rep, w) = Reconcile sv c w;
               lines = lines @ password_log pw @ network_log ne @ reconcile_log rep
           in case NewServer (ma_ParseFS m) (ma_static m) of
                Some e \<Rightarrow> (lines, Fatal (''server: '' @ err_text e), w)
              | None \<Rightarrow>
                  (lines @ [''panel listening on '' @ cf_ListenAddr (sv_Cfg sv)],
                   Serving (boot_deps m sv)
                     \<lparr>si_world = w, si_attempts = NewAuth, si_poller = poller_New, si_hub = hub_New\<rparr>, w)))"

definition boot :: "'r machine \<Rightarrow> ctx \<Rightarrow> 'r world \<Rightarrow> string list \<times> 'r outcome \<times> 'r world" where
  "boot m c w =
     (case Load (ma_getenv m) of
        Inl e \<Rightarrow> ([], Fatal (''config: '' @ err_text e), w)
      | Inr cfg \<Rightarrow>
          (let (e, w) = os_MkdirAll (ma_platform m) (filepath_Join [cf_DataDir cfg, ''proxies'']) w in
           case e of
             Some e \<Rightarrow> ([], Fatal (''data dir: '' @ err_text e), w)
           | None \<Rightarrow>
               (case store_Open (ma_sqlite m) (filepath_Join [cf_DataDir cfg, ''panel.db'']) of
                  Some e \<Rightarrow> ([], Fatal (''store: '' @ err_text e), w)
                | None \<Rightarrow>
                    (case NewDockerRuntime (ma_docker m) of
                       Inl e \<Rightarrow> ([], Fatal (''docker: '' @ err_text e), w)
                     | Inr rt \<Rightarrow>
                         boot_started m c (boot_service m rt cfg) (host_dir_warning (ma_getenv m) cfg) w))))"

section \<open>Beside the server\<close>

text \<open>The goroutine that pulls the image, on a context that the shutdown does not reach.\<close>

definition background_pull :: "'r service \<Rightarrow> ctx \<Rightarrow> 'r world \<Rightarrow> string list \<times> 'r world" where
  "background_pull sv c w =
     (let img = cf_TelemtImage (sv_Cfg sv);
          (e, w) = call_rt (\<lambda>b. rt_Pull (sv_Runtime sv) b img) (sv_pl sv) (WithoutCancel c) w
      in case e of
           Some e \<Rightarrow> ([''warning: pull '' @ img @ '': '' @ err_text e], w)
         | None \<Rightarrow> ([''telemt image '' @ img @ '' ready''], w))"

text \<open>How \<open>ListenAndServe\<close> ends: \<open>http.ErrServerClosed\<close> is the end by a shutdown.\<close>

datatype serve_end = ErrServerClosed | ServeError gerror

definition main_exit :: "serve_end option \<Rightarrow> string option" where
  "main_exit e = (case e of Some (ServeError e) \<Rightarrow> Some (''serve: '' @ err_text e) | _ \<Rightarrow> None)"

section \<open>The accounts during a boot\<close>

definition same_accounts :: "'r world \<Rightarrow> 'r world \<Rightarrow> bool" where
  "same_accounts w w' \<longleftrightarrow> t_admins (w_db w') = t_admins (w_db w) \<and> t_sessions (w_db w') = t_sessions (w_db w)"

lemma same_accounts_refl [simp]: "same_accounts w w"
  by (simp add: same_accounts_def)

lemma same_accounts_trans: "same_accounts w w1 \<Longrightarrow> same_accounts w1 w2 \<Longrightarrow> same_accounts w w2"
  by (simp add: same_accounts_def)

lemma same_accounts_db: "w_db w' = w_db w \<Longrightarrow> same_accounts w w'"
  by (simp add: same_accounts_def)

lemma update_accounts: "st_UpdateProxy pl c p w = (e, w') \<Longrightarrow> same_accounts w w'"
  by (auto simp: st_UpdateProxy_def db_exec_def same_accounts_def UpdateProxy_def update_proxy_def Let_def
      split: prod.splits option.splits if_splits sum.splits)

lemma delete_accounts: "st_DeleteProxy pl c pid w = (e, w') \<Longrightarrow> same_accounts w w'"
  by (auto simp: st_DeleteProxy_def db_exec_def same_accounts_def DeleteProxy_def Let_def
      split: prod.splits option.splits if_splits)

lemma record_error_accounts: "same_accounts w (record_error sv c p e w)"
  unfolding record_error_def by (rule update_accounts [OF surjective_pairing])

lemma rt_accounts: "call_rt f pl c w = (r, w') \<Longrightarrow> same_accounts w w'"
  by (drule call_rt_frame) (simp add: same_but_rt_def same_accounts_db)

lemma startContainer_accounts:
  assumes "startContainer sv c p w = (r, w')"
  shows "same_accounts w w'"
proof -
  obtain x w1 where cr: "call_rt (\<lambda>b. rt_Create (sv_Runtime sv) b (container_spec_of sv p)) (sv_pl sv) c w = (x, w1)"
    by fastforce
  note k1 = rt_accounts [OF cr]
  show ?thesis
  proof (cases x)
    case (Inl e)
    then have "w' = record_error sv c p e w1" using assms cr by (simp add: startContainer_def)
    then show ?thesis using same_accounts_trans [OF k1 record_error_accounts] by simp
  next
    case (Inr i)
    obtain e w2 where st: "call_rt (\<lambda>b. rt_Start (sv_Runtime sv) b i) (sv_pl sv) c w1 = (e, w2)" by fastforce
    note k2 = same_accounts_trans [OF k1 rt_accounts [OF st]]
    show ?thesis
    proof (cases e)
      case (Some e')
      then have "\<exists>p e. w' = record_error sv c p e w2" using assms cr st Inr by (auto simp: startContainer_def Let_def)
      then show ?thesis using same_accounts_trans [OF k2 record_error_accounts] by blast
    next
      case None
      obtain h w3 where wh: "waitHealthy sv c (p\<lparr>px_ContainerID := i\<rparr>) w2 = (h, w3)" by fastforce
      have k3: "same_accounts w w3"
        using same_accounts_trans [OF k2 same_accounts_db] waitHealthy_frame [OF wh] by (simp add: same_but_rt_def)
      obtain u w4 where up: "st_UpdateProxy (sv_pl sv) (WithoutCancel c)
          (set_outcome h (p\<lparr>px_ContainerID := i\<rparr>)) w3 = (u, w4)" by fastforce
      then have "w' = w4" using assms cr st wh Inr None by (auto simp: startContainer_def split: option.splits)
      then show ?thesis using same_accounts_trans [OF k3 update_accounts [OF up]] by simp
    qed
  qed
qed

lemma reconcile_row_accounts:
  "reconcile_row sv c cs p (rep, w) = (rep', w') \<Longrightarrow> same_accounts w w'"
  by (auto simp: reconcile_row_def Let_def split: option.splits prod.splits if_splits sum.splits
      dest!: update_accounts delete_accounts startContainer_accounts fs_frames
      simp: same_but_fs_def same_accounts_def)

lemma reconcile_rows_accounts:
  "fold (reconcile_row sv c cs) ps (rep, w) = (rep', w') \<Longrightarrow> same_accounts w w'"
proof (induction ps arbitrary: rep w)
  case Nil
  then show ?case by simp
next
  case (Cons p ps)
  obtain rep1 w1 where one: "reconcile_row sv c cs p (rep, w) = (rep1, w1)" by fastforce
  then show ?case using same_accounts_trans [OF reconcile_row_accounts [OF one]] Cons by simp
qed

lemma Reconcile_accounts:
  assumes "Reconcile sv c w = (r, w')"
  shows "same_accounts w w'"
proof -
  obtain x w1 where l: "st_ListProxies (sv_pl sv) c w = (x, w1)" by fastforce
  have k1: "same_accounts w w1" using st_ListProxies_frame [OF l] by (simp add: same_but_db_def same_accounts_def)
  show ?thesis
  proof (cases x)
    case (Inl e)
    then show ?thesis using assms l k1 by (simp add: Reconcile_def)
  next
    case (Inr ps)
    obtain y w2 where cl: "call_rt (\<lambda>b. rt_List (sv_Runtime sv) b managed_filter) (sv_pl sv) c w1 = (y, w2)"
      by fastforce
    note k2 = same_accounts_trans [OF k1 rt_accounts [OF cl]]
    show ?thesis
      using assms l cl k2 Inr same_accounts_trans [OF k2 reconcile_rows_accounts]
      by (cases y) (auto simp: Reconcile_def Let_def split: prod.splits)
  qed
qed

section \<open>What a boot establishes\<close>

lemma boot_service_sel [simp]:
  "sv_pl (boot_service m rt cfg) = ma_platform m"
  "sv_Runtime (boot_service m rt cfg) = rt"
  "sv_Cfg (boot_service m rt cfg) = cfg"
  "wd_Proxy (boot_deps m sv) = sv"
  by (simp_all add: boot_service_def boot_deps_def New_def)

text \<open>A boot that serves has come through every stage.\<close>

lemma boot_Serving:
  assumes "boot m c w = (log, Serving d s, w')"
  obtains cfg w1 cli pw w2 ne w3 rep where
    "Load (ma_getenv m) = Inr cfg"
    "os_MkdirAll (ma_platform m) (filepath_Join [cf_DataDir cfg, ''proxies'']) w = (None, w1)"
    "ma_docker m = Inr cli"
    "Bootstrap (ma_crypto m) (ma_platform m) c w1 = (Inr pw, w2)"
    "call_rt (\<lambda>b. rt_EnsureNetwork (docker_runtime cli) b (cf_Network cfg) (cf_NetworkSubnet cfg))
       (ma_platform m) c w2 = (ne, w3)"
    "Reconcile (boot_service m (docker_runtime cli) cfg) c w3 = (rep, w')"
    "log = host_dir_warning (ma_getenv m) cfg @ password_log pw @ network_log ne @ reconcile_log rep @
       [''panel listening on '' @ cf_ListenAddr cfg]"
    "d = boot_deps m (boot_service m (docker_runtime cli) cfg)"
    "s = \<lparr>si_world = w', si_attempts = NewAuth, si_poller = poller_New, si_hub = hub_New\<rparr>"
  using assms
  by (auto simp: boot_def boot_started_def NewDockerRuntime_def Let_def
      split: sum.splits prod.splits option.splits)

lemma attempts_inv_NewAuth: "attempts_inv NewAuth"
  by (simp add: attempts_inv_def NewAuth_def)

context container_runtime
begin

lemma boot_world:
  assumes sv: "sv_Runtime sv = rt" and rnd: "honest_random (sv_pl sv)" and inv: "panel_inv sv inv w"
    and mk: "os_MkdirAll (sv_pl sv) path w = (e, w1)"
    and bs: "Bootstrap cr (sv_pl sv) c w1 = (pw, w2)"
    and net: "call_rt (\<lambda>b. rt_EnsureNetwork rt b n sub) (sv_pl sv) c w2 = (ne, w3)"
    and rec: "Reconcile sv c w3 = (rep, w4)"
  shows "panel_inv sv inv w4"
proof -
  have "same_but_fs w w1" by (rule fs_frames(1) [OF mk])
  then have "panel_inv sv inv w1" using panel_inv_quiet [of w1 w inv sv] inv by (simp add: same_but_fs_def)
  then have i2: "panel_inv sv inv w2" by (rule panel_inv_accounts [OF Bootstrap_frame [OF bs]])
  then have "inv (w_rt w2)" by (simp add: panel_inv_def)
  from call_keeps(4) [OF this net] call_rt_frame [OF net]
  have "panel_inv sv inv w3" using panel_inv_quiet [of w3 w2 inv sv] i2 by (simp add: same_but_rt_def)
  then show ?thesis using panel_step_keeps [OF sv rnd _ panel_step.reconcile [OF rec]] by blast
qed

end

lemma boot_site_inv:
  assumes daemon: "ma_docker m = Inr cli0" "container_runtime (docker_runtime cli0) ctrs good"
    and rnd: "honest_random (ma_platform m)" and cfg: "Load (ma_getenv m) = Inr cfg0"
    and inv: "panel_inv (boot_service m (docker_runtime cli0) cfg0) good w"
    and run: "boot m c w = (log, Serving d s, w')"
  shows "site_inv d good s \<and> si_world s = w' \<and> sv_Runtime (wd_Proxy d) = docker_runtime cli0 \<and>
    sv_pl (wd_Proxy d) = ma_platform m"
proof (rule boot_Serving [OF run])
  fix cfg w1 cli pw w2 ne w3 rep
  assume load: "Load (ma_getenv m) = Inr cfg"
    and mk: "os_MkdirAll (ma_platform m) (filepath_Join [cf_DataDir cfg, ''proxies'']) w = (None, w1)"
    and cli: "ma_docker m = Inr cli"
    and bs: "Bootstrap (ma_crypto m) (ma_platform m) c w1 = (Inr pw, w2)"
    and net: "call_rt (\<lambda>b. rt_EnsureNetwork (docker_runtime cli) b (cf_Network cfg) (cf_NetworkSubnet cfg))
       (ma_platform m) c w2 = (ne, w3)"
    and rec: "Reconcile (boot_service m (docker_runtime cli) cfg) c w3 = (rep, w')"
    and d: "d = boot_deps m (boot_service m (docker_runtime cli) cfg)"
    and s: "s = \<lparr>si_world = w', si_attempts = NewAuth, si_poller = poller_New, si_hub = hub_New\<rparr>"
  let ?sv = "boot_service m (docker_runtime cli) cfg"
  have same: "cli0 = cli" "cfg0 = cfg" using daemon(1) cli cfg load by simp_all
  have "panel_inv ?sv good w'"
    by (rule container_runtime.boot_world [OF daemon(2) [unfolded same], where sv = ?sv, simplified,
        OF rnd inv [unfolded same] mk bs net [simplified] rec])
  then show ?thesis
    by (simp add: same site_inv_def d s poller_inv_New hub_inv_New attempts_inv_NewAuth)
qed

text \<open>The first boot prints the password it made; a later one prints none.\<close>

lemma boot_admin:
  assumes run: "boot m c w = (log, Serving d s, w')" and rnd: "honest_random (ma_platform m)"
    and len: "key_length_ok (ma_crypto m)"
  shows "t_admins (w_db w) = [] \<Longrightarrow> \<exists>pw r. ''  first-boot admin password: '' @ pw \<in> set log \<and> length pw = 16 \<and>
      t_admins (w_db w') = [r] \<and> a_username r = ''admin'' \<and> a_must_change_password r = 1 \<and>
      VerifyPassword (ma_crypto m) (a_password_hash r) pw"
    and "t_admins (w_db w) \<noteq> [] \<Longrightarrow> t_admins (w_db w') = t_admins (w_db w)"
proof -
  show "\<exists>pw r. ''  first-boot admin password: '' @ pw \<in> set log \<and> length pw = 16 \<and>
      t_admins (w_db w') = [r] \<and> a_username r = ''admin'' \<and> a_must_change_password r = 1 \<and>
      VerifyPassword (ma_crypto m) (a_password_hash r) pw" if none: "t_admins (w_db w) = []"
  proof (rule boot_Serving [OF run], goal_cases)
    case (1 cfg w1 cli pw w2 ne w3 rep)
    have "t_admins (w_db w1) = []" using fs_frames(1) [OF 1(2)] none by (simp add: same_but_fs_def)
    from Bootstrap_first [OF 1(4) this rnd len]
    obtain r where r: "t_admins (w_db w2) = [r]" "a_username r = ''admin''" "a_must_change_password r = 1"
      "VerifyPassword (ma_crypto m) (a_password_hash r) pw" "length pw = 16" by blast
    have "same_accounts w2 w'" by (rule same_accounts_trans [OF rt_accounts [OF 1(5)] Reconcile_accounts [OF 1(6)]])
    then have "t_admins (w_db w') = [r]" using r(1) by (simp add: same_accounts_def)
    moreover have "pw \<noteq> ''''" using r(5) by auto
    then have "''  first-boot admin password: '' @ pw \<in> set log" unfolding 1(7) password_log_def by simp
    ultimately show ?case using r by blast
  qed
  show "t_admins (w_db w') = t_admins (w_db w)" if some: "t_admins (w_db w) \<noteq> []"
  proof (rule boot_Serving [OF run], goal_cases)
    case (1 cfg w1 cli pw w2 ne w3 rep)
    have f: "w_db w1 = w_db w" using fs_frames(1) [OF 1(2)] by (simp add: same_but_fs_def)
    then have "w_db w2 = w_db w" using Bootstrap_again [OF 1(4)] some by simp
    moreover have "same_accounts w2 w'"
      by (rule same_accounts_trans [OF rt_accounts [OF 1(5)] Reconcile_accounts [OF 1(6)]])
    ultimately show ?case by (simp add: same_accounts_def)
  qed
qed

text \<open>Without \<open>PANEL_HOST_DATA_DIR\<close> the panel's own directory is put in its place before it is
  checked, so that the warning is about a match, and never the one about the variable not being set.\<close>

lemma host_dir_unset:
  assumes "Load getenv = Inr cfg" "getenv ''PANEL_HOST_DATA_DIR'' = ''''" "filepath_IsAbs (cf_DataDir cfg)"
  shows "\<exists>msg. host_dir_warning getenv cfg =
    [''warning: PANEL_HOST_DATA_DIR='' @ go_quote (cf_DataDir cfg) @ '' is suspicious: it matches the panel'' @ msg]"
  using assms Load_Inr(2) [OF assms(1)]
  by (simp add: host_dir_warning_def host_data_dir_def ValidateHostDataDir_def Let_def)

end
