(* ===== verification/Works.thy ===== *)
theory Works imports Panel begin

text \<open>
  Liveness of the creation: on a platform where nothing fails, with a valid request on a port that
  nobody uses, \<open>Create\<close> returns a proxy. Each lemma says that one stage of the saga gets through.
\<close>

definition fs_reliable :: "platform \<Rightarrow> bool" where
  "fs_reliable pl \<longleftrightarrow> (\<forall>n. pl_fs_fault pl n = None)"

text \<open>A runtime whose operations of a creation succeed.\<close>

definition runtime_works :: "'r runtime \<Rightarrow> ('r \<Rightarrow> bool) \<Rightarrow> bool" where
  "runtime_works rt good \<longleftrightarrow>
     (\<forall>c s. good s \<longrightarrow>
        (\<forall>n sub. fst (rt_EnsureNetwork rt c n sub s) = None) \<and>
        (\<forall>img. fst (rt_Pull rt c img s) = None) \<and>
        (\<forall>sp. \<not> isl (fst (rt_Create rt c sp s)))) \<and>
     (\<forall>c c' sp s i s'. good s \<longrightarrow> rt_Create rt c sp s = (Inr i, s') \<longrightarrow> fst (rt_Start rt c' i s') = None)"

text \<open>A directory that can be made, with nothing in it.\<close>

definition dir_fresh :: "fs \<Rightarrow> string \<Rightarrow> bool" where
  "dir_fresh f d \<longleftrightarrow>
     (\<forall>q \<in> set (path_prefixes d). \<not> is_file (f q)) \<and> (\<forall>q. prefix (d @ ''/'') q \<longrightarrow> f q = None)"

text \<open>A request that passes every check of \<open>Create\<close> and \<open>tconfig.Render\<close>.\<close>

definition valid_request :: "'r service \<Rightarrow> create_request \<Rightarrow> bool" where
  "valid_request sv req \<longleftrightarrow>
     port_allowed sv (cr_Port req) \<and> cr_TLSDomain req \<noteq> '''' \<and>
     (cr_AdTag req = '''' \<or> length (cr_AdTag req) = 32 \<and> list_all is_hex (cr_AdTag req)) \<and>
     list_all (\<lambda>v. \<not> strings_ContainsAny v [c_dq, c_nl, c_bs])
       [cr_TLSDomain req, cf_PublicHost (sv_Cfg sv), cf_NetworkSubnet (sv_Cfg sv)]"

section \<open>Files\<close>

lemma MkdirAll_works:
  assumes "fs_reliable pl" "\<forall>q \<in> set (path_prefixes d). \<not> is_file (w_fs w q)"
  shows "fst (os_MkdirAll pl d w) = None"
  using assms by (auto simp: os_MkdirAll_def fs_reliable_def find_None_iff split: option.split)

lemma CreateTemp_works:
  assumes "fs_reliable pl" "w_fs w d = Some Dir" "\<And>rnd. w_fs w (temp_name d pre rnd post) = None"
  shows "\<exists>tmp. fst (os_CreateTemp pl d pre post w) = Inr tmp"
  using assms by (simp add: os_CreateTemp_def fs_reliable_def temp_try.simps)

lemma write_temp_works:
  assumes rel: "fs_reliable pl" and path: "w_fs w path \<noteq> Some Dir" "tmp \<noteq> path" "w_fs w tmp \<noteq> None"
  shows "fst (write_temp pl tmp path body w) = None"
proof -
  have f: "pl_fs_fault pl n = None" for n using rel by (simp add: fs_reliable_def)
  show ?thesis
    using path by (simp add: write_temp_def file_Write_def put_def file_Close_def os_Chmod_def os_Rename_def f)
qed

lemma writeAtomic_works:
  assumes rel: "fs_reliable pl" and dir: "filepath_Dir path = d" "w_fs w d = Some Dir"
    and tmp: "\<And>rnd. w_fs w (temp_name d ''.config-'' rnd ''.toml'') = None"
      "\<And>rnd. temp_name d ''.config-'' rnd ''.toml'' \<noteq> path"
    and path: "w_fs w path \<noteq> Some Dir"
  shows "fst (writeAtomic pl path body w) = None"
proof -
  obtain t w1 where c: "os_CreateTemp pl d ''.config-'' ''.toml'' w = (t, w1)" by fastforce
  then obtain n where t: "t = Inr n"
    using CreateTemp_works [OF rel dir(2) tmp(1)] by auto
  note c1 = os_CreateTemp_Inr [OF c [unfolded t]]
  have n: "n \<noteq> path" using c1(1) tmp(2) by blast
  obtain e w2 where wt: "write_temp pl n path body w1 = (e, w2)" by fastforce
  have "fst (write_temp pl n path body w1) = None"
    by (rule write_temp_works [OF rel _ n]) (use c1(3) n path in simp_all)
  then have "e = None" using wt by simp
  then show ?thesis
    using c t dir(1) wt by (cases "os_Remove pl n w2") (simp add: writeAtomic_def)
qed

lemma temp_name_below: "\<not> strings_HasSuffix d ''/'' \<Longrightarrow> prefix (d @ ''/'') (temp_name d pre rnd post)"
  by (simp add: temp_name_def)

lemma prefixes_not_below: "q \<in> set (path_prefixes d) \<Longrightarrow> \<not> prefix (d @ ''/'') q"
  using prefixes_shorter [of q d] by (auto simp: prefix_def)

lemma writeConfig_works:
  assumes rel: "fs_reliable (sv_pl sv)" and id: "plain_name (px_ID p)"
    and fresh: "dir_fresh (w_fs w) (configDir sv (px_ID p))" and valid: "valid_spec (config_spec sv p)"
  shows "fst (writeConfig sv p w) = None"
proof -
  let ?d = "configDir sv (px_ID p)"
  note cp = configPath_eq [OF id, of sv]
  obtain e w1 where m: "os_MkdirAll (sv_pl sv) ?d w = (e, w1)" by fastforce
  then have e: "e = None"
    using MkdirAll_works [OF rel, of ?d w] fresh by (simp add: dir_fresh_def)
  have below: "w_fs w1 q = None" if "prefix (?d @ ''/'') q" for q
    using os_MkdirAll_effect(2) [OF m] prefixes_not_below that fresh by (metis dir_fresh_def)
  obtain body where body: "Render (config_spec sv p) = Inr body"
    using valid by (auto simp: Render_def validate_None_iff [symmetric] Let_def)
  have "fst (writeAtomic (sv_pl sv) (configPath sv (px_ID p)) body w1) = None"
  proof (rule writeAtomic_works [OF rel cp(2)])
    show "w_fs w1 ?d = Some Dir" by (rule os_MkdirAll_effect(5) [OF m e])
    show "w_fs w1 (temp_name ?d ''.config-'' rnd ''.toml'') = None" for rnd
      by (rule below [OF temp_name_below [OF cp(3)]])
    show "temp_name ?d ''.config-'' rnd ''.toml'' \<noteq> configPath sv (px_ID p)" for rnd
      by (rule temp_name_other [OF cp(1) config_name_plain cp(3)])
    have "w_fs w1 (configPath sv (px_ID p)) = None"
      by (rule below) (simp add: cp(1))
    then show "w_fs w1 (configPath sv (px_ID p)) \<noteq> Some Dir" by simp
  qed
  then show ?thesis using m e body by (simp add: writeConfig_def Let_def)
qed

lemma valid_new_proxy:
  assumes req: "valid_request sv req" and rnd: "length sec = 16" "length tok = 32"
  shows "valid_spec (config_spec sv (new_proxy req (hex_Encode sec) (hex_Encode tok) pid))"
proof -
  have hex: "list_all is_hex (hex_Encode s)" for s
    using hex_Encode_lower is_lower_hex_is_hex by (auto simp: list_all_iff)
  have "\<not> strings_ContainsAny (hex_Encode tok) [c_dq, c_nl, c_bs]"
    using hex [of tok] by (auto simp: strings_ContainsAny_iff list_all_iff is_hex_def hex_val_def is_digit_def)
  moreover have "hex_Encode tok \<noteq> ''''" using rnd(2) by (metis length_0_conv length_hex_Encode mult_is_0 numeral_eq_iff zero_neq_numeral)
  ultimately show ?thesis
    using req rnd hex [of sec]
    by (simp add: valid_spec_def valid_request_def config_spec_def new_proxy_def port_allowed_def Username_def
        strings_ContainsAny_def)
qed

section \<open>The stages\<close>

lemma st_CreateProxy_works:
  assumes rel: "db_reliable pl" "\<not> ctx_done c w" and wf: "db_wf (w_db w)"
    and free: "rows w (px_ID p) = None" "\<And>k q. rows w k = Some q \<Longrightarrow> px_Port q \<noteq> px_Port p"
  shows "fst (st_CreateProxy pl c p w) = None"
proof -
  have "px_Port q \<noteq> px_Port p" if "q \<in> ran (rows w)" for q
    using that free(2) by (auto simp: ran_def)
  then obtain d' where "CreateProxy (pl_driver pl) None (w_clock w) p (w_db w) = (None, d')"
    using proxies.create_free [OF wf free(1), of "pl_driver pl" "w_clock w"] by blast
  then show ?thesis
    using rel by (simp add: store_calls db_exec_def db_fault_def db_reliable_def)
qed

context container_runtime
begin

lemma create_container_works:
  assumes sv: "sv_Runtime sv = rt" and rel: "db_reliable (sv_pl sv)" "runtime_works rt inv"
    and w: "inv (w_rt w)" "db_wf (w_db w)" "rows w (px_ID p) = Some old" "px_Port old = px_Port p"
  shows "\<exists>q. fst (create_container sv c us p w) = Inr q"
proof -
  obtain x w1 where cr: "call_rt (\<lambda>b. rt_Create rt b (container_spec_of sv p)) (sv_pl sv) c w = (x, w1)"
    by fastforce
  have "\<not> isl (fst (rt_Create rt (ctx_done c w) (container_spec_of sv p) (w_rt w)))"
    using rel(2) w(1) unfolding runtime_works_def by blast
  then obtain i where x: "x = Inr i" using call_rt_D [OF cr] by (cases x) auto
  obtain y w2 where st: "call_rt (\<lambda>b. rt_Start rt b i) (sv_pl sv) c w1 = (y, w2)" by fastforce
  have "fst (rt_Start rt (ctx_done c w1) i (w_rt w1)) = None"
    using rel(2) w(1) call_rt_D [OF cr [unfolded x]] unfolding runtime_works_def by blast
  then have y: "y = None" using call_rt_D [OF st] by simp
  obtain r w' where fin: "create_finish sv c (p\<lparr>px_ContainerID := i\<rparr>) w2 = (r, w')" by fastforce
  have "w_db w2 = w_db w"
    using call_rt_frame [OF cr] call_rt_frame [OF st] by (simp add: same_but_rt_def)
  then have pre: "db_wf (w_db w2)" "rows w2 (px_ID (p\<lparr>px_ContainerID := i\<rparr>)) = Some old"
    "px_Port old = px_Port (p\<lparr>px_ContainerID := i\<rparr>)"
    using w by simp_all
  have "\<exists>q. r = Inr q"
    using create_finish_effect(4) [OF fin pre] rel(1) by (cases r) auto
  then show ?thesis using cr x st y fin by (auto simp: create_container_def sv Let_def)
qed

lemma Create_works:
  assumes sv: "sv_Runtime sv = rt" and rel: "db_reliable (sv_pl sv)" "fs_reliable (sv_pl sv)" "runtime_works rt inv"
    and w: "inv (w_rt w)" "db_wf (w_db w)" and live: "cx_cancel_at c = None"
    and req: "valid_request sv req"
    and host: "\<And>t. pl_listen (sv_pl sv) t (cr_Port req) = None" "\<And>t. pl_lclose (sv_pl sv) t = None"
    and rnd: "honest_random (sv_pl sv)" "\<And>t n. \<not> isl (pl_rand (sv_pl sv) t n)"
    and fresh: "\<And>t. rows w (pl_uuid (sv_pl sv) t) = None"
      "\<And>t. dir_fresh (w_fs w) (configDir sv (pl_uuid (sv_pl sv) t))"
    and port: "\<And>k q. rows w k = Some q \<Longrightarrow> px_Port q \<noteq> cr_Port req"
  shows "\<exists>p w'. Create sv c req w = (Inr p, w')"
proof -
  have live': "\<not> ctx_done c u" for u :: "'r world" using live by (simp add: ctx_done_def)
  let ?pl = "sv_pl sv"
  let ?w1 = "tick ?pl w" let ?w2 = "tick ?pl ?w1" let ?w3 = "tick ?pl ?w2" let ?w4 = "tick ?pl ?w3"
  have cp: "os_CheckPort ?pl (cr_Port req) (cf_ReservedPorts (sv_Cfg sv)) w = (None, ?w1)"
    using req host by (simp add: os_CheckPort_def CheckPort_None_iff valid_request_def port_allowed_def)
  obtain b where b: "pl_rand ?pl (w_tick ?w1) 16 = Inr b"
    using rnd(2) by (cases "pl_rand ?pl (w_tick ?w1) 16") (metis sum.disc(1), blast)
  obtain b' where b': "pl_rand ?pl (w_tick ?w2) 32 = Inr b'"
    using rnd(2) by (cases "pl_rand ?pl (w_tick ?w2) 32") (metis sum.disc(1), blast)
  have len: "length b = 16" "length b' = 32" using rnd(1) b b' unfolding honest_random_def by blast+
  define pid where "pid = pl_uuid ?pl (w_tick ?w3)"
  define p where "p = new_proxy req (hex_Encode b) (hex_Encode b') pid"
  have "Create sv c req w = create_claim sv c p ?w4"
    using cp b b' req
    by (simp add: Create_def randomHex_def rand_Read_def uuid_NewString_def p_def pid_def valid_request_def)
  have pid: "px_ID p = pid" "px_Port p = cr_Port req" by (simp_all add: p_def new_proxy_def)
  have plain: "plain_name (px_ID p)" using rnd(1) by (simp add: pid pid_def honest_random_def)
  obtain x w5 where cl: "st_CreateProxy ?pl c p ?w4 = (x, w5)" by fastforce
  have "fst (st_CreateProxy ?pl c p ?w4) = None"
    by (rule st_CreateProxy_works [OF rel(1) live']) (use w fresh(1) port pid pid_def in simp_all)
  then have x: "x = None" using cl by simp
  have wf4: "db_wf (w_db ?w4)" using w by simp
  note c5 = st_CreateProxy_None [OF wf4 cl [unfolded x]]
  have f5: "w_fs w5 = w_fs w" "w_rt w5 = w_rt w"
    using st_CreateProxy_frame [OF cl] by (simp_all add: same_but_db_def)
  obtain y w6 where wc: "writeConfig sv p w5 = (y, w6)" by fastforce
  have "fst (writeConfig sv p w5) = None"
    by (rule writeConfig_works [OF rel(2) plain])
      (use fresh(2) pid pid_def f5 valid_new_proxy [OF req len] p_def in simp_all)
  then have y: "y = None" using wc by simp
  have f6: "w_db w6 = w_db w5" "w_rt w6 = w_rt w"
    using writeConfig_frame [OF wc] f5 by (simp_all add: same_but_fs_def)
  obtain z w7 where n: "call_rt (\<lambda>b. rt_EnsureNetwork rt b (cf_Network (sv_Cfg sv))
      (cf_NetworkSubnet (sv_Cfg sv))) ?pl c w6 = (z, w7)" by fastforce
  obtain v w8 where pu: "call_rt (\<lambda>b. rt_Pull rt b (cf_TelemtImage (sv_Cfg sv))) ?pl c w7 = (v, w8)"
    by fastforce
  have i6: "inv (w_rt w6)" using w f6 by simp
  have i7: "inv (w_rt w7)" using call_keeps(4) [OF i6 n] by blast
  have i8: "inv (w_rt w8)" using call_keeps(5) [OF i7 pu] by blast
  have zv: "z = None" "v = None"
    using rel(3) i6 i7 call_rt_D [OF n] call_rt_D [OF pu] unfolding runtime_works_def
    by (metis fst_conv)+
  have f8: "w_db w8 = w_db w5"
    using call_rt_frame [OF n] call_rt_frame [OF pu] f6 by (simp add: same_but_rt_def)
  have row8: "rows w8 (px_ID p) = Some (p\<lparr>px_CreatedAt := stored_time (w_clock ?w4),
      px_UpdatedAt := stored_time (w_clock ?w4)\<rparr>)" using c5(3) f8 by simp
  have wf8: "db_wf (w_db w8)" using c5(1) f8 by simp
  obtain q where "fst (create_container sv c [UndoRow (px_ID p), UndoDir (configDir sv (px_ID p))] p w8) = Inr q"
    using create_container_works [OF sv rel(1,3) i8 wf8 row8] by auto
  then have "fst (create_claim sv c p ?w4) = Inr q"
    using cl x wc y n pu zv by (simp add: create_claim_def create_prepare_def sv Let_def)
  then show ?thesis
    using \<open>Create sv c req w = create_claim sv c p ?w4\<close> by (metis prod.collapse)
qed

end

end
