(* ===== verification/Fake.thy ===== *)
theory Fake imports Runtime begin

text \<open>
  \<open>internal/docker/fake.go\<close>: the in-memory \<open>Runtime\<close>, with its failure switches. Its containers
  are an association list in creation order (Go ranges over a map, so that \<open>List\<close> there may give
  any order). It provides both contracts of \<open>Runtime\<close>.
\<close>

record fake_container =
  fc_info :: container_info
  fc_logs :: string

record fake =
  fk_seq :: nat
  fk_containers :: "(string \<times> fake_container) list"
  fk_Networks :: "(string \<times> string) list"
  fk_FailPull :: "gerror option"
  fk_FailCreate :: "gerror option"
  fk_FailStart :: "gerror option"
  fk_FailRemove :: "gerror option"
  fk_FailPing :: "gerror option"
  fk_Created :: "container_spec list"

definition NewFake :: fake where
  "NewFake = \<lparr>fk_seq = 0, fk_containers = [], fk_Networks = [], fk_FailPull = None,
     fk_FailCreate = None, fk_FailStart = None, fk_FailRemove = None, fk_FailPing = None,
     fk_Created = []\<rparr>"

definition Fake_Ping :: "bool \<Rightarrow> fake \<Rightarrow> gerror option \<times> fake" where
  "Fake_Ping c f = (fk_FailPing f, f)"

definition Fake_EnsureNetwork :: "bool \<Rightarrow> string \<Rightarrow> string \<Rightarrow> fake \<Rightarrow> gerror option \<times> fake" where
  "Fake_EnsureNetwork c name subnet f =
     (None, f\<lparr>fk_Networks := (name, subnet) # filter (\<lambda>(n, _). n \<noteq> name) (fk_Networks f)\<rparr>)"

definition Fake_Pull :: "bool \<Rightarrow> string \<Rightarrow> fake \<Rightarrow> gerror option \<times> fake" where
  "Fake_Pull c img f = (fk_FailPull f, f)"

definition Fake_Create :: "bool \<Rightarrow> container_spec \<Rightarrow> fake \<Rightarrow> string res \<times> fake" where
  "Fake_Create c sp f =
     (case fk_FailCreate f of
        Some e \<Rightarrow> (Inl e, f)
      | None \<Rightarrow>
          (let n = fk_seq f + 1;
               i = ''ctr'' @ Itoa (int n);
               info = zero_info\<lparr>ci_ID := i, ci_Name := cs_Name sp, ci_Labels := cs_Labels sp,
                        ci_IPAddress := ''172.28.0.'' @ Itoa (int (n + 1))\<rparr>
           in (Inr i, f\<lparr>fk_seq := n,
                 fk_containers := filter (\<lambda>(j, _). j \<noteq> i) (fk_containers f) @
                   [(i, \<lparr>fc_info = info, fc_logs = ''''\<rparr>)],
                 fk_Created := fk_Created f @ [sp]\<rparr>)))"

definition mutate :: "string \<Rightarrow> (fake_container \<Rightarrow> fake_container) \<Rightarrow> fake \<Rightarrow> gerror option \<times> fake" where
  "mutate i fn f =
     (case map_of (fk_containers f) i of
        None \<Rightarrow> (Some (no_such_container i), f)
      | Some _ \<Rightarrow> (None, f\<lparr>fk_containers :=
          map (\<lambda>(j, fc). (j, if j = i then fn fc else fc)) (fk_containers f)\<rparr>))"

definition set_running :: "bool \<Rightarrow> fake_container \<Rightarrow> fake_container" where
  "set_running b fc = fc\<lparr>fc_info := (fc_info fc)\<lparr>ci_Running := b\<rparr>\<rparr>"

definition Fake_Start :: "bool \<Rightarrow> string \<Rightarrow> fake \<Rightarrow> gerror option \<times> fake" where
  "Fake_Start c i f =
     (case fk_FailStart f of Some e \<Rightarrow> (Some e, f) | None \<Rightarrow> mutate i (set_running True) f)"

definition Fake_Stop :: "bool \<Rightarrow> string \<Rightarrow> fake \<Rightarrow> gerror option \<times> fake" where
  "Fake_Stop c i f = mutate i (set_running False) f"

definition Fake_Remove :: "bool \<Rightarrow> string \<Rightarrow> fake \<Rightarrow> gerror option \<times> fake" where
  "Fake_Remove c i f =
     (case fk_FailRemove f of
        Some e \<Rightarrow> (Some e, f)
      | None \<Rightarrow>
          (case map_of (fk_containers f) i of
             None \<Rightarrow> (Some (no_such_container i), f)
           | Some _ \<Rightarrow> (None, f\<lparr>fk_containers := filter (\<lambda>(j, _). j \<noteq> i) (fk_containers f)\<rparr>)))"

definition Fake_Inspect :: "bool \<Rightarrow> string \<Rightarrow> fake \<Rightarrow> container_info res \<times> fake" where
  "Fake_Inspect c i f =
     (case map_of (fk_containers f) i of
        None \<Rightarrow> (Inl (no_such_container i), f)
      | Some fc \<Rightarrow> (Inr (fc_info fc), f))"

definition Fake_List :: "bool \<Rightarrow> labels \<Rightarrow> fake \<Rightarrow> container_info list res \<times> fake" where
  "Fake_List c ls f =
     (Inr (filter (\<lambda>ci. labels_match ls (ci_Labels ci)) (map (fc_info \<circ> snd) (fk_containers f))), f)"

definition Fake_Logs :: "bool \<Rightarrow> string \<Rightarrow> int \<Rightarrow> fake \<Rightarrow> string res \<times> fake" where
  "Fake_Logs c i tail f =
     (case map_of (fk_containers f) i of
        None \<Rightarrow> (Inl (no_such_container i), f)
      | Some fc \<Rightarrow> (Inr (fc_logs fc), f))"

definition Fake_Count :: "fake \<Rightarrow> nat" where
  "Fake_Count f = length (fk_containers f)"

definition fake_runtime :: "fake runtime" where
  "fake_runtime =
     \<lparr>rt_Ping = Fake_Ping, rt_EnsureNetwork = Fake_EnsureNetwork, rt_Pull = Fake_Pull,
      rt_Create = Fake_Create, rt_Start = Fake_Start, rt_Stop = Fake_Stop, rt_Remove = Fake_Remove,
      rt_Inspect = Fake_Inspect, rt_List = Fake_List, rt_Logs = Fake_Logs\<rparr>"

section \<open>The contract holds\<close>

definition fake_ctrs :: "fake \<Rightarrow> string \<rightharpoonup> labels" where
  "fake_ctrs f i = map_option (ci_Labels \<circ> fc_info) (map_of (fk_containers f) i)"

text \<open>Keys are distinct, agree with the ids, and come from the sequence counter; a simulated removal
  failure is a real failure, not the report that the container is gone.\<close>

definition fake_inv :: "fake \<Rightarrow> bool" where
  "fake_inv f \<longleftrightarrow>
     distinct (map fst (fk_containers f)) \<and>
     list_all (\<lambda>(i, fc). ci_ID (fc_info fc) = i \<and>
       list_ex (\<lambda>n. i = ''ctr'' @ Itoa (int n)) [1..<fk_seq f + 1]) (fk_containers f) \<and>
     \<not> (\<exists>e \<in> set_option (fk_FailRemove f). errors_Is e ErrNoSuchContainer)"

lemma fake_inv_NewFake: "fake_inv NewFake"
  by (simp add: fake_inv_def NewFake_def)

lemma fake_fresh: "fake_inv f \<Longrightarrow> map_of (fk_containers f) (''ctr'' @ Itoa (int (fk_seq f + 1))) = None"
  by (force simp: fake_inv_def map_of_eq_None_iff list_all_iff list_ex_iff dest!: Itoa_inj)

lemma filter_absent: "map_of xs i = None \<Longrightarrow> filter (\<lambda>(j, _). j \<noteq> i) xs = xs"
  by (induction xs) (auto split: if_splits)

lemma map_of_filter_key: "map_of (filter (\<lambda>(j, _). j \<noteq> i) xs) = (map_of xs)(i := None)"
  by (induction xs) auto

lemma map_of_map_key:
  assumes "\<And>v. g (fn v) = g v"
  shows "map_option g (map_of (map (\<lambda>(j, v). (j, if j = i then fn v else v)) xs) k) =
     map_option g (map_of xs k)"
  using assms by (induction xs) auto

lemma Fake_Create_ok:
  assumes inv: "fake_inv f" and eq: "Fake_Create c sp f = (Inr i, f')"
  shows "fake_inv f' \<and> i \<noteq> '''' \<and> fake_ctrs f i = None \<and> fake_ctrs f' = (fake_ctrs f)(i \<mapsto> cs_Labels sp)"
proof -
  have i: "i = ''ctr'' @ Itoa (int (fk_seq f + 1))"
    and f': "fk_containers f' = filter (\<lambda>(j, _). j \<noteq> i) (fk_containers f) @
      [(i, \<lparr>fc_info = zero_info\<lparr>ci_ID := i, ci_Name := cs_Name sp, ci_Labels := cs_Labels sp,
          ci_IPAddress := ''172.28.0.'' @ Itoa (int (fk_seq f + 1 + 1))\<rparr>, fc_logs = ''''\<rparr>)]"
    and seq: "fk_seq f' = fk_seq f + 1" and frm: "fk_FailRemove f' = fk_FailRemove f"
    using eq by (auto simp: Fake_Create_def Let_def split: option.splits)
  have none: "map_of (fk_containers f) i = None" using fake_fresh [OF inv] i by simp
  note f'' = f' [unfolded filter_absent [OF none]]
  have "fake_ctrs f' k = ((fake_ctrs f)(i \<mapsto> cs_Labels sp)) k" for k
    using none by (auto simp: fake_ctrs_def f'' map_add_def split: option.splits)
  moreover have "fake_inv f'"
  proof -
    have "list_ex (\<lambda>n. k = ''ctr'' @ Itoa (int n)) [1..<fk_seq f + 1 + 1]"
      if "list_ex (\<lambda>n. k = ''ctr'' @ Itoa (int n)) [1..<fk_seq f + 1]" for k
      using that by (auto simp: list_ex_iff)
    moreover have "list_ex (\<lambda>n. i = ''ctr'' @ Itoa (int n)) [1..<fk_seq f + 1 + 1]"
      unfolding list_ex_iff i by (rule bexI [of _ "fk_seq f + 1"]) auto
    ultimately show ?thesis
      using inv none unfolding fake_inv_def f'' seq frm
      by (auto simp: map_of_eq_None_iff list_all_iff)
  qed
  moreover have "i \<noteq> ''''" using i by simp
  moreover have "fake_ctrs f i = None" using none by (simp add: fake_ctrs_def)
  ultimately show ?thesis by blast
qed

lemma mutate_running_keeps:
  assumes "fake_inv f" "mutate i (set_running b) f = (r, f')"
  shows "fake_inv f' \<and> fake_ctrs f' = fake_ctrs f"
proof (cases "map_of (fk_containers f) i")
  case None
  with assms show ?thesis by (simp add: mutate_def)
next
  case (Some fc)
  then have f': "f' = f\<lparr>fk_containers :=
      map (\<lambda>(j, fc). (j, if j = i then set_running b fc else fc)) (fk_containers f)\<rparr>"
    using assms(2) by (simp add: mutate_def)
  have "map fst (fk_containers f') = map fst (fk_containers f)"
    by (simp add: f' comp_def case_prod_beta)
  moreover have "list_all (\<lambda>(j, fc). ci_ID (fc_info fc) = j \<and>
      list_ex (\<lambda>n. j = ''ctr'' @ Itoa (int n)) [1..<fk_seq f' + 1]) (fk_containers f')"
    using assms(1) unfolding fake_inv_def f'
    by (simp add: list_all_iff set_running_def case_prod_beta)
  moreover have "fk_FailRemove f' = fk_FailRemove f" by (simp add: f')
  ultimately have "fake_inv f'" using assms(1) unfolding fake_inv_def by (simp only: simp_thms)
  moreover have "fake_ctrs f' = fake_ctrs f"
    unfolding fake_ctrs_def f' fun_eq_iff fake.select_convs fake.simps
    using map_of_map_key [of "ci_Labels \<circ> fc_info" "set_running b" i "fk_containers f"]
    by (simp add: set_running_def)
  ultimately show ?thesis ..
qed

lemma Fake_Remove_ok:
  assumes "fake_inv f" "Fake_Remove c i f = (None, f')"
  shows "fake_inv f' \<and> fake_ctrs f i \<noteq> None \<and> fake_ctrs f' = (fake_ctrs f)(i := None)"
proof -
  obtain fc where fc: "map_of (fk_containers f) i = Some fc"
    and f': "f' = f\<lparr>fk_containers := filter (\<lambda>(j, _). j \<noteq> i) (fk_containers f)\<rparr>"
    using assms(2) by (auto simp: Fake_Remove_def split: option.splits)
  have "fake_inv f'"
    using assms(1) by (simp add: fake_inv_def f' distinct_map_filter list_all_iff)
  then show ?thesis using fc by (simp add: fake_ctrs_def f' map_of_filter_key fun_eq_iff)
qed

lemma Fake_Remove_err:
  "fake_inv f \<Longrightarrow> Fake_Remove c i f = (Some e, f') \<Longrightarrow> f' = f \<and>
     (errors_Is e ErrNoSuchContainer \<longrightarrow> fake_ctrs f i = None)"
  by (auto simp: Fake_Remove_def fake_ctrs_def fake_inv_def split: option.splits)

lemma fake_ctrs_lookup:
  assumes "fake_inv f" "map_of (fk_containers f) i = Some fc"
  shows "ci_ID (fc_info fc) = i" "fake_ctrs f i = Some (ci_Labels (fc_info fc))"
  using assms map_of_SomeD [OF assms(2)] by (auto simp: fake_inv_def fake_ctrs_def list_all_iff)

lemma fake_listed:
  assumes "fake_inv f" "(i, fc) \<in> set (fk_containers f)"
  shows "ci_ID (fc_info fc) = i" "fake_ctrs f i = Some (ci_Labels (fc_info fc))"
  using fake_ctrs_lookup [OF assms(1), of i fc] assms by (auto simp: fake_inv_def map_of_eq_Some_iff)

interpretation fake: container_runtime fake_runtime fake_ctrs fake_inv
proof (unfold_locales, goal_cases)
  case (1 s c sp i s')
  then show ?case by (intro Fake_Create_ok) (simp_all add: fake_runtime_def)
next
  case (2 s c sp e s')
  then show ?case by (auto simp: fake_runtime_def Fake_Create_def Let_def split: option.splits)
next
  case (3 s c i s')
  then show ?case by (intro Fake_Remove_ok) (simp_all add: fake_runtime_def)
next
  case (4 s c i e s')
  then show ?case using Fake_Remove_err [of s c i e s'] by (simp add: fake_runtime_def)
next
  case (5 s c i r s')
  then show ?case
    by (auto simp: fake_runtime_def Fake_Start_def dest: mutate_running_keeps split: option.splits)
next
  case (6 s c i r s')
  then show ?case by (auto simp: fake_runtime_def Fake_Stop_def dest: mutate_running_keeps)
next
  case (7 s c r s')
  then show ?case by (simp add: fake_runtime_def Fake_Ping_def)
next
  case (8 s c n sub r s')
  then show ?case
    by (auto simp: fake_runtime_def Fake_EnsureNetwork_def fake_inv_def fake_ctrs_def fun_eq_iff)
next
  case (9 s c img r s')
  then show ?case by (simp add: fake_runtime_def Fake_Pull_def)
next
  case (10 s c i tail lr s')
  then show ?case by (auto simp: fake_runtime_def Fake_Logs_def split: option.splits)
next
  case (11 s c i ir s')
  then show ?case by (auto simp: fake_runtime_def Fake_Inspect_def split: option.splits)
next
  case (12 s c i ci s')
  then show ?case
    using fake_ctrs_lookup [of s i] by (auto simp: fake_runtime_def Fake_Inspect_def split: option.splits)
next
  case (13 s c ls cr s')
  then show ?case by (auto simp: fake_runtime_def Fake_List_def)
next
  case (14 s c ls cs s' ci)
  then show ?case
    using fake_listed [of s] by (auto simp: fake_runtime_def Fake_List_def)
qed

interpretation fake: complete_listing fake_runtime fake_ctrs fake_inv
proof
  fix s c ls cs s' i l
  assume "fake_inv s" and list: "rt_List fake_runtime c ls s = (Inr cs, s')"
    and "fake_ctrs s i = Some l" and m: "labels_match ls l"
  then obtain fc where fc: "map_of (fk_containers s) i = Some fc" "l = ci_Labels (fc_info fc)"
    by (auto simp: fake_ctrs_def)
  then have "fc_info fc \<in> set cs"
    using list m map_of_SomeD [OF fc(1)]
    by (force simp: fake_runtime_def Fake_List_def)
  then show "\<exists>ci \<in> set cs. ci_ID ci = i"
    using fake_ctrs_lookup [OF \<open>fake_inv s\<close> fc(1)] by blast
qed

section \<open>The fake without a simulated removal failure\<close>

definition fake_reliable :: "fake \<Rightarrow> bool" where
  "fake_reliable f \<longleftrightarrow> fake_inv f \<and> fk_FailRemove f = None"

lemma mutate_FailRemove: "mutate i fn f = (r, f') \<Longrightarrow> fk_FailRemove f' = fk_FailRemove f"
  by (auto simp: mutate_def split: option.splits)

interpretation reliable: container_runtime fake_runtime fake_ctrs fake_reliable
  unfolding fake_reliable_def [abs_def]
  by (rule fake.strengthen)
    (auto simp: fake_runtime_def Fake_Create_def Fake_Remove_def Fake_Start_def Fake_Stop_def
      Fake_Ping_def Fake_EnsureNetwork_def Fake_Pull_def Fake_Logs_def Fake_Inspect_def Fake_List_def
      Let_def split: option.splits dest: mutate_FailRemove)

interpretation reliable: complete_listing fake_runtime fake_ctrs fake_reliable
  by unfold_locales (use fake.list_complete in \<open>auto simp: fake_reliable_def\<close>)

lemma fake_reliable_works: "remove_works fake_runtime fake_ctrs fake_reliable"
  by (auto simp: remove_works_def fake_reliable_def fake_runtime_def Fake_Remove_def fake_ctrs_def)

lemma fake_reliable_NewFake: "fake_reliable NewFake"
  using fake_inv_NewFake by (simp add: fake_reliable_def) (simp add: NewFake_def)

end
