(* ===== verification/Examples.thy ===== *)
theory Examples imports Works Fake begin

text \<open>
  One concrete panel, on which the general theorems are applied: the in-memory runtime, a
  platform on which nothing fails and no time passes on its own, and a telemt that is healthy at
  once. It has an empty world, and a world with two running proxies and a container that belongs to
  no row.
\<close>

definition demo_platform :: platform where
  "demo_platform =
     \<lparr>pl_driver = sqlite_driver, pl_db_fault = (\<lambda>_. None), pl_fs_fault = (\<lambda>_. None),
      pl_written = (\<lambda>_. 0), pl_survives = (\<lambda>_ _. False), pl_tmp = (\<lambda>_ k. format_nat k),
      pl_rand = (\<lambda>_ n. Inr (replicate n CHR ''A'')), pl_uuid = (\<lambda>t. CHR ''u'' # format_nat t),
      pl_listen = (\<lambda>_ _. None), pl_lclose = (\<lambda>_. None), pl_latency = (\<lambda>_. 0)\<rparr>"

definition demo_client :: telemt_client where
  "demo_client =
     \<lparr>tc_Health = (\<lambda>_ _. None), tc_Users = (\<lambda>_ _. Inr []),
      tc_PatchUser = (\<lambda>_ _ _ _. Inl (errorf ''telemt is read-only''))\<rparr>"

definition demo_config :: config where
  "demo_config =
     \<lparr>cf_ListenAddr = '':8080'', cf_DataDir = ''/data'', cf_Network = ''mtpanel_net'',
      cf_NetworkSubnet = ''172.28.0.0/16'', cf_TelemtImage = ''telemt'', cf_PublicHost = '''',
      cf_PollInterval = 5 * Second, cf_ReservedPorts = [80, 8443]\<rparr>"

definition demo_service :: "fake service" where
  "demo_service = New demo_platform (\<lambda>_. demo_client)
     \<lparr>dp_Runtime = fake_runtime, dp_Cfg = demo_config, dp_HostDataDir = '''', dp_NewClient = None,
      dp_HealthBudget = 0\<rparr>"

definition demo_world :: "fake world" where
  "demo_world = \<lparr>w_db = empty_db, w_fs = (\<lambda>_. None), w_rt = NewFake, w_tick = 0, w_clock = 0,
     w_hist = [], w_sent = []\<rparr>"

definition demo_request :: create_request where
  "demo_request = \<lparr>cr_Name = ''first'', cr_Port = 443, cr_TLSDomain = ''example.com'', cr_AdTag = '''',
     cr_DataQuotaBytes = Some 1024, cr_ExpirationRFC3339 = None, cr_MaxTCPConns = None,
     cr_MaxUniqueIPs = Some 3\<rparr>"

lemma demo_service_fields [simp]:
  "sv_pl demo_service = demo_platform" "sv_Runtime demo_service = fake_runtime"
  "sv_Cfg demo_service = demo_config" "sv_NewClient demo_service p ip = demo_client"
  "sv_HealthBudget demo_service = HealthBudget"
  by (simp_all add: demo_service_def New_def)

lemma demo_reliable:
  "db_reliable demo_platform" "fs_reliable demo_platform" "driver_ok (pl_driver demo_platform)"
  by (simp_all add: db_reliable_def fs_reliable_def demo_platform_def driver_ok_def sqlite_driver_def)

lemma uuid_plain: "plain_name (CHR ''u'' # format_nat n)"
  using format_nat_digits [of n] by (auto simp: plain_name_def is_digit_def)

lemma demo_random: "honest_random demo_platform"
  by (simp add: honest_random_def demo_platform_def uuid_plain)

section \<open>A panel with two proxies\<close>

definition demo_proxy :: "string \<Rightarrow> int \<Rightarrow> string \<Rightarrow> proxy" where
  "demo_proxy pid port cid =
     \<lparr>px_ID = pid, px_Name = ''proxy'', px_Port = port, px_TLSDomain = ''example.com'', px_AdTag = '''',
      px_Secret = replicate 32 CHR ''a'', px_APIToken = replicate 64 CHR ''b'', px_ContainerID = cid,
      px_State = StateRunning, px_StateMessage = '''', px_DataQuotaBytes = Some 1024,
      px_ExpirationRFC3339 = None, px_MaxTCPConns = None, px_MaxUniqueIPs = Some 3,
      px_CreatedAt = 0, px_UpdatedAt = 0\<rparr>"

definition demo_container :: "string \<Rightarrow> string \<Rightarrow> string \<times> fake_container" where
  "demo_container cid pid =
     (cid, \<lparr>fc_info = \<lparr>ci_ID = cid, ci_Name = ''telemt-'' @ pid, ci_Running = True,
        ci_Labels = managed_labels pid, ci_IPAddress = ''172.28.0.2''\<rparr>, fc_logs = ''''\<rparr>)"

definition demo_panel :: "fake world" where
  "demo_panel = demo_world
     \<lparr>w_db := empty_db\<lparr>t_proxies := map proxy_to_row
         [demo_proxy ''u1'' 443 ''ctr1'', demo_proxy ''u2'' 8080 ''ctr2'']\<rparr>,
      w_rt := NewFake\<lparr>fk_seq := 3, fk_containers :=
         [demo_container ''ctr1'' ''u1'', demo_container ''ctr2'' ''u2'', demo_container ''ctr3'' ''u9'']\<rparr>\<rparr>"

lemma demo_proxy_fields [simp]:
  "px_ID (demo_proxy pid port cid) = pid" "px_Port (demo_proxy pid port cid) = port"
  "px_ContainerID (demo_proxy pid port cid) = cid" "px_State (demo_proxy pid port cid) = StateRunning"
  by (simp_all add: demo_proxy_def)

lemma demo_proxy_stored: "scanProxy (proxy_to_row (demo_proxy pid port cid)) = demo_proxy pid port cid"
proof -
  have "stored_time 0 = 0" by (rule stored_time_id) code_simp
  then show ?thesis by (simp add: scanProxy_to_row demo_proxy_def)
qed

lemma demo_wf: "db_wf (w_db demo_panel)" "db_wf (w_db demo_world)"
  by (simp_all add: db_wf_def demo_panel_def demo_world_def empty_db_def)

lemma demo_rows:
  "rows demo_panel ''u1'' = Some (demo_proxy ''u1'' 443 ''ctr1'')"
  "rows demo_panel ''u2'' = Some (demo_proxy ''u2'' 8080 ''ctr2'')"
  "rows demo_panel ''u9'' = None" "rows demo_world pid = None"
  by (simp_all add: proxies_of_def demo_panel_def demo_world_def empty_db_def demo_proxy_stored)

lemma demo_ctrs:
  "fake_ctrs (w_rt demo_panel) ''ctr1'' = Some (managed_labels ''u1'')"
  "fake_ctrs (w_rt demo_panel) ''ctr2'' = Some (managed_labels ''u2'')"
  "fake_ctrs (w_rt demo_panel) ''ctr3'' = Some (managed_labels ''u9'')"
  by (simp_all add: fake_ctrs_def demo_panel_def demo_container_def)

lemma demo_runtime: "fake_reliable (w_rt demo_panel)" "fake_reliable (w_rt demo_world)"
proof -
  have "[1..<4] = [1, 2, 3::nat]" by (simp add: upt_rec)
  then show "fake_reliable (w_rt demo_panel)"
    by (simp add: fake_reliable_def fake_inv_def demo_panel_def demo_container_def demo_world_def
        NewFake_def Itoa_def format_nat.simps digit_char_def char_of_def bit_simps)
  show "fake_reliable (w_rt demo_world)" by (simp add: demo_world_def fake_reliable_NewFake)
qed

section \<open>A creation that fails half-way\<close>

text \<open>A domain that would break out of a TOML string is found when the configuration is written,
  after the row was inserted: the creation fails on every platform.\<close>

lemma writeConfig_rejects:
  assumes "\<not> valid_spec (config_spec sv p)"
  shows "\<exists>e. fst (writeConfig sv p w) = Some e"
proof -
  obtain e where "Render (config_spec sv p) = Inl e"
    using assms by (auto simp: Render_def validate_None_iff [symmetric] split: option.split)
  then show ?thesis by (auto simp: writeConfig_def Let_def split: prod.split option.split)
qed

lemma Create_rejects:
  assumes "strings_ContainsAny (cr_TLSDomain req) [c_dq, c_nl, c_bs]"
  shows "\<exists>e. fst (Create sv c req w) = Inl e"
proof -
  have "\<not> valid_spec (config_spec sv (new_proxy req sec tok pid))" for sec tok pid
    using assms by (simp add: valid_spec_def config_spec_def new_proxy_def)
  note wc = writeConfig_rejects [OF this]
  have claim: "\<exists>e. fst (create_claim sv c (new_proxy req sec tok pid) u) = Inl e" for sec tok pid u
  proof -
    obtain x u1 where x: "st_CreateProxy (sv_pl sv) c (new_proxy req sec tok pid) u = (x, u1)" by fastforce
    obtain e u2 where "writeConfig sv (new_proxy req sec tok pid) u1 = (Some e, u2)"
      using wc [of sec tok pid u1] by (metis prod.collapse)
    with x show ?thesis by (simp add: create_claim_def split: option.split)
  qed
  obtain r w' where run: "Create sv c req w = (r, w')" by fastforce
  show ?thesis
  proof (cases rule: Create_cases [OF run, case_names early claim])
    case early
    with run show ?thesis by simp
  next
    case claim': (claim w4 sec tok t t' t1 t2)
    then show ?thesis
      using claim [of "hex_Encode sec" "hex_Encode tok" "pl_uuid (sv_pl sv) t" w4] run by simp
  qed
qed

definition bad_request :: create_request where
  "bad_request = demo_request\<lparr>cr_Port := 2443, cr_TLSDomain := ''a\"b''\<rparr>"

lemma bad_request_fails: obtains e w' where "Create demo_service Background bad_request demo_panel = (Inl e, w')"
proof -
  have "strings_ContainsAny (cr_TLSDomain bad_request) [c_dq, c_nl, c_bs]"
    by (simp add: bad_request_def strings_ContainsAny_def)
  from Create_rejects [OF this] that show thesis by (metis prod.collapse)
qed

section \<open>A creation that succeeds\<close>

definition good_request :: create_request where
  "good_request = demo_request\<lparr>cr_Port := 2443\<rparr>"

lemma demo_valid_request: "valid_request demo_service good_request"
  by (simp add: valid_request_def port_allowed_def good_request_def demo_request_def demo_config_def
      strings_ContainsAny_def)

text \<open>The fake with every failure switch off.\<close>

definition fake_healthy :: "fake \<Rightarrow> bool" where
  "fake_healthy f \<longleftrightarrow>
     fake_reliable f \<and> fk_FailPull f = None \<and> fk_FailCreate f = None \<and> fk_FailStart f = None"

lemma mutate_switches: "mutate i fn f = (r, f') \<Longrightarrow> fk_FailPull f' = fk_FailPull f \<and>
    fk_FailCreate f' = fk_FailCreate f \<and> fk_FailStart f' = fk_FailStart f"
  by (auto simp: mutate_def split: option.splits)

interpretation healthy: container_runtime fake_runtime fake_ctrs fake_healthy
  unfolding fake_healthy_def [abs_def]
  by (rule reliable.strengthen)
    (auto simp: fake_runtime_def Fake_Create_def Fake_Remove_def Fake_Start_def Fake_Stop_def
      Fake_Ping_def Fake_EnsureNetwork_def Fake_Pull_def Fake_Logs_def Fake_Inspect_def Fake_List_def
      Let_def split: option.splits dest: mutate_switches)

lemma fake_healthy_works: "runtime_works fake_runtime fake_healthy"
  by (auto simp: runtime_works_def fake_healthy_def fake_runtime_def Fake_EnsureNetwork_def Fake_Pull_def
      Fake_Create_def Fake_Start_def mutate_def Let_def map_of_filter_key split: option.split)

lemma demo_healthy: "fake_healthy (w_rt demo_world)" "fake_healthy (w_rt demo_panel)"
  using demo_runtime by (simp_all add: fake_healthy_def demo_panel_def demo_world_def NewFake_def)

lemma demo_fresh: "dir_fresh (w_fs demo_world) d" "dir_fresh (w_fs demo_panel) d"
  by (simp_all add: dir_fresh_def demo_world_def demo_panel_def is_file_def)

lemma demo_host:
  "pl_listen demo_platform t port = None" "pl_lclose demo_platform t = None"
  "\<not> isl (pl_rand demo_platform t n)"
  by (simp_all add: demo_platform_def)

section \<open>Operations on the two proxies\<close>

lemma demo_contexts [simp]: "cx_cancel_at Background = None" "WithoutCancel Background = Background"
  by (simp_all add: Background_def WithoutCancel_def)

lemma demo_get:
  assumes "rows w pid = Some p"
  shows "st_GetProxy demo_platform Background pid w = (Inr p, tick demo_platform w)"
  using assms proxies.get_law [of pid "w_db w"]
  by (simp add: store_calls db_query_def db_fault_def demo_platform_def)

lemma demo_remove_u1:
  assumes "w_rt w = w_rt demo_panel"
  shows "\<exists>w'. call_rt (\<lambda>b. Fake_Remove b ''ctr1'') demo_platform Background w = (None, w') \<and>
    w_db w' = w_db w \<and> w_fs w' = w_fs w"
  using assms by (simp add: call_rt_def Fake_Remove_def demo_panel_def demo_container_def NewFake_def)

lemma demo_RemoveAll: "fst (os_RemoveAll demo_platform d w) = None"
  by (simp add: os_RemoveAll_def demo_platform_def)

lemma demo_Delete: obtains w' where "Delete demo_service Background ''u1'' demo_panel = (None, w')"
proof -
  let ?w1 = "tick demo_platform demo_panel"
  obtain w2 where rm: "call_rt (\<lambda>b. Fake_Remove b ''ctr1'') demo_platform Background ?w1 = (None, w2)"
    "w_db w2 = w_db ?w1"
    using demo_remove_u1 [of ?w1] by auto
  obtain w3 where ra: "os_RemoveAll demo_platform (configDir demo_service ''u1'') w2 = (None, w3)"
    using demo_RemoveAll by (metis prod.collapse)
  have "rows w3 ''u1'' \<noteq> None"
    using rm(2) fs_frames(8) [OF ra] demo_rows by (simp add: same_but_fs_def)
  then obtain w4 where "st_DeleteProxy demo_platform Background ''u1'' w3 = (None, w4)"
    using st_DeleteProxy_works [OF demo_reliable(1) ctx_done_Background] by (metis prod.collapse)
  then have "Delete demo_service Background ''u1'' demo_panel = (None, w4)"
    using rm ra by (simp add: Delete_def demo_get [OF demo_rows(1)] removal_failed_def fake_runtime_def)
  then show thesis by (rule that)
qed

definition demo_patch :: limits_patch where
  "demo_patch = \<lparr>lp_AdTag = None, lp_DataQuotaBytes = Some None, lp_ExpirationRFC3339 = None,
     lp_MaxTCPConns = Some (Some 10), lp_MaxUniqueIPs = None\<rparr>"

lemma demo_valid:
  "valid_spec (config_spec demo_service (demo_proxy pid 443 cid))"
  "valid_spec (config_spec demo_service (apply_patch demo_patch (demo_proxy pid 443 cid)))"
  by (simp_all add: valid_spec_def config_spec_def demo_proxy_def demo_config_def Username_def
      strings_ContainsAny_def is_hex_def hex_val_def list_all_iff list_ex_iff apply_patch_def demo_patch_def)

lemma demo_UpdateLimits:
  obtains q w' where "UpdateLimits demo_service Background ''u1'' demo_patch demo_panel = (Inr q, w')"
proof -
  let ?p = "apply_patch demo_patch (demo_proxy ''u1'' 443 ''ctr1'')"
  have "fst (writeConfig demo_service ?p (tick demo_platform demo_panel)) = None"
    by (rule writeConfig_works) (simp_all add: demo_reliable plain_name_def demo_fresh demo_valid)
  then obtain w1 where wc: "writeConfig demo_service ?p (tick demo_platform demo_panel) = (None, w1)"
    by (metis prod.collapse)
  obtain msg w2 where la: "live_apply demo_service Background ?p demo_patch w1 = (msg, w2)" by fastforce
  have db: "w_db w2 = w_db demo_panel"
    using writeConfig_frame [OF wc] live_apply_effect(1) [OF la] by (simp add: same_but_fs_def)
  have "fst (st_UpdateProxy demo_platform Background (?p\<lparr>px_StateMessage := msg\<rparr>) w2) = None"
    by (rule st_UpdateProxy_works [OF demo_reliable(1), where old = "demo_proxy ''u1'' 443 ''ctr1''"])
      (simp_all add: db demo_wf demo_rows)
  then obtain w3 where "st_UpdateProxy demo_platform Background (?p\<lparr>px_StateMessage := msg\<rparr>) w2 = (None, w3)"
    by (metis prod.collapse)
  then have "UpdateLimits demo_service Background ''u1'' demo_patch demo_panel =
      (Inr (?p\<lparr>px_StateMessage := msg\<rparr>), w3)"
    using wc la by (simp add: UpdateLimits_def demo_get [OF demo_rows(1)] Let_def)
  then show thesis by (rule that)
qed

lemma demo_RemoveOrphan: obtains w' where "RemoveOrphan demo_service Background ''ctr3'' demo_panel = (None, w')"
proof -
  have "fst (RemoveOrphan demo_service Background ''ctr3'' demo_panel) = None"
    by (simp add: RemoveOrphan_def Orphans_def store_calls db_query_def db_fault_def demo_platform_def
        ListProxies_def demo_panel_def demo_world_def empty_db_def call_rt_def fake_runtime_def Fake_List_def
        NewFake_def demo_container_def labels_match_def managed_filter_def managed_labels_def label_of_def
        orphans_of_def container_proxy_def LabelManaged_def LabelProxyID_def Fake_Remove_def)
  then show thesis using that by (metis prod.collapse)
qed

lemma demo_Reconcile: obtains rep w' where "Reconcile demo_service Background demo_panel = (Inr rep, w')"
proof -
  have "\<not> isl (fst (Reconcile demo_service Background demo_panel))"
    by (simp add: Reconcile_def store_calls db_query_def db_fault_def demo_platform_def
        ListProxies_def call_rt_def fake_runtime_def Fake_List_def split: prod.split)
  then show thesis using that by (metis prod.collapse sum.collapse(2))
qed

text \<open>The restart of a container differs from its creation only in what a failure undoes.\<close>

lemma startContainer_create:
  assumes "create_container sv c us p w = (Inr q, w')"
  shows "startContainer sv c p w = (Inr q, w')"
  using assms unfolding startContainer_eq create_container_def Let_def
  by (auto split: prod.splits sum.splits option.splits)

lemma demo_Recreate:
  obtains q w' where "Recreate demo_service Background ''u1'' 443 ''b.org'' demo_panel = (Inr q, w')"
proof -
  let ?p = "(demo_proxy ''u1'' 443 ''ctr1'')\<lparr>px_State := StateRecreating\<rparr>"
  let ?m = "moved ?p 443 ''b.org''"
  let ?w1 = "tick demo_platform demo_panel"
  have "fst (st_UpdateProxy demo_platform Background ?p ?w1) = None"
    by (rule st_UpdateProxy_works [OF demo_reliable(1), where old = "demo_proxy ''u1'' 443 ''ctr1''"])
      (simp_all add: demo_wf demo_rows)
  then obtain w2 where u1: "st_UpdateProxy demo_platform Background ?p ?w1 = (None, w2)"
    by (metis prod.collapse)
  have wf1: "db_wf (w_db ?w1)" by (simp add: demo_wf)
  obtain r2 where w2: "db_wf (w_db w2)" "rows w2 ''u1'' = Some r2" "px_Port r2 = 443"
    by (rule st_UpdateProxy_None [OF wf1 u1]) (auto intro: that)
  have f2: "w_rt w2 = w_rt demo_panel" "w_fs w2 = w_fs demo_panel"
    using st_UpdateProxy_frame [OF u1] by (simp_all add: same_but_db_def)
  obtain w3 where rm: "call_rt (\<lambda>b. Fake_Remove b ''ctr1'') demo_platform Background w2 = (None, w3)"
    "w_db w3 = w_db w2" "w_fs w3 = w_fs w2"
    using demo_remove_u1 [OF f2(1)] by auto
  have i3: "fake_healthy (w_rt w3)"
    using healthy.call_remove(1) [of w2] rm(1) demo_healthy(2) f2(1) by (simp add: fake_runtime_def)
  have "fst (st_UpdateProxy demo_platform Background ?m w3) = None"
    by (rule st_UpdateProxy_works [OF demo_reliable(1), where old = r2]) (simp_all add: rm w2)
  then obtain w4 where u2: "st_UpdateProxy demo_platform Background ?m w3 = (None, w4)"
    by (metis prod.collapse)
  have wf3: "db_wf (w_db w3)" by (simp add: rm w2)
  obtain r4 where w4: "db_wf (w_db w4)" "rows w4 ''u1'' = Some r4" "px_Port r4 = 443"
    by (rule st_UpdateProxy_None [OF wf3 u2]) (auto intro: that)
  have f4: "w_rt w4 = w_rt w3" "w_fs w4 = w_fs demo_panel"
    using st_UpdateProxy_frame [OF u2] rm f2 by (simp_all add: same_but_db_def)
  have valid: "valid_spec (config_spec demo_service ?m)"
    using demo_valid(1) [of "''u1''" "''ctr1''"]
    by (simp add: valid_spec_def config_spec_def moved_def demo_proxy_def strings_ContainsAny_def)
  have "fst (writeConfig demo_service ?m w4) = None"
    by (rule writeConfig_works) (simp_all add: demo_reliable plain_name_def f4 demo_fresh valid)
  then obtain w5 where wc: "writeConfig demo_service ?m w4 = (None, w5)" by (metis prod.collapse)
  have f5: "w_db w5 = w_db w4" "w_rt w5 = w_rt w3"
    using writeConfig_frame [OF wc] f4 by (simp_all add: same_but_fs_def)
  have "\<exists>q. fst (create_container demo_service Background [] ?m w5) = Inr q"
    by (rule healthy.create_container_works [where old = r4])
      (simp_all add: demo_reliable fake_healthy_works f5 i3 w4)
  then obtain q w6 where "create_container demo_service Background [] ?m w5 = (Inr q, w6)"
    by (metis prod.collapse)
  then have "startContainer demo_service Background ?m w5 = (Inr q, w6)" by (rule startContainer_create)
  then have "recreate_container demo_service Background ?p 443 ''b.org'' w2 = (Inr q, w6)"
    using rm(1) u2 wc
    by (simp add: recreate_container_def removal_failed_def fake_runtime_def moved_def Let_def)
  then have "Recreate demo_service Background ''u1'' 443 ''b.org'' demo_panel = (Inr q, w6)"
    using u1 by (simp add: Recreate_def demo_get [OF demo_rows(1)] Let_def)
  then show thesis by (rule that)
qed

lemma demo_panel_inv: "panel_inv demo_service fake_reliable demo_panel"
proof -
  have good: "good_proxy demo_service (demo_proxy pid port cid)"
    if "plain_name pid" "port \<in> {443, 8080}" for pid port cid
    using that by (auto simp: good_proxy_def port_allowed_def demo_config_def demo_proxy_def is_hex_def hex_val_def)
  have "good_proxy demo_service p" if row: "rows demo_panel k = Some p" for k p
  proof -
    have "p \<in> {demo_proxy ''u1'' 443 ''ctr1'', demo_proxy ''u2'' 8080 ''ctr2''}"
      using row by (auto simp: proxies_of_def demo_panel_def demo_proxy_stored split: if_splits)
    moreover have "plain_name ''u1''" "plain_name ''u2''" by (simp_all add: plain_name_def)
    ultimately show ?thesis using good by auto
  qed
  then show ?thesis using demo_runtime demo_wf by (simp add: panel_inv_def)
qed

end
