(* ===== verification/ExamplesAuth.thy ===== *)
theory ExamplesAuth imports Examples Poller Auth begin

text \<open>
  The concrete panel again, with an admin account, a login, and a poller.
\<close>

section \<open>An account and a login\<close>

definition demo_crypto :: crypto where
  "demo_crypto = \<lparr>cr_IDKey = (\<lambda>pw salt t m p n. take n (pw @ salt @ replicate n CHR ''k'')), cr_Sum256 = (\<lambda>s. s)\<rparr>"

lemma demo_key_length: "key_length_ok demo_crypto"
  by (auto simp: key_length_ok_def demo_crypto_def min_def)

lemma demo_Hash: "\<exists>h. HashPassword demo_crypto demo_platform plain w = (Inr h, tick demo_platform w)"
  by (simp add: HashPassword_def rand_Read_def demo_platform_def)

lemma demo_Bootstrap: obtains pw w' where "Bootstrap demo_crypto demo_platform Background demo_world = (Inr pw, w')"
proof -
  have "\<not> isl (fst (Bootstrap demo_crypto demo_platform Background demo_world))"
    by (simp add: Bootstrap_def admin_calls db_fault_def AdminCount_def CreateAdmin_def insert_admin_def
        demo_platform_def demo_world_def empty_db_def HashPassword_def rand_Read_def Let_def)
  then show thesis using that by (metis prod.collapse sum.collapse(2))
qed

definition demo_admin :: admin_row where
  "demo_admin = \<lparr>a_id = 1, a_username = ''admin'',
     a_password_hash = phc (replicate argonSaltLen CHR ''A'')
       (cr_IDKey demo_crypto ''correct horse'' (replicate argonSaltLen CHR ''A'') argonTime argonMemory argonThreads argonKeyLen),
     a_must_change_password = 0\<rparr>"

definition demo_site :: "fake world" where
  "demo_site = demo_panel\<lparr>w_db := (w_db demo_panel)\<lparr>t_admins := [demo_admin], t_admin_seq := 1\<rparr>\<rparr>"

lemma demo_site_wf: "db_wf (w_db demo_site)"
  using demo_wf(1) by (simp add: db_wf_def demo_site_def demo_admin_def demo_panel_def demo_world_def empty_db_def)

lemma demo_password: "VerifyPassword demo_crypto (a_password_hash demo_admin) ''correct horse''"
  using demo_key_length by (simp add: demo_admin_def VerifyPassword_phc key_length_ok_def)

lemma demo_Login: obtains token adm a w' where
  "Login demo_crypto demo_platform id Background ''10.0.0.9'' ''admin'' ''correct horse'' NewAuth demo_site =
     (Inr (token, adm), a, w')" "w_clock w' = 0"
proof -
  let ?r = "Login demo_crypto demo_platform id Background ''10.0.0.9'' ''admin'' ''correct horse'' NewAuth demo_site"
  have "ad_PasswordHash (scanAdmin demo_admin) = a_password_hash demo_admin" by (simp add: scanAdmin_def)
  then have "\<not> isl (fst ?r) \<and> w_clock (snd (snd ?r)) = 0"
    using demo_password
    by (simp add: Login_def limited_def NewAuth_def admin_calls db_fault_def AdminByUsername_def demo_site_def
        demo_platform_def open_session_def newToken_def rand_Read_def CreateSession_def insert_session_def
        demo_panel_def demo_world_def tick_def)
      (simp add: demo_admin_def scanAdmin_def)
  then show thesis using that by (metis prod.collapse sum.collapse(2))
qed

section \<open>A sweep of the poller\<close>

lemma demo_sweep: obtains po w' where
  "PollOnce demo_service Background id poller_New demo_panel = ((po, True), w')"
proof -
  have "snd (fst (PollOnce demo_service Background id poller_New demo_panel))"
    by (simp add: PollOnce_def Lifecycle.List_def store_calls db_query_def db_fault_def demo_platform_def ListProxies_def
        split: prod.split)
  then show thesis using that by (metis prod.collapse)
qed

text \<open>A poller that has seen the first proxy fail three times.\<close>

definition demo_failing :: poller where
  "demo_failing = \<lparr>po_snapshots = [''u1'' \<mapsto> blank_snapshot ''u1'' 0], po_failures = [''u1'' \<mapsto> 3], po_skips = (\<lambda>_. None)\<rparr>"

lemma demo_failing: "poller_inv demo_failing" "backing_off demo_failing ''u1''"
  by (simp_all add: poller_inv_def demo_failing_def blank_snapshot_def count_of_def backing_off_def
      failuresBeforeBackoff_def backoffEvery_def)

lemma demo_failing_sweep: obtains po w' where
  "PollOnce demo_service Background id demo_failing demo_panel = ((po, True), w')"
proof -
  have "snd (fst (PollOnce demo_service Background id demo_failing demo_panel))"
    by (simp add: PollOnce_def Lifecycle.List_def store_calls db_query_def db_fault_def demo_platform_def ListProxies_def
        split: prod.split)
  then show thesis using that by (metis prod.collapse)
qed

end
