(* ===== verification/ExamplesWeb.thy ===== *)
theory ExamplesWeb imports ExamplesAuth Site begin

text \<open>
  The concrete panel behind its web server: requests, a form, and an event stream.
\<close>

definition demo_deps :: "fake web_deps" where
  "demo_deps = \<lparr>wd_Proxy = demo_service, wd_crypto = demo_crypto, wd_pick = id, wd_qr = (\<lambda>l. Inr l),
     wd_rows = (\<lambda>pg. Inr (''<p>'' @ [c_nl] @ ''</p>'')), wd_flusher = True\<rparr>"

definition demo_state :: "fake site" where
  "demo_state = \<lparr>si_world = demo_panel, si_attempts = NewAuth, si_poller = poller_New, si_hub = hub_New\<rparr>"

definition demo_post :: "string list \<Rightarrow> (string \<times> string) list \<Rightarrow> request" where
  "demo_post path f = \<lparr>rq_method = ''POST'', rq_path = path, rq_cookie = None, rq_form = Some f,
     rq_remote = ''10.0.0.9:51234'', rq_ctx = Background\<rparr>"

lemma demo_deps_fields [simp]:
  "wd_Proxy demo_deps = demo_service" "wd_crypto demo_deps = demo_crypto" "wd_flusher demo_deps = True"
  "wd_rows demo_deps pg = Inr (''<p>'' @ [c_nl] @ ''</p>'')"
  by (simp_all add: demo_deps_def)

definition demo_form :: "(string \<times> string) list" where
  "demo_form = [(''name'', '' main ''), (''port'', ''2443''), (''tls_domain'', ''example.com''), (''ad_tag'', ''''),
     (''quota_gb'', ''5''), (''expires'', ''2030-01-31''), (''max_conns'', ''100''), (''max_ips'', '''')]"

lemma demo_form_parses: obtains req where "parse_create demo_form = Inr req" "cr_Port req = 2443"
proof -
  have "Parse_date ''2030-01-31'' \<noteq> None" by code_simp
  then obtain t where t: "Parse_date ''2030-01-31'' = Some t" by blast
  have d: "list_all is_digit ''2443''" "list_all is_digit ''5''" "list_all is_digit ''100''"
    "dec_value 0 ''2443'' = 2443" "dec_value 0 ''5'' = 5" "dec_value 0 ''100'' = 100"
    by (simp_all add: is_digit_def digit_val_def)
  have n: "Atoi ''2443'' = Inr 2443" "Atoi ''100'' = Inr 100" "ParseUint64 ''5'' = Inr 5"
    using d by (simp_all add: Atoi_def ParseUint64_def int64_ok_def)
  have "\<exists>req. parse_create demo_form = Inr req \<and> cr_Port req = 2443"
    using t n by (simp add: parse_create_def demo_form_def PostFormValue_def create_quota_def create_date_def create_int_def)
  then show thesis using that by blast
qed

lemma demo_state_inv: "site_inv demo_deps fake_reliable demo_state"
  using demo_panel_inv poller_inv_New hub_inv_New
  by (simp add: site_inv_def demo_state_def attempts_inv_def NewAuth_def)

lemma demo_renders: "renders_lines demo_deps"
  by (simp add: renders_lines_def)

text \<open>A stream that sees a keepalive and one sweep.\<close>

definition demo_wakeups :: "fake event list" where
  "demo_wakeups =
     [\<lparr>ev_wakeup = KeepaliveTick, ev_meanwhile = id, ev_written = True\<rparr>,
      \<lparr>ev_wakeup = Updates, ev_meanwhile = (\<lambda>s. case notify (si_hub s) of Some h \<Rightarrow> s\<lparr>si_hub := h\<rparr> | None \<Rightarrow> s),
       ev_written = True\<rparr>]"

lemma demo_send:
  assumes "w_db (si_world s) = w_db demo_panel" "x = (sseFrame ''rows'' (''<p>'' @ [c_nl] @ ''</p>''), True)"
    "rq_ctx rq = Background"
  shows "\<exists>w. send_rows demo_deps rq True s = (x, s\<lparr>si_world := w\<rparr>) \<and> w_db w = w_db (si_world s)"
proof -
  have "send_rows demo_deps rq True s = (x, s\<lparr>si_world := tick demo_platform (si_world s)\<rparr>)"
    using assms
    by (simp add: send_rows_def buildRows_def on_world_def List_def store_calls db_query_def db_fault_def demo_platform_def
        ListProxies_def)
  then show ?thesis by (intro exI [of _ "tick demo_platform (si_world s)"]) simp
qed

lemma demo_stream: obtains r s' out where
  "getEvents True demo_wakeups demo_deps (demo_post [] []) adm demo_state = (r, s')" "rs_body r = EventStream out"
  "out = sseFrame ''rows'' (''<p>'' @ [c_nl] @ ''</p>'') @ keepalive @ sseFrame ''rows'' (''<p>'' @ [c_nl] @ ''</p>'')"
proof -
  let ?frame = "sseFrame ''rows'' (''<p>'' @ [c_nl] @ ''</p>'')"
  let ?rq = "demo_post [] []"
  obtain ch h where sub: "Subscribe (si_hub demo_state) = (ch, h)" by fastforce
  then have h: "hb_subs h = [ch]" "hb_phase h ch = Subscribed"
    by (auto simp: Subscribe_def demo_state_def hub_New_def)
  let ?s0 = "demo_state\<lparr>si_hub := h\<rparr>"
  have ctx: "rq_ctx ?rq = Background" by (simp add: demo_post_def)
  have "w_db (si_world ?s0) = w_db demo_panel" by (simp add: demo_state_def)
  from demo_send [OF this refl ctx] obtain w1 where w1: "send_rows demo_deps ?rq True ?s0 =
      ((?frame, True), ?s0\<lparr>si_world := w1\<rparr>)" "w_db w1 = w_db demo_panel" by (auto simp: demo_state_def)
  obtain h2 where h2: "notify h = Some h2" "hb_token h2 ch" using h by (simp add: notify_def)
  let ?s2 = "?s0\<lparr>si_world := w1, si_hub := snd (receive ch h2)\<rparr>"
  have "w_db (si_world ?s2) = w_db demo_panel" using w1 by simp
  from demo_send [OF this refl ctx] obtain s3 where s3: "send_rows demo_deps ?rq True ?s2 = ((?frame, True), s3)" by blast
  have rc: "receive ch h2 = (True, snd (receive ch h2))" using h2 by (simp add: receive_def)
  have "event_loop demo_deps ?rq ch demo_wakeups (?s0\<lparr>si_world := w1\<rparr>) = (keepalive @ ?frame, s3)"
    using h2 s3 by (simp add: demo_wakeups_def) (subst rc, simp)
  then obtain r s' where "getEvents True demo_wakeups demo_deps ?rq adm demo_state = (r, s')"
    "rs_body r = EventStream (?frame @ keepalive @ ?frame)"
    using sub w1(1) by (simp add: getEvents_def)
  then show thesis using that by blast
qed

end
