(* ===== verification/ExamplesDocker.thy ===== *)
theory ExamplesDocker imports Docker ExamplesWeb begin

text \<open>
  A daemon to run the Docker client on: the SDK's calls answered by the in-memory \<open>Runtime\<close> of
  \<open>internal/docker/fake.go\<close>. It provides the laws of \<open>docker_daemon\<close>, so that the client on top of
  it provides the contract of \<open>Runtime\<close> again.
\<close>

definition sdk_error_of :: "gerror \<Rightarrow> sdk_error" where
  "sdk_error_of e = \<lparr>de_err = GErr (err_text e) [], de_notfound = errors_Is e ErrNoSuchContainer\<rparr>"

definition sdk_result :: "gerror option \<times> fake \<Rightarrow> sdk_error option \<times> fake" where
  "sdk_result = apfst (map_option sdk_error_of)"

definition string_reader :: "string \<Rightarrow> fake reader" where
  "string_reader b = \<lparr>rd_Copy = (\<lambda>f. ((b, None), f)), rd_Close = (\<lambda>f. f)\<rparr>"

definition json_of_fake :: "fake_container \<Rightarrow> container_json" where
  "json_of_fake fc =
     \<lparr>cj_ID = ci_ID (fc_info fc), cj_Name = ''/'' @ ci_Name (fc_info fc),
      cj_Running = Some (ci_Running (fc_info fc)), cj_Labels = ci_Labels (fc_info fc),
      cj_Networks = Some [(''none'', ''''), (''panel'', ci_IPAddress (fc_info fc))]\<rparr>"

definition spec_of_request :: "container_config \<Rightarrow> host_config \<Rightarrow> string \<Rightarrow> container_spec" where
  "spec_of_request cfg hc n =
     \<lparr>cs_Name = n, cs_Image = cc_Image cfg, cs_Labels = cc_Labels cfg,
      cs_ConfigHostDir = (case hc_Mounts hc of [] \<Rightarrow> '''' | m # _ \<Rightarrow> mo_Source m), cs_Port = 0,
      cs_Network = ''''\<rparr>"

definition fake_sdk :: "fake docker_sdk" where
  "fake_sdk =
     \<lparr>sdk_Ping = (\<lambda>c f. sdk_result (Fake_Ping c f)),
      sdk_NetworkList = (\<lambda>c n f. (Inr (filter (\<lambda>m. strings_Contains m n) (map fst (fk_Networks f))), f)),
      sdk_NetworkCreate = (\<lambda>c n d subs f. sdk_result (Fake_EnsureNetwork c n (concat subs) f)),
      sdk_ImagePull = (\<lambda>c ref f. (case fk_FailPull f of
          Some e \<Rightarrow> (Inl (sdk_error_of e), f) | None \<Rightarrow> (Inr (string_reader ''done''), f))),
      sdk_ContainerCreate = (\<lambda>c cfg hc nets n f.
        apfst (map_sum sdk_error_of (\<lambda>i. i)) (Fake_Create c (spec_of_request cfg hc n) f)),
      sdk_ContainerStart = (\<lambda>c i f. sdk_result (Fake_Start c i f)),
      sdk_ContainerStop = (\<lambda>c i f. sdk_result (Fake_Stop c i f)),
      sdk_ContainerRemove = (\<lambda>c i force f. sdk_result (Fake_Remove c i f)),
      sdk_ContainerInspect = (\<lambda>c i f. (case map_of (fk_containers f) i of
          None \<Rightarrow> (Inl (sdk_error_of (no_such_container i)), f) | Some fc \<Rightarrow> (Inr (json_of_fake fc), f))),
      sdk_ContainerList = (\<lambda>c al fs f. (Inr (map fst (filter
          (\<lambda>(i, fc). list_all (\<lambda>q. filter_matches q (ci_Labels (fc_info fc))) fs) (fk_containers f))), f)),
      sdk_ContainerLogs = (\<lambda>c i n f. (case map_of (fk_containers f) i of
          None \<Rightarrow> (Inl (sdk_error_of (no_such_container i)), f)
        | Some fc \<Rightarrow> (Inr (string_reader (fc_logs fc)), f)))\<rparr>"

definition fake_resolve :: "fake \<Rightarrow> string \<Rightarrow> string option" where
  "fake_resolve f i = (if fake_ctrs f i = None then None else Some i)"

lemma sdk_result_eq:
  "sdk_result x = (r, f') \<longleftrightarrow> (\<exists>e. x = (e, f') \<and> map_option sdk_error_of e = r)"
  by (cases x) (auto simp: sdk_result_def)

lemma sdk_error_of_sel [simp]:
  "de_notfound (sdk_error_of e) = errors_Is e ErrNoSuchContainer"
  "\<not> errors_Is (de_err (sdk_error_of e)) s"
  by (simp_all add: sdk_error_of_def errors_Is_def)

interpretation fake_daemon: full_references fake_sdk fake_ctrs fake_resolve fake_inv
proof (unfold_locales, goal_cases)
  case (1 s i)
  then show ?case by (simp add: fake_resolve_def)
next
  case (2 s i j)
  then show ?case by (auto simp: fake_resolve_def split: if_splits)
next
  case (3 s c cfg hc nets n i s')
  then have "Fake_Create c (spec_of_request cfg hc n) s = (Inr i, s')"
    by (cases "Fake_Create c (spec_of_request cfg hc n) s"; cases "fst (Fake_Create c (spec_of_request cfg hc n) s)")
      (auto simp: fake_sdk_def)
  from Fake_Create_ok [OF 3(1) this] show ?case by (simp add: spec_of_request_def)
next
  case (4 s c cfg hc nets n e s')
  then obtain e' where "Fake_Create c (spec_of_request cfg hc n) s = (Inl e', s')"
    by (cases "Fake_Create c (spec_of_request cfg hc n) s"; cases "fst (Fake_Create c (spec_of_request cfg hc n) s)")
      (auto simp: fake_sdk_def)
  then show ?case using fake.create_err [of s c "spec_of_request cfg hc n" e' s'] 4(1) by (simp add: fake_runtime_def)
next
  case (5 s c i s')
  then have "Fake_Remove c i s = (None, s')" by (auto simp: fake_sdk_def sdk_result_eq)
  from Fake_Remove_ok [OF 5(1) this] show ?case by (auto simp: fake_resolve_def)
next
  case (6 s c i e s')
  then obtain e' where "Fake_Remove c i s = (Some e', s')" "e = sdk_error_of e'"
    by (auto simp: fake_sdk_def sdk_result_eq)
  with Fake_Remove_err [OF 6(1), of c i e' s'] 6(1) show ?case by (auto simp: fake_resolve_def)
next
  case (7 s c i r s')
  then show ?case using fake.start_keeps [of s c i _ s'] by (auto simp: fake_sdk_def sdk_result_eq fake_runtime_def)
next
  case (8 s c i r s')
  then show ?case using fake.stop_keeps [of s c i _ s'] by (auto simp: fake_sdk_def sdk_result_eq fake_runtime_def)
next
  case (9 s c r s')
  then show ?case using fake.ping_keeps [of s c _ s'] by (auto simp: fake_sdk_def sdk_result_eq fake_runtime_def)
next
  case (10 s c n nr s')
  then show ?case by (simp add: fake_sdk_def)
next
  case (11 s c n d subs r s')
  then show ?case
    using fake.network_keeps [of s c n "concat subs" _ s'] by (auto simp: fake_sdk_def sdk_result_eq fake_runtime_def)
next
  case (12 s c ref pr s')
  then show ?case by (auto simp: fake_sdk_def split: option.splits)
next
  case (13 c ref s rc s' t x t')
  then show ?case by (auto simp: fake_sdk_def string_reader_def split: option.splits)
next
  case (14 c ref s rc s' t)
  then show ?case by (auto simp: fake_sdk_def string_reader_def split: option.splits)
next
  case (15 s c i tail pr s')
  then show ?case by (auto simp: fake_sdk_def split: option.splits)
next
  case (16 c i tail s rc s' t x t')
  then show ?case by (auto simp: fake_sdk_def string_reader_def split: option.splits)
next
  case (17 c i tail s rc s' t)
  then show ?case by (auto simp: fake_sdk_def string_reader_def split: option.splits)
next
  case (18 s c i jr s')
  then show ?case by (auto simp: fake_sdk_def split: option.splits)
next
  case (19 s c i js s')
  then obtain fc where fc: "map_of (fk_containers s) i = Some fc" "js = json_of_fake fc"
    by (auto simp: fake_sdk_def split: option.splits)
  with fake_ctrs_lookup [OF 19(1) fc(1)] show ?case by (simp add: fake_resolve_def json_of_fake_def)
next
  case (20 s c al fs lr s')
  then show ?case by (simp add: fake_sdk_def)
next
  case (21 s c al fs ids s' i)
  then obtain fc where "(i, fc) \<in> set (fk_containers s)"
    "list_all (\<lambda>q. filter_matches q (ci_Labels (fc_info fc))) fs"
    by (auto simp: fake_sdk_def)
  with fake_listed(2) [OF 21(1), of i fc] show ?case by (auto simp: list_all_iff)
next
  case (22 s i j)
  then show ?case by (auto simp: fake_resolve_def split: if_splits)
qed


text \<open>The daemon agrees with the fake also without a simulated removal failure.\<close>

lemma fake_refines: "container_runtime (docker_runtime fake_sdk) fake_ctrs fake_inv"
  by (rule fake_daemon.refines)

end
