(* ===== verification/ExamplesMain.thy ===== *)
theory ExamplesMain imports PanelMain ExamplesDocker begin

text \<open>A machine to boot the panel on, and a first boot of it.\<close>

definition silent_transport :: transport where
  "silent_transport =
     \<lparr>tr_Do = (\<lambda>_ _ _. Inl (errorf ''connection refused'')), tr_ParseError = errorf,
      tr_TypeError = (\<lambda>_ _. errorf ''type'')\<rparr>"

definition demo_machine :: "fake machine" where
  "demo_machine =
     \<lparr>ma_getenv = (\<lambda>_. ''''), ma_platform = demo_platform,
      ma_sqlite = \<lparr>sq_Open = (\<lambda>_. None), sq_Schema = None\<rparr>, ma_docker = Inr fake_sdk,
      ma_transport = silent_transport, ma_crypto = demo_crypto, ma_ParseFS = (\<lambda>_. None),
      ma_static = None, ma_pick = (\<lambda>a. a), ma_qr = (\<lambda>_. Inr ''''), ma_rows = (\<lambda>_. Inr ''''),
      ma_flusher = True\<rparr>"

lemma demo_machine_sel [simp]:
  "ma_getenv demo_machine = (\<lambda>_. '''')" "ma_platform demo_machine = demo_platform"
  "ma_docker demo_machine = Inr fake_sdk" "ma_crypto demo_machine = demo_crypto"
  by (simp_all add: demo_machine_def)

lemma demo_Bootstrap_empty:
  assumes "w_db w = empty_db"
  shows "\<not> isl (fst (Bootstrap demo_crypto demo_platform Background w))"
  using assms
  by (simp add: Bootstrap_def admin_calls db_fault_def AdminCount_def CreateAdmin_def insert_admin_def
      demo_platform_def empty_db_def HashPassword_def rand_Read_def Let_def)

lemma demo_boot:
  obtains log d s w' where "boot demo_machine Background demo_world = (log, Serving d s, w')"
proof -
  obtain cfg where cfg: "Load (\<lambda>_. '''') = Inr cfg" "cf_DataDir cfg = ''/data''"
    using Load_defaults by fastforce
  let ?p = "filepath_Join [''/data'', ''proxies'']"
  obtain e w1 where mk: "os_MkdirAll demo_platform ?p demo_world = (e, w1)" by fastforce
  have e: "e = None"
    using MkdirAll_works [of demo_platform ?p demo_world] mk demo_reliable(2) by (simp add: demo_world_def is_file_def)
  have db: "w_db w1 = empty_db"
    using fs_frames(1) [OF mk] by (simp add: same_but_fs_def demo_world_def)
  obtain pw w2 where bs: "Bootstrap demo_crypto demo_platform Background w1 = (Inr pw, w2)"
    using demo_Bootstrap_empty [OF db] by (metis prod.collapse sum.collapse(2))
  have "NewServer (ma_ParseFS demo_machine) (ma_static demo_machine) = None"
    by (simp add: NewServer_def demo_machine_def page_names_def)
  moreover have "store_Open (ma_sqlite demo_machine) p = None" for p
    by (simp add: store_Open_def demo_machine_def)
  ultimately have "\<exists>log d s w'. boot demo_machine Background demo_world = (log, Serving d s, w')"
    using cfg mk e bs
    by (simp add: boot_def boot_started_def NewDockerRuntime_def Let_def split: prod.splits)
  then show thesis using that by blast
qed


section \<open>A telemt that answers\<close>

definition demo_reply :: http_response where
  \<open>demo_reply = \<lparr>hs_StatusCode = 200, hs_Body = ''{"ok":true,"data":[{"username":"u"}]}'', hs_ReadError = None\<rparr>\<close>

definition demo_transport :: transport where
  "demo_transport = silent_transport\<lparr>tr_Do := (\<lambda>_ _ _. Inr demo_reply)\<rparr>"

definition demo_users :: jval where
  "demo_users = VArr [VObj [(''username'', VStr ''u'')]]"

lemma demo_reply_parses:
  "json_parse (hs_Body demo_reply) = Some (VObj [(''ok'', VBool True), (''data'', demo_users)])"
  by (simp add: demo_reply_def demo_users_def json_parse_def max_nesting_def value_with_def member_def
      scalar_def json_space_def unquote_ascii unquote.simps(2) [of c_dq])

lemma demo_read_body: "read_body demo_reply = Inr (hs_Body demo_reply)"
  by (simp add: read_body_def demo_reply_def body_limit_def)

lemma demo_users_conform: "conforms demo_users (TySlice user_type)"
proof -
  have "field_index [(''username'', TyString), (''enabled'', TyBool), (''in_runtime'', TyBool),
      (''user_ad_tag'', TyPtr TyString), (''current_connections'', TyUint64),
      (''active_unique_ips'', TyInt), (''active_unique_ips_list'', TySlice TyString),
      (''total_octets'', TyUint64), (''data_quota_bytes'', TyPtr TyUint64),
      (''expiration_rfc3339'', TyPtr TyString), (''max_tcp_conns'', TyPtr TyInt),
      (''max_unique_ips'', TyPtr TyInt), (''links'', links_type)] ''username'' = Some 0"
    by (simp add: field_index_def)
  then show ?thesis by (simp add: demo_users_def user_type_def conforms_simps)
qed

lemma demo_envelope:
  "\<exists>env. read_envelope (hs_Body demo_reply) = Some env \<and> en_OK env \<and> en_Data env = Some demo_users"
  by (simp add: read_envelope_def demo_reply_parses Unmarshal_def envelope_type_def decode.simps
      field_index_def envelope_of_def demo_users_def)

lemma demo_url: "url_Parse ''http://10.0.0.2:9091/v1/users'' \<noteq> None"
  by code_simp

definition demo_api :: client where
  "demo_api = client_New ''http://10.0.0.2:9091'' ''token''"

lemma demo_api_url: "cl_baseURL demo_api @ ''/v1/users'' = ''http://10.0.0.2:9091/v1/users''"
  by (simp add: demo_api_def client_New_def strings_TrimRight_def)

lemma demo_do: "client_do demo_transport demo_api c n ''GET'' ''/v1/users'' None = Inr (Some demo_users)"
proof -
  obtain env where "read_envelope (hs_Body demo_reply) = Some env" "en_OK env" "en_Data env = Some demo_users"
    using demo_envelope by blast
  moreover have "hs_StatusCode demo_reply < 400" by (simp add: demo_reply_def)
  ultimately show ?thesis
    unfolding client_do_Inr demo_api_url using demo_url demo_read_body
    by (auto simp: demo_transport_def)
qed

end
