(* ===== verification/ExamplesThreads.thy ===== *)
theory ExamplesThreads imports DockerPanel Crash ExamplesMain begin

text \<open>
  Concurrent operations on the concrete panel: the interfaces of interleavings on the in-memory runtime,
  and on the Docker client over the daemon that the in-memory runtime answers.
\<close>

section \<open>On the in-memory runtime\<close>

interpretation fake_alike: interchange fake_runtime fake_ctrs fake_reliable fake_runtime "\<lambda>_. True"
  by (rule container_runtime.with_itself [OF reliable.container_runtime_axioms])

interpretation demo_rows: row_law demo_service "\<lambda>_. True" "good_proxy demo_service"
  by (rule good_rows) (simp add: demo_random)

interpretation demo_threads: interleaving fake_runtime fake_ctrs fake_reliable fake_runtime "\<lambda>_. True"
    demo_service "good_proxy demo_service"
  by unfold_locales simp

lemma started:
  assumes "set ps \<subseteq> starts"
  shows "(pool_step starts others)\<^sup>*\<^sup>* (w, []) (schedule is (w, ps))"
proof -
  have "(pool_step starts others)\<^sup>*\<^sup>* (w, []) (w, ps)"
    using assms by (induction ps rule: rev_induct) (auto intro: rtranclp.rtrancl_into_rtrancl pool_step.start)
  then show ?thesis using schedule_reachable by (rule rtranclp_trans)
qed

section \<open>On the Docker client\<close>

definition docker_service :: "fake service" where
  "docker_service = demo_service\<lparr>sv_Runtime := docker_runtime fake_sdk\<rparr>"

definition fake_full :: "string \<Rightarrow> bool" where
  "fake_full i \<longleftrightarrow> take 3 i = ''ctr''"

lemma fake_ids: "fake_inv s \<Longrightarrow> fake_ctrs s i \<noteq> None \<Longrightarrow> fake_full i"
  by (auto simp: fake_inv_def fake_ctrs_def fake_full_def list_all_iff list_ex_iff dest!: map_of_SomeD)

interpretation docker_alike: interchange "docker_runtime (in_full fake_full fake_sdk)" fake_ctrs fake_inv
    "docker_runtime fake_sdk" fake_full
  by (rule docker_daemon.docker_interchange [OF fake_daemon.docker_daemon_axioms fake_ids fake_daemon.full_only])

interpretation docker_rows: row_law docker_service fake_full "full_id fake_full"
  by (rule full_rows)

interpretation docker_threads: interleaving "docker_runtime (in_full fake_full fake_sdk)" fake_ctrs fake_inv
    "docker_runtime fake_sdk" fake_full "asking_in_full fake_full fake_sdk docker_service" "full_id fake_full"
  by (rule docker_interleaving [OF fake_daemon.docker_daemon_axioms fake_ids fake_daemon.full_only full_rows])

lemma demo_full: "rows_inv fake_inv (full_id fake_full) demo_panel"
proof -
  have "fake_inv (w_rt demo_panel)" using demo_runtime(1) by (simp add: fake_reliable_def)
  moreover have "rows demo_panel k = Some p \<Longrightarrow> full_id fake_full p" for k p
    by (auto simp: demo_panel_def proxies_of_def empty_db_def demo_proxy_stored full_id_def fake_full_def
        split: if_splits)
  ultimately show ?thesis using demo_wf(1) by (simp add: rows_inv_def)
qed

section \<open>A restart\<close>

lemma demo_restart: obtains rep w' where "Reconcile demo_service Background w = (Inr rep, w')"
proof -
  have "\<not> isl (fst (Reconcile demo_service Background w))"
    by (simp add: Reconcile_def store_calls db_query_def db_fault_def demo_platform_def
        ListProxies_def call_rt_def fake_runtime_def Fake_List_def split: prod.split)
  then show thesis using that by (metis prod.collapse sum.collapse(2))
qed

end
