(* ===== verification/Races.thy ===== *)
theory Races imports Programs Works begin

text \<open>
  What goes wrong when two operations on one proxy overlap: the service takes no lock between reading a
  row and writing it back. Two schedules on a platform where nothing fails: of two changes of limits one is
  lost although both are confirmed, and a deletion during a recreation is confirmed although the
  recreation then leaves a container without a row.
\<close>

section \<open>Schedules of one thread\<close>

lemma bindp_assoc: "bindp (bindp m f) g = bindp m (\<lambda>x. bindp (f x) g)"
proof (induction m)
  case (Act h)
  have "map_prod (\<lambda>m. bindp m g) id (map_prod (\<lambda>m. bindp m f) id (h w)) =
      map_prod (\<lambda>m. bindp m (\<lambda>x. bindp (f x) g)) id (h w)" for w
    using Act.IH [OF rangeI, of "fst (h w)" w] by (cases "h w") (simp add: fsts.simps)
  then show ?case by simp
qed simp

lemma bindp_Ret: "bindp m Ret = m"
proof (induction m)
  case (Act h)
  have "map_prod (\<lambda>m. bindp m Ret) id (h w) = h w" for w
    using Act.IH [OF rangeI, of "fst (h w)" w] by (cases "h w") (simp add: fsts.simps)
  then show ?case by simp
qed simp

text \<open>A thread that is given enough turns gets through the first part of its program.\<close>

lemma schedule_bind:
  assumes "i < length ts" "ts ! i = bindp m k" "run m w = (x, w')"
  shows "\<exists>n. schedule (replicate n i) (w, ts) = (w', ts[i := k x])"
  using assms
proof (induction m arbitrary: w ts)
  case (Ret y)
  then show ?case by (intro exI [of _ 0]) (metis bindp.simps(1) list_update_id prod.inject replicate_0 run_Ret schedule_simps(1))
next
  case (Act f)
  obtain m v where f: "f w = (m, v)" by fastforce
  have "m \<in> Basic_BNFs.fsts (f w)" by (simp add: f)
  from Act.IH [OF rangeI this, of "ts[i := bindp m k]" v] Act.prems f obtain n
    where n: "schedule (replicate n i) (v, ts[i := bindp m k]) = (w', ts[i := k x])"
    by (auto simp: run.simps(2))
  have "advance i (w, ts) = (v, ts[i := bindp m k])" using Act.prems f by simp
  then show ?case using n by (intro exI [of _ "Suc n"]) simp
qed

lemma schedule_thread:
  assumes "i < length ts" "run (ts ! i) w = (x, w')"
  shows "\<exists>n. schedule (replicate n i) (w, ts) = (w', ts[i := Ret x])"
  using schedule_bind [of i ts "ts ! i" Ret w x w'] assms by (simp add: bindp_Ret)

text \<open>What the threads reach, one part of a program at a time.\<close>

definition reaches :: "('w, 'a) pool \<Rightarrow> ('w, 'a) pool \<Rightarrow> bool" where
  "reaches pool pool' \<longleftrightarrow> (\<exists>turns. schedule turns pool = pool')"

lemma reaches_trans [trans]: "reaches p q \<Longrightarrow> reaches q r \<Longrightarrow> reaches p r"
  unfolding reaches_def by (metis schedule_simps(3))

lemma reaches_first: "run m w = (x, w') \<Longrightarrow>
    reaches (w, [bindp (bindp m k) R, t]) (w', [bindp (k x) R, t])"
  using schedule_bind [of 0 "[bindp (bindp m k) R, t]" m "\<lambda>x. bindp (k x) R" w x w']
  by (auto simp: reaches_def bindp_assoc)

lemma reaches_end: "run m w = (x, w') \<Longrightarrow> reaches (w, [m, t]) (w', [Ret x, t])"
  "run m w = (x, w') \<Longrightarrow> reaches (w, [t, m]) (w', [t, Ret x])"
  using schedule_thread [of 0 "[m, t]" w x w'] schedule_thread [of 1 "[t, m]" w x w'] by (auto simp: reaches_def)

section \<open>A platform without faults\<close>

lemma GetProxy_works:
  assumes "db_reliable pl" "\<not> ctx_done c w" "rows w pid = Some p"
  shows "st_GetProxy pl c pid w = (Inr p, tick pl w)"
  using assms proxies.get_law [of pid "w_db w"]
  by (simp add: store_calls db_query_def db_fault_def db_reliable_def)

lemma get_works:
  "db_reliable pl \<Longrightarrow> cx_cancel_at c = None \<Longrightarrow> rows v pid = Some r \<Longrightarrow> st_GetProxy pl c pid v = (Inr r, tick pl v)"
  by (rule GetProxy_works) (simp_all add: ctx_done_def)

text \<open>A directory in which a configuration can be written, over and over again.\<close>

definition dir_ready :: "'r service \<Rightarrow> fs \<Rightarrow> string \<Rightarrow> bool" where
  "dir_ready sv f pid \<longleftrightarrow>
     (\<forall>q \<in> set (path_prefixes (configDir sv pid)). \<not> is_file (f q)) \<and>
     (\<forall>rnd. f (temp_name (configDir sv pid) ''.config-'' rnd ''.toml'') = None) \<and>
     f (configPath sv pid) \<noteq> Some Dir"

lemma fresh_ready: "plain_name pid \<Longrightarrow> dir_fresh f (configDir sv pid) \<Longrightarrow> dir_ready sv f pid"
  using temp_name_below [of "configDir sv pid"] configPath_eq [of pid sv]
  by (auto simp: dir_ready_def dir_fresh_def)

lemma writeAtomic_exact:
  assumes rel: "fs_reliable pl" and dir: "filepath_Dir path = d" "w_fs w d = Some Dir"
    and tmp: "\<And>rnd. w_fs w (temp_name d ''.config-'' rnd ''.toml'') = None"
      "\<And>rnd. temp_name d ''.config-'' rnd ''.toml'' \<noteq> path"
    and path: "w_fs w path \<noteq> Some Dir"
  shows "\<exists>w'. writeAtomic pl path body w = (None, w') \<and> w_fs w' = (w_fs w)(path \<mapsto> File body)"
proof -
  have f: "pl_fs_fault pl n = None" for n using rel by (simp add: fs_reliable_def)
  obtain t w1 where c: "os_CreateTemp pl d ''.config-'' ''.toml'' w = (t, w1)" by fastforce
  then obtain n where t: "t = Inr n" using CreateTemp_works [OF rel dir(2) tmp(1)] by auto
  note c1 = os_CreateTemp_Inr [OF c [unfolded t]]
  have n: "n \<noteq> path" using c1(1) tmp(2) by blast
  have wt: "\<exists>w2. write_temp pl n path body w1 = (None, w2) \<and> w_fs w2 = (w_fs w)(path \<mapsto> File body)"
    using c1(2,3) n path
    by (simp add: write_temp_def file_Write_def put_def file_Close_def os_Chmod_def os_Rename_def f)
      (auto simp: tick_def set_fs_def fun_eq_iff)
  then obtain w2 where w2: "write_temp pl n path body w1 = (None, w2)" "w_fs w2 = (w_fs w)(path \<mapsto> File body)"
    by blast
  have "w_fs (snd (os_Remove pl n w2)) = w_fs w2"
    using w2(2) c1(2) n by (simp add: os_Remove_def f tick_def)
  then show ?thesis using c t dir(1) w2
    by (cases "os_Remove pl n w2") (simp add: writeAtomic_def)
qed

lemma writeConfig_exact:
  assumes rel: "fs_reliable (sv_pl sv)" and id: "plain_name (px_ID p)"
    and ready: "dir_ready sv (w_fs w) (px_ID p)" and valid: "valid_spec (config_spec sv p)"
  shows "\<exists>w' body. writeConfig sv p w = (None, w') \<and> Render (config_spec sv p) = Inr body \<and>
    w_fs w' (configPath sv (px_ID p)) = Some (File body) \<and> dir_ready sv (w_fs w') (px_ID p)"
proof -
  let ?d = "configDir sv (px_ID p)"
  note cp = configPath_eq [OF id, of sv]
  obtain e w1 where m: "os_MkdirAll (sv_pl sv) ?d w = (e, w1)" by fastforce
  then have e: "e = None"
    using MkdirAll_works [OF rel, of ?d w] ready by (simp add: dir_ready_def)
  note mk = os_MkdirAll_effect [OF m]
  have under: "prefix (?d @ ''/'') q \<Longrightarrow> w_fs w1 q = w_fs w q" for q
    using mk(2) prefixes_not_below by blast
  obtain body where body: "Render (config_spec sv p) = Inr body"
    using valid by (auto simp: Render_def validate_None_iff [symmetric] Let_def)
  have tmp: "w_fs w1 (temp_name ?d ''.config-'' rnd ''.toml'') = None" for rnd
    using under [OF temp_name_below [OF cp(3)]] ready by (simp add: dir_ready_def)
  have other: "temp_name ?d ''.config-'' rnd ''.toml'' \<noteq> configPath sv (px_ID p)" for rnd
    by (rule temp_name_other [OF cp(1) config_name_plain cp(3)])
  have "w_fs w1 (configPath sv (px_ID p)) = w_fs w (configPath sv (px_ID p))"
    by (rule under) (simp add: cp(1))
  then have path: "w_fs w1 (configPath sv (px_ID p)) \<noteq> Some Dir" using ready by (simp add: dir_ready_def)
  from writeAtomic_exact [OF rel cp(2) mk(5) [OF e] tmp other path]
  obtain w2 where w2: "writeAtomic (sv_pl sv) (configPath sv (px_ID p)) body w1 = (None, w2)"
    "w_fs w2 = (w_fs w1)(configPath sv (px_ID p) \<mapsto> File body)" by blast
  have "\<not> is_file (w_fs w2 q)" if q: "q \<in> set (path_prefixes ?d)" for q
  proof -
    have "q \<noteq> configPath sv (px_ID p)" using prefixes_not_below [OF q] by (auto simp: cp(1))
    moreover have "\<not> is_file (w_fs w1 q)"
      using ready q mk(3) [of q] by (cases "w_fs w1 q = w_fs w q") (auto simp: dir_ready_def is_file_def)
    ultimately show ?thesis by (simp add: w2(2))
  qed
  then have "dir_ready sv (w_fs w2) (px_ID p)" using tmp other by (simp add: dir_ready_def w2(2))
  then show ?thesis using m e body w2 by (simp add: writeConfig_def Let_def)
qed

section \<open>Two changes of limits\<close>

text \<open>\<open>q\<close> has been stored for \<open>pid\<close>, with its configuration.\<close>

definition saved :: "'r service \<Rightarrow> string \<Rightarrow> proxy \<Rightarrow> 'r world \<Rightarrow> 'r world \<Rightarrow> bool" where
  "saved sv pid q w w' \<longleftrightarrow>
     (\<exists>q'. same_proxy q q' \<and> rows w' = (rows w)(pid \<mapsto> q')) \<and> db_wf (w_db w') \<and>
     (\<exists>body. Render (config_spec sv q) = Inr body \<and> w_fs w' (configPath sv pid) = Some (File body)) \<and>
     dir_ready sv (w_fs w') pid"

text \<open>What is left of a change of limits once it has read its row \<open>p\<close>, in whatever state it goes on.\<close>

definition completes :: "'r service \<Rightarrow> string \<Rightarrow> limits_patch \<Rightarrow> (proxy res \<Rightarrow> ('r world, proxy res) prog) \<Rightarrow> bool" where
  "completes sv pid lp k \<longleftrightarrow>
     (\<forall>p old w. px_ID p = pid \<and> valid_spec (config_spec sv (apply_patch lp p)) \<and> db_wf (w_db w) \<and>
        rows w pid = Some old \<and> px_Port old = px_Port p \<and> dir_ready sv (w_fs w) pid \<longrightarrow>
        (\<exists>w' msg. run (k (Inr p)) w = (Inr ((apply_patch lp p)\<lparr>px_StateMessage := msg\<rparr>), w') \<and>
           saved sv pid ((apply_patch lp p)\<lparr>px_StateMessage := msg\<rparr>) w w'))"

lemma limits_after_read:
  assumes rel: "db_reliable (sv_pl sv)" "fs_reliable (sv_pl sv)" and id: "plain_name pid"
  obtains k where "UpdateLimits_prog sv c pid lp = bindp (call (st_GetProxy (sv_pl sv) c pid)) k"
    "completes sv pid lp k"
proof (rule that [OF UpdateLimits_prog_def])
  show "completes sv pid lp (case_sum (\<lambda>e. Ret (Inl e)) (\<lambda>p. bindp (writeConfig_prog sv (apply_patch lp p))
      (\<lambda>e. case e of
         Some e \<Rightarrow> Ret (Inl e)
       | None \<Rightarrow> bindp (live_apply_prog sv c (apply_patch lp p) lp) (\<lambda>msg.
           bindp (call (st_UpdateProxy (sv_pl sv) (WithoutCancel c) ((apply_patch lp p)\<lparr>px_StateMessage := msg\<rparr>)))
             (\<lambda>e. case e of
               Some e \<Rightarrow> Ret (Inl e)
             | None \<Rightarrow> Ret (Inr ((apply_patch lp p)\<lparr>px_StateMessage := msg\<rparr>)))))))"
    unfolding completes_def
  proof (intro allI impI, goal_cases)
    case (1 p old w)
    let ?p = "apply_patch lp p"
    have p: "px_ID ?p = pid" "px_Port ?p = px_Port p" using 1 by simp_all
    from writeConfig_exact [OF rel(2), of ?p w] id 1 p(1) obtain w1 body where wc:
      "writeConfig sv ?p w = (None, w1)" "Render (config_spec sv ?p) = Inr body"
      "w_fs w1 (configPath sv pid) = Some (File body)" "dir_ready sv (w_fs w1) pid" by auto
    obtain msg w2 where la: "live_apply sv c ?p lp w1 = (msg, w2)" by fastforce
    have f: "w_db w2 = w_db w" "w_fs w2 = w_fs w1"
      using writeConfig_frame [OF wc(1)] live_apply_effect(1,2) [OF la] by (simp_all add: same_but_fs_def)
    let ?q = "?p\<lparr>px_StateMessage := msg\<rparr>"
    obtain e w3 where up: "st_UpdateProxy (sv_pl sv) (WithoutCancel c) ?q w2 = (e, w3)" by fastforce
    have wf: "db_wf (w_db w2)" using 1 f by simp
    have e: "e = None"
      using st_UpdateProxy_works [OF rel(1) ctx_done_WithoutCancel wf, of ?q old c] 1 f p up by simp
    obtain old' :: proxy where "rows w3 = (rows w2)(px_ID ?q \<mapsto>
        ?q\<lparr>px_CreatedAt := px_CreatedAt old', px_UpdatedAt := stored_time (w_clock w2)\<rparr>)"
      by (rule st_UpdateProxy_None [OF wf up [unfolded e]])
    then have "\<exists>q'. same_proxy ?q q' \<and> rows w3 = (rows w)(pid \<mapsto> q')"
      using f p same_proxy_stamp [of ?q] by auto
    moreover have "w_fs w3 = w_fs w2" using st_UpdateProxy_frame [OF up] by (simp add: same_but_db_def)
    moreover have "config_spec sv ?q = config_spec sv ?p" by (simp add: config_spec_def)
    ultimately have "saved sv pid ?q w w3"
      using wc f wf_after(2) [OF wf up] by (simp add: saved_def)
    then show ?case using wc la up e by (intro exI [of _ w3] exI [of _ msg]) simp
  qed
qed

lemma limits_race:
  assumes rel: "db_reliable (sv_pl sv)" "fs_reliable (sv_pl sv)"
    and live: "cx_cancel_at c0 = None" "cx_cancel_at c1 = None"
    and w: "db_wf (w_db w)" "rows w pid = Some p" "plain_name pid" "dir_ready sv (w_fs w) pid"
    and valid: "valid_spec (config_spec sv (apply_patch lp0 p))" "valid_spec (config_spec sv (apply_patch lp1 p))"
  obtains turns w' m0 m1 where
    "schedule turns (w, [program sv (OpLimits c0 pid lp0), program sv (OpLimits c1 pid lp1)]) =
       (w', [Ret (ProxyReply (Inr ((apply_patch lp0 p)\<lparr>px_StateMessage := m0\<rparr>))),
             Ret (ProxyReply (Inr ((apply_patch lp1 p)\<lparr>px_StateMessage := m1\<rparr>)))])"
    "saved sv pid ((apply_patch lp0 p)\<lparr>px_StateMessage := m0\<rparr>) w w'"
proof -
  let ?pl = "sv_pl sv" and ?R = "\<lambda>r. Ret (ProxyReply r)" and ?t1 = "program sv (OpLimits c1 pid lp1)"
  have pid: "px_ID p = pid" by (rule proxies.ids_agree [OF w(2)])
  obtain k0 where k0: "UpdateLimits_prog sv c0 pid lp0 = bindp (call (st_GetProxy ?pl c0 pid)) k0"
    "completes sv pid lp0 k0" by (rule limits_after_read [OF rel w(3)])
  obtain k1 where k1: "UpdateLimits_prog sv c1 pid lp1 = bindp (call (st_GetProxy ?pl c1 pid)) k1"
    "completes sv pid lp1 k1" by (rule limits_after_read [OF rel w(3)])
  let ?w1 = "tick ?pl w" and ?w2 = "tick ?pl (tick ?pl w)" and ?rest = "bindp (k0 (Inr p)) ?R"
  have "reaches (w, [program sv (OpLimits c0 pid lp0), ?t1]) (?w1, [?rest, ?t1])"
    unfolding program.simps(3) [of sv c0] k0(1)
    by (rule reaches_first) (simp add: get_works [OF rel(1) live(1) w(2)])
  also
  have "db_wf (w_db ?w2)" "rows ?w2 pid = Some p" "dir_ready sv (w_fs ?w2) pid" using w by simp_all
  then obtain w3 m1 where r1: "run (k1 (Inr p)) ?w2 = (Inr ((apply_patch lp1 p)\<lparr>px_StateMessage := m1\<rparr>), w3)"
    "saved sv pid ((apply_patch lp1 p)\<lparr>px_StateMessage := m1\<rparr>) ?w2 w3"
    using k1(2) valid(2) pid unfolding completes_def by blast
  let ?r1 = "ProxyReply (Inr ((apply_patch lp1 p)\<lparr>px_StateMessage := m1\<rparr>))"
  have "rows ?w1 pid = Some p" using w(2) by simp
  then have "reaches (?w1, [?rest, ?t1]) (w3, [?rest, Ret ?r1])"
    by (intro reaches_end(2)) (simp add: get_works [OF rel(1) live(2)] r1(1) k1(1))
  also
  obtain q1 where q1: "same_proxy ((apply_patch lp1 p)\<lparr>px_StateMessage := m1\<rparr>) q1" "rows w3 = (rows w)(pid \<mapsto> q1)"
    using r1(2) by (auto simp: saved_def)
  have "rows w3 pid = Some q1" "px_Port q1 = px_Port p" "db_wf (w_db w3)" "dir_ready sv (w_fs w3) pid"
    using q1 same_proxy_fields(2) [OF q1(1)] r1(2) by (simp_all add: saved_def)
  then obtain w4 m0 where r0: "run (k0 (Inr p)) w3 = (Inr ((apply_patch lp0 p)\<lparr>px_StateMessage := m0\<rparr>), w4)"
    "saved sv pid ((apply_patch lp0 p)\<lparr>px_StateMessage := m0\<rparr>) w3 w4"
    using k0(2) valid(1) pid unfolding completes_def by blast
  let ?r0 = "ProxyReply (Inr ((apply_patch lp0 p)\<lparr>px_StateMessage := m0\<rparr>))"
  have "reaches (w3, [?rest, Ret ?r1]) (w4, [Ret ?r0, Ret ?r1])" by (rule reaches_end(1)) (simp add: r0(1))
  finally obtain turns where "schedule turns (w, [program sv (OpLimits c0 pid lp0), ?t1]) = (w4, [Ret ?r0, Ret ?r1])"
    unfolding reaches_def by blast
  moreover have "saved sv pid ((apply_patch lp0 p)\<lparr>px_StateMessage := m0\<rparr>) w w4"
    using r0(2) q1(2) by (auto simp: saved_def)
  ultimately show thesis by (rule that)
qed

section \<open>A deletion during a recreation\<close>

lemma UpdateProxy_gone:
  assumes "db_wf (w_db w)" "rows w (px_ID p) = None"
  shows "fst (st_UpdateProxy pl c p w) \<noteq> None" "w_db (snd (st_UpdateProxy pl c p w)) = w_db w"
    "w_rt (snd (st_UpdateProxy pl c p w)) = w_rt w" "w_fs (snd (st_UpdateProxy pl c p w)) = w_fs w"
proof -
  obtain e w' where up: "st_UpdateProxy pl c p w = (e, w')" by fastforce
  have e: "e \<noteq> None"
  proof
    assume "e = None"
    with up have "st_UpdateProxy pl c p w = (None, w')" by simp
    from st_UpdateProxy_None [OF assms(1) this] show False using assms(2) by (metis option.distinct(1))
  qed
  then show "fst (st_UpdateProxy pl c p w) \<noteq> None" by (simp add: up)
  show "w_db (snd (st_UpdateProxy pl c p w)) = w_db w" using st_UpdateProxy_Some [of pl c p w] e up by auto
  show "w_rt (snd (st_UpdateProxy pl c p w)) = w_rt w" "w_fs (snd (st_UpdateProxy pl c p w)) = w_fs w"
    using st_UpdateProxy_frame [OF up] up by (simp_all add: same_but_db_def)
qed

context container_runtime
begin

text \<open>A recreation whose row is gone goes on to the end: configuration, container and start.\<close>

lemma starts_without_row:
  assumes sv: "sv_Runtime sv = rt" and works: "runtime_works rt inv"
    and w: "inv (w_rt w)" "db_wf (w_db w)" "rows w (px_ID p) = None"
  shows "\<exists>e w' i. startContainer sv c p w = (Inl e, w') \<and> w_db w' = w_db w \<and> w_fs w' = w_fs w \<and>
    ctrs (w_rt w) i = None \<and> ctrs (w_rt w') = (ctrs (w_rt w))(i \<mapsto> managed_labels (px_ID p))"
proof -
  obtain r w' where run: "startContainer sv c p w = (r, w')" by fastforce
  obtain x w1 where cr: "call_rt (\<lambda>b. rt_Create rt b (container_spec_of sv p)) (sv_pl sv) c w = (x, w1)"
    by fastforce
  have "\<not> isl (fst (rt_Create rt (ctx_done c w) (container_spec_of sv p) (w_rt w)))"
    using works w(1) unfolding runtime_works_def by blast
  then obtain i where i: "x = Inr i" using call_rt_D [OF cr] by (cases x) auto
  note c1 = call_create(1) [OF w(1) cr [unfolded i], unfolded container_labels]
  obtain y w2 where st: "call_rt (\<lambda>b. rt_Start rt b i) (sv_pl sv) c w1 = (y, w2)" by fastforce
  have "fst (rt_Start rt (ctx_done c w1) i (w_rt w1)) = None"
    using works w(1) call_rt_D [OF cr [unfolded i]] unfolding runtime_works_def by blast
  then have y: "y = None" using call_rt_D [OF st] by simp
  have i1: "inv (w_rt w1)" using c1 by blast
  note k2 = call_keeps(1) [OF i1 st]
  let ?p = "p\<lparr>px_ContainerID := i\<rparr>"
  obtain e w3 where wait: "waitHealthy sv c ?p w2 = (e, w3)" by fastforce
  have k3: "ctrs (w_rt w3) = ctrs (w_rt w2)" using waitHealthy_keeps [OF sv _ wait] k2 by blast
  have f: "w_db w3 = w_db w" "w_fs w3 = w_fs w"
    using call_rt_frame [OF cr] call_rt_frame [OF st] waitHealthy_frame [OF wait] by (simp_all add: same_but_rt_def)
  obtain u w4 where up: "st_UpdateProxy (sv_pl sv) (WithoutCancel c) (set_outcome e ?p) w3 = (u, w4)" by fastforce
  have gone: "db_wf (w_db w3)" "rows w3 (px_ID (set_outcome e ?p)) = None"
    using w f by (simp_all add: set_outcome_def split: option.split)
  note g = UpdateProxy_gone [OF this, of "sv_pl sv" "WithoutCancel c", unfolded up, simplified]
  obtain e' where u: "u = Some e'" using g(1) by blast
  have "startContainer sv c p w = (Inl e', w4)"
    using cr i st y wait up u by (simp add: startContainer_eq sv Let_def create_finish_def)
  then show ?thesis using g(2-4) f k2 k3 c1 by auto
qed

end

text \<open>A recreation on the port the proxy has, call by call up to the writing of the configuration.\<close>

lemma recreate_calls:
  fixes sv :: "'r service"
  assumes "dn \<noteq> ''''" "px_ContainerID p \<noteq> ''''"
  defines "q \<equiv> moved (p\<lparr>px_State := StateRecreating\<rparr>) (px_Port p) dn"
  obtains K1 K2 K3 K4 K5 where
    "Recreate_prog sv c pid (px_Port p) dn = bindp (call (st_GetProxy (sv_pl sv) c pid)) K1"
    "K1 (Inr p) = bindp (call (st_UpdateProxy (sv_pl sv) c (p\<lparr>px_State := StateRecreating\<rparr>))) K2"
    "K2 None = bindp (on_runtime sv c (\<lambda>rt b. rt_Remove rt b (px_ContainerID p))) K3"
    "K3 None = bindp (call (st_UpdateProxy (sv_pl sv) (WithoutCancel c) q)) K4"
    "K4 None = bindp (writeConfig_prog sv q) K5" "K5 None = startContainer_prog sv c q"
proof -
  let ?K5 = "\<lambda>e. case e of Some e \<Rightarrow> Ret (Inl e) | None \<Rightarrow> startContainer_prog sv c q"
  let ?K4 = "\<lambda>e. case e of Some e \<Rightarrow> Ret (Inl e) | None \<Rightarrow> bindp (writeConfig_prog sv q) ?K5"
  let ?K3 = "\<lambda>e. if removal_failed e then Ret (Inl (the e))
      else bindp (call (st_UpdateProxy (sv_pl sv) (WithoutCancel c) q)) ?K4"
  let ?K2 = "\<lambda>e. case e of Some e \<Rightarrow> Ret (Inl e)
      | None \<Rightarrow> bindp (on_runtime sv c (\<lambda>rt b. rt_Remove rt b (px_ContainerID p))) ?K3"
  have q: "recreate_container_prog sv c (p\<lparr>px_State := StateRecreating\<rparr>) (px_Port p) dn =
      bindp (on_runtime sv c (\<lambda>rt b. rt_Remove rt b (px_ContainerID p))) ?K3"
    using assms(2) unfolding recreate_container_prog_def remove_prog_def provided_def q_def moved_def Let_def
    by (simp cong del: if_weak_cong option.case_cong)
  have none: "\<not> removal_failed None" by (simp add: removal_failed_def)
  show thesis
    by (rule that [where ?K2.0 = ?K2 and ?K3.0 = ?K3 and ?K4.0 = ?K4 and ?K5.0 = ?K5, OF Recreate_prog_def])
      (use assms(1) in \<open>simp_all add: provided_def q none\<close>)
qed

lemma update_works:
  assumes rel: "db_reliable (sv_pl sv)" and x: "cx_cancel_at c = None" "px_ID x = pid"
    and v: "db_wf (w_db v)" "rows v pid = Some old" "px_Port old = px_Port x"
  obtains v' r where "st_UpdateProxy (sv_pl sv) c x v = (None, v')" "same_proxy x r" "rows v' = (rows v)(pid \<mapsto> r)"
    "db_wf (w_db v')" "w_rt v' = w_rt v" "w_fs v' = w_fs v"
proof -
  obtain e v' where up: "st_UpdateProxy (sv_pl sv) c x v = (e, v')" by fastforce
  have "\<not> ctx_done c v" using x(1) by (simp add: ctx_done_def)
  from st_UpdateProxy_works [OF rel(1) this v(1), of x old] have e: "e = None" using x v up by simp
  obtain old' :: proxy where r: "rows v' = (rows v)(px_ID x \<mapsto>
      x\<lparr>px_CreatedAt := px_CreatedAt old', px_UpdatedAt := stored_time (w_clock v)\<rparr>)"
    by (rule st_UpdateProxy_None [OF v(1) up [unfolded e]])
  show thesis
    by (rule that [OF up [unfolded e] same_proxy_stamp])
      (use r x(2) wf_after(2) [OF v(1) up] st_UpdateProxy_frame [OF up] in \<open>simp_all add: same_but_db_def\<close>)
qed

text \<open>The deletion of a proxy that has no container recorded, as during its recreation.\<close>

lemma delete_unrecorded:
  assumes rel: "db_reliable (sv_pl sv)" "fs_reliable (sv_pl sv)" and live: "cx_cancel_at c = None"
    and w: "db_wf (w_db w)" "rows w pid = Some p" "px_ContainerID p = ''''"
  obtains w' where "Delete sv c pid w = (None, w')" "rows w' = (rows w)(pid := None)" "db_wf (w_db w')"
    "w_rt w' = w_rt w" "w_fs w' = (\<lambda>x. if below (configDir sv pid) x then None else w_fs w x)"
proof -
  let ?pl = "sv_pl sv"
  obtain w1 where r: "os_RemoveAll ?pl (configDir sv pid) (tick ?pl w) = (None, w1)"
    using rel(2) by (simp add: os_RemoveAll_def fs_reliable_def)
  have f: "w_db w1 = w_db w" "w_rt w1 = w_rt w" using fs_frames(8) [OF r] by (simp_all add: same_but_fs_def)
  obtain e w2 where d: "st_DeleteProxy ?pl (WithoutCancel c) pid w1 = (e, w2)" by fastforce
  have "rows w1 pid \<noteq> None" using w(2) f by simp
  then have e: "e = None" using st_DeleteProxy_works [OF rel(1), of "WithoutCancel c" w1 pid] d by simp
  have wf: "db_wf (w_db w1)" using w(1) f by simp
  note gone = st_DeleteProxy_None [OF wf d [unfolded e]]
  show thesis
  proof (rule that)
    show "Delete sv c pid w = (None, w2)"
      using get_works [OF rel(1) live w(2)] w(3) r d e by (simp add: Delete_def removal_failed_def Let_def)
  qed (use gone f st_DeleteProxy_frame [OF d] RemoveAll_None [OF r] in \<open>simp_all add: same_but_db_def fun_eq_iff\<close>)
qed

context container_runtime
begin

text \<open>A recreation gets to the point where the old container is gone and the row says that there is none.\<close>

lemma recreate_commits:
  assumes sv: "sv_Runtime sv = rt" and rel: "db_reliable (sv_pl sv)" "remove_works rt ctrs inv"
    and live: "cx_cancel_at c = None" and w: "inv (w_rt w)" "db_wf (w_db w)" "rows w pid = Some p"
    and own: "ctrs (w_rt w) (px_ContainerID p) \<noteq> None" "px_ContainerID p \<noteq> ''''" and dn: "dn \<noteq> ''''"
  obtains K w' q' where
    "reaches (w, [program sv (OpRecreate c pid (px_Port p) dn), t])
      (w', [bindp (bindp (writeConfig_prog sv (moved (p\<lparr>px_State := StateRecreating\<rparr>) (px_Port p) dn)) K)
          (\<lambda>r. Ret (ProxyReply r)), t])"
    "K None = startContainer_prog sv c (moved (p\<lparr>px_State := StateRecreating\<rparr>) (px_Port p) dn)"
    "rows w' pid = Some q'" "px_ContainerID q' = ''''" "db_wf (w_db w')" "inv (w_rt w')" "w_fs w' = w_fs w"
proof -
  let ?pl = "sv_pl sv"
  let ?R = "\<lambda>r. Ret (ProxyReply r)"
  let ?p = "p\<lparr>px_State := StateRecreating\<rparr>"
  define q where "q = moved ?p (px_Port p) dn"
  have pid: "px_ID p = pid" by (rule proxies.ids_agree [OF w(3)])
  have q: "px_ID q = pid" "px_Port q = px_Port p" "px_ContainerID q = ''''"
    by (simp_all add: q_def moved_def pid)
  obtain K1 K2 K3 K4 K5 where K:
    "Recreate_prog sv c pid (px_Port p) dn = bindp (call (st_GetProxy ?pl c pid)) K1"
    "K1 (Inr p) = bindp (call (st_UpdateProxy ?pl c ?p)) K2"
    "K2 None = bindp (on_runtime sv c (\<lambda>rt b. rt_Remove rt b (px_ContainerID p))) K3"
    "K3 None = bindp (call (st_UpdateProxy ?pl (WithoutCancel c) q)) K4"
    "K4 None = bindp (writeConfig_prog sv q) K5" "K5 None = startContainer_prog sv c q"
    unfolding q_def by (rule recreate_calls [OF dn own(2)])
  have "reaches (w, [bindp (Recreate_prog sv c pid (px_Port p) dn) ?R, t]) (tick ?pl w, [bindp (K1 (Inr p)) ?R, t])"
    unfolding K(1) by (rule reaches_first) (simp add: get_works [OF rel(1) live w(3)])
  also obtain w2 p2 where u2: "st_UpdateProxy ?pl c ?p (tick ?pl w) = (None, w2)" "same_proxy ?p p2"
    "rows w2 = (rows w)(pid \<mapsto> p2)" "db_wf (w_db w2)" "w_rt w2 = w_rt w" "w_fs w2 = w_fs w"
    by (rule update_works [OF rel(1) live, of ?p pid "tick ?pl w" p]) (use pid w in auto)
  have "reaches (tick ?pl w, [bindp (K1 (Inr p)) ?R, t]) (w2, [bindp (K2 None) ?R, t])"
    unfolding K(2) by (rule reaches_first) (simp add: u2(1))
  also obtain e3 w3 where r3: "call_rt (\<lambda>b. rt_Remove rt b (px_ContainerID p)) ?pl c w2 = (e3, w3)" by fastforce
  have i2: "inv (w_rt w2)" using u2(5) w(1) by simp
  have e3: "e3 = None" using rel(2) own(1) w(1) call_rt_D [OF r3] u2(5) unfolding remove_works_def by (metis fst_conv)
  have f3: "w_db w3 = w_db w2" "w_fs w3 = w_fs w2" using call_rt_frame [OF r3] by (simp_all add: same_but_rt_def)
  have "reaches (w2, [bindp (K2 None) ?R, t]) (w3, [bindp (K3 None) ?R, t])"
    unfolding K(3) by (rule reaches_first) (use r3 e3 in \<open>simp add: sv\<close>)
  also obtain w4 p4 where u4: "st_UpdateProxy ?pl (WithoutCancel c) q w3 = (None, w4)" "same_proxy q p4"
    "rows w4 = (rows w3)(pid \<mapsto> p4)" "db_wf (w_db w4)" "w_rt w4 = w_rt w3" "w_fs w4 = w_fs w3"
    by (rule update_works [OF rel(1), of "WithoutCancel c" q pid w3 p2])
      (use q u2 f3 same_proxy_fields(2) [OF u2(2)] in \<open>auto simp: WithoutCancel_def\<close>)
  have "reaches (w3, [bindp (K3 None) ?R, t]) (w4, [bindp (K4 None) ?R, t])"
    unfolding K(4) by (rule reaches_first) (simp add: u4(1))
  finally have "reaches (w, [program sv (OpRecreate c pid (px_Port p) dn), t])
      (w4, [bindp (bindp (writeConfig_prog sv q) K5) ?R, t])" unfolding K(5) by simp
  then show thesis
    by (rule that [unfolded q_def [symmetric], of w4 K5 p4])
      (use K(6) u4 f3 u2(6) call_remove(1) [OF i2 r3] same_proxy_fields(4) [OF u4(2)] q(3) in simp_all)
qed

lemma delete_race:
  assumes sv: "sv_Runtime sv = rt" and rel: "db_reliable (sv_pl sv)" "fs_reliable (sv_pl sv)"
    and works: "runtime_works rt inv" "remove_works rt ctrs inv"
    and live: "cx_cancel_at c0 = None" "cx_cancel_at c1 = None"
    and w: "inv (w_rt w)" "db_wf (w_db w)" "rows w pid = Some p" "plain_name pid" "dir_ready sv (w_fs w) pid"
    and own: "ctrs (w_rt w) (px_ContainerID p) \<noteq> None" "px_ContainerID p \<noteq> ''''"
    and dn: "dn \<noteq> ''''" "valid_spec (config_spec sv (moved p (px_Port p) dn))"
  obtains turns w' e i body where
    "schedule turns (w, [program sv (OpRecreate c0 pid (px_Port p) dn), program sv (OpDelete c1 pid)]) =
       (w', [Ret (ProxyReply (Inl e)), Ret (ErrorReply None)])"
    "rows w' pid = None" "ctrs (w_rt w') i = Some (managed_labels pid)"
    "Render (config_spec sv (moved p (px_Port p) dn)) = Inr body" "w_fs w' (configPath sv pid) = Some (File body)"
proof -
  let ?t = "program sv (OpDelete c1 pid)"
  define q where "q = moved (p\<lparr>px_State := StateRecreating\<rparr>) (px_Port p) dn"
  have q: "px_ID q = pid" "config_spec sv q = config_spec sv (moved p (px_Port p) dn)"
    using proxies.ids_agree [OF w(3)] by (simp_all add: q_def moved_def config_spec_def)
  obtain K w4 p4 where c: "reaches (w, [program sv (OpRecreate c0 pid (px_Port p) dn), ?t])
      (w4, [bindp (bindp (writeConfig_prog sv q) K) (\<lambda>r. Ret (ProxyReply r)), ?t])"
    "K None = startContainer_prog sv c0 q" "rows w4 pid = Some p4" "px_ContainerID p4 = ''''"
    "db_wf (w_db w4)" "inv (w_rt w4)" "w_fs w4 = w_fs w"
    unfolding q_def by (rule recreate_commits [OF sv rel(1) works(2) live(1) w(1-3) own dn(1)])
  let ?m = "bindp (bindp (writeConfig_prog sv q) K) (\<lambda>r. Ret (ProxyReply r))"
  obtain w7 where d: "Delete sv c1 pid w4 = (None, w7)" "rows w7 = (rows w4)(pid := None)" "db_wf (w_db w7)"
    "w_rt w7 = w_rt w4" "w_fs w7 = (\<lambda>x. if below (configDir sv pid) x then None else w_fs w4 x)"
    by (rule delete_unrecorded [OF rel live(2) c(5,3,4)])
  note c(1)
  also have "reaches (w4, [?m, ?t]) (w7, [?m, Ret (ErrorReply None)])"
    by (rule reaches_end(2)) (simp add: d(1))
  also
  have "dir_fresh (w_fs w7) (configDir sv (px_ID q))"
    using w(5) by (auto simp: dir_fresh_def dir_ready_def d(5) c(7) q(1) below_def is_file_def)
  then have "dir_ready sv (w_fs w7) (px_ID q)" using fresh_ready w(4) q(1) by simp
  from writeConfig_exact [OF rel(2) _ this] obtain w8 body where w8: "writeConfig sv q w7 = (None, w8)"
    "Render (config_spec sv q) = Inr body" "w_fs w8 (configPath sv pid) = Some (File body)"
    using w(4) q dn(2) by auto
  have f8: "w_db w8 = w_db w7" "w_rt w8 = w_rt w4" using writeConfig_frame [OF w8(1)] d(4) by (simp_all add: same_but_fs_def)
  have gone: "inv (w_rt w8)" "db_wf (w_db w8)" "rows w8 (px_ID q) = None"
    using f8 c(6) d(2,3) q(1) by simp_all
  from starts_without_row [OF sv works(1) gone, of c0] obtain e w9 i where w9:
    "startContainer sv c0 q w8 = (Inl e, w9)" "w_db w9 = w_db w8" "w_fs w9 = w_fs w8"
    "ctrs (w_rt w9) = (ctrs (w_rt w8))(i \<mapsto> managed_labels (px_ID q))" by blast
  have "reaches (w7, [?m, Ret (ErrorReply None)]) (w9, [Ret (ProxyReply (Inl e)), Ret (ErrorReply None)])"
    by (rule reaches_end(1)) (simp add: w8(1) c(2) w9(1))
  finally obtain turns where "schedule turns (w, [program sv (OpRecreate c0 pid (px_Port p) dn), ?t]) =
      (w9, [Ret (ProxyReply (Inl e)), Ret (ErrorReply None)])"
    unfolding reaches_def by auto
  then show thesis
    by (rule that [of turns w9 e i body]) (use w9 f8 d w8 q in simp_all)
qed

end

end
