(* ===== verification/Logins.thy ===== *)
theory Logins imports Races Auth begin

text \<open>
  Concurrent logins (\<open>Auth.Login\<close> of \<open>internal/web/auth.go\<close>): the limiter takes its lock once for the
  check and once for the count, with the lookup and the slow hash in between. Run alone, the program is
  \<open>Login\<close>; run side by side, any number of guesses passes the check before the first is counted.
\<close>

section \<open>A login as a program\<close>

text \<open>The state: the table of attempts and the world.\<close>

definition check_limit :: "string \<Rightarrow> attempts \<times> 'r world \<Rightarrow> bool \<times> attempts \<times> 'r world" where
  "check_limit ip = (\<lambda>(a, w). case limited ip (w_clock w) a of (lim, a) \<Rightarrow> (lim, a, w))"

definition count_failure :: "(attempts \<Rightarrow> attempts) \<Rightarrow> string \<Rightarrow> attempts \<times> 'r world \<Rightarrow> unit \<times> attempts \<times> 'r world" where
  "count_failure pick ip = (\<lambda>(a, w). ((), recordFailure pick (w_clock w) ip a, w))"

definition on_world :: "('r world \<Rightarrow> 'a \<times> 'r world) \<Rightarrow> attempts \<times> 'r world \<Rightarrow> 'a \<times> attempts \<times> 'r world" where
  "on_world f = (\<lambda>(a, w). case f w of (x, w) \<Rightarrow> (x, a, w))"

definition open_session_prog :: "crypto \<Rightarrow> platform \<Rightarrow> ctx \<Rightarrow> string \<Rightarrow> admin \<Rightarrow>
    (attempts \<times> 'r world, (string \<times> admin) res) prog" where
  "open_session_prog cr pl c ip adm =
     bindp (call (on_world (newToken pl))) (\<lambda>t. case t of
       Inl e \<Rightarrow> Ret (Inl e)
     | Inr token \<Rightarrow>
         bindp (call (on_world (\<lambda>w. st_CreateSession pl c (hashToken cr token) (ad_ID adm) (w_clock w + SessionTTL) w)))
           (\<lambda>e. case e of
              Some e \<Rightarrow> Ret (Inl e)
            | None \<Rightarrow> bindp (call (\<lambda>(a, w). ((), clearFailures ip a, w))) (\<lambda>_. Ret (Inr (token, adm)))))"

definition Login_prog :: "crypto \<Rightarrow> platform \<Rightarrow> (attempts \<Rightarrow> attempts) \<Rightarrow> ctx \<Rightarrow> string \<Rightarrow> string \<Rightarrow> string \<Rightarrow>
    (attempts \<times> 'r world, (string \<times> admin) res) prog" where
  "Login_prog cr pl pick c ip username plain =
     bindp (call (check_limit ip)) (\<lambda>lim.
       if lim then Ret (Inl ErrRateLimited_err)
       else bindp (call (on_world (st_AdminByUsername pl c username))) (\<lambda>adm. case adm of
         Inl _ \<Rightarrow> bindp (call (count_failure pick ip)) (\<lambda>_. Ret (Inl ErrBadCredentials_err))
       | Inr adm \<Rightarrow>
           if \<not> VerifyPassword cr (ad_PasswordHash adm) plain
           then bindp (call (count_failure pick ip)) (\<lambda>_. Ret (Inl ErrBadCredentials_err))
           else open_session_prog cr pl c ip adm))"

lemma run_open_session [simp]: "run (open_session_prog cr pl c ip adm) (a, w) = open_session cr pl c ip adm a w"
  by (simp add: open_session_prog_def open_session_def on_world_def split: prod.split sum.split option.split)

lemma run_Login: "run (Login_prog cr pl pick c ip username plain) (a, w) = Login cr pl pick c ip username plain a w"
  by (simp add: Login_prog_def Login_def check_limit_def count_failure_def on_world_def
      split: prod.split sum.split)

section \<open>One phase of many threads\<close>

text \<open>If the next part of every thread ends with a known result and keeps a property of the state, there
  is a schedule that takes all of them through that part.\<close>

lemma phase:
  assumes part: "\<And>g w. g \<in> set gs \<Longrightarrow> P w \<Longrightarrow> \<exists>w'. run (m g) w = (x g, w') \<and> P w'" and w: "P w"
  shows "\<exists>turns w'. schedule turns (w, map (\<lambda>g. bindp (m g) (k g)) gs) = (w', map (\<lambda>g. k g (x g)) gs) \<and> P w'"
proof -
  have "\<exists>turns w'. schedule turns (w, map (\<lambda>g. k g (x g)) ds @ map (\<lambda>g. bindp (m g) (k g)) ts) =
      (w', map (\<lambda>g. k g (x g)) (ds @ ts)) \<and> P w'" if "set ts \<subseteq> set gs" "P w" for ds ts w
    using that
  proof (induction ts arbitrary: ds w)
    case Nil
    then show ?case by (intro exI [of _ "[]"]) simp
  next
    case (Cons t ts)
    let ?pool = "map (\<lambda>g. k g (x g)) ds @ map (\<lambda>g. bindp (m g) (k g)) (t # ts)"
    obtain w1 where w1: "run (m t) w = (x t, w1)" "P w1" using part [of t w] Cons.prems by auto
    obtain n where "schedule (replicate n (length ds)) (w, ?pool) = (w1, ?pool[length ds := k t (x t)])"
      using schedule_bind [of "length ds" ?pool "m t" "k t" w "x t" w1] w1(1) by (auto simp: nth_append)
    then have n: "schedule (replicate n (length ds)) (w, ?pool) =
        (w1, map (\<lambda>g. k g (x g)) (ds @ [t]) @ map (\<lambda>g. bindp (m g) (k g)) ts)"
      by (simp add: list_update_append)
    obtain turns w' where "schedule turns (w1, map (\<lambda>g. k g (x g)) (ds @ [t]) @ map (\<lambda>g. bindp (m g) (k g)) ts) =
        (w', map (\<lambda>g. k g (x g)) ((ds @ [t]) @ ts))" "P w'"
      using Cons.IH [of w1 "ds @ [t]"] Cons.prems(1) w1(2) by auto
    with n show ?case by (intro exI [of _ "replicate n (length ds) @ turns"] exI [of _ w']) simp
  qed
  from this [of gs w "[]"] w show ?thesis by simp
qed

section \<open>Guesses side by side\<close>

lemma unlimited_again:
  assumes "\<not> fst (limited ip now a)"
  shows "limited ip now (snd (limited ip now a)) = (False, snd (limited ip now a))"
proof -
  have "map_of (forget ip a) ip = None" by (auto simp: forget_def map_of_eq_None_iff)
  then show ?thesis using assms by (auto simp: limited_def split: option.splits if_splits)
qed

lemma wrong_guess:
  assumes "\<And>r. r \<in> set (t_admins (w_db w)) \<Longrightarrow> \<not> VerifyPassword cr (a_password_hash r) plain"
    and "st_AdminByUsername pl c username w = (Inr adm, w')"
  shows "\<not> VerifyPassword cr (ad_PasswordHash adm) plain"
proof -
  obtain r where "r \<in> set (t_admins (w_db w))" "adm = scanAdmin r"
    using assms(2) by (auto simp: admin_calls AdminByUsername_def split: option.splits dest: find_Some_key)
  then show ?thesis using assms(1) by (simp add: scanAdmin_def)
qed

lemma all_guesses_checked:
  fixes w :: "'a world"
  assumes free: "\<not> fst (limited ip (w_clock w) a)"
    and wrong: "\<And>u x r. (u, x) \<in> set gs \<Longrightarrow> r \<in> set (t_admins (w_db w)) \<Longrightarrow> \<not> VerifyPassword cr (a_password_hash r) x"
  shows "\<exists>turns s. schedule turns ((a, w), map (\<lambda>(u, x). Login_prog cr pl pick c ip u x) gs) =
    (s, map (\<lambda>_. Ret (Inl ErrBadCredentials_err)) gs)"
proof -
  define rest :: "string \<times> string \<Rightarrow> bool \<Rightarrow> (attempts \<times> 'a world, (string \<times> admin) res) prog"
    where "rest = (\<lambda>(u, x) lim.
       if lim then Ret (Inl ErrRateLimited_err)
       else bindp (call (on_world (st_AdminByUsername pl c u))) (\<lambda>adm. case adm of
         Inl _ \<Rightarrow> bindp (call (count_failure pick ip)) (\<lambda>_. Ret (Inl ErrBadCredentials_err))
       | Inr adm \<Rightarrow>
           if \<not> VerifyPassword cr (ad_PasswordHash adm) x
           then bindp (call (count_failure pick ip)) (\<lambda>_. Ret (Inl ErrBadCredentials_err))
           else open_session_prog cr pl c ip adm))"
  have progs: "map (\<lambda>(u, x). Login_prog cr pl pick c ip u x) gs = map (\<lambda>g. bindp (call (check_limit ip)) (rest g)) gs"
    by (simp add: Login_prog_def rest_def split_beta)
  define P where "P s \<longleftrightarrow> snd s = w \<and> \<not> fst (limited ip (w_clock w) (fst s))" for s
  have checked: "\<exists>s'. run (call (check_limit ip)) s = (False, s') \<and> P s'" if "P s" for s
  proof -
    obtain b where b: "s = (b, w)" "\<not> fst (limited ip (w_clock w) b)" using \<open>P s\<close> by (cases s) (simp add: P_def)
    define b' where "b' = snd (limited ip (w_clock w) b)"
    have "limited ip (w_clock w) b = (False, b')" using b(2) by (simp add: prod_eq_iff b'_def)
    moreover have "limited ip (w_clock w) b' = (False, b')" using unlimited_again [OF b(2)] by (simp add: b'_def)
    ultimately show ?thesis by (simp add: b(1) check_limit_def P_def)
  qed
  obtain turns s where first: "schedule turns ((a, w), map (\<lambda>(u, x). Login_prog cr pl pick c ip u x) gs) =
      (s, map (\<lambda>g. rest g False) gs)" "P s"
    using phase [of gs P "\<lambda>_. call (check_limit ip)" "\<lambda>_. False" "(a, w)" rest] free checked
    unfolding progs by (auto simp: P_def simp del: run_call)
  define Q where "Q s \<longleftrightarrow> t_admins (w_db (snd s)) = t_admins (w_db w)" for s :: "attempts \<times> 'a world"
  have "\<exists>s'. run (rest g False) s = (Inl ErrBadCredentials_err, s') \<and> Q s'" if "g \<in> set gs" "Q s" for g s
  proof -
    obtain u x where g: "g = (u, x)" by fastforce
    obtain b v where s: "s = (b, v)" by fastforce
    obtain adm v' where l: "st_AdminByUsername pl c u v = (adm, v')" by fastforce
    have "w_db v' = w_db v" using l by (auto simp: admin_calls tick_def)
    moreover have "\<not> VerifyPassword cr (ad_PasswordHash y) x" if "adm = Inr y" for y
      using wrong_guess [of v cr x pl c u y v'] wrong [of u x] l that \<open>g \<in> set gs\<close> \<open>Q s\<close> by (auto simp: g s Q_def)
    ultimately show ?thesis using \<open>Q s\<close>
      by (auto simp: rest_def g s on_world_def l count_failure_def Q_def split: sum.split)
  qed
  from phase [of gs Q "\<lambda>g. rest g False" "\<lambda>_. Inl ErrBadCredentials_err" s "\<lambda>_. Ret"] this first(2)
  obtain turns' s' where "schedule turns' (s, map (\<lambda>g. rest g False) gs) = (s', map (\<lambda>_. Ret (Inl ErrBadCredentials_err)) gs)"
    by (auto simp: P_def Q_def bindp_Ret)
  with first(1) have "schedule (turns @ turns') ((a, w), map (\<lambda>(u, x). Login_prog cr pl pick c ip u x) gs) =
      (s', map (\<lambda>_. Ret (Inl ErrBadCredentials_err)) gs)" by (simp only: schedule_simps)
  then show ?thesis by blast
qed

end
