(* ===== verification/Shutdown.thy ===== *)
theory Shutdown imports PanelMain begin

text \<open>
  The end of the process (\<open>cmd/panel/main.go\<close>): the signal context, the goroutine that shuts the HTTP
  server down, \<open>ListenAndServe\<close> in the main goroutine and the deferred calls, as steps of one process.
  Of \<open>net/http\<close> it uses what its documentation says of \<open>Shutdown\<close>: it closes the listener, which makes
  \<open>ListenAndServe\<close> return \<open>ErrServerClosed\<close> at once, and returns itself when no request is left or its
  context is done. A process that has exited has no goroutines.
\<close>

section \<open>The process\<close>

text \<open>The goroutine waits for the context, has called \<open>Shutdown\<close> with a deadline, or is done. The main
  goroutine serves, runs its deferred calls, or has ended the process with a status.\<close>

datatype shutdown = Waiting | Draining instant | Finished

datatype deferred = StopSignals | CloseStore

datatype main_state = InServe | Returning "deferred list" | Exited nat

record process =
  pr_now :: instant
  pr_ctx_done :: bool
  pr_listening :: bool
  pr_requests :: nat
  pr_shutdown :: shutdown
  pr_main :: main_state
  pr_store_open :: bool

definition process_start :: "instant \<Rightarrow> process" where
  "process_start t = \<lparr>pr_now = t, pr_ctx_done = False, pr_listening = True, pr_requests = 0,
     pr_shutdown = Waiting, pr_main = InServe, pr_store_open = True\<rparr>"

definition exited :: "process \<Rightarrow> bool" where
  "exited p = (case pr_main p of Exited _ \<Rightarrow> True | _ \<Rightarrow> False)"

section \<open>Its code\<close>

definition grace :: duration where "grace = 10 * Second"

text \<open>\<open>Store.Close\<close>; the answer of the driver is an argument.\<close>

definition store_Close :: "gerror option \<Rightarrow> process \<Rightarrow> gerror option \<times> process" where
  "store_Close e p = (e, p\<lparr>pr_store_open := False\<rparr>)"

definition call_Shutdown :: "process \<Rightarrow> process" where
  "call_Shutdown p = p\<lparr>pr_shutdown := Draining (pr_now p + grace), pr_listening := False\<rparr>"

definition Shutdown_over :: "process \<Rightarrow> bool" where
  "Shutdown_over p = (case pr_shutdown p of Draining d \<Rightarrow> pr_requests p = 0 \<or> d \<le> pr_now p | _ \<Rightarrow> False)"

text \<open>After \<open>ListenAndServe\<close>: \<open>log.Fatalf\<close> ends the process without the deferred calls; otherwise they run,
  the last one registered first.\<close>

definition after_serve :: "serve_end \<Rightarrow> process \<Rightarrow> process" where
  "after_serve e p =
     (case main_exit (Some e) of
        Some _ \<Rightarrow> p\<lparr>pr_listening := False, pr_main := Exited 1\<rparr>
      | None \<Rightarrow> p\<lparr>pr_main := Returning [StopSignals, CloseStore]\<rparr>)"

definition run_deferred :: "gerror option \<Rightarrow> process \<Rightarrow> process" where
  "run_deferred e p =
     (case pr_main p of
        Returning (StopSignals # ds) \<Rightarrow> p\<lparr>pr_ctx_done := True, pr_main := Returning ds\<rparr>
      | Returning (CloseStore # ds) \<Rightarrow> (snd (store_Close e p))\<lparr>pr_main := Returning ds\<rparr>
      | Returning [] \<Rightarrow> p\<lparr>pr_main := Exited 0\<rparr>
      | _ \<Rightarrow> p)"

section \<open>Steps\<close>

inductive process_step :: "process \<Rightarrow> process \<Rightarrow> bool" where
  signal: "\<not> exited p \<Longrightarrow> process_step p (p\<lparr>pr_ctx_done := True\<rparr>)"
| elapse: "\<not> exited p \<Longrightarrow> pr_now p \<le> t \<Longrightarrow> process_step p (p\<lparr>pr_now := t\<rparr>)"
| arrive: "\<not> exited p \<Longrightarrow> pr_listening p \<Longrightarrow> process_step p (p\<lparr>pr_requests := pr_requests p + 1\<rparr>)"
| answer: "\<not> exited p \<Longrightarrow> 0 < pr_requests p \<Longrightarrow> process_step p (p\<lparr>pr_requests := pr_requests p - 1\<rparr>)"
| shut: "\<not> exited p \<Longrightarrow> pr_shutdown p = Waiting \<Longrightarrow> pr_ctx_done p \<Longrightarrow> process_step p (call_Shutdown p)"
| drained: "\<not> exited p \<Longrightarrow> Shutdown_over p \<Longrightarrow> process_step p (p\<lparr>pr_shutdown := Finished\<rparr>)"
| closed: "pr_main p = InServe \<Longrightarrow> \<not> pr_listening p \<Longrightarrow> process_step p (after_serve ErrServerClosed p)"
| failed: "pr_main p = InServe \<Longrightarrow> pr_listening p \<Longrightarrow> process_step p (after_serve (ServeError e) p)"
| defers: "pr_main p = Returning ds \<Longrightarrow> process_step p (run_deferred e p)"

inductive_cases process_stepE: "process_step p q"

section \<open>The order of the end\<close>

text \<open>The listener is open as long as the goroutine waits; the main goroutine leaves the server after the
  listener is closed; the store is closed after that, and the status 0 comes last.\<close>

definition process_inv :: "process \<Rightarrow> bool" where
  "process_inv p \<longleftrightarrow>
     (pr_main p \<noteq> Exited 1 \<longrightarrow> (pr_listening p \<longleftrightarrow> pr_shutdown p = Waiting)) \<and>
     (pr_shutdown p \<noteq> Waiting \<longrightarrow> pr_ctx_done p) \<and>
     (case pr_main p of
        InServe \<Rightarrow> pr_store_open p
      | Returning ds \<Rightarrow> \<not> pr_listening p \<and> (pr_store_open p \<longleftrightarrow> CloseStore \<in> set ds) \<and>
          ds \<in> {[StopSignals, CloseStore], [CloseStore], []}
      | Exited n \<Rightarrow> \<not> pr_listening p \<and> (n = 0 \<and> \<not> pr_store_open p \<or> n = 1 \<and> pr_store_open p))"

lemma process_inv_start: "process_inv (process_start t)"
  by (simp add: process_inv_def process_start_def)

lemma process_step_inv: "process_step p q \<Longrightarrow> process_inv p \<Longrightarrow> process_inv q"
proof (induction rule: process_step.induct)
  case (shut p)
  then show ?case
    by (cases "pr_main p") (auto simp: process_inv_def call_Shutdown_def exited_def)
next
  case (drained p)
  then show ?case
    by (cases "pr_main p"; cases "pr_shutdown p") (auto simp: process_inv_def Shutdown_over_def exited_def)
next
  case (closed p)
  then show ?case by (simp add: process_inv_def after_serve_def main_exit_def)
next
  case (failed p e)
  then show ?case by (simp add: process_inv_def after_serve_def main_exit_def)
next
  case (defers p ds e)
  then show ?case by (auto simp: process_inv_def run_deferred_def store_Close_def)
qed (auto simp: process_inv_def split: main_state.splits)

lemma process_reachable_inv: "process_step\<^sup>*\<^sup>* (process_start t) p \<Longrightarrow> process_inv p"
  by (induction rule: rtranclp_induct) (auto intro: process_inv_start process_step_inv)

text \<open>A signal can end the process at once, whatever is in flight: nobody waits for \<open>Shutdown\<close> to return.\<close>

lemma signal_cuts:
  assumes p: "pr_main p = InServe" "pr_listening p" "pr_shutdown p = Waiting"
  shows "\<exists>q. process_step\<^sup>*\<^sup>* p q \<and> pr_main q = Exited 0 \<and> pr_requests q = pr_requests p \<and>
    pr_shutdown q = Draining (pr_now q + grace) \<and> pr_now q = pr_now p"
proof -
  let ?p1 = "p\<lparr>pr_ctx_done := True\<rparr>"
  let ?p2 = "call_Shutdown ?p1"
  let ?p3 = "after_serve ErrServerClosed ?p2"
  let ?p6 = "run_deferred None (run_deferred None (run_deferred None ?p3))"
  have m: "pr_main ?p3 = Returning [StopSignals, CloseStore]" "pr_main (run_deferred None ?p3) = Returning [CloseStore]"
    "pr_main (run_deferred None (run_deferred None ?p3)) = Returning []"
    by (simp_all add: after_serve_def main_exit_def call_Shutdown_def run_deferred_def store_Close_def)
  have s1: "process_step p ?p1" by (rule process_step.signal) (simp add: exited_def p)
  have s2: "process_step ?p1 ?p2"
    by (rule process_step.shut) (simp_all add: exited_def p)
  have s3: "process_step ?p2 ?p3"
    by (rule process_step.closed) (simp_all add: call_Shutdown_def p)
  have s4: "process_step ?p3 (run_deferred None ?p3)"
    by (rule process_step.defers [OF m(1)])
  have s5: "process_step (run_deferred None ?p3) (run_deferred None (run_deferred None ?p3))"
    by (rule process_step.defers [OF m(2)])
  have s6: "process_step (run_deferred None (run_deferred None ?p3)) ?p6"
    by (rule process_step.defers [OF m(3)])
  note then_step = converse_rtranclp_into_rtranclp [of process_step]
  have "process_step\<^sup>*\<^sup>* p ?p6"
    by (rule then_step [OF s1 then_step [OF s2 then_step [OF s3 then_step [OF s4 then_step [OF s5 r_into_rtranclp [where r = process_step, OF s6]]]]]])
  then show ?thesis
    by (intro exI [of _ ?p6])
      (simp add: run_deferred_def store_Close_def after_serve_def main_exit_def call_Shutdown_def)
qed

end
