(* ===== verification/Spec2Isabelle.thy ===== *)
theory Spec2Isabelle
  imports ExamplesThreads Logins Shutdown GoDuration
begin

text \<open>
  A verification of telemt-panel, a web panel (in Go) that runs Telegram proxies as Docker containers.

  \<^bold>\<open>The program.\<close> \<^verbatim>\<open>internal/proxy\<close> is the core: a service that creates, deletes, changes, recreates and
  reconciles proxies. It keeps its intent in SQLite (\<^verbatim>\<open>internal/store\<close>), one directory per proxy with a
  generated \<^verbatim>\<open>config.toml\<close> (\<^verbatim>\<open>internal/telemt/tconfig\<close>), and one container per proxy behind the interface
  \<^verbatim>\<open>docker.Runtime\<close> (\<^verbatim>\<open>internal/docker\<close>); it talks to the running telemt over its control API
  (\<^verbatim>\<open>internal/telemt/client\<close>) and hands out \<^verbatim>\<open>tg://\<close> links (\<^verbatim>\<open>internal/telemt/link\<close>). A poller
  (\<^verbatim>\<open>internal/poller\<close>) caches live counters, the web layer (\<^verbatim>\<open>internal/web\<close>) puts pages, forms, accounts and
  an event stream in front, and \<^verbatim>\<open>cmd/panel\<close> boots it all. The stores of state can fail one by one, and most
  theorems are about what is left when they do.

  \<^bold>\<open>Theories.\<close>
  \<^item> \<^verbatim>\<open>Prelude\<close>, \<^verbatim>\<open>GoStrings\<close>, \<^verbatim>\<open>GoTime\<close>, \<^verbatim>\<open>GoDuration\<close>, \<^verbatim>\<open>GoPath\<close>, \<^verbatim>\<open>GoEncoding\<close>, \<^verbatim>\<open>GoURL\<close>, \<^verbatim>\<open>GoJson\<close>,
    \<^verbatim>\<open>JsonDecode\<close>: bytes and strings, errors with their chain of sentinels, and the parts of Go's standard
    library that the program uses (\<^verbatim>\<open>strconv\<close>, \<^verbatim>\<open>encoding/hex\<close>, \<^verbatim>\<open>base64\<close> and \<^verbatim>\<open>json\<close>, \<^verbatim>\<open>net/url\<close>, the
    RFC 3339 layouts of \<^verbatim>\<open>time\<close>, durations, \<^verbatim>\<open>fmt.Sscanf\<close>, \<^verbatim>\<open>path/filepath\<close>).
  \<^item> \<^verbatim>\<open>Ports\<close>, \<^verbatim>\<open>Link\<close>, \<^verbatim>\<open>TConfig\<close>, \<^verbatim>\<open>TelemtClient\<close>, \<^verbatim>\<open>Config\<close>, \<^verbatim>\<open>WebFormat\<close>: the pure components.
  \<^item> \<^verbatim>\<open>TelemtAPI\<close>: the exchange with the control API (\<open>client_do\<close>, \<open>client_Users\<close> and the others), over the
    JSON parser of \<^verbatim>\<open>GoJson\<close> and the typed decoding of \<^verbatim>\<open>JsonDecode\<close>.
  \<^item> \<^verbatim>\<open>Store\<close>: the tables \<^verbatim>\<open>proxies\<close>, \<^verbatim>\<open>admins\<close>, \<^verbatim>\<open>sessions\<close> with their constraints and one definition per
    method; the contract of the proxy table is the locale \<open>proxy_table\<close>, interpreted as \<open>proxies\<close>.
  \<^item> \<^verbatim>\<open>Runtime\<close>: the interface of the container runtime, its contract as the locales \<open>container_runtime\<close> and
    \<open>complete_listing\<close>. \<^verbatim>\<open>Fake\<close>, the in-memory runtime of \<^verbatim>\<open>fake.go\<close>, satisfies both (\<open>fake\<close>; \<open>reliable\<close>
    and \<open>healthy\<close> with failure switches off). \<^verbatim>\<open>Docker\<close> is the client of \<^verbatim>\<open>client.go\<close> over the calls of the
    SDK; the documented behaviour of those calls is the locale \<open>docker_daemon\<close>, and \<open>full_references\<close>, a
    daemon asked in full ids only (\<open>in_full\<close>), is a sublocale of \<open>container_runtime\<close>. It is interpreted on
    an SDK that the in-memory runtime answers (\<^verbatim>\<open>ExamplesDocker\<close>).
  \<^item> \<^verbatim>\<open>World\<close>: the state the service works on (database, file tree, runtime, clock) and the environment
    (\<open>platform\<close>): which call fails when, random bytes, latencies. A context is cancelled from a given
    tick on; \<open>WithoutCancel\<close> never is.
  \<^item> \<^verbatim>\<open>Service\<close>, \<^verbatim>\<open>Saga\<close>, \<^verbatim>\<open>Lifecycle\<close>, \<^verbatim>\<open>Reconcile\<close>: \<^verbatim>\<open>service.go\<close> and \<^verbatim>\<open>lifecycle.go\<close>, every branch.
    Their lemmas are proved inside \<open>container_runtime\<close>, for every runtime that keeps the contract.
  \<^item> \<^verbatim>\<open>Panel\<close>: the step relation of all operations, its reachable states and their invariant.
  \<^item> \<^verbatim>\<open>Threads\<close>: programs of atomic actions, pools of them, schedules and the step relation \<open>pool_step\<close>, with a
    rule (\<open>agree\<close>) for what every interleaving keeps. \<^verbatim>\<open>Programs\<close>: every operation of the service as a program
    whose actions are its calls of store, file system, runtime and telemt (\<open>Create_prog\<close> and so on), equal to the
    operation when run alone. \<^verbatim>\<open>Interleave\<close>: laws of rows that every call keeps (\<open>row_law\<close>), runtimes that
    nobody can tell apart (\<open>interchange\<close>) and both (\<open>interleaving\<close>); \<^verbatim>\<open>DockerPanel\<close> uses them for the Docker
    client. \<^verbatim>\<open>Crash\<close>: reconciliation of what a crash leaves. \<^verbatim>\<open>Races\<close> and \<^verbatim>\<open>Logins\<close>: schedules that lose an
    update, leave a container behind, or pass the limiter.
  \<^item> \<^verbatim>\<open>Poller\<close>: sweeps with backoff and eviction, and the subscriptions as the step relation \<open>hub_step\<close>.
  \<^item> \<^verbatim>\<open>Auth\<close>: password hashes, the limiter of logins, sessions and accounts (\<^verbatim>\<open>auth.go\<close>).
  \<^item> \<^verbatim>\<open>Web\<close>: the route table, both guards and every handler; \<^verbatim>\<open>WebGuard\<close> shows what the guards let through,
    \<^verbatim>\<open>WebForms\<close> what forms, links and event streams show and take.
  \<^item> \<^verbatim>\<open>Site\<close>: requests, streams, sweeps and background work as one step relation with its invariant.
  \<^item> \<^verbatim>\<open>PanelMain\<close>: \<^verbatim>\<open>main.go\<close>, \<open>store.Open\<close> and \<open>web.NewServer\<close>; a boot establishes that invariant.
    \<^verbatim>\<open>Shutdown\<close>: signal, shutdown of the server, deferred calls and \<open>Store.Close\<close> as the relation \<open>process_step\<close>.
  \<^item> \<^verbatim>\<open>Works\<close>: liveness of the creation. \<^verbatim>\<open>Examples\<close>, \<^verbatim>\<open>ExamplesAuth\<close>, \<^verbatim>\<open>ExamplesWeb\<close>, \<^verbatim>\<open>ExamplesDocker\<close>,
    \<^verbatim>\<open>ExamplesMain\<close>, \<^verbatim>\<open>ExamplesThreads\<close>: a concrete panel for the witnesses.

  \<^bold>\<open>What is shown.\<close> Of the service: a failed creation is undone, a successful one has done its work and
  disturbs nothing (C1 to C4); what any interleaving of operations keeps, what the first reconciliation after a
  crash repairs, and that the interleaved programs are the operations (C5 to C7); files change atomically, the
  wait for health ends (C8, C9); deletion, changes of limits, recreation and reconciliation, with their failures
  (C10 to C14, C16 to C18), on the Docker client as on the interface (C15); two races (C19, C20). Of the process:
  the boot (C21) and the end (C22). Of the parts: the control API (C13, C23, C28, C30), containers and links (C24,
  C25, C37), configuration (C26, C27), sessions (C29). Of the poller: C31, C32. Of the accounts: C33 to C36. Of the
  web layer: C38, C39, and of the whole site C40.

  \<^bold>\<open>Correspondence.\<close> A Go function is the definition of the same name (\<open>Service.New\<close> is \<^verbatim>\<open>proxy.New\<close>), with
  the type in front where names clash (\<open>dockerRuntime_Create\<close>, \<open>client_Users\<close>, \<open>poller_New\<close>); a
  long method is split at its numbered steps (\<open>Create\<close>, \<open>create_claim\<close>, \<open>create_prepare\<close>,
  \<open>create_container\<close>, \<open>create_finish\<close>). Errors are values: \<open>Inl e\<close>, or \<open>Some e\<close> where Go returns only an
  error; \<open>errors_Is\<close> looks for a sentinel in the chain. A pointer that may be nil is an option, \<open>uint64\<close> is
  a 64-bit word, \<open>int\<close> an unbounded integer where the code only compares it.

  \<^bold>\<open>What is a parameter.\<close> The SQL driver's error texts (\<open>driver\<close>, with their documented form in
  \<open>driver_ok\<close>), the Docker SDK (\<open>docker_sdk\<close>), HTTP towards telemt (\<open>transport\<close>), argon2 and SHA-256
  (\<open>crypto\<close>), the QR encoder and the rendering of templates, the listening
  socket, the random source, UUIDs and the clock. \<open>honest_random\<close> says that the random source returns as
  many bytes as asked and that a UUID is a plain file name.

  \<^bold>\<open>Termination and bounds.\<close> The only unbounded loop of the service, the wait for the control API, is a
  terminating function: each round costs at least a second of the world's clock, which bounds the rounds by
  the budget. The JSON parser recurses on the nesting depth, with Go's limit of 10000, and over elements with
  the length of the text as fuel, which is enough since each takes a character. The poller's loop and an event
  stream are functions of the list of their wake-ups. The program of the wait has one round per second of the
  budget and one more, after which the deadline has passed; the schedules that theorems give are as long as
  the programs they run.

  \<^bold>\<open>Not modelled.\<close> Permission bits and ownership of files; the SQL driver's connection handling; the contents
  of templates and static files; the HTTP server beyond its documented shutdown. The goroutines of a sweep and
  the background pull are steps in any order. A call of the store, the file system or the runtime is atomic, and
  an open temporary file is known by its name: two that get the same random name, one after the other is
  removed, are not told apart.
\<close>

section \<open>Creating a proxy\<close>



text \<open>
  C2. What a successful creation has done: the returned proxy has the requested port, domain and
  limits and a fresh id; its port is in range, not reserved and used by no other row; a container that
  did not exist before carries its labels; its row is the returned proxy; and the configuration file
  in its directory is the rendering of the row.
\<close>

theorem Create_result:
  assumes contract: "container_runtime (sv_Runtime sv) ctrs good"
    and w: "good (w_rt w)" "db_wf (w_db w)"
    and plain: "\<forall>t. plain_name (pl_uuid (sv_pl sv) t)"
    and run: "Create sv c req w = (Inr q, w')"
  shows "\<exists>pid i e sec tok q' body.
    q = set_outcome e ((new_proxy req sec tok pid)\<lparr>px_ContainerID := i\<rparr>) \<and> rows w pid = None \<and>
    port_allowed sv (cr_Port req) \<and> cr_TLSDomain req \<noteq> '''' \<and>
    (\<forall>k p. rows w k = Some p \<longrightarrow> px_Port p \<noteq> cr_Port req) \<and>
    ctrs (w_rt w) i = None \<and> ctrs (w_rt w') = (ctrs (w_rt w))(i \<mapsto> managed_labels pid) \<and>
    same_proxy q q' \<and> rows w' = (rows w)(pid \<mapsto> q') \<and>
    Render (config_spec sv q) = Inr body \<and> w_fs w' (configPath sv pid) = Some (File body)"
proof (cases rule: Create_cases [OF run, case_names early claim])
  case (claim w4 sec tok t t' t1 t2)
  define pid where "pid = pl_uuid (sv_pl sv) t"
  define p where "p = new_proxy req (hex_Encode sec) (hex_Encode tok) pid"
  have p: "px_ID p = pid" "px_Port p = cr_Port req" by (simp_all add: p_def new_proxy_def)
  have id: "plain_name (px_ID p)" using plain by (simp add: p pid_def)
  have w4: "good (w_rt w4)" "db_wf (w_db w4)" using claim(2,3) w by simp_all
  have run4: "create_claim sv c p w4 = (Inr q, w')" using claim(1) by (simp add: p_def pid_def)
  note ok = container_runtime.create_claim_ok [OF contract refl w4 id run4]
  obtain e i q' where q: "q = set_outcome e (p\<lparr>px_ContainerID := i\<rparr>)" "ctrs (w_rt w4) i = None"
    "ctrs (w_rt w') = (ctrs (w_rt w4))(i \<mapsto> managed_labels (px_ID p))" "same_proxy q q'"
    "rows w' = (rows w4)(px_ID p \<mapsto> q')" using ok(2) by blast
  obtain body where body: "Render (config_spec sv p) = Inr body"
    "w_fs w' (configPath sv (px_ID p)) = Some (File body)" using ok(3) by blast
  have wf': "db_wf (w_db w')"
    using container_runtime.Create_undisturbed [OF contract refl w plain run] by (auto simp: undisturbed_def)
  have others: "px_Port r \<noteq> cr_Port req" if r: "rows w k = Some r" for k r
  proof
    assume "px_Port r = cr_Port req"
    moreover have "px_Port q' = cr_Port req" using q(1,4) p by (simp add: same_proxy_fields)
    moreover have "k \<noteq> pid" using r ok(1) p claim(2) by auto
    then have "rows w' k = Some r" using r q(5) p claim(2) by simp
    moreover have "rows w' pid = Some q'" using q(5) p by simp
    ultimately show False using proxies.ports_inj [OF wf', of k r pid q'] \<open>k \<noteq> pid\<close> by simp
  qed
  have "port_allowed sv (cr_Port req)" using claim(6) by (simp add: CheckPort_None_iff port_allowed_def)
  moreover have "config_spec sv q = config_spec sv p" by (simp add: q(1))
  ultimately have "q = set_outcome e (p\<lparr>px_ContainerID := i\<rparr>) \<and> rows w pid = None \<and>
    port_allowed sv (cr_Port req) \<and> cr_TLSDomain req \<noteq> [] \<and>
    (\<forall>k p. rows w k = Some p \<longrightarrow> px_Port p \<noteq> cr_Port req) \<and>
    ctrs (w_rt w) i = None \<and> ctrs (w_rt w') = (ctrs (w_rt w))(i \<mapsto> managed_labels pid) \<and>
    same_proxy q q' \<and> rows w' = (rows w)(pid \<mapsto> q') \<and>
    Render (config_spec sv q) = Inr body \<and> w_fs w' (configPath sv pid) = Some (File body)"
    using ok(1) others q body claim(2,3,5) p(1) by simp
  then show ?thesis unfolding p_def by blast
qed simp

lemma Create_result_witness:
  "\<exists>q w' body. Create demo_service Background good_request demo_world = (Inr q, w') \<and>
     px_Port q = 2443 \<and> w_fs w' (configPath demo_service (px_ID q)) = Some (File body)"
proof -
  obtain q w' where run: "Create demo_service Background good_request demo_world = (Inr q, w')"
    using healthy.Create_works [where sv = demo_service and c = Background and req = good_request and
        w = demo_world] demo_reliable demo_healthy demo_wf demo_valid_request demo_host demo_random
      demo_rows demo_fresh fake_healthy_works by auto
  have "\<forall>t. plain_name (pl_uuid (sv_pl demo_service) t)"
    using demo_random by (simp add: honest_random_def)
  from Create_result [OF _ _ _ this run, of fake_ctrs fake_healthy] show ?thesis
    using healthy.container_runtime_axioms demo_healthy demo_wf run
    by (auto simp: new_proxy_def good_request_def)
qed



text \<open>
  C4. Creation gets through when nothing stands in its way: on a platform without faults, with a
  runtime whose calls succeed, a request that passes the checks on a port nobody uses is answered with
  a proxy (in state running or error, as its control API comes up or not).
\<close>

theorem Create_succeeds:
  assumes contract: "container_runtime (sv_Runtime sv) ctrs good"
    and rel: "db_reliable (sv_pl sv)" "fs_reliable (sv_pl sv)" "runtime_works (sv_Runtime sv) good"
    and w: "good (w_rt w)" "db_wf (w_db w)" and live: "cx_cancel_at c = None"
    and req: "valid_request sv req"
    and host: "\<And>t. pl_listen (sv_pl sv) t (cr_Port req) = None" "\<And>t. pl_lclose (sv_pl sv) t = None"
    and rnd: "honest_random (sv_pl sv)" "\<And>t n. \<not> isl (pl_rand (sv_pl sv) t n)"
    and fresh: "\<And>t. rows w (pl_uuid (sv_pl sv) t) = None"
      "\<And>t. dir_fresh (w_fs w) (configDir sv (pl_uuid (sv_pl sv) t))"
    and port: "\<And>k q. rows w k = Some q \<Longrightarrow> px_Port q \<noteq> cr_Port req"
  shows "\<exists>p w'. Create sv c req w = (Inr p, w')"
  by (rule container_runtime.Create_works [OF contract refl rel w live req host rnd fresh port])

lemma Create_succeeds_witness:
  "\<exists>p w'. Create demo_service Background good_request demo_world = (Inr p, w')"
  by (rule Create_succeeds [OF healthy.container_runtime_axioms [folded demo_service_fields(2)]])
    (simp_all add: demo_reliable demo_healthy demo_wf demo_valid_request demo_host demo_random
      demo_rows demo_fresh fake_healthy_works)

section \<open>Files and the control API\<close>

text \<open>
  C8. Writing a proxy's configuration is atomic. Through every intermediate state of the file tree a
  reader of the file sees what was there before or a complete rendering of the row; on success it is
  the rendering, on failure the old file; and no other existing file or directory is touched.
\<close>

theorem config_write_atomic:
  assumes run: "writeConfig sv p w = (e, w')" and id: "plain_name (px_ID p)"
  shows "(\<exists>hs. w_hist w' = hs @ w_hist w \<and>
      (\<forall>f \<in> set hs. f (configPath sv (px_ID p)) = w_fs w (configPath sv (px_ID p)) \<or>
         (\<exists>body. Render (config_spec sv p) = Inr body \<and> f (configPath sv (px_ID p)) = Some (File body)))) \<and>
    (if e = None
     then \<exists>body. Render (config_spec sv p) = Inr body \<and> w_fs w' (configPath sv (px_ID p)) = Some (File body)
     else w_fs w' (configPath sv (px_ID p)) = w_fs w (configPath sv (px_ID p))) \<and>
    (\<forall>q n. w_fs w q = Some n \<longrightarrow> q \<noteq> configPath sv (px_ID p) \<longrightarrow> w_fs w' q = Some n)"
  using writeConfig_effect(1,2,3) [OF run id] writeConfig_effect(4) [OF run id] by auto

lemma config_write_atomic_witness:
  "\<exists>w' body. writeConfig demo_service (demo_proxy ''u1'' 443 ''ctr1'') demo_panel = (None, w') \<and>
     w_fs w' (configPath demo_service ''u1'') = Some (File body)"
proof -
  let ?p = "demo_proxy ''u1'' 443 ''ctr1''"
  have "fst (writeConfig demo_service ?p demo_panel) = None"
    by (rule writeConfig_works) (simp_all add: demo_reliable plain_name_def demo_fresh demo_valid)
  then obtain w' where run: "writeConfig demo_service ?p demo_panel = (None, w')" by (metis prod.collapse)
  show ?thesis using config_write_atomic [OF run] run by (auto simp: plain_name_def)
qed

text \<open>
  C9. The wait for the control API ends, and says why. It succeeds only if an inspection inside the
  budget gave an address and the API at that address answered; it fails only with the context's error
  or when the budget is used up; and it makes at most one probe per second of the budget.
\<close>

theorem waitHealthy_bounded:
  assumes run: "waitHealthy sv c p w = (r, w')"
  shows "(r = None \<longrightarrow> (\<exists>u info u1.
        call_rt (\<lambda>b. rt_Inspect (sv_Runtime sv) b (px_ContainerID p)) (sv_pl sv) c u = (Inr info, u1) \<and>
        ci_IPAddress info \<noteq> '''' \<and>
        tc_Health (sv_NewClient sv p (ci_IPAddress info)) (ctx_done c u1) (w_tick u1) = None \<and>
        w_clock u < w_clock w + sv_HealthBudget sv)) \<and>
    (\<forall>e. r = Some e \<longrightarrow> (e = ctx_Err \<and> ctx_done c w') \<or> w_clock w + sv_HealthBudget sv \<le> w_clock w') \<and>
    (\<exists>n l1 w1. wait_rounds sv c p (w_clock w + sv_HealthBudget sv) n None w l1 w1 \<and>
        wait_exit sv c p (w_clock w + sv_HealthBudget sv) l1 w1 r w' \<and>
        (n > 0 \<longrightarrow> (int n - 1) * Second < sv_HealthBudget sv))"
  using waitHealthy_outcome [OF run] waitHealthy_rounds [OF run] by blast

lemma waitHealthy_bounded_witness:
  "\<exists>n l1 w1. wait_rounds demo_service Background (demo_proxy ''u1'' 443 ''ctr1'')
      (w_clock demo_panel + HealthBudget) n None demo_panel l1 w1 \<and> (n > 0 \<longrightarrow> (int n - 1) * Second < HealthBudget)"
  using waitHealthy_bounded [of demo_service Background "demo_proxy ''u1'' 443 ''ctr1''" demo_panel]
  by (metis demo_service_fields(5) prod.collapse)

section \<open>Deleting a proxy\<close>

text \<open>
  C10. A successful deletion removes the row, the recorded container and the proxy's directory, and
  exactly these.
\<close>

theorem Delete_removes:
  assumes contract: "container_runtime (sv_Runtime sv) ctrs good"
    and w: "good (w_rt w)" "db_wf (w_db w)" and run: "Delete sv c pid w = (None, w')"
  shows "\<exists>p. rows w pid = Some p \<and> rows w' = (rows w)(pid := None) \<and>
    ctrs (w_rt w') = (if px_ContainerID p = '''' then ctrs (w_rt w)
       else (ctrs (w_rt w))(px_ContainerID p := None)) \<and>
    w_fs w' = (\<lambda>q. if below (configDir sv pid) q then None else w_fs w q) \<and>
    db_wf (w_db w') \<and> good (w_rt w')"
  by (rule container_runtime.Delete_ok [OF contract refl w run])

lemma Delete_removes_witness:
  "\<exists>w'. Delete demo_service Background ''u1'' demo_panel = (None, w') \<and> rows w' ''u1'' = None \<and>
     rows w' ''u2'' \<noteq> None \<and> fake_ctrs (w_rt w') ''ctr1'' = None \<and> fake_ctrs (w_rt w') ''ctr2'' \<noteq> None"
proof -
  obtain w' where run: "Delete demo_service Background ''u1'' demo_panel = (None, w')" by (rule demo_Delete)
  show ?thesis
    using Delete_removes [where sv = demo_service, simplified, OF reliable.container_runtime_axioms
      demo_runtime(1) demo_wf(1) run] run by (auto simp: demo_rows demo_ctrs)
qed

text \<open>
  C11. A failed deletion keeps every row, so that it can be tried again, and touches at most the
  proxy's own container and directory.
\<close>

theorem Delete_retryable:
  assumes contract: "container_runtime (sv_Runtime sv) ctrs good"
    and w: "good (w_rt w)" "db_wf (w_db w)" and run: "Delete sv c pid w = (Some e, w')"
  shows "w_db w' = w_db w \<and> good (w_rt w') \<and>
    (\<forall>j l. ctrs (w_rt w) j = Some l \<longrightarrow> (\<forall>p. rows w pid = Some p \<longrightarrow> px_ContainerID p \<noteq> j) \<longrightarrow>
       ctrs (w_rt w') j = Some l) \<and>
    (\<forall>q n. w_fs w q = Some n \<longrightarrow> \<not> below (configDir sv pid) q \<longrightarrow> w_fs w' q = Some n)"
  using Delete_Some [OF run] container_runtime.Delete_keeps [OF contract refl w run] by blast

lemma Delete_retryable_witness:
  "\<exists>e w'. Delete demo_service Background ''u9'' demo_panel = (Some e, w') \<and> w_db w' = w_db demo_panel"
proof -
  have "fst (Delete demo_service Background ''u9'' demo_panel) \<noteq> None"
    using proxies.get_law [of "''u9''" "w_db demo_panel"] demo_rows(3)
    by (simp add: Delete_def store_calls db_query_def db_fault_def demo_platform_def)
  then obtain e w' where run: "Delete demo_service Background ''u9'' demo_panel = (Some e, w')"
    by (metis not_Some_eq prod.collapse)
  show ?thesis
    using Delete_retryable [where sv = demo_service, simplified, OF reliable.container_runtime_axioms
      demo_runtime(1) demo_wf(1) run] run by blast
qed

section \<open>Changing limits\<close>

text \<open>
  C12. A successful change of limits stores the patched proxy, writes its configuration, leaves the
  containers alone, and either the live patch was sent to telemt or the row says that it was not.
\<close>

theorem UpdateLimits_result:
  assumes contract: "container_runtime (sv_Runtime sv) ctrs good"
    and w: "good (w_rt w)" "db_wf (w_db w)" and id: "plain_name pid"
    and run: "UpdateLimits sv c pid lp w = (Inr q, w')"
  shows "\<exists>p msg. rows w pid = Some p \<and> q = (apply_patch lp p)\<lparr>px_StateMessage := msg\<rparr> \<and>
    (\<exists>q'. same_proxy q q' \<and> rows w' = (rows w)(pid \<mapsto> q')) \<and>
    (\<exists>body. Render (config_spec sv q) = Inr body \<and> w_fs w' (configPath sv pid) = Some (File body)) \<and>
    ctrs (w_rt w') = ctrs (w_rt w) \<and>
    (msg = '''' \<longrightarrow> w_sent w' = w_sent w @ [(pid, Username, apiPatch lp)])"
  by (rule container_runtime.UpdateLimits_ok [OF contract refl w id run])

lemma UpdateLimits_result_witness:
  "\<exists>q w'. UpdateLimits demo_service Background ''u1'' demo_patch demo_panel = (Inr q, w') \<and>
     px_DataQuotaBytes q = None \<and> px_MaxTCPConns q = Some 10 \<and> px_MaxUniqueIPs q = Some 3"
proof -
  obtain q w' where run: "UpdateLimits demo_service Background ''u1'' demo_patch demo_panel = (Inr q, w')"
    by (rule demo_UpdateLimits)
  have "plain_name ''u1''" by (simp add: plain_name_def)
  from UpdateLimits_result [where sv = demo_service, simplified, OF reliable.container_runtime_axioms
      demo_runtime(1) demo_wf(1) this run] run show ?thesis
    by (auto simp: demo_rows apply_patch_def demo_patch_def demo_proxy_def)
qed

text \<open>
  C13. The live patch says what the stored patch says: merging the body sent to telemt (RFC 7386) into
  the document of the old limits gives the document of the new ones. A cleared limit is a null that
  removes telemt's value, a limit left alone is absent.
\<close>

theorem live_patch_refines: "merge_patch (patch_members (apiPatch lp)) (limits_doc p) = limits_doc (apply_patch lp p)"
  by (rule merge_apiPatch)

section \<open>Recreating a proxy\<close>



text \<open>
  A recreation that asks for a reserved or impossible port, or for no domain, is refused before
  anything is touched.
\<close>

theorem Recreate_refused:
  assumes wf: "db_wf (w_db w)" and row: "rows w pid = Some p"
    and bad: "dn = '''' \<or> port \<noteq> px_Port p \<and> \<not> port_allowed sv port"
    and run: "Recreate sv c pid port dn w = (r, w')"
  shows "isl r \<and> w_db w' = w_db w \<and> w_rt w' = w_rt w \<and> w_fs w' = w_fs w"
  by (cases rule: Recreate_cases [OF run wf, case_names early destructive])
    (use row bad in \<open>auto simp: port_allowed_def\<close>)

lemma Recreate_refused_witness:
  "w_rt (snd (Recreate demo_service Background ''u1'' 80 ''b.org'' demo_panel)) = w_rt demo_panel"
proof -
  obtain r w' where run: "Recreate demo_service Background ''u1'' 80 ''b.org'' demo_panel = (r, w')" by fastforce
  have "\<not> port_allowed demo_service 80" by (simp add: port_allowed_def demo_config_def)
  then show ?thesis
    using Recreate_refused [OF demo_wf(1) demo_rows(1) _ run] run by simp
qed

text \<open>
  C16. Moving a proxy to a port that another row holds destroys it. The free-port check only asks the
  host, so a port whose owner is stopped passes it; the old container is then removed before the
  database rejects the port, and the row stays in state recreating on its old port with the id of a
  container that no longer exists.
\<close>

theorem Recreate_loses_container:
  assumes contract: "container_runtime (sv_Runtime sv) ctrs good"
    and w: "good (w_rt w)" "db_wf (w_db w)"
    and rel: "db_reliable (sv_pl sv)" "driver_ok (pl_driver (sv_pl sv))" "remove_works (sv_Runtime sv) ctrs good"
    and live: "cx_cancel_at c = None"
    and p: "rows w pid = Some p" "px_ContainerID p = i" "ctrs (w_rt w) i = Some l" "i \<noteq> ''''"
    and other: "rows w k = Some q" "k \<noteq> pid" "px_Port q = port"
    and dn: "dn \<noteq> ''''" and free: "CheckPort (pl_listen (sv_pl sv) (w_tick w + 1)) (pl_lclose (sv_pl sv) (w_tick w + 1))
      port (cf_ReservedPorts (sv_Cfg sv)) = None"
    and run: "Recreate sv c pid port dn w = (r, w')"
  shows "(\<exists>e. r = Inl e \<and> errors_Is e ErrPortTaken) \<and> ctrs (w_rt w') = (ctrs (w_rt w))(i := None) \<and>
    (\<exists>p'. rows w' pid = Some p' \<and> px_State p' = StateRecreating \<and> px_ContainerID p' = i \<and>
       px_Port p' = px_Port p)"
  by (rule container_runtime.Recreate_port_taken [OF contract refl w rel live p other dn free run])

lemma Recreate_loses_container_witness:
  "fake_ctrs (w_rt (snd (Recreate demo_service Background ''u1'' 8080 ''b.org'' demo_panel))) ''ctr1'' = None"
proof -
  obtain r w' where run: "Recreate demo_service Background ''u1'' 8080 ''b.org'' demo_panel = (r, w')" by fastforce
  have free: "CheckPort (pl_listen (sv_pl demo_service) (w_tick demo_panel + 1))
      (pl_lclose (sv_pl demo_service) (w_tick demo_panel + 1)) 8080 (cf_ReservedPorts (sv_Cfg demo_service)) = None"
    by (simp add: CheckPort_None_iff demo_host demo_config_def)
  from Recreate_loses_container [where sv = demo_service, OF
      reliable.container_runtime_axioms [folded demo_service_fields(2)] demo_runtime(1) demo_wf(1) _ _ _ _
      demo_rows(1) _ demo_ctrs(1) _ demo_rows(2) _ _ _ free run]
  show ?thesis using run by (simp add: demo_reliable fake_reliable_works)
qed

section \<open>Orphans and reconciliation\<close>

text \<open>
  C17. Removing an orphan can only take down the named container, only if it carries the panel's label
  and belongs to no row; it changes neither the database nor the files; and when it reports success the
  container is gone.
\<close>

theorem RemoveOrphan_safe:
  assumes contract: "container_runtime (sv_Runtime sv) ctrs good"
    and w: "good (w_rt w)" "db_wf (w_db w)" and run: "RemoveOrphan sv c cid w = (r, w')"
  shows "w_db w' = w_db w \<and> w_fs w' = w_fs w \<and> good (w_rt w') \<and>
    (\<forall>j l. ctrs (w_rt w) j = Some l \<longrightarrow>
       j \<noteq> cid \<or> rows w (label_of l LabelProxyID) \<noteq> None \<or> label_of l LabelManaged \<noteq> ''true'' \<longrightarrow>
       ctrs (w_rt w') j = Some l) \<and>
    (r = None \<longrightarrow> ctrs (w_rt w') cid = None)"
  using container_runtime.RemoveOrphan_effect [OF contract refl w run] by blast

lemma RemoveOrphan_safe_witness:
  "\<exists>w'. RemoveOrphan demo_service Background ''ctr3'' demo_panel = (None, w') \<and>
     fake_ctrs (w_rt w') ''ctr3'' = None \<and> fake_ctrs (w_rt w') ''ctr1'' \<noteq> None"
proof -
  obtain w' where run: "RemoveOrphan demo_service Background ''ctr3'' demo_panel = (None, w')"
    by (rule demo_RemoveOrphan)
  from RemoveOrphan_safe [where sv = demo_service, simplified, OF reliable.container_runtime_axioms
      demo_runtime(1) demo_wf(1) run] run demo_ctrs show ?thesis by auto
qed



text \<open>
  With a runtime whose listing misses nothing, reconciliation leaves every proxy that has a
  container alone: its row keeps everything but, possibly, the recorded container id.
\<close>

theorem Reconcile_keeps_running:
  assumes contract: "complete_listing (sv_Runtime sv) ctrs good"
    and w: "good (w_rt w)" "db_wf (w_db w)" and run: "Reconcile sv c w = (Inr rep, w')"
    and row: "rows w k = Some p" and own: "ctrs (w_rt w) i = Some l"
      "label_of l LabelManaged = ''true''" "label_of l LabelProxyID = k"
  shows "\<exists>q j. rows w' k = Some q \<and> (q = p \<or> same_proxy (p\<lparr>px_ContainerID := j\<rparr>) q)"
  by (rule complete_listing.Reconcile_owned [OF contract refl w run row own])

lemma Reconcile_keeps_running_witness:
  "\<exists>rep w'. Reconcile demo_service Background demo_panel = (Inr rep, w') \<and> rows w' ''u1'' \<noteq> None"
proof -
  obtain rep w' where run: "Reconcile demo_service Background demo_panel = (Inr rep, w')" by (rule demo_Reconcile)
  from Reconcile_keeps_running [where sv = demo_service, simplified, OF reliable.complete_listing_axioms
      demo_runtime(1) demo_wf(1) run demo_rows(1) demo_ctrs(1)] run show ?thesis
    by (auto simp: managed_labels_def label_of_def LabelManaged_def LabelProxyID_def)
qed

section \<open>The panel over time\<close>

text \<open>
  Every sequence of panel operations, in any order and with any failures, keeps the
  invariant: the tables are well formed (ids unique, at most one proxy per port, every session of an
  existing admin) and every row is a proxy with a plain id, an allowed port, a domain, a 128-bit secret
  in hex and a token.
\<close>

theorem reachable_invariant:
  assumes contract: "container_runtime (sv_Runtime sv) ctrs good"
    and rnd: "honest_random (sv_pl sv)"
    and w: "panel_inv sv good w0" and reach: "reachable sv w0 w"
  shows "panel_inv sv good w"
  by (rule container_runtime.reachable_inv [OF contract refl rnd w reach])

lemma reachable_invariant_witness:
  "\<exists>w'. reachable demo_service demo_world w' \<and> panel_inv demo_service fake_reliable w'"
proof -
  obtain r w' where "Create demo_service Background good_request demo_world = (r, w')" by fastforce
  then have reach: "reachable demo_service demo_world w'"
    unfolding reachable_def by (blast intro: panel_step.create)
  have "panel_inv demo_service fake_reliable demo_world"
    using demo_runtime demo_wf demo_rows(4) by (simp add: panel_inv_def)
  with reach show ?thesis
    using reachable_invariant [where sv = demo_service, simplified, OF reliable.container_runtime_axioms demo_random]
    by blast
qed

text \<open>
  Whatever happens, every proxy of the panel has a link to give out.
\<close>

theorem reachable_links:
  assumes contract: "container_runtime (sv_Runtime sv) ctrs good"
    and rnd: "honest_random (sv_pl sv)" and w: "panel_inv sv good w0"
    and reach: "reachable sv w0 w" and row: "rows w pid = Some p"
  shows "service_Link sv p \<noteq> ''''"
proof -
  have "good_proxy sv p"
    using container_runtime.reachable_inv [OF contract refl rnd w reach] row by (auto simp: panel_inv_def)
  then show ?thesis by (simp add: service_Link_nonempty good_proxy_def port_allowed_def)
qed

lemma reachable_links_witness:
  "service_Link demo_service (demo_proxy ''u1'' 443 ''ctr1'') \<noteq> ''''"
proof -
  have "reachable demo_service demo_panel demo_panel" by (simp add: reachable_def)
  from reachable_links [where sv = demo_service, simplified, OF reliable.container_runtime_axioms demo_random
      demo_panel_inv this demo_rows(1)]
  show ?thesis .
qed

text \<open>
  No operation gives an existing proxy another id, name, secret or API token: the links its users
  hold stay valid as long as its port and domain do.
\<close>

theorem identity_kept:
  assumes contract: "container_runtime (sv_Runtime sv) ctrs good"
    and rnd: "honest_random (sv_pl sv)" and w: "panel_inv sv good w"
    and step: "panel_step sv w w'" and row: "rows w k = Some p" "rows w' k = Some q"
  shows "px_ID q = px_ID p \<and> px_Name q = px_Name p \<and> px_Secret q = px_Secret p \<and> px_APIToken q = px_APIToken p"
proof -
  have "same_identity p q"
    using container_runtime.panel_step_keeps [OF contract refl rnd w step] row by blast
  then show ?thesis by (simp add: same_identity_def)
qed

lemma identity_kept_witness:
  "\<exists>w' q. panel_step demo_service demo_panel w' \<and> rows w' ''u1'' = Some q \<and> px_Secret q = replicate 32 CHR ''a''"
proof -
  let ?w = "demo_panel\<lparr>w_clock := 5, w_tick := 9\<rparr>"
  have step: "panel_step demo_service demo_panel ?w"
    by (rule panel_step.idle) (simp add: demo_panel_def demo_world_def)
  have row: "rows ?w ''u1'' = Some (demo_proxy ''u1'' 443 ''ctr1'')" using demo_rows(1) by simp
  from identity_kept [where sv = demo_service, simplified, OF reliable.container_runtime_axioms demo_random
      demo_panel_inv step demo_rows(1) row] step row
  show ?thesis by (intro exI [of _ ?w]) (simp add: demo_proxy_def)
qed

section \<open>Concurrent operations and crashes\<close>


text \<open>
  C5. Operations of any number of goroutines, taking turns between any two calls of the store, the file
  system, the runtime or telemt, with any failures, and with anything else going on that leaves the table of
  proxies alone, keep the invariant: the tables are well formed, at most one proxy has a port, and every row
  is a proxy with an allowed port, a domain, a 128-bit secret in hex and a token. A proxy whose id is not
  handed out again keeps its id, name, secret and token, and with them the links that its users hold.
\<close>

theorem interleavings_keep_invariant:
  assumes contract: "container_runtime (sv_Runtime sv) ctrs good"
    and rnd: "honest_random (sv_pl sv)" and w: "panel_inv sv good w0"
    and reach: "(pool_step (range (program sv)) (elsewhere good))\<^sup>*\<^sup>* (w0, []) (w, ts)"
  shows "panel_inv sv good w \<and>
    (\<forall>k p q. rows w0 k = Some p \<longrightarrow> (\<forall>t. pl_uuid (sv_pl sv) t \<noteq> k) \<longrightarrow> rows w k = Some q \<longrightarrow>
       px_ID q = px_ID p \<and> px_Name q = px_Name p \<and> px_Secret q = px_Secret p \<and> px_APIToken q = px_APIToken p)"
proof -
  have "same_identity p q"
    if old: "rows w0 k = Some p" "\<forall>t. pl_uuid (sv_pl sv) t \<noteq> k" and new: "rows w k = Some q" for k p q
  proof -
    have "px_ID p = k" using old(1) by (simp add: proxies_of_ID)
    then have "row_law sv (\<lambda>_. True) (is_still p)" using old(2) by (intro identity_rows) simp
    moreover have "rows_inv good (is_still p) w0"
    proof -
      have "is_still p r" if r: "rows w0 j = Some r" for j r
      proof (cases "j = k")
        case True
        then show ?thesis using r old(1) by (simp add: is_still_def same_identity_def)
      next
        case False
        then show ?thesis using proxies_of_ID [OF r] \<open>px_ID p = k\<close> by (simp add: is_still_def)
      qed
      then show ?thesis using w by (simp add: panel_inv_def rows_inv_def)
    qed
    ultimately have "rows_inv good (is_still p) w" by (rule interleaved_rows [OF contract _ _ reach])
    then show ?thesis using new \<open>px_ID p = k\<close> by (auto simp: rows_inv_def is_still_def dest: proxies_of_ID)
  qed
  moreover have "panel_inv sv good w"
    using interleaved_rows [OF contract good_rows [OF rnd] _ reach] w by (simp add: panel_inv_rows)
  ultimately show ?thesis unfolding same_identity_def by blast
qed

lemma interleavings_keep_invariant_witness:
  "panel_inv demo_service fake_reliable (fst (schedule [0, 1, 0, 1, 1, 0] (demo_panel,
     [program demo_service (OpCreate Background good_request),
      program demo_service (OpRecreate Background ''u1'' 8443 ''example.org'')])))"
proof -
  let ?ps = "[program demo_service (OpCreate Background good_request),
      program demo_service (OpRecreate Background ''u1'' 8443 ''example.org'')]"
  let ?pool = "schedule [0, 1, 0, 1, 1, 0] (demo_panel, ?ps)"
  have "(pool_step (range (program demo_service)) (elsewhere fake_reliable))\<^sup>*\<^sup>* (demo_panel, [])
      (fst ?pool, snd ?pool)"
    unfolding prod.collapse by (rule started) (simp del: program.simps)
  from interleavings_keep_invariant [where sv = demo_service, simplified, OF reliable.container_runtime_axioms
      demo_random demo_panel_inv this]
  show ?thesis by blast
qed



text \<open>
  C20. Two changes of limits of one proxy can overlap so that both are confirmed and the second is lost: the row
  and the configuration file say what the first makes of the row that both had read.
\<close>

theorem limits_change_lost:
  assumes rel: "db_reliable (sv_pl sv)" "fs_reliable (sv_pl sv)"
    and live: "cx_cancel_at c0 = None" "cx_cancel_at c1 = None"
    and w: "db_wf (w_db w)" "rows w pid = Some p" "plain_name pid" "dir_ready sv (w_fs w) pid"
    and valid: "valid_spec (config_spec sv (apply_patch lp0 p))" "valid_spec (config_spec sv (apply_patch lp1 p))"
  shows "\<exists>turns w' m0 m1 q body.
    schedule turns (w, [program sv (OpLimits c0 pid lp0), program sv (OpLimits c1 pid lp1)]) =
      (w', [Ret (ProxyReply (Inr ((apply_patch lp0 p)\<lparr>px_StateMessage := m0\<rparr>))),
            Ret (ProxyReply (Inr ((apply_patch lp1 p)\<lparr>px_StateMessage := m1\<rparr>)))]) \<and>
    rows w' = (rows w)(pid \<mapsto> q) \<and> same_proxy ((apply_patch lp0 p)\<lparr>px_StateMessage := m0\<rparr>) q \<and>
    Render (config_spec sv q) = Inr body \<and> w_fs w' (configPath sv pid) = Some (File body)"
proof -
  obtain turns w' m0 m1 where r:
    "schedule turns (w, [program sv (OpLimits c0 pid lp0), program sv (OpLimits c1 pid lp1)]) =
       (w', [Ret (ProxyReply (Inr ((apply_patch lp0 p)\<lparr>px_StateMessage := m0\<rparr>))),
             Ret (ProxyReply (Inr ((apply_patch lp1 p)\<lparr>px_StateMessage := m1\<rparr>)))])"
    and s: "saved sv pid ((apply_patch lp0 p)\<lparr>px_StateMessage := m0\<rparr>) w w'"
    by (rule limits_race [OF rel live w valid])
  obtain q where q: "same_proxy ((apply_patch lp0 p)\<lparr>px_StateMessage := m0\<rparr>) q" "rows w' = (rows w)(pid \<mapsto> q)"
    using s by (auto simp: saved_def)
  have "config_spec sv q = config_spec sv ((apply_patch lp0 p)\<lparr>px_StateMessage := m0\<rparr>)"
    by (subst q(1) [unfolded same_proxy_def]) (simp add: config_spec_def)
  with s obtain body where "Render (config_spec sv q) = Inr body" "w_fs w' (configPath sv pid) = Some (File body)"
    unfolding saved_def by metis
  with r q show ?thesis by blast
qed

lemma limits_change_lost_witness:
  "\<exists>turns w' q0 q1 q. schedule turns (demo_panel,
      [program demo_service (OpLimits Background ''u1'' (demo_patch\<lparr>lp_MaxTCPConns := None\<rparr>)),
       program demo_service (OpLimits Background ''u1'' demo_patch)]) = (w', [Ret (ProxyReply (Inr q0)), Ret (ProxyReply (Inr q1))]) \<and>
     px_MaxTCPConns q1 = Some 10 \<and> rows w' ''u1'' = Some q \<and> px_MaxTCPConns q = None"
proof -
  let ?l = "demo_patch\<lparr>lp_MaxTCPConns := None\<rparr>" and ?p = "demo_proxy ''u1'' 443 ''ctr1''"
  have plain: "plain_name ''u1''" by (simp add: plain_name_def)
  have ready: "dir_ready demo_service (w_fs demo_panel) ''u1''" by (rule fresh_ready [OF plain demo_fresh(2)])
  have valid: "valid_spec (config_spec demo_service (apply_patch ?l ?p))"
    using demo_valid(1) [of "''u1''" "''ctr1''"]
    by (simp add: valid_spec_def config_spec_def apply_patch_def demo_patch_def demo_proxy_def strings_ContainsAny_def)
  have rel: "db_reliable (sv_pl demo_service)" "fs_reliable (sv_pl demo_service)" by (simp_all add: demo_reliable)
  obtain turns w' m0 m1 q where r: "schedule turns (demo_panel,
      [program demo_service (OpLimits Background ''u1'' ?l), program demo_service (OpLimits Background ''u1'' demo_patch)]) =
      (w', [Ret (ProxyReply (Inr ((apply_patch ?l ?p)\<lparr>px_StateMessage := m0\<rparr>))),
            Ret (ProxyReply (Inr ((apply_patch demo_patch ?p)\<lparr>px_StateMessage := m1\<rparr>)))])"
    "rows w' = (rows demo_panel)(''u1'' \<mapsto> q)" "same_proxy ((apply_patch ?l ?p)\<lparr>px_StateMessage := m0\<rparr>) q"
    using limits_change_lost [OF rel demo_contexts(1,1) demo_wf(1) demo_rows(1) plain ready valid demo_valid(2)] by blast
  have "px_MaxTCPConns q = None"
    by (subst r(3) [unfolded same_proxy_def]) (simp add: apply_patch_def demo_patch_def demo_proxy_def)
  moreover have "px_MaxTCPConns ((apply_patch demo_patch ?p)\<lparr>px_StateMessage := m1\<rparr>) = Some 10"
    by (simp add: apply_patch_def demo_patch_def)
  moreover have "rows w' ''u1'' = Some q" by (simp add: r(2))
  ultimately show ?thesis using r(1) by blast
qed

text \<open>
  C19. A deletion can fall into a recreation, when the row records no container, so that it is confirmed and the
  recreation, which then fails at its last write, leaves a started container of the deleted proxy and its
  configuration with the secret. Nothing fails on the way.
\<close>

theorem deletion_leaves_container:
  assumes contract: "container_runtime (sv_Runtime sv) ctrs good"
    and rel: "db_reliable (sv_pl sv)" "fs_reliable (sv_pl sv)"
    and works: "runtime_works (sv_Runtime sv) good" "remove_works (sv_Runtime sv) ctrs good"
    and live: "cx_cancel_at c0 = None" "cx_cancel_at c1 = None"
    and w: "good (w_rt w)" "db_wf (w_db w)" "rows w pid = Some p" "plain_name pid" "dir_ready sv (w_fs w) pid"
    and own: "ctrs (w_rt w) (px_ContainerID p) \<noteq> None" "px_ContainerID p \<noteq> ''''"
    and dn: "dn \<noteq> ''''" "valid_spec (config_spec sv (p\<lparr>px_TLSDomain := dn\<rparr>))"
  shows "\<exists>turns w' e i body.
    schedule turns (w, [program sv (OpRecreate c0 pid (px_Port p) dn), program sv (OpDelete c1 pid)]) =
      (w', [Ret (ProxyReply (Inl e)), Ret (ErrorReply None)]) \<and>
    rows w' pid = None \<and> ctrs (w_rt w') i = Some (managed_labels pid) \<and>
    Render (config_spec sv (p\<lparr>px_TLSDomain := dn\<rparr>)) = Inr body \<and> w_fs w' (configPath sv pid) = Some (File body)"
proof -
  have spec: "config_spec sv (p\<lparr>px_TLSDomain := dn\<rparr>) = config_spec sv (moved p (px_Port p) dn)"
    by (simp add: config_spec_def moved_def)
  show ?thesis
    by (rule container_runtime.delete_race [OF contract refl rel works live w own dn [unfolded spec]])
      (use spec in auto)
qed

lemma deletion_leaves_container_witness:
  "\<exists>turns w' e i. schedule turns (demo_panel, [program demo_service (OpRecreate Background ''u1'' 443 ''b.org''),
      program demo_service (OpDelete Background ''u1'')]) = (w', [Ret (ProxyReply (Inl e)), Ret (ErrorReply None)]) \<and>
    rows w' ''u1'' = None \<and> fake_ctrs (w_rt w') i = Some (managed_labels ''u1'')"
proof -
  have plain: "plain_name ''u1''" by (simp add: plain_name_def)
  have ready: "dir_ready demo_service (w_fs demo_panel) ''u1''" by (rule fresh_ready [OF plain demo_fresh(2)])
  have works: "remove_works fake_runtime fake_ctrs fake_healthy"
    using fake_reliable_works by (simp add: remove_works_def fake_healthy_def)
  have valid: "valid_spec (config_spec demo_service ((demo_proxy ''u1'' 443 ''ctr1'')\<lparr>px_TLSDomain := ''b.org''\<rparr>))"
    using demo_valid(1) [of "''u1''" "''ctr1''"]
    by (simp add: valid_spec_def config_spec_def demo_proxy_def strings_ContainsAny_def)
  have rel: "db_reliable (sv_pl demo_service)" "fs_reliable (sv_pl demo_service)" by (simp_all add: demo_reliable)
  have rt: "runtime_works (sv_Runtime demo_service) fake_healthy" "remove_works (sv_Runtime demo_service) fake_ctrs fake_healthy"
    "container_runtime (sv_Runtime demo_service) fake_ctrs fake_healthy"
    using fake_healthy_works works healthy.container_runtime_axioms by simp_all
  have own: "fake_ctrs (w_rt demo_panel) (px_ContainerID (demo_proxy ''u1'' 443 ''ctr1'')) \<noteq> None"
    "px_ContainerID (demo_proxy ''u1'' 443 ''ctr1'') \<noteq> []" by (simp_all add: demo_ctrs)
  from deletion_leaves_container [OF rt(3) rel rt(1,2) demo_contexts(1,1) demo_healthy(2) demo_wf(1) demo_rows(1)
      plain ready own _ valid] show ?thesis unfolding demo_proxy_fields by blast
qed

section \<open>Links\<close>

text \<open>
  A link determines what it was built from: two proxies with the same link have the same host,
  port, secret (up to case) and fake-TLS domain.
\<close>

theorem link_injective:
  assumes "FakeTLS host port secret domain = Inr l" "FakeTLS host' port' secret' domain' = Inr l"
  shows "host = host' \<and> port = port' \<and> strings_ToLower secret = strings_ToLower secret' \<and> domain = domain'"
  using build_inj assms unfolding FakeTLS_def by blast

lemma link_injective_witness:
  "\<exists>l. FakeTLS ''h'' 443 (replicate 32 CHR ''A'') ''d'' = Inr l \<and> FakeTLS ''h'' 443 (replicate 32 CHR ''a'') ''d'' = Inr l \<and>
     strings_ToLower (replicate 32 CHR ''A'') = strings_ToLower (replicate 32 CHR ''a'')"
proof -
  define l where "l = ''tg://proxy?server='' @ QueryEscape ''h'' @ ''&port='' @ Itoa 443 @
     ''&secret=ee'' @ strings_ToLower (replicate 32 CHR ''a'') @ hex_Encode ''d''"
  have low: "strings_ToLower (replicate 32 CHR ''A'') = strings_ToLower (replicate 32 CHR ''a'')"
    by (simp add: strings_ToLower_def lower_char_def char_of_def bit_simps)
  have "FakeTLS ''h'' 443 (replicate 32 CHR ''A'') ''d'' = Inr l" "FakeTLS ''h'' 443 (replicate 32 CHR ''a'') ''d'' = Inr l"
    by (simp_all add: FakeTLS_def build_Inr_iff l_def low is_hex_def hex_val_def)
  from this link_injective [OF this] show ?thesis by blast
qed

text \<open>
  C25. A Telegram client that splits the link's query reads back what was put in: the host after
  unescaping, the port as a number, the marker \<open>ee\<close> with the secret, and the domain in hex.
\<close>

theorem link_readback:
  assumes "FakeTLS host port secret domain = Inr l"
  shows "\<exists>h n s. l = ''tg://proxy?server='' @ h @ ''&port='' @ n @ ''&secret='' @ s \<and>
    query_pairs (''server='' @ h @ ''&port='' @ n @ ''&secret='' @ s) = [(''server'', h), (''port'', n), (''secret'', s)] \<and>
    QueryUnescape h = Some host \<and> Atoi n = Inr port \<and>
    take 34 s = ''ee'' @ strings_ToLower secret \<and> hex_Decode (drop 34 s) = Inr domain"
proof -
  from assms have b: "length secret = 32" "\<forall>c \<in> set secret. is_hex c" "1 \<le> port" "port \<le> 65535"
    "l = ''tg://proxy'' @ ''?server='' @ QueryEscape host @ ''&port='' @ Itoa port @
       ''&secret=ee'' @ strings_ToLower secret @ hex_Encode domain"
    by (simp_all add: FakeTLS_def build_Inr_iff)
  have "length (strings_ToLower secret) = 32" using b(1) by (simp add: strings_ToLower_def)
  moreover have "int64_ok port" using b by (simp add: int64_ok_def)
  ultimately show ?thesis
    using b build_query_pairs [OF b(2), of host port domain]
    by (intro exI [of _ "QueryEscape host"] exI [of _ "Itoa port"]
        exI [of _ "''ee'' @ strings_ToLower secret @ hex_Encode domain"]) (simp add: Atoi_Itoa)
qed

lemma link_readback_witness:
  "\<exists>l s. FakeTLS ''10.0.0.1'' 443 (replicate 32 CHR ''a'') ''d.org'' = Inr l \<and> hex_Decode (drop 34 s) = Inr ''d.org''"
proof -
  have "\<exists>l. FakeTLS ''10.0.0.1'' 443 (replicate 32 CHR ''a'') ''d.org'' = Inr l"
    by (simp add: FakeTLS_def build_Inr_iff is_hex_def hex_val_def)
  then show ?thesis using link_readback by blast
qed

section \<open>The telemt configuration\<close>



text \<open>
  C27. The renderer accepts exactly the specs in which every field is usable: hex of the right length,
  a port in range, the required values present, and no quote, newline or backslash in a value that is
  quoted (the expiration, which is quoted too, is not checked).
\<close>

theorem Render_accepts_iff: "(\<exists>out. Render s = Inr out) \<longleftrightarrow> valid_spec s"
  by (auto simp: Render_eq validate_None_iff [symmetric] split: option.split)

section \<open>Ports\<close>

text \<open>
  A port passes the check exactly if it is in range, not reserved, and free on the host.
\<close>

theorem CheckPort_iff:
  "CheckPort listen lclose port reserved = None \<longleftrightarrow>
     1 \<le> port \<and> port \<le> 65535 \<and> port \<notin> set reserved \<and> listen port = None \<and> lclose = None"
  by (rule CheckPort_None_iff)

text \<open>
  Two proxies never share a port: inserting a proxy on a port that a row holds fails with
  \<open>ErrPortTaken\<close> and leaves the database unchanged, and after that row is deleted the insert goes
  through.
\<close>

theorem port_exclusive:
  assumes wf: "db_wf d" and dv: "driver_ok dv" and new: "proxies_of d (px_ID p) = None"
    and q: "proxies_of d k = Some q" "px_Port q = px_Port p"
  shows "(\<exists>e. CreateProxy dv None now p d = (Some e, d) \<and> errors_Is e ErrPortTaken) \<and>
    (\<forall>d'. DeleteProxy None k d = (None, d') \<longrightarrow> (\<exists>d''. CreateProxy dv None now p d' = (None, d'')))"
  using proxies.create_taken [OF dv wf new, of q now] proxies.port_free_after_delete [OF wf q(1) _ _ new, of None _ dv now]
    q by (auto simp: ran_def)

lemma port_exclusive_witness:
  "\<exists>e. CreateProxy sqlite_driver None 0 (demo_proxy ''u3'' 443 '''') (w_db demo_panel) = (Some e, w_db demo_panel) \<and>
     errors_Is e ErrPortTaken"
proof -
  have "rows demo_panel ''u3'' = None" by (simp add: proxies_of_def demo_panel_def demo_proxy_stored)
  moreover have "driver_ok sqlite_driver" using demo_reliable(3) by (simp add: demo_platform_def)
  ultimately show ?thesis
    using port_exclusive [OF demo_wf(1) _ _ demo_rows(1), of sqlite_driver "demo_proxy ''u3'' 443 ''''" 0] by simp
qed

section \<open>Sessions\<close>

text \<open>
  C29. Expiry of a stored session: in any second before the one it expires in, its token finds its
  admin; in any later second it finds nothing. (The comparison is on texts whose fraction of a second
  has no fixed width, so inside the second of expiry it may go either way.)
\<close>

theorem session_expires:
  assumes wf: "db_wf d" and new: "CreateSession dv fault h aid expires d = (None, d')"
    and y: "four_digit_year now" "four_digit_year expires"
  shows "(now div nsec < expires div nsec \<longrightarrow> (\<exists>a. SessionAdmin None now h d' = Inr (scanAdmin a) \<and> a_id a = aid)) \<and>
    (expires div nsec < now div nsec \<longrightarrow> (\<exists>e. SessionAdmin None now h d' = Inl e \<and> errors_Is e ErrNotFound))"
  using session_expiry [OF wf new y] by blast

lemma session_expires_witness:
  "\<exists>d' e. CreateSession sqlite_driver None ''h'' 1 (5 * nsec)
      (empty_db\<lparr>t_admins := [\<lparr>a_id = 1, a_username = ''a'', a_password_hash = ''x'', a_must_change_password = 0\<rparr>],
        t_admin_seq := 1\<rparr>) = (None, d') \<and> SessionAdmin None (7 * nsec) ''h'' d' = Inl e"
proof -
  let ?d = "empty_db\<lparr>t_admins := [\<lparr>a_id = 1, a_username = ''a'', a_password_hash = ''x'', a_must_change_password = 0\<rparr>],
      t_admin_seq := 1\<rparr>"
  obtain d' where new: "CreateSession sqlite_driver None ''h'' 1 (5 * nsec) ?d = (None, d')"
    by (simp add: CreateSession_None_iff)
  have wf: "db_wf ?d" by (simp add: db_wf_def empty_db_def)
  have y: "four_digit_year (7 * nsec)" "four_digit_year (5 * nsec)" by code_simp+
  from session_expires [OF wf new y] new show ?thesis by auto
qed

section \<open>Configuration of the panel\<close>

text \<open>
  Whatever the environment, a configuration that loads has a poll interval of at least a second
  that fits a Go duration, and no empty directory, network, subnet, image or address.
\<close>

theorem Load_usable:
  assumes "Load getenv = Inr c"
  shows "Second \<le> cf_PollInterval c \<and> int64_ok (cf_PollInterval c) \<and> cf_DataDir c \<noteq> '''' \<and>
    cf_NetworkSubnet c \<noteq> '''' \<and> cf_Network c \<noteq> '''' \<and> cf_TelemtImage c \<noteq> '''' \<and> cf_ListenAddr c \<noteq> '''' \<and>
    cf_ReservedPorts c = [80, 8443]"
  using Load_Inr [OF assms] by simp

lemma Load_usable_witness: "\<exists>c. Load (\<lambda>_. '''') = Inr c \<and> Second \<le> cf_PollInterval c"
  using Load_usable [OF Load_defaults] Load_defaults by blast

section \<open>The poller\<close>

text \<open>
  C31. What a sweep leaves in the cache. It holds exactly the proxies of the table. A proxy in backoff
  keeps its old entry and its count of skipped sweeps grows by one; every other proxy gets the snapshot
  of a poll made in this sweep with its row, its skips are back to zero, and its failures are counted on
  or forgotten with the outcome. The order in which the polls run does not matter.
\<close>

theorem sweep_result:
  assumes wf: "db_wf (w_db w)" and perm: "\<And>xs. mset (perm xs) = mset xs" and inv: "poller_inv po"
    and run: "PollOnce sv c perm po w = ((po', True), w')"
  shows "poller_inv po' \<and> dom (po_snapshots po') = dom (rows w) \<and>
    (\<forall>k pr. rows w k = Some pr \<longrightarrow>
       (if backing_off po k
        then poller_Get po' k = poller_Get po k \<and> count_of (po_failures po') k = count_of (po_failures po) k \<and>
          count_of (po_skips po') k = count_of (po_skips po) k + 1
        else \<exists>s u u'. poller_Get po' k = Some s \<and> pollProxy sv c pr u = (s, u') \<and> w_db u = w_db w \<and>
          w_clock w \<le> w_clock u \<and> count_of (po_skips po') k = 0 \<and>
          count_of (po_failures po') k = (if sn_OK s then 0 else count_of (po_failures po) k + 1)))"
proof -
  note e = PollOnce_effect [OF wf perm inv run]
  have "if backing_off po k
        then poller_Get po' k = poller_Get po k \<and> count_of (po_failures po') k = count_of (po_failures po) k \<and>
          count_of (po_skips po') k = count_of (po_skips po) k + 1
        else \<exists>s u u'. poller_Get po' k = Some s \<and> pollProxy sv c pr u = (s, u') \<and> w_db u = w_db w \<and>
          w_clock w \<le> w_clock u \<and> count_of (po_skips po') k = 0 \<and>
          count_of (po_failures po') k = (if sn_OK s then 0 else count_of (po_failures po) k + 1)"
    if row: "rows w k = Some pr" for k pr
  proof (cases "backing_off po k")
    case True
    then show ?thesis using e(3) [of k] row by (simp add: entry_after_def poller_Get_def)
  next
    case False
    then obtain s u u' where s: "po_snapshots po' k = Some s" "pollProxy sv c pr u = (s, u')" "w_db u = w_db w"
      "w_clock w \<le> w_clock u" using e(4) [OF row] by blast
    then have "count_of (po_skips po') k = 0"
      "count_of (po_failures po') k = (if sn_OK s then 0 else count_of (po_failures po) k + 1)"
      using e(3) [of k] row False by (auto simp: entry_after_def)
    then show ?thesis using False s unfolding poller_Get_def by auto
  qed
  with e(1,2) show ?thesis by blast
qed

lemma sweep_result_witness:
  "\<exists>po' w'. PollOnce demo_service Background id poller_New demo_panel = ((po', True), w') \<and>
     poller_Get po' ''u1'' \<noteq> None \<and> poller_Get po' ''u9'' = None"
proof -
  obtain po' w' where run: "PollOnce demo_service Background id poller_New demo_panel = ((po', True), w')"
    by (rule demo_sweep)
  have "dom (po_snapshots po') = dom (rows demo_panel)"
    using sweep_result [OF demo_wf(1) _ poller_inv_New run] by simp
  then have "''u1'' \<in> dom (po_snapshots po')" "''u9'' \<notin> dom (po_snapshots po')"
    using demo_rows(1,3) by (auto simp: dom_def)
  with run show ?thesis by (auto simp: poller_Get_def)
qed

text \<open>
  Backoff is bounded: however the proxies, the answers of telemt and the other operations change in
  between, at most five sweeps in a row leave out a proxy that stays in the table.
\<close>

theorem backoff_bounded:
  assumes "skipped_for sv pid n po po'" "poller_inv po"
  shows "n \<le> 5"
  using skipped_at_most [OF assms] by (simp add: backoffEvery_def)

lemma backoff_bounded_witness: "\<exists>po'. skipped_for demo_service ''u1'' 1 demo_failing po' \<and> (1::nat) \<le> 5"
proof -
  obtain po' w' where run: "PollOnce demo_service Background id demo_failing demo_panel = ((po', True), w')"
    by (rule demo_failing_sweep)
  have "rows demo_panel ''u1'' \<noteq> None" using demo_rows(1) by simp
  then have "skipped_for demo_service ''u1'' (Suc 0) demo_failing po'"
    by (rule skipped_for.sweep [OF skipped_for.none demo_wf(1) _ _ run demo_failing(2)]) simp
  with backoff_bounded [OF this demo_failing(1)] show ?thesis by auto
qed

text \<open>
  C32. No wake-up is lost and nothing panics: in every interleaving of subscriptions, cancellations (in
  their two steps), sweeps and receives, the sweep's notification goes through, a subscriber that has
  not yet received a token since the last sweep has one waiting, and a channel that was handed out only
  moves on from subscribed to removed to closed, so that what was cancelled is never woken again.
\<close>

theorem hub_no_lost_wakeup:
  assumes "hub_step\<^sup>*\<^sup>* hub_New h"
  shows "(\<exists>h'. notify h = Some h' \<and> (\<forall>ch \<in> set (hb_subs h). fst (receive ch h'))) \<and>
    (\<forall>ch \<in> set (hb_subs h). hb_seen h ch < hb_sweeps h \<longrightarrow> fst (receive ch h)) \<and>
    (\<forall>h' ch. hub_step\<^sup>*\<^sup>* h h' \<longrightarrow> ch < hb_next h \<longrightarrow> hb_phase h ch \<le> hb_phase h' ch \<and>
       (hb_phase h ch \<noteq> Subscribed \<longrightarrow> ch \<notin> set (hb_subs h')))"
proof -
  have inv: "hub_inv h" by (rule hub_reachable_inv [OF assms])
  have "\<exists>h'. notify h = Some h' \<and> (\<forall>ch \<in> set (hb_subs h). fst (receive ch h'))"
    using hub_no_panic [OF inv] by (auto simp: notify_def receive_def split: if_splits)
  moreover have "\<forall>ch \<in> set (hb_subs h). hb_seen h ch < hb_sweeps h \<longrightarrow> fst (receive ch h)"
    using inv by (auto simp: hub_inv_def receive_def)
  moreover have "hb_phase h ch \<le> hb_phase h' ch \<and> (hb_phase h ch \<noteq> Subscribed \<longrightarrow> ch \<notin> set (hb_subs h'))"
    if run: "hub_step\<^sup>*\<^sup>* h h'" and ch: "ch < hb_next h" for h' ch
  proof -
    have le: "hb_phase h ch \<le> hb_phase h' ch" using hub_forward [OF run ch] ..
    have "hub_inv h'" by (rule hub_reachable_inv [OF rtranclp_trans [OF assms run]])
    then have "ch \<in> set (hb_subs h') \<longleftrightarrow> hb_phase h' ch = Subscribed" by (simp add: hub_inv_def)
    then show ?thesis using le phase_order(1) by (auto intro: order_antisym)
  qed
  ultimately show ?thesis by blast
qed

lemma hub_no_lost_wakeup_witness:
  "\<exists>h. hub_step\<^sup>*\<^sup>* hub_New h \<and> hb_subs h = [0] \<and> fst (receive 0 h)"
proof -
  define h1 where "h1 = snd (Subscribe hub_New)"
  have h1: "hub_step hub_New h1" unfolding h1_def by (rule hub_step.subscribe) (rule prod.collapse [symmetric])
  obtain h2 where h2: "notify h1 = Some h2" using hub_no_lost_wakeup [of h1] h1 by blast
  then have "hub_step\<^sup>*\<^sup>* hub_New h2" using h1 by (meson hub_step.notified r_into_rtranclp rtranclp.rtrancl_into_rtrancl)
  moreover have "hb_subs h2 = [0]" "hb_sweeps h2 = 1" "hb_seen h2 0 = 0"
    using h2 by (auto simp: notify_def h1_def Subscribe_def hub_New_def split: if_splits)
  ultimately show ?thesis using hub_no_lost_wakeup [of h2] by (intro exI [of _ h2]) simp
qed

section \<open>Accounts\<close>

text \<open>
  C33. A stored hash is matched by its password, and by another only if the key derivation gives both the
  same key: reading the PHC string back loses nothing of salt, key and costs.
\<close>

theorem password_roundtrip:
  assumes run: "HashPassword cr pl plain w = (Inr h, w')" and rnd: "honest_random pl" and len: "key_length_ok cr"
  shows "VerifyPassword cr h plain \<and> (\<exists>salt. length salt = argonSaltLen \<and>
    (\<forall>other. VerifyPassword cr h other \<longleftrightarrow>
       cr_IDKey cr other salt argonTime argonMemory argonThreads argonKeyLen =
       cr_IDKey cr plain salt argonTime argonMemory argonThreads argonKeyLen))"
proof -
  obtain salt where s: "pl_rand pl (w_tick w) argonSaltLen = Inr salt"
    "h = phc salt (cr_IDKey cr plain salt argonTime argonMemory argonThreads argonKeyLen)"
    using run by (auto simp: HashPassword_def rand_Read_def split: sum.splits)
  moreover have "length salt = argonSaltLen" using s rnd unfolding honest_random_def by blast
  ultimately show ?thesis using len by (auto simp: VerifyPassword_phc key_length_ok_def)
qed

lemma password_roundtrip_witness:
  "\<exists>h w'. HashPassword demo_crypto demo_platform ''pa$$word'' demo_world = (Inr h, w') \<and>
     VerifyPassword demo_crypto h ''pa$$word''"
proof -
  obtain h where h: "HashPassword demo_crypto demo_platform ''pa$$word'' demo_world = (Inr h, tick demo_platform demo_world)"
    using demo_Hash by blast
  with password_roundtrip [OF h demo_random demo_key_length] show ?thesis by blast
qed

text \<open>
  A tampered hash cannot make the panel spend unbounded memory or time: whatever the stored string is,
  the key derivation is only ever asked for costs and lengths within the limits, so that two libraries that
  agree within the limits give the same verdict.
\<close>

theorem verify_in_bounds:
  assumes "agree_in_bounds cr cr'"
  shows "VerifyPassword cr encoded plain = VerifyPassword cr' encoded plain"
  by (rule VerifyPassword_bounded [OF assms])

lemma verify_in_bounds_witness:
  "VerifyPassword demo_crypto (phc (replicate 16 CHR ''A'') (replicate 32 CHR ''B'')) ''x'' =
   VerifyPassword (demo_crypto\<lparr>cr_IDKey := \<lambda>pw salt t m p n. if maxArgonMemoryKiB < m then [] else
     cr_IDKey demo_crypto pw salt t m p n\<rparr>) (phc (replicate 16 CHR ''A'') (replicate 32 CHR ''B'')) ''x''"
  by (rule verify_in_bounds) (simp add: agree_in_bounds_def)



text \<open>
  C35. The limiter holds its lock for the check and for the count, not from one to the other: there is a schedule in
  which any number of wrong guesses from one address, sent at once, are all compared with the stored hash and
  none is refused, where one after the other the sixth would be. Run alone, the program is \<open>Login\<close>.
\<close>

theorem concurrent_guesses:
  assumes free: "\<not> fst (limited ip (w_clock w) a)"
    and wrong: "\<forall>(u, x) \<in> set guesses. \<forall>r \<in> set (t_admins (w_db w)). \<not> VerifyPassword cr (a_password_hash r) x"
  shows "(\<exists>turns s. schedule turns ((a, w), map (\<lambda>(u, x). Login_prog cr pl pick c ip u x) guesses) =
      (s, replicate (length guesses) (Ret (Inl ErrBadCredentials_err)))) \<and>
    run (Login_prog cr pl pick c ip u x) (b, v) = Login cr pl pick c ip u x b v"
proof -
  have "\<exists>turns s. schedule turns ((a, w), map (\<lambda>(u, x). Login_prog cr pl pick c ip u x) guesses) =
      (s, map (\<lambda>_. Ret (Inl ErrBadCredentials_err)) guesses)"
    by (rule all_guesses_checked [OF free]) (use wrong in auto)
  then show ?thesis by (simp add: run_Login map_replicate_const)
qed

lemma concurrent_guesses_witness:
  "\<exists>turns s. schedule turns ((NewAuth, demo_site),
      map (\<lambda>(u, x). Login_prog demo_crypto demo_platform id Background ''10.0.0.9'' u x) (replicate 100 (''admin'', ''guess''))) =
    (s, replicate 100 (Ret (Inl ErrBadCredentials_err)))"
proof -
  have key: "cr_IDKey demo_crypto ''guess'' (replicate argonSaltLen CHR ''A'') argonTime argonMemory argonThreads argonKeyLen \<noteq>
      cr_IDKey demo_crypto ''correct horse'' (replicate argonSaltLen CHR ''A'') argonTime argonMemory argonThreads argonKeyLen"
    by (simp add: demo_crypto_def argonKeyLen_def argonSaltLen_def)
  have "\<not> VerifyPassword demo_crypto (a_password_hash demo_admin) ''guess''"
    using key demo_key_length by (simp add: demo_admin_def VerifyPassword_phc key_length_ok_def)
  then have wrong: "\<forall>(u, x) \<in> set (replicate 100 (''admin'', ''guess'')). \<forall>r \<in> set (t_admins (w_db demo_site)).
      \<not> VerifyPassword demo_crypto (a_password_hash r) x"
    by (simp add: demo_site_def)
  have "\<not> fst (limited ''10.0.0.9'' (w_clock demo_site) NewAuth)" by (simp add: limited_def NewAuth_def)
  from concurrent_guesses [OF this wrong, of demo_platform id Background, THEN conjunct1] show ?thesis
    unfolding length_replicate .
qed

text \<open>
  C36. A login that succeeds was not locked out, named an existing admin, and gave a password that its
  stored hash accepts. Until a second before its seven days are over the new token is answered with that
  admin; the failures of the address are forgotten, and of the token the database holds only the digest.
\<close>

theorem login_session:
  assumes wf: "db_wf (w_db w)" and run: "Login cr pl pick c ip user plain a w = (Inr (token, adm), a', w')"
    and y: "four_digit_year (w_clock u)" "four_digit_year (w_clock w)" "four_digit_year (w_clock w' + SessionTTL)"
    and later: "w_db u = w_db w'" "db_fault pl c' u = None" "w_clock u + Second \<le> w_clock w + SessionTTL"
  shows "fst (Session cr pl c' token u) = Inr adm \<and> \<not> fst (limited ip (w_clock w) a) \<and> map_of a' ip = None \<and>
    VerifyPassword cr (ad_PasswordHash adm) plain \<and> ad_Username adm = user \<and>
    (\<forall>s \<in> set (t_sessions (w_db w')). s \<in> set (t_sessions (w_db w)) \<or> s_token_hash s = hashToken cr token)"
proof -
  obtain r t where r: "r \<in> set (t_admins (w_db w))" "adm = scanAdmin r" "a_username r = user"
    and v: "VerifyPassword cr (ad_PasswordHash adm) plain" "\<not> fst (limited ip (w_clock w) a)" "map_of a' ip = None"
    and new: "CreateSession (pl_driver pl) None (hashToken cr token) (ad_ID adm) (t + SessionTTL) (w_db w) = (None, w_db w')"
    and t: "w_clock w \<le> t" "t \<le> w_clock w'"
    by (rule Login_ok [OF wf run])
  have "0 \<le> SessionTTL" by (simp add: SessionTTL_def Second_def)
  then have yt: "four_digit_year (t + SessionTTL)" using four_digit_between [OF y(2,3)] t by simp
  have "(w_clock u + nsec) div nsec \<le> (t + SessionTTL) div nsec"
    using later(3) t(1) by (intro zdiv_mono1) (simp_all add: Second_def)
  then have early: "w_clock u div nsec < (t + SessionTTL) div nsec" by simp
  have ids: "a_id r = ad_ID adm" by (simp add: r(2) scanAdmin_def)
  have "SessionAdmin None (w_clock u) (hashToken cr token) (w_db w') = Inr (scanAdmin r)"
    by (rule session_of_new [OF wf new r(1) ids y(1) yt early])
  then have "fst (Session cr pl c' token u) = Inr adm"
    using later by (simp add: Session_def st_SessionAdmin_def db_query_def r(2))
  moreover have "\<forall>s \<in> set (t_sessions (w_db w')). s \<in> set (t_sessions (w_db w)) \<or> s_token_hash s = hashToken cr token"
    using new by (auto simp: CreateSession_None_iff)
  moreover have "ad_Username adm = user" using r by (simp add: scanAdmin_def)
  ultimately show ?thesis using v by simp
qed

lemma login_session_witness:
  "\<exists>token adm a w'. Login demo_crypto demo_platform id Background ''10.0.0.9'' ''admin'' ''correct horse'' NewAuth demo_site =
     (Inr (token, adm), a, w') \<and> fst (Session demo_crypto demo_platform Background token w') = Inr adm"
proof -
  obtain token adm a w' where run: "Login demo_crypto demo_platform id Background ''10.0.0.9'' ''admin'' ''correct horse''
      NewAuth demo_site = (Inr (token, adm), a, w')" and t: "w_clock w' = 0"
    by (rule demo_Login)
  have y: "four_digit_year 0" "four_digit_year SessionTTL" by code_simp+
  have t0: "w_clock demo_site = 0" by (simp add: demo_site_def demo_panel_def demo_world_def)
  have "db_fault demo_platform Background w' = None" by (simp add: db_fault_def demo_platform_def)
  moreover have "Second \<le> SessionTTL" by (simp add: SessionTTL_def Second_def)
  ultimately show ?thesis
    using login_session [OF demo_site_wf run, of w' Background] y run by (auto simp: t t0)
qed

text \<open>
  The first start makes one account, \<open>admin\<close>, with a random password of sixteen characters that its
  hash accepts and that has to be changed; once an account exists a start changes nothing and shows no
  password.
\<close>

theorem bootstrap_once:
  assumes run: "Bootstrap cr pl c w = (Inr pw, w')" and rnd: "honest_random pl" and len: "key_length_ok cr"
  shows "(t_admins (w_db w) = [] \<longrightarrow> (\<exists>r. t_admins (w_db w') = [r] \<and> a_username r = ''admin'' \<and>
      a_must_change_password r = 1 \<and> VerifyPassword cr (a_password_hash r) pw \<and> length pw = 16)) \<and>
    (t_admins (w_db w) \<noteq> [] \<longrightarrow> pw = '''' \<and> w_db w' = w_db w)"
  using Bootstrap_first [OF run _ rnd len] Bootstrap_again [OF run] by blast

lemma bootstrap_once_witness:
  "\<exists>pw w'. Bootstrap demo_crypto demo_platform Background demo_world = (Inr pw, w') \<and> length pw = 16"
proof -
  obtain pw w' where run: "Bootstrap demo_crypto demo_platform Background demo_world = (Inr pw, w')"
    by (rule demo_Bootstrap)
  have "t_admins (w_db demo_world) = []" by (simp add: demo_world_def empty_db_def)
  with bootstrap_once [OF run demo_random demo_key_length] run show ?thesis by blast
qed

section \<open>The web server\<close>

text \<open>
  C38. The guards. Behind every path but the static files, the health check and login and logout, a
  request whose cookie holds no token of a stored session is sent to the login page and changes nothing;
  a request of an admin who still has the generated password is sent to the password page and changes
  nothing, whatever else it asks for. Hence no response at all comes with a changed proxy, file or
  container unless the session is valid and its password has been set.
\<close>

theorem web_guards:
  assumes run: "serve srv written es d rq s = (r, s')"
  shows "(\<forall>adm. session_admin d rq s = Some adm \<longrightarrow> (\<exists>c. rq_cookie rq = Some c \<and>
        (\<exists>sn \<in> set (t_sessions (w_db (si_world s))). s_token_hash sn = hashToken (wd_crypto d) c))) \<and>
    (\<forall>e. route (rq_method rq) (rq_path rq) = Inr e \<longrightarrow> \<not> public e \<longrightarrow>
      (session_admin d rq s = None \<longrightarrow> r = redirectLogin \<and> same_data s s') \<and>
      (\<forall>adm. session_admin d rq s = Some adm \<longrightarrow> ad_MustChangePassword adm \<longrightarrow> \<not> only_password e \<longrightarrow>
        r = http_Redirect ''/password'' \<and> same_data s s')) \<and>
    (w_fs (si_world s') \<noteq> w_fs (si_world s) \<or> w_rt (si_world s') \<noteq> w_rt (si_world s) \<or>
       t_proxies (w_db (si_world s')) \<noteq> t_proxies (w_db (si_world s)) \<longrightarrow>
     (\<exists>adm. session_admin d rq s = Some adm \<and> \<not> ad_MustChangePassword adm))"
proof -
  have "\<exists>c. rq_cookie rq = Some c \<and>
      (\<exists>sn \<in> set (t_sessions (w_db (si_world s))). s_token_hash sn = hashToken (wd_crypto d) c)"
    if "session_admin d rq s = Some adm" for adm
    using that SessionAdmin_Inr
    by (fastforce simp: session_admin_def Session_def st_SessionAdmin_def db_query_def split: option.splits sum.splits)
  moreover have "(session_admin d rq s = None \<longrightarrow> r = redirectLogin \<and> same_data s s') \<and>
      (\<forall>adm. session_admin d rq s = Some adm \<longrightarrow> ad_MustChangePassword adm \<longrightarrow> \<not> only_password e \<longrightarrow>
        r = http_Redirect ''/password'' \<and> same_data s s')"
    if e: "route (rq_method rq) (rq_path rq) = Inr e" "\<not> public e" for e
  proof -
    have run': "handler_of srv written es e d rq s = (r, s')" using run e(1) by (simp add: serve_def)
    then show ?thesis
      using no_session_redirect [OF e(2), of d rq s srv written es] must_change_redirect [OF e(2), of d rq s _ srv written es]
      by auto
  qed
  moreover have "\<exists>adm. session_admin d rq s = Some adm \<and> \<not> ad_MustChangePassword adm"
    if "w_fs (si_world s') \<noteq> w_fs (si_world s) \<or> w_rt (si_world s') \<noteq> w_rt (si_world s) \<or>
       t_proxies (w_db (si_world s')) \<noteq> t_proxies (w_db (si_world s))"
    by (rule serve_needs_session [OF run]) (use that in \<open>auto simp: accounts_only_def\<close>)
  ultimately show ?thesis by blast
qed

lemma web_guards_witness:
  "\<exists>s'. serve (\<lambda>_. redirectLogin) True [] demo_deps (demo_post [''proxies'', ''u1'', ''delete''] []) demo_state =
     (redirectLogin, s') \<and> same_data demo_state s'"
proof -
  let ?rq = "demo_post [''proxies'', ''u1'', ''delete''] []"
  obtain r s' where run: "serve (\<lambda>_. redirectLogin) True [] demo_deps ?rq demo_state = (r, s')" by fastforce
  have "route (rq_method ?rq) (rq_path ?rq) = Inr (PostDelete ''u1'')" by (simp add: demo_post_def) code_simp
  moreover have "session_admin demo_deps ?rq demo_state = None" by (simp add: session_admin_def demo_post_def)
  ultimately show ?thesis using web_guards [OF run] run by auto
qed

text \<open>
  C39. The limits form does not change what nobody touched: for a proxy made with the create form, or
  saved with the limits form before, submitting the detail page's form as it is shown parses to a patch that
  leaves the proxy as it is: the quota in gigabytes, the date without its time and the trimmed tag
  lose nothing.
\<close>

theorem untouched_form_saves_same:
  assumes "(parse_create f = Inr req \<and> p = new_proxy req sec tok pid) \<or>
    (parse_limits f = Inr lp \<and> p = apply_patch lp q)"
  shows "\<exists>lp'. parse_limits (untouched_form (detailPage adm p snap l ok qr logs h)) = Inr lp' \<and> apply_patch lp' p = p"
proof -
  have "form_made p" using assms parse_create_made parse_limits_made by auto
  then show ?thesis by (rule untouched_form_identity)
qed

lemma untouched_form_saves_same_witness:
  "\<exists>req lp. parse_create demo_form = Inr req \<and>
     parse_limits (untouched_form (detailPage (scanAdmin demo_admin) (new_proxy req ''s'' ''t'' ''u3'') zero_snapshot
       '''' False '''' '''' '''')) = Inr lp \<and>
     apply_patch lp (new_proxy req ''s'' ''t'' ''u3'') = new_proxy req ''s'' ''t'' ''u3''"
proof -
  obtain req where "parse_create demo_form = Inr req" by (rule demo_form_parses)
  with untouched_form_saves_same show ?thesis by blast
qed

text \<open>
  The row of a proxy never contradicts itself. With a public host its link is the link for that
  host; a link is offered exactly if there is a public host or telemt has reported one; whenever the
  offered link is a proxy link, the address next to it shows the very host in the link; and without a
  link the address is the placeholder.
\<close>

theorem row_address:
  assumes "good_proxy sv p"
  shows "(cf_PublicHost (sv_Cfg sv) \<noteq> '''' \<longrightarrow>
      FakeTLS (cf_PublicHost (sv_Cfg sv)) (px_Port p) (px_Secret p) (px_TLSDomain p) = Inr (ro_Link (build_row sv po p))) \<and>
    (ro_LinkOK (build_row sv po p) \<longleftrightarrow> cf_PublicHost (sv_Cfg sv) \<noteq> '''' \<or>
      (\<exists>snap l ls. poller_Get po (px_ID p) = Some snap \<and> sn_Links snap = l # ls \<and> l \<noteq> '''')) \<and>
    (\<forall>h port secret domain. FakeTLS h port secret domain = Inr (ro_Link (build_row sv po p)) \<longrightarrow>
      ro_LinkOK (build_row sv po p) \<and> ro_Host (build_row sv po p) = h) \<and>
    (\<not> ro_LinkOK (build_row sv po p) \<longrightarrow> ro_Link (build_row sv po p) = '''' \<and> ro_Host (build_row sv po p) = ''SERVER-IP'')"
proof -
  let ?r = "build_row sv po p"
  define snap where "snap = (case poller_All po (px_ID p) of Some sn \<Rightarrow> sn | None \<Rightarrow> zero_snapshot)"
  obtain l ok where lf: "linkFor sv p snap = (l, ok)" by fastforce
  have r: "ro_Link ?r = l" "ro_LinkOK ?r = ok" "ro_Host ?r = displayHost (sv_Cfg sv) l ok"
    by (simp_all add: build_row_def lf flip: snap_def)
  have ne: "service_Link sv p \<noteq> ''''"
    using assms by (simp add: service_Link_nonempty good_proxy_def port_allowed_def)
  have links: "(\<exists>l ls. sn_Links snap = l # ls \<and> l \<noteq> '''') \<longleftrightarrow>
      (\<exists>snap l ls. poller_Get po (px_ID p) = Some snap \<and> sn_Links snap = l # ls \<and> l \<noteq> '''')"
    by (auto simp: snap_def poller_All_def poller_Get_def zero_snapshot_def blank_snapshot_def split: option.splits)
  have ok: "ok \<longleftrightarrow> cf_PublicHost (sv_Cfg sv) \<noteq> '''' \<or> (\<exists>l ls. sn_Links snap = l # ls \<and> l \<noteq> '''')"
    "\<not> ok \<longrightarrow> l = ''''" "l \<noteq> '''' \<longrightarrow> ok"
  proof -
    have hd: "(\<exists>l ls. sn_Links snap = l # ls \<and> l \<noteq> '''') \<longleftrightarrow> sn_Links snap \<noteq> [] \<and> hd (sn_Links snap) \<noteq> ''''"
      by (cases "sn_Links snap") auto
    show "ok \<longleftrightarrow> cf_PublicHost (sv_Cfg sv) \<noteq> '''' \<or> (\<exists>l ls. sn_Links snap = l # ls \<and> l \<noteq> '''')"
      "\<not> ok \<longrightarrow> l = ''''" "l \<noteq> '''' \<longrightarrow> ok"
      using lf ne unfolding hd linkFor_eq by (simp_all split: if_splits)
  qed
  have "FakeTLS (cf_PublicHost (sv_Cfg sv)) (px_Port p) (px_Secret p) (px_TLSDomain p) = Inr l"
    if "cf_PublicHost (sv_Cfg sv) \<noteq> ''''"
    using lf ne that by (auto simp: linkFor_eq service_Link_def split: sum.splits)
  moreover have "ok \<and> displayHost (sv_Cfg sv) l ok = h" if "FakeTLS h port secret domain = Inr l" for h port secret domain
  proof -
    have "l \<noteq> ''''" using that by (auto simp: FakeTLS_def build_Inr_iff)
    then show ?thesis using ok(3) displayHost_link [OF that] by simp
  qed
  moreover have "\<not> ok \<longrightarrow> displayHost (sv_Cfg sv) l ok = ''SERVER-IP''"
    using ok(1) by (auto simp: displayHost_def server_host_def)
  ultimately show ?thesis unfolding r links [symmetric] using ok(1,2) by blast
qed

lemma row_address_witness:
  "\<not> ro_LinkOK (build_row demo_service poller_New (demo_proxy ''u1'' 443 ''ctr1''))"
proof -
  have "good_proxy demo_service (demo_proxy ''u1'' 443 ''ctr1'')"
    using demo_panel_inv demo_rows(1) by (simp add: panel_inv_def)
  from row_address [OF this, of poller_New] show ?thesis
    by (simp add: demo_config_def poller_Get_def poller_New_def)
qed

text \<open>
  Whatever wakes an event stream, and whenever its connection breaks, the browser reads nothing but
  whole renderings of the rows, each as one event: keepalives and line breaks in the HTML never cut
  or mix them. (The renderings must not hold a carriage return, which would end a line too.)
\<close>

theorem event_stream_whole:
  assumes run: "getEvents written es d rq adm s = (r, s')" and lines: "renders_lines d"
    and body: "rs_body r = EventStream out"
  shows "\<forall>(ev, html) \<in> set (sse_read out). ev = ''rows'' \<and> (\<exists>pg. wd_rows d pg = Inr html)"
  using getEvents_stream [OF run lines body] by (simp add: rows_events_def)

lemma event_stream_whole_witness:
  "\<exists>r s' out. getEvents True demo_wakeups demo_deps (demo_post [] []) (scanAdmin demo_admin) demo_state = (r, s') \<and>
     rs_body r = EventStream out \<and> (\<forall>(ev, html) \<in> set (sse_read out). html = ''<p>'' @ [c_nl] @ ''</p>'') \<and>
     sse_read out \<noteq> []"
proof -
  obtain r s' out where run: "getEvents True demo_wakeups demo_deps (demo_post [] []) (scanAdmin demo_admin) demo_state = (r, s')"
    and body: "rs_body r = EventStream out"
    and out: "out = sseFrame ''rows'' (''<p>'' @ [c_nl] @ ''</p>'') @ keepalive @ sseFrame ''rows'' (''<p>'' @ [c_nl] @ ''</p>'')"
    by (rule demo_stream)
  have "sse_read out \<noteq> []" unfolding out by (subst sse_read_frame) simp_all
  moreover have "\<forall>(ev, html) \<in> set (sse_read out). html = ''<p>'' @ [c_nl] @ ''</p>''"
    using event_stream_whole [OF run demo_renders body] by auto
  ultimately show ?thesis using run body by blast
qed

text \<open>
  C40. The site as a whole. Let HTTP requests, event streams with their subscriptions, sweeps of the poller,
  background work of the panel and the passing of time interleave in any order, with any failures: the tables
  stay well formed and their proxies sound, the poller's cache stays consistent and its backoff bounded, no
  notification can hit a closed channel, and the limiter's table stays within its cap.
\<close>

theorem site_invariant:
  assumes contract: "container_runtime (sv_Runtime (wd_Proxy d)) ctrs good"
    and rnd: "honest_random (wd_pl d)" and inv: "site_inv d good s" and reach: "(site_step d)\<^sup>*\<^sup>* s s'"
  shows "panel_inv (wd_Proxy d) good (si_world s') \<and> poller_inv (si_poller s') \<and> notify (si_hub s') \<noteq> None \<and>
    length (si_attempts s') \<le> maxTrackedIPs"
proof -
  have "site_inv d good s'" by (rule container_runtime.site_reachable_inv [OF contract refl rnd inv reach])
  then show ?thesis using hub_no_panic by (simp add: site_inv_def attempts_inv_def)
qed

lemma site_invariant_witness:
  "\<exists>s'. (site_step demo_deps)\<^sup>*\<^sup>* demo_state s' \<and> panel_inv demo_service fake_reliable (si_world s')"
proof -
  let ?rq = "demo_post [''login''] [(''username'', ''admin''), (''password'', ''guess'')]"
  obtain r s' where run: "serve (\<lambda>_. redirectLogin) True [] demo_deps ?rq demo_state = (r, s')" by fastforce
  have "route (rq_method ?rq) (rq_path ?rq) = Inr PostLogin" by (simp add: demo_post_def) code_simp
  then have "site_step demo_deps demo_state s'" using site_step.request [OF _ run] by simp
  then have reach: "(site_step demo_deps)\<^sup>*\<^sup>* demo_state s'" by simp
  from site_invariant [where d = demo_deps, simplified, OF reliable.container_runtime_axioms demo_random demo_state_inv reach]
    reach show ?thesis by blast
qed


section \<open>The Docker client\<close>

text \<open>
  The Docker client keeps the contract of the runtime, on which all of the above about the proxy
  service rests, for every daemon with the documented behaviour, used as the panel uses it: with full ids
  only, whose form nothing else has that names a container. Created containers are new and carry the labels
  of the spec, a removal removes the container asked for and no other, \<open>ErrNoSuchContainer\<close> is reported
  only for a container that is not there, listings contain only containers with the labels asked for, and no
  other call changes what exists. On full ids the client so used is the client itself, and its listings are
  the client's.
\<close>

theorem docker_refines_runtime:
  assumes daemon: "docker_daemon sdk ctrs resolve good"
    and ids: "\<And>s i. good s \<Longrightarrow> ctrs s i \<noteq> None \<Longrightarrow> full i"
    and only: "\<And>s i j. good s \<Longrightarrow> full i \<Longrightarrow> resolve s i = Some j \<Longrightarrow> j = i"
  shows "container_runtime (docker_runtime (in_full full sdk)) ctrs good \<and>
    (\<forall>c i s. full i \<longrightarrow> dockerRuntime_Remove (in_full full sdk) c i s = dockerRuntime_Remove sdk c i s \<and>
       dockerRuntime_Inspect (in_full full sdk) c i s = dockerRuntime_Inspect sdk c i s) \<and>
    (\<forall>c ls s. good s \<longrightarrow> dockerRuntime_List (in_full full sdk) c ls s = dockerRuntime_List sdk c ls s)"
proof -
  note asked = docker_daemon.asked_in_full [OF daemon ids only]
  have "container_runtime (docker_runtime (in_full full sdk)) ctrs good"
    by (rule full_references.refines) (rule asked)
  then show ?thesis using docker_daemon.List_in_full [OF daemon] ids by (auto simp: in_full_same)
qed

lemma docker_refines_runtime_witness:
  "container_runtime (docker_runtime fake_sdk) fake_ctrs fake_inv"
  using docker_refines_runtime [OF fake_daemon.docker_daemon_axioms, of "\<lambda>_. True"] fake_daemon.full_only
  by simp



text \<open>
  C24. A container finds its configuration: the command it runs names, under the mounted directory, the
  file that the panel writes for the proxy; the host's side of the mount is the proxy's directory on the
  host, which is the panel's own directory where the two agree; and the one port that is published, on
  the host and in the container, is the port the rendered configuration makes telemt listen on.
\<close>

theorem container_finds_config:
  assumes "Render (config_spec sv p) = Inr out" "\<And>x. px_ExpirationRFC3339 p = Some x \<Longrightarrow> c_nl \<notin> set x"
  shows "\<exists>m f b. hc_Mounts (create_host_config (container_spec_of sv p)) = [m] \<and>
    cc_Cmd (create_config (container_spec_of sv p)) = [mo_Target m @ ''/'' @ f] \<and>
    configPath sv (px_ID p) = filepath_Join [configDir sv (px_ID p), f] \<and>
    mo_Source m = hostConfigDir sv (px_ID p) \<and>
    (sv_HostDataDir sv = cf_DataDir (sv_Cfg sv) \<longrightarrow> mo_Source m = configDir sv (px_ID p)) \<and>
    hc_PortBindings (create_host_config (container_spec_of sv p)) = [(pb_HostPort b @ ''/tcp'', [b])] \<and>
    cc_ExposedPorts (create_config (container_spec_of sv p)) = [pb_HostPort b @ ''/tcp''] \<and>
    (''server'', ''port'', pb_HostPort b) \<in> set (toml_entries out) \<and>
    (''server.listeners'', ''port'', pb_HostPort b) \<in> set (toml_entries out)"
proof -
  let ?s = "config_spec sv p"
  have "bare_key (sp_Username ?s)" by (simp add: config_spec_def Username_def bare_key_def)
  moreover have "sp_ExpirationRFC3339 ?s = px_ExpirationRFC3339 p" by (simp add: config_spec_def)
  ultimately have e: "toml_entries out = config_entries ?s" using toml_entries_Render [OF assms(1)] assms(2) by simp
  show ?thesis
    by (rule exI [of _ "hd (hc_Mounts (create_host_config (container_spec_of sv p)))"], rule exI [of _ "''config.toml''"],
        rule exI [of _ "\<lparr>pb_HostIP = ''0.0.0.0'', pb_HostPort = Itoa (px_Port p)\<rparr>"])
      (simp add: e create_host_config_def create_config_def nat_port_def container_spec_of_def config_entries_def
        configDir_def hostConfigDir_def, simp add: config_spec_def)
qed

lemma container_finds_config_witness:
  "\<exists>out b. Render (config_spec demo_service (demo_proxy ''u1'' 443 ''ctr1'')) = Inr out \<and>
     hc_PortBindings (create_host_config (container_spec_of demo_service (demo_proxy ''u1'' 443 ''ctr1''))) =
       [(pb_HostPort b @ ''/tcp'', [b])] \<and>
     (''server'', ''port'', pb_HostPort b) \<in> set (toml_entries out)"
proof -
  let ?p = "demo_proxy ''u1'' 443 ''ctr1''"
  have "validate (config_spec demo_service ?p) = None" by (simp only: validate_None_iff demo_valid(1))
  then obtain out where out: "Render (config_spec demo_service ?p) = Inr out" by (simp add: Render_eq)
  have "px_ExpirationRFC3339 ?p = None" by (simp add: demo_proxy_def)
  then obtain m f b where
    "hc_PortBindings (create_host_config (container_spec_of demo_service ?p)) = [(pb_HostPort b @ ''/tcp'', [b])] \<and>
     (''server'', ''port'', pb_HostPort b) \<in> set (toml_entries out)"
    using container_finds_config [OF out] by auto
  with out show ?thesis by blast
qed

text \<open>
  C37. Telemt's control API listens on port 9091 of every container. That port of the container is
  published on the host exactly for a proxy whose own port is 9091; and with the configuration that the
  panel loads, 9091 is a port that a proxy may be given.
\<close>

theorem control_port_published_iff:
  assumes "Render (config_spec sv p) = Inr out" "\<And>x. px_ExpirationRFC3339 p = Some x \<Longrightarrow> c_nl \<notin> set x"
    and "Load getenv = Inr (sv_Cfg sv)"
  shows "(''server.api'', ''listen'', quoted ''0.0.0.0:9091'') \<in> set (toml_entries out) \<and>
    (Itoa 9091 @ ''/tcp'' \<in> fst ` set (hc_PortBindings (create_host_config (container_spec_of sv p))) \<longleftrightarrow>
       px_Port p = 9091) \<and>
    port_allowed sv 9091"
proof -
  let ?s = "config_spec sv p"
  have "bare_key (sp_Username ?s)" by (simp add: config_spec_def Username_def bare_key_def)
  moreover have "sp_ExpirationRFC3339 ?s = px_ExpirationRFC3339 p" by (simp add: config_spec_def)
  ultimately have "toml_entries out = config_entries ?s" using toml_entries_Render [OF assms(1)] assms(2) by simp
  moreover have "port_allowed sv 9091" using assms(3) by (simp add: port_allowed_def Load_Inr(7))
  ultimately show ?thesis
    unfolding published_control_port by (simp add: config_entries_def container_spec_of_def)
qed

lemma control_port_published_iff_witness:
  "\<exists>cfg. Load (\<lambda>_. '''') = Inr cfg \<and>
     Itoa 9091 @ ''/tcp'' \<in> fst ` set (hc_PortBindings (create_host_config
       (container_spec_of (boot_service demo_machine fake_runtime cfg) (demo_proxy ''u1'' 9091 ''ctr1''))))"
proof -
  let ?p = "demo_proxy ''u1'' 9091 ''ctr1''"
  obtain cfg where cfg: "Load (\<lambda>_. '''') = Inr cfg" "cf_PublicHost cfg = ''''" "cf_NetworkSubnet cfg = ''172.28.0.0/16''"
    using Load_defaults by fastforce
  let ?sv = "boot_service demo_machine fake_runtime cfg"
  have "valid_spec (config_spec ?sv ?p)"
    by (simp add: valid_spec_def config_spec_def demo_proxy_def Username_def cfg strings_ContainsAny_def
        is_hex_def hex_val_def list_all_iff list_ex_iff)
  then have "validate (config_spec ?sv ?p) = None" by (simp only: validate_None_iff)
  then obtain out where out: "Render (config_spec ?sv ?p) = Inr out" by (simp add: Render_eq)
  have "px_ExpirationRFC3339 ?p = Some x \<Longrightarrow> c_nl \<notin> set x" for x by (simp add: demo_proxy_def)
  moreover have "Load (\<lambda>_. '''') = Inr (sv_Cfg ?sv)" using cfg(1) by simp
  ultimately have "Itoa 9091 @ ''/tcp'' \<in> fst ` set (hc_PortBindings (create_host_config (container_spec_of ?sv ?p))) \<longleftrightarrow>
      px_Port ?p = 9091"
    using control_port_published_iff [OF out, of "\<lambda>_. ''''"] by blast
  then show ?thesis using cfg(1) by (auto simp: demo_proxy_def)
qed

section \<open>The control API\<close>

text \<open>
  C23. What an exchange with telemt's control API yields, for every reply. A body that is no JSON text, or
  whose value does not have the types of the envelope, is an \<open>APIError\<close> with the code
  \<open>invalid_response\<close>; an envelope that is not ok, or any envelope under a status of 400 and above, is an
  \<open>APIError\<close> with the status and, where telemt gave them, its code and message; only otherwise the data
  is returned.
\<close>

theorem api_outcome:
  assumes "url_Parse (cl_baseURL cl @ path) \<noteq> None"
    and "tr_Do tr c n (request_of cl meth path body) = Inr resp" "read_body resp = Inr raw"
  shows "case read_envelope raw of
      None \<Rightarrow> (\<forall>v. json_parse raw = Some v \<longrightarrow> \<not> conforms v envelope_type) \<and>
        client_do tr cl c n meth path body = Inl (Refused (not_an_envelope (hs_StatusCode resp)))
    | Some reply \<Rightarrow> (\<exists>v. json_parse raw = Some v \<and> conforms v envelope_type) \<and>
        (if en_OK reply \<and> hs_StatusCode resp < 400 then client_do tr cl c n meth path body = Inr (en_Data reply)
         else \<exists>e. client_do tr cl c n meth path body = Inl (Refused e) \<and> ae_Status e = hs_StatusCode resp \<and>
           (case en_Error reply of None \<Rightarrow> ae_Code e = '''' | Some (code, message) \<Rightarrow>
              ae_Code e = code \<and> ae_Message e = message))"
proof (cases "read_envelope raw")
  case None
  then show ?thesis using assms read_envelope_None [of raw] by (simp add: client_do_def)
next
  case (Some reply)
  then have "\<exists>v. json_parse raw = Some v \<and> conforms v envelope_type" using read_envelope_None [of raw] by auto
  then show ?thesis using assms Some
    by (auto simp: client_do_def refusal_def split: option.splits)
qed

lemma api_outcome_witness:
  "client_do demo_transport demo_api False 0 ''GET'' ''/v1/users'' None = Inr (Some demo_users)"
proof -
  obtain reply where reply: "read_envelope (hs_Body demo_reply) = Some reply" "en_OK reply" "en_Data reply = Some demo_users"
    using demo_envelope by blast
  have "url_Parse (cl_baseURL demo_api @ ''/v1/users'') \<noteq> None" unfolding demo_api_url by (rule demo_url)
  moreover have "tr_Do demo_transport False 0 (request_of demo_api ''GET'' ''/v1/users'' None) = Inr demo_reply"
    by (simp add: demo_transport_def)
  moreover have "hs_StatusCode demo_reply < 400" by (simp add: demo_reply_def)
  ultimately show ?thesis using api_outcome [OF _ _ demo_read_body] reply by fastforce
qed

text \<open>
  C28. The users in a reply have the types the panel computes with. The data decodes exactly if it conforms
  to the type of a list of users, and then every number fits its Go type: the counts and limits are 64-bit
  integers, so nothing the poller stores or the detail page shows can have wrapped around.
\<close>

theorem users_typed:
  assumes "client_do tr cl c n ''GET'' ''/v1/users'' None = Inr raw"
  shows "((\<exists>us. client_Users tr cl c n = Inr us) \<longleftrightarrow> (\<exists>v. raw = Some v \<and> conforms v (TySlice user_type))) \<and>
    (\<forall>us. client_Users tr cl c n = Inr us \<longrightarrow> (\<forall>u \<in> set us. user_in_range u))"
  using client_Users_Inr [OF assms] client_Users_typed by blast

lemma users_typed_witness:
  "\<exists>us. client_Users demo_transport demo_api False 0 = Inr us \<and> (\<forall>u \<in> set us. user_in_range u)"
  using users_typed [OF demo_do [of False 0]] demo_users_conform by blast

text \<open>
  C30. What a JSON reader sees of the body of a patch: an object with exactly the fields that are set, null
  where the field carries no value, and the field's value otherwise.
\<close>

theorem patch_reads_back:
  "\<exists>ms. json_parse (MarshalJSON p) = Some (VObj ms) \<and> distinct (map fst ms) \<and> fst ` set ms \<subseteq> set patch_keys \<and>
     map_of ms ''data_quota_bytes'' = field_value (\<lambda>w. VNum (Itoa (uint w))) (pu_DataQuotaBytes p) \<and>
     map_of ms ''enabled'' = field_value VBool (pu_Enabled p) \<and>
     map_of ms ''expiration_rfc3339'' = field_value (\<lambda>s. VStr (to_valid s)) (pu_ExpirationRFC3339 p) \<and>
     map_of ms ''max_tcp_conns'' = field_value (\<lambda>i. VNum (Itoa i)) (pu_MaxTCPConns p) \<and>
     map_of ms ''max_unique_ips'' = field_value (\<lambda>i. VNum (Itoa i)) (pu_MaxUniqueIPs p) \<and>
     map_of ms ''user_ad_tag'' = field_value (\<lambda>s. VStr (to_valid s)) (pu_UserAdTag p)"
  using patch_members_read [of p] MarshalJSON_reads_back [of p] by blast

section \<open>The program\<close>



text \<open>
  C22. How the process ends. The store is closed only after the listener, on a shutdown; status 0 follows a signal
  and closes everything, status 1 is the failure of the server and skips the deferred calls. But nobody waits
  for \<open>Shutdown\<close>: from every state in which the panel serves, a signal can end the process at once with all
  requests still in flight, ten seconds before the grace period is over.
\<close>

theorem process_end:
  assumes "process_step\<^sup>*\<^sup>* (process_start t) p"
  shows "(\<not> pr_store_open p \<longrightarrow> \<not> pr_listening p \<and> pr_ctx_done p) \<and>
    (pr_main p = Exited n \<longrightarrow> \<not> pr_listening p \<and> (n = 0 \<and> \<not> pr_store_open p \<or> n = 1 \<and> pr_store_open p)) \<and>
    (pr_main p = InServe \<and> pr_listening p \<longrightarrow> (\<exists>q. process_step\<^sup>*\<^sup>* p q \<and> pr_main q = Exited 0 \<and>
       pr_requests q = pr_requests p \<and> pr_now q = pr_now p \<and> pr_shutdown q = Draining (pr_now q + grace)))"
proof -
  have inv: "process_inv p" by (rule process_reachable_inv [OF assms])
  then have "pr_main p = InServe \<Longrightarrow> pr_listening p \<Longrightarrow> pr_shutdown p = Waiting" by (simp add: process_inv_def)
  moreover have "\<not> pr_store_open p \<longrightarrow> \<not> pr_listening p \<and> pr_ctx_done p"
    using inv by (auto simp: process_inv_def split: main_state.splits)
  moreover have "pr_main p = Exited n \<longrightarrow> \<not> pr_listening p \<and> (n = 0 \<and> \<not> pr_store_open p \<or> n = 1 \<and> pr_store_open p)"
    using inv by (auto simp: process_inv_def)
  ultimately show ?thesis using signal_cuts [of p] by blast
qed

lemma process_end_witness:
  "\<exists>q. process_step\<^sup>*\<^sup>* (process_start 0) q \<and> pr_main q = Exited 0 \<and> pr_requests q = 1 \<and> pr_now q = 0"
proof -
  have "process_step\<^sup>*\<^sup>* (process_start 0) ((process_start 0)\<lparr>pr_requests := 1\<rparr>)"
    using process_step.arrive [of "process_start 0"] by (simp add: exited_def process_start_def r_into_rtranclp)
  from process_end [OF this] this show ?thesis
    by (auto simp: process_start_def intro: rtranclp_trans)
qed

end
